(* ===== verification/Prelude.thy ===== *)
theory Prelude
  imports Main "HOL-Library.AList" "HOL-Library.List_Lexorder" "HOL-Library.Char_ord"
    "HOL-Library.Sublist" "HOL-Library.Multiset" "HOL-Library.Code_Target_Nat"
begin

text \<open>
  The shared prelude: error values, the sequencing of checks, Go maps, and the lemma
  collections of the development.

  \<^item> A Go \<open>error\<close> built by \<open>fmt.Errorf(format, args...)\<close> is the value \<open>Msg format args\<close>:
    the format (cut after its first clause where the source carries a paragraph of advice)
    with every argument that the source interpolates, in order. A context string built by
    \<open>fmt.Sprintf\<close> and only ever interpolated is a \<open>Msg\<close> too, so the quoting verb \<open>%q\<close> is
    never evaluated.
  \<^item> A function with result type \<open>error\<close> returns \<open>msg option\<close>: \<open>None\<close> is Go's \<open>nil\<close>.
  \<^item> A Go \<open>map[string]T\<close> is an association list without duplicate keys (\<open>gomap_ok\<close>); the
    order of the list stands for the order in which a \<open>range\<close> loop happens to visit the map,
    which Go leaves open. A nil map is the empty list: reads cannot tell the two apart.
\<close>

named_theorems check_simps \<open>when a sequence of checks accepts\<close>
named_theorems go_simps \<open>characterisations of the Go string operations\<close>

section \<open>Errors\<close>

datatype msg = Msg string "marg list"
  and marg = Str string | Num nat | Strs "string list" | Ctx msg

fun first_error :: "'e option list \<Rightarrow> 'e option" where
  "first_error [] = None"
| "first_error (c # cs) = (case c of None \<Rightarrow> first_error cs | Some e \<Rightarrow> Some e)"

definition check_all :: "('a \<Rightarrow> 'e option) \<Rightarrow> 'a list \<Rightarrow> 'e option" where
  "check_all f xs = first_error (map f xs)"

definition refuse :: "bool \<Rightarrow> 'e \<Rightarrow> 'e option" where
  "refuse b e = (if b then Some e else None)"

lemma check_seq_None [simp]:
  "(case c of None \<Rightarrow> d | Some e \<Rightarrow> Some e) = None \<longleftrightarrow> c = None \<and> d = None"
  by (auto split: option.splits)

lemma first_error_None [check_simps]:
  "first_error cs = None \<longleftrightarrow> (\<forall>c \<in> set cs. c = None)"
  by (induction cs) (auto split: option.splits)

lemma first_error_Some_in: "first_error cs = Some e \<Longrightarrow> Some e \<in> set cs"
  by (induction cs) (auto split: option.splits)

lemma check_all_None [check_simps]: "check_all f xs = None \<longleftrightarrow> (\<forall>x \<in> set xs. f x = None)"
  by (auto simp: check_all_def first_error_None)

lemma check_all_simps [simp]:
  "check_all f [] = None"
  "check_all f (x # xs) = (case f x of None \<Rightarrow> check_all f xs | Some e \<Rightarrow> Some e)"
  by (simp_all add: check_all_def split: option.splits)

lemma refuse_None [check_simps]: "refuse b e = None \<longleftrightarrow> \<not> b"
  by (simp add: refuse_def)

lemma refuse_simps [simp]: "refuse True e = Some e" "refuse False e = None"
  by (simp_all add: refuse_def)

lemma check_all_cong [fundef_cong]:
  "xs = ys \<Longrightarrow> (\<And>x. x \<in> set ys \<Longrightarrow> f x = g x) \<Longrightarrow> check_all f xs = check_all g ys"
  by (auto simp: check_all_def intro: arg_cong [where f = first_error])

lemma check_all_Some_in:
  "check_all f xs = Some e \<Longrightarrow> \<exists>x \<in> set xs. f x = Some e"
  by (induction xs) (auto split: option.splits)

lemma enumerate_mem: "(i, e) \<in> set (List.enumerate n xs) \<Longrightarrow> e \<in> set xs"
  by (induction xs arbitrary: n) auto

lemma enumerate_all: "(\<forall>x \<in> set (List.enumerate n xs). P (snd x)) \<longleftrightarrow> (\<forall>x \<in> set xs. P x)"
  by (induction xs arbitrary: n) auto

text \<open>Sorting by a key commutes with a map that keeps the key.\<close>

lemma map_insort_key: "(\<And>x. k (f x) = j x) \<Longrightarrow> map f (insort_key j x xs) = insort_key k (f x) (map f xs)"
  by (induction xs) simp_all

lemma map_sort_key_any: "(\<And>x. k (f x) = j x) \<Longrightarrow> map f (sort_key j xs) = sort_key k (map f xs)"
  by (induction xs) (simp_all add: map_insort_key [where k = k and j = j])

lemmas map_sort_key = map_sort_key_any [where j = k and k = k for k]

lemma sort_key_idem: "sort_key k (sort_key k xs) = sort_key k xs"
  by (simp add: sort_key_id_if_sorted)

section \<open>Go maps\<close>

type_synonym 'a gomap = "(string \<times> 'a) list"

definition gomap_ok :: "'a gomap \<Rightarrow> bool" where
  "gomap_ok m \<longleftrightarrow> distinct (map fst m)"

definition sorted_keys :: "'a gomap \<Rightarrow> string list" where
  "sorted_keys m = sort (map fst m)"

definition check_map :: "(string \<Rightarrow> 'a \<Rightarrow> 'e option) \<Rightarrow> 'a gomap \<Rightarrow> 'e option" where
  \<comment> \<open>the loop over a map in sorted key order that every validator writes\<close>
  "check_map f m = check_all (\<lambda>k. case map_of m k of None \<Rightarrow> None | Some v \<Rightarrow> f k v) (sorted_keys m)"

lemma set_sorted_keys [simp]: "set (sorted_keys m) = fst ` set m"
  by (simp add: sorted_keys_def)

lemma sorted_sorted_keys [simp]: "sorted (sorted_keys m)"
  by (simp add: sorted_keys_def)

lemma distinct_sorted_keys [simp]: "gomap_ok m \<Longrightarrow> distinct (sorted_keys m)"
  by (simp add: sorted_keys_def gomap_ok_def)

lemma map_of_eq_dom: "map_of m = map_of m' \<Longrightarrow> fst ` set m = fst ` set m'"
  by (metis dom_map_of_conv_image_fst)

lemma sorted_keys_cong:
  assumes "gomap_ok m" "gomap_ok m'" "map_of m = map_of m'"
  shows "sorted_keys m = sorted_keys m'"
proof -
  have "set (sorted_keys m) = set (sorted_keys m')"
    using map_of_eq_dom [OF assms(3)] by simp
  then show ?thesis
    using assms(1,2) by (intro sorted_distinct_set_unique) simp_all
qed

lemma check_map_None [check_simps]:
  "check_map f m = None \<longleftrightarrow> (\<forall>k v. map_of m k = Some v \<longrightarrow> f k v = None)"
proof -
  have dom: "k \<in> fst ` set m" if "map_of m k = Some v" for k v
    using map_of_SomeD [OF that] by force
  let ?g = "\<lambda>k. case map_of m k of None \<Rightarrow> None | Some v \<Rightarrow> f k v"
  have "(\<forall>k \<in> fst ` set m. ?g k = None) \<longleftrightarrow> (\<forall>k. ?g k = None)"
    using dom by (metis option.case_eq_if option.collapse)
  then show ?thesis
    unfolding check_map_def check_all_None set_sorted_keys
    by (auto split: option.splits)
qed

text \<open>A loop in sorted key order does not depend on the order a map is ranged over.\<close>

lemma check_map_cong:
  assumes "gomap_ok m" "gomap_ok m'" "map_of m = map_of m'"
  shows "check_map f m = check_map f m'"
  using assms by (simp add: check_map_def sorted_keys_cong [OF assms])

lemma check_map_fundef_cong [fundef_cong]:
  assumes "m = m'" "\<And>k v. (k, v) \<in> set m' \<Longrightarrow> f k v = g k v"
  shows "check_map f m = check_map g m'"
  unfolding check_map_def assms(1)
  by (intro check_all_cong refl) (auto split: option.splits dest: map_of_SomeD intro: assms(2))

lemma gomap_ok_update [simp]: "gomap_ok m \<Longrightarrow> gomap_ok (AList.update k v m)"
  by (simp add: gomap_ok_def distinct_update)

lemma gomap_ok_delete [simp]: "gomap_ok m \<Longrightarrow> gomap_ok (AList.delete k m)"
  by (simp add: gomap_ok_def distinct_delete)

section \<open>Printing numbers\<close>

fun itoa :: "nat \<Rightarrow> string" where
  "itoa n = (if n < 10 then [char_of (48 + n)] else itoa (n div 10) @ [char_of (48 + n mod 10)])"

declare itoa.simps [simp del]

lemma itoa_nonempty [simp]: "itoa n \<noteq> []"
  by (subst itoa.simps) simp

end
