(* ===== verification/GoString.thy ===== *)
theory GoString
  imports Prelude
begin

text \<open>
  The parts of Go's \<open>strings\<close>, \<open>unicode/utf8\<close>, \<open>unicode\<close> and \<open>strconv\<close> the program uses.
  A Go string is its bytes (\<open>string\<close>, a list of 8-bit characters), so \<open>len\<close> is \<open>length\<close>, a
  \<open>range\<close> loop decodes UTF-8 with a width-one U+FFFD for an invalid byte, and \<open>sort.Strings\<close>
  is the bytewise lexicographic order. \<open>to_lower\<close> lowers the ASCII letters and the two
  non-ASCII code points whose lower case is ASCII (U+0130, U+212A); other non-ASCII letters
  stay as they are, which the keyword look-ups and the label sanitiser cannot observe.
\<close>

abbreviation code_of :: "char \<Rightarrow> nat" where "code_of \<equiv> of_char"
abbreviation "dquote \<equiv> CHR 0x22"
abbreviation "bslash \<equiv> CHR 0x5C"

section \<open>UTF-8\<close>

definition is_cont :: "nat \<Rightarrow> bool" where
  "is_cont b \<longleftrightarrow> 0x80 \<le> b \<and> b \<le> 0xBF"

definition second_ok3 :: "nat \<Rightarrow> nat \<Rightarrow> bool" where
  "second_ok3 b0 b1 \<longleftrightarrow>
     (if b0 = 0xE0 then 0xA0 \<le> b1 \<and> b1 \<le> 0xBF
      else if b0 = 0xED then 0x80 \<le> b1 \<and> b1 \<le> 0x9F else is_cont b1)"

definition second_ok4 :: "nat \<Rightarrow> nat \<Rightarrow> bool" where
  "second_ok4 b0 b1 \<longleftrightarrow>
     (if b0 = 0xF0 then 0x90 \<le> b1 \<and> b1 \<le> 0xBF
      else if b0 = 0xF4 then 0x80 \<le> b1 \<and> b1 \<le> 0x8F else is_cont b1)"

definition rune_error :: nat where "rune_error = 0xFFFD"

definition dec2 :: "nat \<Rightarrow> nat \<Rightarrow> nat option" where
  "dec2 b0 b1 = (if 0xC2 \<le> b0 \<and> b0 \<le> 0xDF \<and> is_cont b1
     then Some ((b0 - 0xC0) * 64 + (b1 - 0x80)) else None)"

definition dec3 :: "nat \<Rightarrow> nat \<Rightarrow> nat \<Rightarrow> nat option" where
  "dec3 b0 b1 b2 = (if 0xE0 \<le> b0 \<and> b0 \<le> 0xEF \<and> second_ok3 b0 b1 \<and> is_cont b2
     then Some ((b0 - 0xE0) * 4096 + (b1 - 0x80) * 64 + (b2 - 0x80)) else None)"

definition dec4 :: "nat \<Rightarrow> nat \<Rightarrow> nat \<Rightarrow> nat \<Rightarrow> nat option" where
  "dec4 b0 b1 b2 b3 =
     (if 0xF0 \<le> b0 \<and> b0 \<le> 0xF4 \<and> second_ok4 b0 b1 \<and> is_cont b2 \<and> is_cont b3
      then Some ((b0 - 0xF0) * 262144 + (b1 - 0x80) * 4096 + (b2 - 0x80) * 64 + (b3 - 0x80))
      else None)"

fun decode_rune :: "string \<Rightarrow> nat \<times> nat" where
  "decode_rune [] = (rune_error, 0)"
| "decode_rune (c0 # s) =
     (if code_of c0 < 0x80 then (code_of c0, 1)
      else case s of [] \<Rightarrow> (rune_error, 1) | c1 # s1 \<Rightarrow>
        (case dec2 (code_of c0) (code_of c1) of Some r \<Rightarrow> (r, 2)
         | None \<Rightarrow> case s1 of [] \<Rightarrow> (rune_error, 1) | c2 # s2 \<Rightarrow>
           (case dec3 (code_of c0) (code_of c1) (code_of c2) of Some r \<Rightarrow> (r, 3)
            | None \<Rightarrow> case s2 of [] \<Rightarrow> (rune_error, 1) | c3 # s3 \<Rightarrow>
              (case dec4 (code_of c0) (code_of c1) (code_of c2) (code_of c3) of Some r \<Rightarrow> (r, 4)
               | None \<Rightarrow> (rune_error, 1)))))"

lemma dec2_bytes: "dec2 b0 b1 = Some r \<Longrightarrow> 0x80 \<le> b0 \<and> 0x80 \<le> b1"
  by (auto simp: dec2_def is_cont_def split: if_splits)

lemma dec3_bytes: "dec3 b0 b1 b2 = Some r \<Longrightarrow> 0x80 \<le> b0 \<and> 0x80 \<le> b1 \<and> 0x80 \<le> b2"
  by (auto simp: dec3_def is_cont_def second_ok3_def split: if_splits)

lemma dec4_bytes:
  "dec4 b0 b1 b2 b3 = Some r \<Longrightarrow> 0x80 \<le> b0 \<and> 0x80 \<le> b1 \<and> 0x80 \<le> b2 \<and> 0x80 \<le> b3"
  by (auto simp: dec4_def is_cont_def second_ok4_def split: if_splits)

function segs :: "string \<Rightarrow> (nat \<times> string) list" where
  \<comment> \<open>the runes of a string, each with the bytes it was decoded from\<close>
  "segs [] = []"
| "segs (c # s) = (let (r, w) = decode_rune (c # s)
     in (r, c # take (w - 1) s) # segs (drop (w - 1) s))"
  by pat_completeness auto
termination
  by (relation "measure length") auto

definition runes :: "string \<Rightarrow> nat list" where
  "runes s = map fst (segs s)"

function go_range :: "nat \<Rightarrow> string \<Rightarrow> (nat \<times> nat) list" where
  \<comment> \<open>the (byte index, rune) pairs of \<open>for i, r := range s\<close>, starting at index i\<close>
  "go_range i [] = []"
| "go_range i (c # s) = (let (r, w) = decode_rune (c # s)
     in (i, r) # go_range (i + w) (drop (w - 1) s))"
  by pat_completeness auto
termination
  by (relation "measure (\<lambda>(i, s). length s)") auto

lemma concat_segs: "concat (map snd (segs s)) = s"
  by (induction s rule: segs.induct) (auto simp: Let_def split: prod.splits)

lemma decode_ascii [simp]: "code_of c < 0x80 \<Longrightarrow> decode_rune (c # s) = (code_of c, 1)"
  by simp

text \<open>An ASCII byte is always its own rune: no multi-byte sequence swallows it.\<close>

lemma decode_wide_bytes:
  assumes "decode_rune (c # s) = (r, w)" "1 < w" "d \<in> set (c # take (w - 1) s)"
  shows "0x80 \<le> code_of d"
  using assms
  by (auto split: list.splits if_splits option.splits
           dest: dec2_bytes dec3_bytes dec4_bytes)

lemma decode_width_le: "decode_rune s = (r, w) \<Longrightarrow> w \<le> length s"
  by (cases s) (auto split: list.splits if_splits option.splits)

lemma decode_width_pos: "decode_rune (c # s) = (r, w) \<Longrightarrow> 1 \<le> w"
  by (auto split: list.splits if_splits option.splits)

declare decode_rune.simps(2) [simp del]

lemma segs_ascii_in:
  assumes "d \<in> set s" "code_of d < 0x80"
  shows "code_of d \<in> set (runes s)"
  using assms
proof (induction s rule: segs.induct)
  case 1
  then show ?case by simp
next
  case (2 c s)
  obtain r w where dec: "decode_rune (c # s) = (r, w)" by force
  have "set (c # s) = set (c # take (w - 1) s) \<union> set (drop (w - 1) s)"
    by (metis append_Cons append_take_drop_id set_append)
  with \<open>d \<in> set (c # s)\<close>
  consider "d \<in> set (c # take (w - 1) s)" | "d \<in> set (drop (w - 1) s)" by blast
  then show ?case
  proof cases
    case 1
    with decode_wide_bytes [OF dec] \<open>code_of d < 0x80\<close> have "w \<le> 1" by force
    with 1 have "d = c" by simp
    with \<open>code_of d < 0x80\<close> show ?thesis by (simp add: runes_def)
  next
    case 2
    with "2.IH" [OF dec [symmetric] refl] \<open>code_of d < 0x80\<close> show ?thesis
      by (simp add: runes_def dec)
  qed
qed

lemma go_range_runes: "map snd (go_range i s) = runes s"
  by (induction i s rule: go_range.induct) (auto simp: runes_def Let_def split: prod.splits)

lemma segs_ascii: "list_all (\<lambda>c. code_of c < 0x80) s \<Longrightarrow> segs s = map (\<lambda>c. (code_of c, [c])) s"
  by (induction s) auto

lemma runes_ascii: "list_all (\<lambda>c. code_of c < 0x80) s \<Longrightarrow> runes s = map code_of s"
  by (simp add: runes_def segs_ascii)

section \<open>Prefixes, suffixes, searching\<close>

fun cut_prefix :: "string \<Rightarrow> string \<Rightarrow> string option" where
  "cut_prefix s [] = Some s"
| "cut_prefix [] (p # ps) = None"
| "cut_prefix (c # s) (p # ps) = (if c = p then cut_prefix s ps else None)"

definition has_prefix :: "string \<Rightarrow> string \<Rightarrow> bool" where
  "has_prefix s p \<longleftrightarrow> cut_prefix s p \<noteq> None"

definition cut_suffix :: "string \<Rightarrow> string \<Rightarrow> string option" where
  "cut_suffix s p = map_option rev (cut_prefix (rev s) (rev p))"

definition has_suffix :: "string \<Rightarrow> string \<Rightarrow> bool" where
  "has_suffix s p \<longleftrightarrow> cut_suffix s p \<noteq> None"

definition trim_prefix :: "string \<Rightarrow> string \<Rightarrow> string" where
  "trim_prefix s p = (case cut_prefix s p of None \<Rightarrow> s | Some r \<Rightarrow> r)"

definition trim_suffix :: "string \<Rightarrow> string \<Rightarrow> string" where
  "trim_suffix s p = (case cut_suffix s p of None \<Rightarrow> s | Some r \<Rightarrow> r)"

fun go_index :: "string \<Rightarrow> string \<Rightarrow> nat option" where
  "go_index [] sep = (if sep = [] then Some 0 else None)"
| "go_index (c # s) sep =
     (if has_prefix (c # s) sep then Some 0 else map_option Suc (go_index s sep))"

definition contains :: "string \<Rightarrow> string \<Rightarrow> bool" where
  "contains s sub \<longleftrightarrow> go_index s sub \<noteq> None"

definition go_cut :: "string \<Rightarrow> string \<Rightarrow> (string \<times> string) option" where
  "go_cut s sep = map_option (\<lambda>i. (take i s, drop (i + length sep) s)) (go_index s sep)"

lemma cut_prefix_Some [go_simps]: "cut_prefix s p = Some r \<longleftrightarrow> s = p @ r"
  by (induction s p rule: cut_prefix.induct) auto

lemma cut_prefix_append [simp]: "cut_prefix (p @ r) p = Some r"
  by (simp add: cut_prefix_Some)

lemma has_prefix_iff [go_simps]: "has_prefix s p \<longleftrightarrow> prefix p s"
  by (auto simp: has_prefix_def cut_prefix_Some prefix_def)

lemma cut_suffix_Some [go_simps]: "cut_suffix s p = Some r \<longleftrightarrow> s = r @ p"
  by (auto simp: cut_suffix_def cut_prefix_Some rev_swap)

lemma has_suffix_iff [go_simps]: "has_suffix s p \<longleftrightarrow> suffix p s"
  by (auto simp: has_suffix_def cut_suffix_Some suffix_def)

lemma cut_prefix_None: "cut_prefix s p = None \<longleftrightarrow> \<not> prefix p s"
  using has_prefix_iff [of s p] unfolding has_prefix_def by blast

lemma cut_suffix_None: "cut_suffix s p = None \<longleftrightarrow> \<not> suffix p s"
  using has_suffix_iff [of s p] unfolding has_suffix_def by blast

lemma go_index_Some:
  "go_index s sep = Some i \<Longrightarrow> s = take i s @ sep @ drop (i + length sep) s"
proof (induction s arbitrary: i)
  case Nil
  then show ?case by (simp split: if_splits)
next
  case (Cons c s)
  then show ?case
    by (fastforce simp: has_prefix_iff prefix_def split: if_splits)
qed

lemma go_index_None_iff: "go_index s sep = None \<longleftrightarrow> (\<nexists>u v. s = u @ sep @ v)"
proof (induction s)
  case Nil
  then show ?case by auto
next
  case (Cons c s)
  show ?case
  proof (cases "prefix sep (c # s)")
    case True
    then have "\<exists>u v. c # s = u @ sep @ v"
      by (metis append_Nil prefix_def)
    with True show ?thesis by (simp add: has_prefix_iff)
  next
    case False
    have "(\<exists>u v. c # s = u @ sep @ v) \<longleftrightarrow> (\<exists>u v. s = u @ sep @ v)"
      using False by (metis append_Cons append_Nil list.exhaust list.inject prefix_def)
    with False Cons show ?thesis by (simp add: has_prefix_iff)
  qed
qed

lemma go_index_first:
  "go_index s sep = Some i \<Longrightarrow> j < i \<Longrightarrow> \<not> prefix sep (drop j s)"
proof (induction s arbitrary: i j)
  case Nil
  then show ?case by (simp split: if_splits)
next
  case (Cons c s)
  from Cons.prems have np: "\<not> prefix sep (c # s)"
    by (auto simp: has_prefix_iff)
  with Cons.prems obtain i' where i': "go_index s sep = Some i'" "i = Suc i'"
    by (auto simp: has_prefix_iff)
  show ?case
  proof (cases j)
    case 0
    with np show ?thesis by simp
  next
    case (Suc j')
    with Cons.IH [OF i'(1), of j'] Cons.prems(2) i'(2) show ?thesis by simp
  qed
qed

lemma contains_iff [go_simps]: "contains s sub \<longleftrightarrow> (\<exists>u v. s = u @ sub @ v)"
  unfolding contains_def by (auto simp: go_index_None_iff)

lemma contains_append [simp]: "contains (u @ sub @ v) sub"
  by (auto simp: contains_iff)

lemma go_cut_Some: "go_cut s sep = Some (a, b) \<Longrightarrow> s = a @ sep @ b"
  by (auto simp: go_cut_def dest: go_index_Some)

lemma go_cut_None: "go_cut s sep = None \<longleftrightarrow> \<not> contains s sep"
  by (simp add: go_cut_def contains_def)

lemma go_cut_first:
  assumes "d \<notin> set w"
  shows "go_cut (w @ d # t @ v) (d # t) = Some (w, v)"
proof -
  have "go_index (w @ d # t @ v) (d # t) = Some (length w)"
    using assms
  proof (induction w)
    case Nil
    then show ?case by (simp add: has_prefix_iff)
  next
    case (Cons c w)
    then show ?case by (auto simp: has_prefix_iff)
  qed
  then show ?thesis by (simp add: go_cut_def)
qed

lemma go_cut_single_Some: "go_cut s [d] = Some (a, b) \<longleftrightarrow> s = a @ d # b \<and> d \<notin> set a"
proof
  assume cut: "go_cut s [d] = Some (a, b)"
  then have s: "s = a @ d # b" by (auto dest: go_cut_Some)
  then obtain u v where "s = u @ d # v" "d \<notin> set u" by (metis in_set_conv_decomp split_list_first)
  with go_cut_first [of d u "[]" v] cut have "u = a" by simp
  with s \<open>d \<notin> set u\<close> show "s = a @ d # b \<and> d \<notin> set a" by simp
qed (use go_cut_first [of d a "[]" b] in simp)

lemma go_cut_single_None: "go_cut s [d] = None \<longleftrightarrow> d \<notin> set s"
proof
  assume "go_cut s [d] = None"
  then have "\<nexists>a b. s = a @ d # b \<and> d \<notin> set a" using go_cut_single_Some by (metis option.distinct(1))
  then show "d \<notin> set s" by (metis split_list_first)
next
  assume "d \<notin> set s"
  then show "go_cut s [d] = None" by (cases "go_cut s [d]") (auto dest!: go_cut_Some)
qed

section \<open>Splitting and joining\<close>

fun split_on :: "char \<Rightarrow> string \<Rightarrow> string list" where
  \<comment> \<open>\<open>strings.Split\<close> with a one-byte separator\<close>
  "split_on d [] = [[]]"
| "split_on d (c # s) =
     (if c = d then [] # split_on d s
      else case split_on d s of [] \<Rightarrow> [[c]] | w # ws \<Rightarrow> (c # w) # ws)"

fun go_join :: "string \<Rightarrow> string list \<Rightarrow> string" where
  "go_join sep [] = []"
| "go_join sep [w] = w"
| "go_join sep (w # v # ws) = w @ sep @ go_join sep (v # ws)"

lemma split_on_nonempty [simp]: "split_on d s \<noteq> []"
  by (induction s) (auto split: list.splits)

lemma go_join_Cons: "ws \<noteq> [] \<Longrightarrow> go_join sep (w # ws) = w @ sep @ go_join sep ws"
  by (cases ws) auto

lemma go_join_split_on: "go_join [d] (split_on d s) = s"
proof (induction s)
  case (Cons c s)
  obtain w ws where w: "split_on d s = w # ws" by (cases "split_on d s") auto
  show ?case
    using Cons w by (cases ws) auto
qed simp

lemma split_on_no_sep: "w \<in> set (split_on d s) \<Longrightarrow> d \<notin> set w"
  by (induction s arbitrary: w) (force split: if_splits list.splits)+

lemma split_on_append: "d \<notin> set w \<Longrightarrow> split_on d (w @ d # s) = w # split_on d s"
  by (induction w) auto

lemma split_on_single: "d \<notin> set w \<Longrightarrow> split_on d w = [w]"
  by (induction w) auto

lemma split_on_join:
  "ws \<noteq> [] \<Longrightarrow> \<forall>w \<in> set ws. d \<notin> set w \<Longrightarrow> split_on d (go_join [d] ws) = ws"
  by (induction "[d]" ws rule: go_join.induct) (auto simp: split_on_append split_on_single)

section \<open>Trimming, replacing, case\<close>

definition trim_right_set :: "string \<Rightarrow> string \<Rightarrow> string" where
  "trim_right_set s cs = rev (dropWhile (\<lambda>c. c \<in> set cs) (rev s))"

definition trim_set :: "string \<Rightarrow> string \<Rightarrow> string" where
  "trim_set s cs = trim_right_set (dropWhile (\<lambda>c. c \<in> set cs) s) cs"

definition is_space :: "nat \<Rightarrow> bool" where
  "is_space r \<longleftrightarrow> r \<in> {0x09, 0x0A, 0x0B, 0x0C, 0x0D, 0x20, 0x85, 0xA0, 0x1680,
     0x2028, 0x2029, 0x202F, 0x205F, 0x3000} \<or> (0x2000 \<le> r \<and> r \<le> 0x200A)"

definition trim_space :: "string \<Rightarrow> string" where
  "trim_space s = concat (map snd
     (rev (dropWhile (\<lambda>x. is_space (fst x)) (rev (dropWhile (\<lambda>x. is_space (fst x)) (segs s))))))"

function (sequential) replace_all :: "string \<Rightarrow> string \<Rightarrow> string \<Rightarrow> string" where
  \<comment> \<open>\<open>strings.ReplaceAll\<close> of a non-empty substring\<close>
  "replace_all [] old new = []"
| "replace_all (c # s) [] new = c # s"
| "replace_all (c # s) (o1 # os) new =
     (case cut_prefix s os of
        Some r \<Rightarrow> if c = o1 then new @ replace_all r (o1 # os) new
                  else c # replace_all s (o1 # os) new
      | None \<Rightarrow> c # replace_all s (o1 # os) new)"
  by pat_completeness auto
termination
  by (relation "measure (\<lambda>(s, _). length s)") (auto simp: cut_prefix_Some)

definition lower_seg :: "nat \<times> string \<Rightarrow> string" where
  "lower_seg x = (case x of (r, bs) \<Rightarrow>
     if 0x41 \<le> r \<and> r \<le> 0x5A then [char_of (r + 32)]
     else if r = 0x130 then ''i'' else if r = 0x212A then ''k'' else bs)"

definition to_lower :: "string \<Rightarrow> string" where
  "to_lower s = concat (map lower_seg (segs s))"

definition fold_seg :: "nat \<times> string \<Rightarrow> string" where
  \<comment> \<open>simple case folding as \<open>strings.EqualFold\<close> does it against an ASCII word\<close>
  "fold_seg x = (case x of (r, bs) \<Rightarrow>
     if 0x41 \<le> r \<and> r \<le> 0x5A then [char_of (r + 32)]
     else if r = 0x17F then ''s'' else if r = 0x212A then ''k'' else bs)"

definition equal_fold :: "string \<Rightarrow> string \<Rightarrow> bool" where
  "equal_fold s t \<longleftrightarrow> concat (map fold_seg (segs s)) = concat (map fold_seg (segs t))"

definition count_char :: "char \<Rightarrow> string \<Rightarrow> nat" where
  "count_char d s = length (filter (\<lambda>c. c = d) s)"

definition last_index :: "char \<Rightarrow> string \<Rightarrow> nat option" where
  "last_index d s =
     (if d \<in> set s then Some (length s - 1 - length (takeWhile (\<lambda>c. c \<noteq> d) (rev s))) else None)"

lemma last_index_Some:
  assumes "last_index d s = Some i"
  shows "s = take i s @ d # drop (Suc i) s" "d \<notin> set (drop (Suc i) s)"
proof -
  from assms have d: "d \<in> set s" by (simp add: last_index_def split: if_splits)
  then obtain u v where s: "s = u @ d # v" "d \<notin> set v"
    by (metis split_list_last)
  then have "\<And>x. x \<in> set (rev v) \<Longrightarrow> x \<noteq> d" by auto
  then have "takeWhile (\<lambda>c. c \<noteq> d) (rev v @ d # rev u) = rev v"
    by (subst takeWhile_append2) auto
  with s have "takeWhile (\<lambda>c. c \<noteq> d) (rev s) = rev v" by simp
  with assms d s have "i = length u" by (simp add: last_index_def)
  with s show "s = take i s @ d # drop (Suc i) s" "d \<notin> set (drop (Suc i) s)" by simp_all
qed

lemma last_index_None: "last_index d s = None \<longleftrightarrow> d \<notin> set s"
  by (simp add: last_index_def)

section \<open>Reading integers\<close>

definition is_digit :: "char \<Rightarrow> bool" where
  "is_digit c \<longleftrightarrow> 48 \<le> code_of c \<and> code_of c \<le> 57"

fun digits_value :: "nat \<Rightarrow> string \<Rightarrow> nat option" where
  "digits_value acc [] = Some acc"
| "digits_value acc (c # s) =
     (if is_digit c then digits_value (acc * 10 + (code_of c - 48)) s else None)"

definition parse_int64 :: "string \<Rightarrow> int option" where
  \<comment> \<open>\<open>strconv.ParseInt(s, 10, 64)\<close>, \<open>None\<close> for its syntax and range errors\<close>
  "parse_int64 s =
     (let (neg, ds) = (case s of [] \<Rightarrow> (False, [])
                       | c # r \<Rightarrow> if c = CHR ''-'' then (True, r)
                                  else if c = CHR ''+'' then (False, r) else (False, s))
      in if ds = [] then None
         else case digits_value 0 ds of None \<Rightarrow> None
         | Some n \<Rightarrow> if neg then if n \<le> 2 ^ 63 then Some (- int n) else None
                     else if n < 2 ^ 63 then Some (int n) else None)"

lemma parse_int64_range:
  "parse_int64 s = Some n \<Longrightarrow> - (2 ^ 63) \<le> n \<and> n < 2 ^ 63"
  by (auto simp: parse_int64_def Let_def split: list.splits if_splits option.splits prod.splits)

lemma digits_value_digits: "digits_value acc s = Some n \<Longrightarrow> list_all is_digit s"
  by (induction s arbitrary: acc) (auto split: if_splits)

end
