(* ===== verification/GoRegexp.thy ===== *)
theory GoRegexp
  imports GoString
begin

text \<open>
  Go's \<open>regexp\<close> package, for the constructs the program's patterns use: character classes,
  alternation, greedy repetition, capturing groups, the anchors of the text and the word
  boundary. \<open>run\<close> lists the ways to match at one position in the order a backtracking
  matcher tries them, so its head is the leftmost-first match Go reports; \<open>match_string\<close>
  searches every position and \<open>replace_rx\<close> replaces all non-overlapping matches.

  For patterns without assertions and negated classes (\<open>plain\<close>), \<open>run_matches\<close> shows that
  the matcher accepts exactly the declarative language \<open>matches\<close>; the shapes of identifier
  the program checks are read off from there.
\<close>

section \<open>Patterns and the matcher\<close>

datatype rx = Eps | Cls bool "(nat \<times> nat) list" | Cat rx rx | Alt rx rx | Star rx
  | Grp nat rx | Bos | Eos | WordB

type_synonym caps = "(nat \<times> string) list"
type_synonym rx_state = "nat option \<times> string \<times> caps"

definition in_ranges :: "(nat \<times> nat) list \<Rightarrow> nat \<Rightarrow> bool" where
  "in_ranges rs r \<longleftrightarrow> list_ex (\<lambda>(lo, hi). lo \<le> r \<and> r \<le> hi) rs"

definition is_word :: "nat option \<Rightarrow> bool" where
  "is_word x \<longleftrightarrow> (case x of None \<Rightarrow> False
     | Some r \<Rightarrow> in_ranges [(48, 57), (65, 90), (95, 95), (97, 122)] r)"

definition next_rune :: "string \<Rightarrow> nat option" where
  "next_rune s = (if s = [] then None else Some (fst (decode_rune s)))"

definition shorter :: "rx_state \<Rightarrow> rx_state \<Rightarrow> bool" where
  "shorter st st' \<longleftrightarrow> length (fst (snd st')) < length (fst (snd st))"

fun star_run :: "nat \<Rightarrow> (rx_state \<Rightarrow> rx_state list) \<Rightarrow> rx_state \<Rightarrow> rx_state list" where
  "star_run 0 f st = [st]"
| "star_run (Suc n) f st = concat (map (star_run n f) (filter (shorter st) (f st))) @ [st]"

fun run :: "rx \<Rightarrow> rx_state \<Rightarrow> rx_state list" where
  "run Eps st = [st]"
| "run (Cls neg rs) (p, s, cs) =
     (case s of [] \<Rightarrow> [] | _ # _ \<Rightarrow> let (r, w) = decode_rune s in
        if in_ranges rs r \<noteq> neg then [(Some r, drop w s, cs)] else [])"
| "run (Cat a b) st = concat (map (run b) (run a st))"
| "run (Alt a b) st = run a st @ run b st"
| "run (Star a) st = star_run (length (fst (snd st))) (run a) st"
| "run (Grp n a) (p, s, cs) =
     map (\<lambda>(p', s', cs'). (p', s', (n, take (length s - length s') s) # cs')) (run a (p, s, cs))"
| "run Bos (p, s, cs) = (if p = None then [(p, s, cs)] else [])"
| "run Eos (p, s, cs) = (if s = [] then [(p, s, cs)] else [])"
| "run WordB (p, s, cs) = (if is_word p \<noteq> is_word (next_rune s) then [(p, s, cs)] else [])"

function match_from :: "rx \<Rightarrow> nat option \<Rightarrow> string \<Rightarrow> bool" where
  "match_from r p [] = (run r (p, [], []) \<noteq> [])"
| "match_from r p (c # s) = (run r (p, c # s, []) \<noteq> [] \<or>
     (let (x, w) = decode_rune (c # s) in match_from r (Some x) (drop (w - 1) s)))"
  by pat_completeness auto
termination
  by (relation "measure (\<lambda>(r, p, s). length s)") auto

definition match_string :: "rx \<Rightarrow> string \<Rightarrow> bool" where
  "match_string r s = match_from r None s"

definition submatch :: "rx \<Rightarrow> string \<Rightarrow> caps option" where
  \<comment> \<open>\<open>FindStringSubmatch\<close> of a pattern anchored at the start of the text\<close>
  "submatch r s = (case run r (None, s, []) of [] \<Rightarrow> None | (_, _, cs) # _ \<Rightarrow> Some cs)"

definition group :: "caps \<Rightarrow> nat \<Rightarrow> string" where
  \<comment> \<open>a group that took no part in the match reads as the empty string\<close>
  "group cs n = (case map_of cs n of None \<Rightarrow> [] | Some s \<Rightarrow> s)"

function replace_from :: "rx \<Rightarrow> (caps \<Rightarrow> string) \<Rightarrow> nat option \<Rightarrow> string \<Rightarrow> string" where
  "replace_from r f p [] = []"
| "replace_from r f p (c # s) =
     (case run r (p, c # s, []) of
        (p', s', cs) # _ \<Rightarrow>
          if length s' < length (c # s) then f cs @ replace_from r f p' s'
          else (let (x, w) = decode_rune (c # s)
                in (c # take (w - 1) s) @ replace_from r f (Some x) (drop (w - 1) s))
      | [] \<Rightarrow> (let (x, w) = decode_rune (c # s)
                in (c # take (w - 1) s) @ replace_from r f (Some x) (drop (w - 1) s)))"
  by pat_completeness auto
termination
  by (relation "measure (\<lambda>(r, f, p, s). length s)") auto

definition replace_rx :: "rx \<Rightarrow> (caps \<Rightarrow> string) \<Rightarrow> string \<Rightarrow> string" where
  \<comment> \<open>\<open>ReplaceAllString\<close> for a pattern whose matches are never empty\<close>
  "replace_rx r f s = replace_from r f None s"

section \<open>Writing patterns\<close>

abbreviation "r_digit \<equiv> (48 :: nat, 57 :: nat)"
abbreviation "r_upper \<equiv> (65 :: nat, 90 :: nat)"
abbreviation "r_lower \<equiv> (97 :: nat, 122 :: nat)"

definition r_chr :: "char \<Rightarrow> nat \<times> nat" where
  "r_chr c = (code_of c, code_of c)"

definition rx_lit :: "string \<Rightarrow> rx" where
  "rx_lit s = foldr (\<lambda>r acc. Cat (Cls False [(r, r)]) acc) (runes s) Eps"

fun rx_seq :: "rx list \<Rightarrow> rx" where
  "rx_seq [] = Eps"
| "rx_seq [a] = a"
| "rx_seq (a # b # rs) = Cat a (rx_seq (b # rs))"

fun rx_alts :: "rx list \<Rightarrow> rx" where
  "rx_alts [] = Cls False []"
| "rx_alts [a] = a"
| "rx_alts (a # b # rs) = Alt a (rx_alts (b # rs))"

definition rx_opt :: "rx \<Rightarrow> rx" where "rx_opt r = Alt r Eps"
definition rx_plus :: "rx \<Rightarrow> rx" where "rx_plus r = Cat r (Star r)"
definition rx_full :: "rx \<Rightarrow> rx" where "rx_full r = Cat Bos (Cat r Eos)"

section \<open>The language of a plain pattern\<close>

fun plain :: "rx \<Rightarrow> bool" where
  "plain Eps = True"
| "plain (Cls neg rs) = (\<not> neg \<and> list_all (\<lambda>(lo, hi). hi < 0x80) rs)"
| "plain (Cat a b) = (plain a \<and> plain b)"
| "plain (Alt a b) = (plain a \<and> plain b)"
| "plain (Star a) = plain a"
| "plain (Grp n a) = plain a"
| "plain Bos = False"
| "plain Eos = False"
| "plain WordB = False"

inductive matches :: "rx \<Rightarrow> string \<Rightarrow> bool" where
  Eps: "matches Eps []"
| Cls: "in_ranges rs (code_of c) \<Longrightarrow> code_of c < 0x80 \<Longrightarrow> matches (Cls False rs) [c]"
| Cat: "matches a u \<Longrightarrow> matches b v \<Longrightarrow> matches (Cat a b) (u @ v)"
| AltL: "matches a u \<Longrightarrow> matches (Alt a b) u"
| AltR: "matches b u \<Longrightarrow> matches (Alt a b) u"
| Star0: "matches (Star a) []"
| StarS: "matches a u \<Longrightarrow> u \<noteq> [] \<Longrightarrow> matches (Star a) v \<Longrightarrow> matches (Star a) (u @ v)"
| Grp: "matches a u \<Longrightarrow> matches (Grp n a) u"

inductive_simps matches_Eps [simp]: "matches Eps u"
inductive_simps matches_Alt [simp]: "matches (Alt a b) u"
inductive_simps matches_Grp [simp]: "matches (Grp n a) u"
inductive_simps matches_Cls: "matches (Cls neg rs) u"
inductive_simps matches_Cat: "matches (Cat a b) u"
inductive_cases matches_StarE: "matches (Star a) u"

definition reach :: "rx_state list \<Rightarrow> string \<Rightarrow> bool" where
  "reach sts t \<longleftrightarrow> (\<exists>p cs. (p, t, cs) \<in> set sts)"

lemma in_ranges_ascii:
  "list_all (\<lambda>(lo, hi). hi < 0x80) rs \<Longrightarrow> in_ranges rs r \<Longrightarrow> r < 0x80"
  by (induction rs) (auto simp: in_ranges_def)

lemma decode_small:
  assumes "decode_rune (c # s) = (r, w)" "r < 0x80"
  shows "code_of c = r \<and> w = 1"
proof (cases "code_of c < 0x80")
  case True
  with assms show ?thesis by simp
next
  case False
  have "dec2 b0 b1 = Some r \<Longrightarrow> 0x80 \<le> r" for b0 b1 r
    by (auto simp: dec2_def is_cont_def split: if_splits)
  moreover have "dec3 b0 b1 b2 = Some r \<Longrightarrow> 0x80 \<le> r" for b0 b1 b2 r
  proof -
    assume *: "dec3 b0 b1 b2 = Some r"
    then have "b0 = 0xE0 \<or> 0xE0 < b0" "b0 = 0xE0 \<Longrightarrow> 0xA0 \<le> b1"
      by (auto simp: dec3_def second_ok3_def split: if_splits)
    with * show ?thesis by (auto simp: dec3_def split: if_splits)
  qed
  moreover have "dec4 b0 b1 b2 b3 = Some r \<Longrightarrow> 0x80 \<le> r" for b0 b1 b2 b3 r
  proof -
    assume *: "dec4 b0 b1 b2 b3 = Some r"
    then have "b0 = 0xF0 \<or> 0xF0 < b0" "b0 = 0xF0 \<Longrightarrow> 0x90 \<le> b1"
      by (auto simp: dec4_def second_ok4_def split: if_splits)
    with * show ?thesis by (auto simp: dec4_def split: if_splits)
  qed
  ultimately show ?thesis
    using assms False
    by (fastforce simp: decode_rune.simps(2) rune_error_def split: list.splits option.splits)
qed

lemma reach_Cls:
  assumes "plain (Cls neg rs)"
  shows "reach (run (Cls neg rs) (p, s, cs)) t \<longleftrightarrow> (\<exists>u. s = u @ t \<and> matches (Cls neg rs) u)"
proof (cases s)
  case Nil
  then show ?thesis by (auto simp: reach_def matches_Cls)
next
  case (Cons c s')
  obtain r w where dec: "decode_rune (c # s') = (r, w)" by force
  show ?thesis
  proof
    assume "reach (run (Cls neg rs) (p, s, cs)) t"
    then have "in_ranges rs r" and t: "t = drop w (c # s')"
      using assms Cons dec by (auto simp: reach_def split: if_splits)
    moreover from this have "r < 0x80" using assms in_ranges_ascii by auto
    ultimately show "\<exists>u. s = u @ t \<and> matches (Cls neg rs) u"
      using decode_small [OF dec] Cons assms by (intro exI [of _ "[c]"]) (auto simp: matches_Cls)
  next
    assume "\<exists>u. s = u @ t \<and> matches (Cls neg rs) u"
    then have "t = s'" "in_ranges rs (code_of c)" "code_of c < 0x80"
      using Cons by (auto simp: matches_Cls)
    then show "reach (run (Cls neg rs) (p, s, cs)) t"
      using Cons assms by (auto simp: reach_def)
  qed
qed

lemma reach_append: "reach (xs @ ys) t \<longleftrightarrow> reach xs t \<or> reach ys t"
  by (auto simp: reach_def)

lemma reach_concat:
  "reach (concat (map f sts)) t \<longleftrightarrow> (\<exists>p s cs. (p, s, cs) \<in> set sts \<and> reach (f (p, s, cs)) t)"
  by (auto simp: reach_def) blast+

lemma reach_star_run:
  assumes f: "\<And>p s cs t. reach (f (p, s, cs)) t \<longleftrightarrow> (\<exists>u. s = u @ t \<and> matches a u)"
  shows "length s \<le> n \<Longrightarrow>
    reach (star_run n f (p, s, cs)) t \<longleftrightarrow> (\<exists>u. s = u @ t \<and> matches (Star a) u)"
proof (induction n arbitrary: p s cs)
  case 0
  then show ?case by (auto simp: reach_def intro: matches.Star0)
next
  case (Suc n)
  let ?sts = "filter (shorter (p, s, cs)) (f (p, s, cs))"
  show ?case (is "?L \<longleftrightarrow> ?R")
  proof
    assume ?L
    then consider "t = s" | p' s' cs' where "(p', s', cs') \<in> set ?sts"
        "reach (star_run n f (p', s', cs')) t"
      by (auto simp: reach_append reach_concat) (auto simp: reach_def)
    then show ?R
    proof cases
      case 1
      then show ?thesis by (auto intro: matches.Star0)
    next
      case 2
      then have len: "length s' < length s" and "reach (f (p, s, cs)) s'"
        by (auto simp: shorter_def reach_def)
      then obtain u where u: "s = u @ s'" "matches a u" "u \<noteq> []" using f by auto
      from len Suc.prems have "length s' \<le> n" by simp
      with 2 Suc.IH obtain v where "s' = v @ t" "matches (Star a) v" by blast
      with u show ?thesis by (metis append.assoc matches.StarS)
    qed
  next
    assume ?R
    then obtain u where u: "s = u @ t" "matches (Star a) u" by blast
    from u(2) show ?L
    proof (rule matches_StarE)
      assume "u = []"
      with u(1) have "reach [(p, s, cs)] t" by (simp add: reach_def)
      then show ?thesis by (simp add: reach_append)
    next
      fix v w
      assume 2: "u = v @ w" "matches a v" "v \<noteq> []" "matches (Star a) w"
      let ?s' = "w @ t"
      have "reach (f (p, s, cs)) ?s'" using f 2 u(1) by auto
      then obtain p' cs' where in_f: "(p', ?s', cs') \<in> set (f (p, s, cs))"
        by (auto simp: reach_def)
      moreover have "length ?s' < length s" using u(1) 2 by simp
      ultimately have "(p', ?s', cs') \<in> set ?sts" by (simp add: shorter_def)
      moreover have "reach (star_run n f (p', ?s', cs')) t"
        using Suc.IH [of ?s' p' cs'] \<open>length ?s' < length s\<close> Suc.prems 2 by auto
      ultimately show ?thesis by (auto simp: reach_append reach_concat)
    qed
  qed
qed

theorem run_matches:
  "plain r \<Longrightarrow> reach (run r (p, s, cs)) t \<longleftrightarrow> (\<exists>u. s = u @ t \<and> matches r u)"
proof (induction r arbitrary: p s cs t)
  case Eps
  then show ?case by (auto simp: reach_def)
next
  case (Cls neg rs)
  then show ?case by (rule reach_Cls)
next
  case (Cat a b)
  have "reach (run (Cat a b) (p, s, cs)) t \<longleftrightarrow>
      (\<exists>s'. reach (run a (p, s, cs)) s' \<and> (\<exists>v. s' = v @ t \<and> matches b v))"
    using Cat.IH(2) Cat.prems by (auto simp: reach_concat) (auto simp: reach_def)
  also have "\<dots> \<longleftrightarrow> (\<exists>u. s = u @ t \<and> matches (Cat a b) u)"
    using Cat.IH(1) Cat.prems by (simp add: matches_Cat) (metis append.assoc)
  finally show ?case .
next
  case (Alt a b)
  then show ?case by (auto simp: reach_append)
next
  case (Star a)
  then show ?case using reach_star_run [of "run a" a s "length s"] by simp
next
  case (Grp n a)
  have "reach (run (Grp n a) (p, s, cs)) t \<longleftrightarrow> reach (run a (p, s, cs)) t"
    by (force simp: reach_def)
  with Grp show ?case by simp
qed simp_all

lemma run_full_None: "p \<noteq> None \<Longrightarrow> run (rx_full r) (p, s, cs) = []"
  by (cases p) (simp_all add: rx_full_def)

lemma match_from_full: "p \<noteq> None \<Longrightarrow> \<not> match_from (rx_full r) p s"
  by (induction "rx_full r" p s rule: match_from.induct)
    (auto simp: run_full_None Let_def split: prod.splits)

lemma run_full_nonempty: "run (rx_full r) (None, s, []) \<noteq> [] \<longleftrightarrow> reach (run r (None, s, [])) []"
  by (auto simp: rx_full_def reach_def filter_empty_conv split: if_splits)
    (metis (no_types, lifting) list.discI run.simps(8))+

lemma reach_Cat:
  assumes "reach (run a (p, s, cs)) s'" "\<And>p cs. reach (run b (p, s', cs)) t"
  shows "reach (run (Cat a b) (p, s, cs)) t"
proof -
  from assms(1) obtain q cs1 where "(q, s', cs1) \<in> set (run a (p, s, cs))" unfolding reach_def by blast
  with assms(2) show ?thesis unfolding run.simps reach_concat by blast
qed

lemma reach_Grp: "reach (run (Grp n a) (p, s, cs)) t \<longleftrightarrow> reach (run a (p, s, cs)) t"
  by (force simp: reach_def)

theorem match_full:
  assumes "plain r"
  shows "match_string (rx_full r) s \<longleftrightarrow> matches r s"
proof -
  note * = run_full_nonempty [of r s]
  have "match_string (rx_full r) s \<longleftrightarrow> run (rx_full r) (None, s, []) \<noteq> []"
    by (cases s) (auto simp: match_string_def match_from_full Let_def split: prod.splits)
  with * run_matches [OF assms] show ?thesis by simp
qed

end
