(* ===== verification/Ident.thy ===== *)
theory Ident
  imports GoRegexp
begin

text \<open>
  The identifier formats of \<open>internal/blueprint\<close> (the patterns of \<open>load.go\<close>, \<open>refs.go\<close>,
  \<open>annotations.go\<close> and \<open>templates.go\<close>), the YAML keyword tables, and \<open>checkScalar\<close>, the
  guard that keeps every user-written scalar on one line of the emitted document.
  The \<open>_shape\<close> lemmas say what each pattern admits.
\<close>

section \<open>Patterns\<close>

abbreviation "r_dash \<equiv> (45 :: nat, 45 :: nat)"
abbreviation "r_dot \<equiv> (46 :: nat, 46 :: nat)"
abbreviation "r_slash \<equiv> (47 :: nat, 47 :: nat)"
abbreviation "r_colon \<equiv> (58 :: nat, 58 :: nat)"
abbreviation "r_at \<equiv> (64 :: nat, 64 :: nat)"
abbreviation "r_under \<equiv> (95 :: nat, 95 :: nat)"

abbreviation "c_alpha \<equiv> Cls False [r_lower, r_upper]"
abbreviation "c_alnum \<equiv> Cls False [r_lower, r_upper, r_digit]"
abbreviation "c_label \<equiv> Cls False [r_lower, r_digit]"
abbreviation "c_label_in \<equiv> Cls False [r_dash, r_lower, r_digit]"

definition rx_label :: rx where
  \<comment> \<open>\<open>[a-z0-9]([-a-z0-9]*[a-z0-9])?\<close>\<close>
  "rx_label = Cat c_label (rx_opt (Grp 1 (Cat (Star c_label_in) c_label)))"

definition paramNameRE :: rx where
  "paramNameRE = rx_full (Cat c_alpha (Star c_alnum))"

definition groupRE :: rx where
  "groupRE = rx_full (Cat rx_label (Star (Grp 2 (Cat (Cls False [r_dot]) rx_label))))"

definition kindRE :: rx where
  "kindRE = rx_full (Cat (Cls False [r_upper]) (Star (Cls False [r_upper, r_lower, r_digit])))"

definition pluralRE :: rx where
  "pluralRE = rx_full (Cat (Cls False [r_lower]) (Star (Cls False [r_lower, r_digit])))"

definition versionRE :: rx where
  "versionRE = rx_full (rx_seq [rx_lit ''v'', rx_plus (Cls False [r_digit]),
     rx_opt (Grp 1 (Cat (Grp 2 (Alt (rx_lit ''alpha'') (rx_lit ''beta'')))
                        (rx_plus (Cls False [r_digit]))))])"

definition resourceNameRE :: rx where
  "resourceNameRE = rx_full rx_label"

definition providerRefRE :: rx where
  "providerRefRE = rx_full (rx_plus (Cls False
     [r_lower, r_upper, r_digit, r_dot, r_under, r_slash, r_colon, r_at, r_dash]))"

definition statusSegmentRE :: rx where
  "statusSegmentRE = rx_full (Cat (Cls False [r_lower, r_upper, r_under])
     (Star (Cls False [r_lower, r_upper, r_digit, r_under])))"

definition annotationNameRE :: rx where
  "annotationNameRE = rx_full (Cat (Cls False [r_upper, r_lower, r_digit])
     (rx_opt (Grp 1 (Cat (Star (Cls False [r_dash, r_upper, r_lower, r_digit, r_under, r_dot]))
        (Cls False [r_upper, r_lower, r_digit])))))"

definition templateNameRE :: rx where
  "templateNameRE = rx_full (Cat c_alpha
     (Star (Cls False [r_lower, r_upper, r_digit, r_dot, r_under, r_dash])))"

definition conventionMatchRE :: rx where
  "conventionMatchRE = rx_full (rx_plus c_alnum)"

section \<open>YAML keywords\<close>

definition yamlKeywords :: "string list" where
  "yamlKeywords = [''true'', ''false'', ''yes'', ''no'', ''on'', ''off'', ''null'', ''y'', ''n'']"

definition yamlParamKeywords :: "string list" where
  "yamlParamKeywords = [''true'', ''false'', ''null'']"

definition groupIsBareKeyword :: "string \<Rightarrow> bool" where
  "groupIsBareKeyword grp =
     (let segments = split_on CHR ''.'' grp
      in length segments = 1 \<and> to_lower (hd segments) \<in> set yamlKeywords)"

section \<open>checkScalar\<close>

definition is_control :: "nat \<Rightarrow> bool" where
  \<comment> \<open>\<open>unicode.IsControl\<close>: C0, DEL and C1\<close>
  "is_control r \<longleftrightarrow> r < 0x20 \<or> (0x7F \<le> r \<and> r < 0xA0)"

definition checkScalar :: "marg \<Rightarrow> string \<Rightarrow> msg option" where
  "checkScalar fieldPath s = check_all (\<lambda>(i, r).
     refuse (is_control r \<or> r = 0x2028 \<or> r = 0x2029)
       (Msg ''%s: contains the control character %q at byte %d'' [fieldPath, Num r, Num i]))
     (go_range 0 s)"

lemma checkScalar_None [check_simps]:
  "checkScalar fp s = None \<longleftrightarrow>
     (\<forall>r \<in> set (runes s). \<not> (is_control r \<or> r = 0x2028 \<or> r = 0x2029))"
proof -
  have "(\<forall>x \<in> set (go_range 0 s). P (snd x)) \<longleftrightarrow> (\<forall>r \<in> set (map snd (go_range 0 s)). P r)" for P
    by auto
  from this [of "\<lambda>r. \<not> (is_control r \<or> r = 0x2028 \<or> r = 0x2029)"] show ?thesis
    unfolding checkScalar_def check_all_None go_range_runes
    by (auto simp: refuse_None split_beta)
qed

text \<open>No accepted scalar holds a byte that could end the line it is written on.\<close>

lemma checkScalar_no_control_byte:
  assumes "checkScalar fp s = None" "c \<in> set s"
  shows "0x20 \<le> code_of c \<and> code_of c \<noteq> 0x7F"
proof (rule ccontr)
  assume "\<not> ?thesis"
  then have small: "code_of c < 0x80" and ctl: "is_control (code_of c)"
    by (auto simp: is_control_def)
  from segs_ascii_in [OF assms(2) small] ctl assms(1) show False
    by (auto simp: checkScalar_None)
qed

section \<open>What the patterns admit\<close>

lemma matches_Star_Cls:
  assumes "plain (Cls False rs)"
  shows "matches (Star (Cls False rs)) s \<longleftrightarrow> list_all (\<lambda>c. in_ranges rs (code_of c)) s"
proof
  assume "matches (Star (Cls False rs)) s"
  then show "list_all (\<lambda>c. in_ranges rs (code_of c)) s"
    by (induction "Star (Cls False rs)" s rule: matches.induct) (auto simp: matches_Cls)
next
  assume "list_all (\<lambda>c. in_ranges rs (code_of c)) s"
  then show "matches (Star (Cls False rs)) s"
  proof (induction s)
    case Nil
    show ?case by (rule matches.Star0)
  next
    case (Cons c s)
    then have "code_of c < 0x80" using assms in_ranges_ascii by auto
    with Cons have "matches (Cls False rs) [c]" by (auto intro: matches.Cls)
    from matches.StarS [OF this] Cons show ?case by auto
  qed
qed

lemma matches_Cls_iff:
  assumes "plain (Cls False rs)"
  shows "matches (Cls False rs) s \<longleftrightarrow> (\<exists>c. s = [c] \<and> in_ranges rs (code_of c))"
  using assms in_ranges_ascii by (auto simp: matches_Cls)

lemma matches_Cls_Cat:
  assumes "plain (Cls False rs)"
  shows "matches (Cat (Cls False rs) b) s \<longleftrightarrow>
    (\<exists>c t. s = c # t \<and> in_ranges rs (code_of c) \<and> matches b t)" (is "?L \<longleftrightarrow> ?R")
proof
  assume ?R
  then obtain c t where s: "s = [c] @ t" "in_ranges rs (code_of c)" "matches b t" by auto
  with assms have "matches (Cls False rs) [c]" by (simp add: matches_Cls_iff)
  with s show ?L by (auto simp: matches_Cat intro: exI [of _ "[c]"])
qed (auto simp: matches_Cat matches_Cls_iff [OF assms])

lemma matches_Cat_Cls:
  assumes "plain (Cls False rs)"
  shows "matches (Cat a (Cls False rs)) s \<longleftrightarrow>
    (\<exists>t d. s = t @ [d] \<and> matches a t \<and> in_ranges rs (code_of d))"
  by (auto simp: matches_Cat matches_Cls_iff [OF assms])

lemma matches_Cls_Star_Cls:
  assumes "plain (Cls False rs)" "plain (Cls False qs)"
  shows "matches (Cat (Cls False rs) (Star (Cls False qs))) s \<longleftrightarrow>
    (\<exists>c t. s = c # t \<and> in_ranges rs (code_of c) \<and> list_all (\<lambda>c. in_ranges qs (code_of c)) t)"
  unfolding matches_Cls_Cat [OF assms(1)] matches_Star_Cls [OF assms(2)] by auto

definition is_alpha :: "char \<Rightarrow> bool" where
  "is_alpha c \<longleftrightarrow> in_ranges [r_lower, r_upper] (code_of c)"

definition is_alnum :: "char \<Rightarrow> bool" where
  "is_alnum c \<longleftrightarrow> in_ranges [r_lower, r_upper, r_digit] (code_of c)"

definition is_label_char :: "char \<Rightarrow> bool" where
  "is_label_char c \<longleftrightarrow> in_ranges [r_lower, r_digit] (code_of c)"

lemma paramName_shape [go_simps]:
  "match_string paramNameRE s \<longleftrightarrow> (\<exists>c t. s = c # t \<and> is_alpha c \<and> list_all is_alnum t)"
  unfolding paramNameRE_def is_alpha_def is_alnum_def
  by (subst match_full) (simp_all add: matches_Cls_Star_Cls)

lemma paramName_alnum:
  assumes "match_string paramNameRE s"
  shows "s \<noteq> [] \<and> list_all is_alnum s"
  using assms unfolding paramName_shape
  by (auto simp: is_alpha_def is_alnum_def in_ranges_def)

lemma is_alnum_not:
  assumes "is_alnum c"
  shows "c \<noteq> CHR ''.''" "c \<noteq> CHR '' ''" "c \<noteq> CHR ''['' " "c \<noteq> CHR '']''" "c \<noteq> CHR ''-''"
  using assms by (auto simp: is_alnum_def in_ranges_def)

lemma paramName_no_dot: "match_string paramNameRE s \<Longrightarrow> CHR ''.'' \<notin> set s"
  using paramName_alnum is_alnum_not(1) by (fastforce simp: list_all_iff)

definition dns_label :: "string \<Rightarrow> bool" where
  "dns_label s \<longleftrightarrow> s \<noteq> [] \<and> is_label_char (hd s) \<and> is_label_char (last s) \<and>
     list_all (\<lambda>c. c = CHR ''-'' \<or> is_label_char c) s"

lemma label_in_iff: "in_ranges [r_dash, r_lower, r_digit] (code_of c) \<longleftrightarrow> c = CHR ''-'' \<or> is_label_char c"
proof -
  have "code_of c = (45 :: nat) \<longleftrightarrow> c = CHR ''-''"
    using of_char_eq_iff [where 'a = nat, of c "CHR ''-''"] by simp
  then show ?thesis by (auto simp: in_ranges_def is_label_char_def)
qed

lemma rx_label_shape: "matches rx_label s \<longleftrightarrow> dns_label s"
proof -
  have "matches rx_label s \<longleftrightarrow> (\<exists>c. s = [c] \<and> is_label_char c) \<or>
      (\<exists>c t d. s = c # t @ [d] \<and> is_label_char c \<and> is_label_char d \<and>
        list_all (\<lambda>c. c = CHR ''-'' \<or> is_label_char c) t)"
    unfolding is_label_char_def
    by (auto simp: rx_label_def rx_opt_def matches_Cls_Cat matches_Cat_Cls matches_Star_Cls
        label_in_iff is_label_char_def)
  also have "\<dots> \<longleftrightarrow> dns_label s"
  proof
    assume "dns_label s"
    then obtain c t where s: "s = c # t" by (cases s) (auto simp: dns_label_def)
    show "(\<exists>c. s = [c] \<and> is_label_char c) \<or>
      (\<exists>c t d. s = c # t @ [d] \<and> is_label_char c \<and> is_label_char d \<and>
        list_all (\<lambda>c. c = CHR ''-'' \<or> is_label_char c) t)"
    proof (cases t rule: rev_cases)
      case Nil
      with s \<open>dns_label s\<close> show ?thesis by (auto simp: dns_label_def)
    next
      case (snoc u d)
      with s \<open>dns_label s\<close> show ?thesis by (auto simp: dns_label_def)
    qed
  qed (auto simp: dns_label_def)
  finally show ?thesis .
qed

lemma plain_label: "plain rx_label"
  by (simp add: rx_label_def rx_opt_def)

lemma resourceName_shape [go_simps]: "match_string resourceNameRE s \<longleftrightarrow> dns_label s"
  unfolding resourceNameRE_def by (simp add: match_full plain_label rx_label_shape)

lemma is_label_char_not:
  assumes "is_label_char c"
  shows "c \<noteq> CHR ''.''" "c \<noteq> CHR ''-''" "c \<noteq> CHR '' ''"
  using assms by (auto simp: is_label_char_def in_ranges_def)

lemma dns_label_no_dot: "dns_label s \<Longrightarrow> CHR ''.'' \<notin> set s"
  using is_label_char_not(1) by (fastforce simp: dns_label_def list_all_iff)

end
