(* ===== verification/BlueprintTypes.thy ===== *)
theory BlueprintTypes
  imports Ident
begin

text \<open>
  The blueprint document (\<open>internal/blueprint/types.go\<close>): its records, the reference
  grammars \<open>params.\<close>, \<open>env.\<close>, \<open>resources.\<close> and the \<open>when\<close> grammar, and the methods that
  read the document. Methods are modelled on a non-nil receiver; the pointers that may be nil
  inside the document (\<open>spec.emit\<close>, a config's selector) are options.
\<close>

section \<open>The document\<close>

record field =
  f_from :: string
  f_value :: string
  f_raw :: string
  f_template :: string

record resource =
  r_name :: string
  r_kind :: string
  r_provider :: string
  r_forEach :: string
  r_when :: string
  r_fields :: "field gomap"
  r_envelope :: "field gomap"
  r_annotations :: "field gomap"

datatype parameter = Parameter (p_type: string) (p_required: bool) (p_enum: "string list")
  (p_default: string) (p_description: string) (p_properties: "(string \<times> parameter) list")
  (p_from: string)

record source =
  s_provider :: string
  s_crds :: string

record xrd =
  x_group :: string
  x_kind :: string
  x_plural :: string
  x_version :: string
  x_scope :: string
  x_parameters :: "parameter gomap"
  x_status :: "parameter gomap"

record env_key =
  k_type :: string
  k_required :: bool
  k_description :: string
  k_default :: string

record env_config =
  c_name :: string
  c_selector :: "string gomap option"
  c_data :: "string gomap"
  c_values :: "string gomap"

record convention =
  cv_match :: string
  cv_template :: string

record pipeline_step =
  st_name :: string
  st_functionRef :: string
  st_package :: string
  st_input :: string
  st_position :: string

record emit_cfg =
  em_templateSource :: string
  em_engine :: string

record spec =
  sp_sources :: "source list"
  sp_xrd :: xrd
  sp_environment :: "env_key gomap"
  sp_environmentConfigs :: "env_config list"
  sp_templates :: "string gomap"
  sp_conventions :: "convention list"
  sp_resources :: "resource list"
  sp_pipeline :: "pipeline_step list"
  sp_emit :: "emit_cfg option"

record blueprint =
  b_apiVersion :: string
  b_kind :: string
  b_metaName :: string
  b_spec :: spec

abbreviation b_xrd :: "blueprint \<Rightarrow> xrd" where "b_xrd b \<equiv> sp_xrd (b_spec b)"
abbreviation b_params :: "blueprint \<Rightarrow> parameter gomap" where "b_params b \<equiv> x_parameters (b_xrd b)"
abbreviation b_resources :: "blueprint \<Rightarrow> resource list" where "b_resources b \<equiv> sp_resources (b_spec b)"
abbreviation b_env :: "blueprint \<Rightarrow> env_key gomap" where "b_env b \<equiv> sp_environment (b_spec b)"
abbreviation b_templates :: "blueprint \<Rightarrow> string gomap" where "b_templates b \<equiv> sp_templates (b_spec b)"

section \<open>Constants\<close>

definition NativeProvider :: string where "NativeProvider = ''k8s''"
definition ClusterProvider :: string where "ClusterProvider = ''cluster''"
definition APIVersion :: string where "APIVersion = ''factory.crossplane.io/v1alpha1''"
definition Kind :: string where "Kind = ''Blueprint''"
definition TemplateSourceInline :: string where "TemplateSourceInline = ''Inline''"
definition TemplateSourceFileSystem :: string where "TemplateSourceFileSystem = ''FileSystem''"
definition EngineGoTemplating :: string where "EngineGoTemplating = ''go-templating''"
definition EngineKCL :: string where "EngineKCL = ''kcl''"
definition EnginePython :: string where "EnginePython = ''python''"
definition KCLFunctionName :: string where "KCLFunctionName = ''function-kcl''"
definition PythonFunctionName :: string where "PythonFunctionName = ''function-python''"
definition EnvironmentConfigsFunctionName :: string where
  "EnvironmentConfigsFunctionName = ''function-environment-configs''"
definition EnvironmentConfigsFunctionPackage :: string where
  "EnvironmentConfigsFunctionPackage =
     ''xpkg.crossplane.io/crossplane-contrib/function-environment-configs:v0.4.0''"

section \<open>Methods that read the document\<close>

definition TemplateSource :: "blueprint \<Rightarrow> string" where
  "TemplateSource b = (case sp_emit (b_spec b) of
     Some em \<Rightarrow> if em_templateSource em = TemplateSourceFileSystem
                then TemplateSourceFileSystem else TemplateSourceInline
   | None \<Rightarrow> TemplateSourceInline)"

definition Engine :: "blueprint \<Rightarrow> string" where
  "Engine b = (case sp_emit (b_spec b) of
     Some em \<Rightarrow> if equal_fold (em_engine em) EngineKCL then EngineKCL
                else if equal_fold (em_engine em) EnginePython then EnginePython
                else EngineGoTemplating
   | None \<Rightarrow> EngineGoTemplating)"

definition ResourceNamed :: "blueprint \<Rightarrow> string \<Rightarrow> resource option" where
  "ResourceNamed b name = find (\<lambda>r. r_name r = name) (b_resources b)"

definition HasManagedResources :: "blueprint \<Rightarrow> bool" where
  "HasManagedResources b = list_ex (\<lambda>r.
     if r_provider r = NativeProvider \<or> has_suffix (r_provider r) ''.yaml''
        \<or> has_suffix (r_provider r) ''.yml'' then False
     else \<not> list_ex (\<lambda>s. s_crds s \<noteq> [] \<and> s_crds s = r_provider r) (sp_sources (b_spec b)))
   (b_resources b)"

definition EffectiveData :: "env_config \<Rightarrow> string gomap" where
  "EffectiveData c = fold (\<lambda>(k, v) out. AList.update k v out) (c_data c)
     (fold (\<lambda>(k, v) out. AList.update k v out) (c_values c) [])"

lemma replace_all_len:
  "length new \<le> length old \<Longrightarrow> length (replace_all s old new) \<le> length s"
proof (induction s old new rule: replace_all.induct)
  case (3 c s o1 os new)
  then show ?case
    by (auto split: option.splits simp: cut_prefix_Some)
qed auto

lemma replace_all_shrinks:
  "contains s old \<Longrightarrow> length new < length old \<Longrightarrow> length (replace_all s old new) < length s"
proof (induction s old new rule: replace_all.induct)
  case (1 old new)
  then show ?case by (auto simp: contains_iff)
next
  case (3 c s o1 os new)
  show ?case
  proof (cases "cut_prefix (c # s) (o1 # os)")
    case (Some r)
    then have "c = o1" "s = os @ r" by (auto simp: cut_prefix_Some split: if_splits)
    with 3 replace_all_len [of new "o1 # os" r] show ?thesis by simp
  next
    case None
    then have "contains s (o1 # os)"
      using 3(4) unfolding contains_iff
      by (metis append_Cons append_Nil cut_prefix_append list.exhaust list.inject option.distinct(1))
    moreover have "replace_all (c # s) (o1 # os) new = c # replace_all s (o1 # os) new"
      using None by (auto split: option.splits)
    ultimately show ?thesis using 3 None by (auto split: option.splits if_splits)
  qed
qed auto

function collapse_hyphens :: "string \<Rightarrow> string" where
  "collapse_hyphens s =
     (if contains s ''--'' then collapse_hyphens (replace_all s ''--'' ''-'') else s)"
  by pat_completeness auto
termination
  by (relation "measure length") (auto intro: replace_all_shrinks)

declare collapse_hyphens.simps [simp del]

definition sanitize_rune :: "nat \<Rightarrow> char" where
  "sanitize_rune r = (if (97 \<le> r \<and> r \<le> 122) \<or> (48 \<le> r \<and> r \<le> 57) then char_of r else CHR ''-'')"

definition sanitizeEnvConfigName :: "string \<Rightarrow> string" where
  "sanitizeEnvConfigName s =
     trim_set (collapse_hyphens (map sanitize_rune (runes (to_lower s)))) ''-''"

definition selector_name :: "string gomap \<Rightarrow> string" where
  \<comment> \<open>the name given to an unnamed config with a non-empty selector\<close>
  "selector_name labels =
     go_join ''-'' (sort (filter (\<lambda>p. p \<noteq> [])
       (map (\<lambda>k. sanitizeEnvConfigName
               (k @ ''-'' @ (case map_of labels k of None \<Rightarrow> [] | Some v \<Rightarrow> v)))
         (sorted_keys labels))))"

definition effective_config :: "env_config \<Rightarrow> env_config" where
  "effective_config cfg =
     (if c_name cfg = [] then
        case c_selector cfg of
          Some labels \<Rightarrow> if labels \<noteq> [] then cfg\<lparr>c_name := selector_name labels\<rparr>
                         else cfg\<lparr>c_name := ''default''\<rparr>
        | None \<Rightarrow> cfg\<lparr>c_name := ''default''\<rparr>
      else cfg)"

definition EffectiveEnvironmentConfigs :: "blueprint \<Rightarrow> env_config list" where
  "EffectiveEnvironmentConfigs b =
     (if sp_environmentConfigs (b_spec b) \<noteq> []
      then map effective_config (sp_environmentConfigs (b_spec b))
      else if b_env b \<noteq> []
      then [\<lparr>c_name = ''default'', c_selector = None, c_data = [], c_values = []\<rparr>]
      else [])"

datatype config_entry = ByReference string | BySelector "string gomap"

definition entry_of_config :: "env_config \<Rightarrow> config_entry" where
  "entry_of_config cfg = (case c_selector cfg of
     Some labels \<Rightarrow> if labels \<noteq> [] then BySelector labels
                    else ByReference (if c_name cfg = [] then ''default'' else c_name cfg)
   | None \<Rightarrow> ByReference (if c_name cfg = [] then ''default'' else c_name cfg))"

definition no_labels :: "env_config \<Rightarrow> bool" where
  "no_labels cfg = (case c_selector cfg of None \<Rightarrow> True | Some labels \<Rightarrow> labels = [])"

definition EnvironmentConfigsInput :: "(config_entry list \<Rightarrow> string option) \<Rightarrow> string \<Rightarrow> blueprint \<Rightarrow> string" where
  \<comment> \<open>\<open>marshal\<close> is \<open>yaml.Marshal\<close> on the Input document with these entries,
      \<open>dflt\<close> the constant \<open>DefaultEnvironmentConfigsInput\<close>\<close>
  "EnvironmentConfigsInput marshal dflt b =
     (let cfgs = sp_environmentConfigs (b_spec b) in
      if cfgs = [] then dflt
      else if length cfgs = 1 \<and> no_labels (hd cfgs)
              \<and> (c_name (hd cfgs) = [] \<or> c_name (hd cfgs) = ''default'') then dflt
      else case marshal (map entry_of_config cfgs) of Some out \<Rightarrow> out | None \<Rightarrow> dflt)"

section \<open>Reference grammars\<close>

definition ParamRef :: "string \<Rightarrow> (string \<times> string) option" where
  "ParamRef ref = (case cut_prefix ref ''params.'' of
     None \<Rightarrow> None
   | Some rest \<Rightarrow> (case go_cut rest ''.'' of None \<Rightarrow> Some (rest, []) | Some pm \<Rightarrow> Some pm))"

definition EnvRef :: "string \<Rightarrow> string option" where
  "EnvRef ref = cut_prefix ref ''env.''"

definition statusRefPrefix :: string where "statusRefPrefix = ''resources.''"

definition StatusRef :: "string \<Rightarrow> (string \<times> string) option" where
  "StatusRef from = (case cut_prefix from statusRefPrefix of
     None \<Rightarrow> None
   | Some rest \<Rightarrow> (case go_cut rest ''.status.'' of
       None \<Rightarrow> None
     | Some (rname, path) \<Rightarrow> if rname = [] \<or> path = [] then None else Some (rname, path)))"

definition MetadataRef :: "string \<Rightarrow> (string \<times> string) option" where
  "MetadataRef from = (case cut_prefix from statusRefPrefix of
     None \<Rightarrow> None
   | Some rest \<Rightarrow> (case go_cut rest ''.metadata.'' of
       None \<Rightarrow> None
     | Some (rname, path) \<Rightarrow> if rname = [] \<or> path = [] then None else Some (rname, path)))"


definition rx_when_head :: rx where
  "rx_when_head = rx_seq [Grp 1 (Alt (rx_lit ''params'') (rx_lit ''env'')), rx_lit ''.'',
     Grp 2 (Cat c_alpha (Star c_alnum))]"

definition whenBareRE :: rx where
  "whenBareRE = rx_full rx_when_head"

definition whenCmpRE :: rx where
  "whenCmpRE = rx_full (rx_seq [rx_when_head, rx_lit '' '',
     Grp 3 (Alt (rx_lit ''=='') (rx_lit ''!='')), rx_lit ('' '' @ [dquote]),
     Grp 4 (Star (Cls True [r_chr dquote, r_chr bslash])), rx_lit [dquote]])"

definition ParseWhen :: "string \<Rightarrow> msg + (string \<times> string \<times> string \<times> string)" where
  \<comment> \<open>source, parameter or key, operator and literal\<close>
  "ParseWhen expr = (case submatch whenBareRE expr of
     Some m \<Rightarrow> Inr (group m 1, group m 2, [], [])
   | None \<Rightarrow> (case submatch whenCmpRE expr of
       Some m \<Rightarrow> Inr (group m 1, group m 2, group m 3, group m 4)
     | None \<Rightarrow> Inl (Msg ''when must be params.<name>/env.<key> (got %q)'' [Str expr])))"

section \<open>Status and metadata references\<close>

lemma ParamRef_Some:
  "ParamRef ref = Some (p, m) \<Longrightarrow>
     ref = ''params.'' @ p \<and> m = [] \<or> ref = ''params.'' @ p @ ''.'' @ m"
  by (auto simp: ParamRef_def cut_prefix_Some split: option.splits dest: go_cut_Some)

lemma EnvRef_Some [go_simps]: "EnvRef ref = Some k \<longleftrightarrow> ref = ''env.'' @ k"
  by (simp add: EnvRef_def cut_prefix_Some)

lemma StatusRef_Some:
  "StatusRef from = Some (rname, path) \<Longrightarrow>
     from = ''resources.'' @ rname @ ''.status.'' @ path \<and> rname \<noteq> [] \<and> path \<noteq> []"
  by (auto simp: StatusRef_def statusRefPrefix_def cut_prefix_Some
      split: option.splits if_splits dest: go_cut_Some)

lemma MetadataRef_Some:
  "MetadataRef from = Some (rname, path) \<Longrightarrow>
     from = ''resources.'' @ rname @ ''.metadata.'' @ path \<and> rname \<noteq> [] \<and> path \<noteq> []"
  by (auto simp: MetadataRef_def statusRefPrefix_def cut_prefix_Some
      split: option.splits if_splits dest: go_cut_Some)

text \<open>A name without dots is cut at the first separator, whatever the path below it holds.\<close>

lemmas go_cut_no_dot = go_cut_first [where d = "CHR ''.''"]

lemma StatusRef_build:
  assumes "CHR ''.'' \<notin> set rname" "rname \<noteq> []" "path \<noteq> []"
  shows "StatusRef (''resources.'' @ rname @ ''.status.'' @ path) = Some (rname, path)"
  using assms go_cut_no_dot [OF assms(1), of "''status.''" path]
  by (simp add: StatusRef_def statusRefPrefix_def)

lemma MetadataRef_build:
  assumes "CHR ''.'' \<notin> set rname" "rname \<noteq> []" "path \<noteq> []"
  shows "MetadataRef (''resources.'' @ rname @ ''.metadata.'' @ path) = Some (rname, path)"
  using assms go_cut_no_dot [OF assms(1), of "''metadata.''" path]
  by (simp add: MetadataRef_def statusRefPrefix_def)

lemma ParamRef_build:
  assumes "CHR ''.'' \<notin> set p"
  shows "ParamRef (''params.'' @ p @ ''.'' @ m) = Some (p, m)"
  using go_cut_no_dot [OF assms, of "[]" m]
  by (simp add: ParamRef_def)

end
