(* ===== verification/Closest.thy ===== *)
theory Closest
  imports BlueprintTypes
begin

text \<open>
  Nearest-match suggestions (\<open>internal/blueprint/closest.go\<close>). \<open>editDistance\<close> keeps the
  source's single rolling row; \<open>script\<close> is the abstract notion it must compute, the edit
  scripts between two rune lists, and \<open>editDistance_minimal\<close> shows the row yields the length
  of a shortest one.
\<close>

section \<open>Definitions\<close>

definition ed_step :: "nat list \<Rightarrow> nat list \<Rightarrow> nat \<Rightarrow> nat list \<times> nat \<Rightarrow> nat \<Rightarrow> nat list \<times> nat" where
  \<comment> \<open>the body of the inner loop: row and previous corner, at column j\<close>
  "ed_step ar br i st j = (case st of (row, prevCorner) \<Rightarrow>
     let prevAbove = row ! j;
         cost = (if ar ! (i - 1) = br ! (j - 1) then 0 else 1)
     in (row[j := min (prevAbove + 1) (min (row ! (j - 1) + 1) (prevCorner + cost))], prevAbove))"

definition ed_row :: "nat list \<Rightarrow> nat list \<Rightarrow> nat list \<Rightarrow> nat \<Rightarrow> nat list" where
  "ed_row ar br row i =
     fst (foldl (ed_step ar br i) (row[0 := i], row ! 0) [1..<length br + 1])"

definition editDistance :: "string \<Rightarrow> string \<Rightarrow> nat" where
  "editDistance a b =
     (if a = b then 0
      else let ar = runes a; br = runes b in
        if length ar = 0 then length br
        else if length br = 0 then length ar
        else let (ar, br) = (if length br > length ar then (br, ar) else (ar, br));
                 row = foldl (ed_row ar br) [0..<length br + 1] [1..<length ar + 1]
             in row ! length br)"

definition isCloseMatch :: "string \<Rightarrow> nat \<Rightarrow> bool" where
  "isCloseMatch target dist =
     (if dist \<le> 0 then True
      else if dist > 3 then False
      else if length target \<ge> 3 \<and> dist \<le> 2 then True
      else dist * 2 < length target)"

definition closest_step :: "string \<Rightarrow> string \<times> nat \<Rightarrow> string \<Rightarrow> string \<times> nat" where
  "closest_step target st c = (case st of (best, bestDist) \<Rightarrow>
     let d = editDistance target c in
     if best = [] \<or> d < bestDist then (c, d) else (best, bestDist))"

lemma last_index_less: "last_index d s = Some i \<Longrightarrow> i < length s"
  by (auto simp: last_index_def split: if_splits dest: length_pos_if_in_set)

function ClosestPath :: "string \<Rightarrow> string list \<Rightarrow> string" where
  "ClosestPath target candidates =
     (let (best, bestDist) = foldl (closest_step target) ([], 0) candidates in
      if best \<noteq> [] \<and> isCloseMatch target bestDist then best
      else case last_index CHR ''.'' target of
        None \<Rightarrow> []
      | Some idx \<Rightarrow>
          let pre = take idx target; leaf = drop (idx + 1) target;
              leafCandidates = map (\<lambda>c. trim_prefix c (pre @ ''.''))
                (filter (\<lambda>c. has_prefix c (pre @ ''.'')) candidates)
          in if leafCandidates \<noteq> [] then
               let bestLeaf = ClosestPath leaf leafCandidates in
               if bestLeaf \<noteq> [] then pre @ ''.'' @ bestLeaf else []
             else [])"
  by pat_completeness auto
termination
  by (relation "measure (\<lambda>(t, _). length t)") (auto dest: last_index_less)

declare ClosestPath.simps [simp del]

definition UnknownEnvKeyError :: "marg \<Rightarrow> string \<Rightarrow> env_key gomap \<Rightarrow> msg" where
  "UnknownEnvKeyError context key env =
     (let s = ClosestPath key (sorted_keys env) in
      if s \<noteq> [] then Msg ''%s: references unknown environment key %q; did you mean %q?''
                        [context, Str key, Str s]
      else Msg ''%s: references unknown environment key %q'' [context, Str key])"

section \<open>Edit scripts\<close>

inductive script :: "nat \<Rightarrow> 'a list \<Rightarrow> 'a list \<Rightarrow> bool" where
  Done: "script 0 [] []"
| Keep: "script n xs ys \<Longrightarrow> script n (x # xs) (x # ys)"
| Subst: "script n xs ys \<Longrightarrow> script (Suc n) (x # xs) (y # ys)"
| Ins: "script n xs ys \<Longrightarrow> script (Suc n) xs (y # ys)"
| Del: "script n xs ys \<Longrightarrow> script (Suc n) (x # xs) ys"

lemma script_refl: "script 0 xs xs"
  by (induction xs) (auto intro: script.intros)

lemma script_sym: "script n xs ys \<Longrightarrow> script n ys xs"
  by (induction rule: script.induct) (auto intro: script.intros)

lemma script_append: "script n xs ys \<Longrightarrow> script m us vs \<Longrightarrow> script (n + m) (xs @ us) (ys @ vs)"
  by (induction rule: script.induct) (auto intro: script.intros)

lemma script_rev: "script n xs ys \<Longrightarrow> script n (rev xs) (rev ys)"
proof (induction rule: script.induct)
  case Done
  show ?case by (simp add: script.Done)
next
  case (Keep n xs ys x)
  from script_append [OF Keep.IH script_refl [of "[x]"]] show ?case by simp
next
  case (Subst n xs ys x y)
  from script_append [OF Subst.IH script.Subst [OF script.Done, of x y]] show ?case by simp
next
  case (Ins n xs ys y)
  from script_append [OF Ins.IH script.Ins [OF script.Done, of y]] show ?case by simp
next
  case (Del n xs ys x)
  from script_append [OF Del.IH script.Del [OF script.Done, of x]] show ?case by simp
qed

lemma script_Nil: "script (length ys) [] ys" "script (length xs) xs []"
  by (induction ys, auto intro: script.intros, induction xs, auto intro: script.intros)

lemma script_len: "script n xs ys \<Longrightarrow> length xs \<le> n + length ys \<and> length ys \<le> n + length xs"
  by (induction rule: script.induct) auto

lemma script_zero: "script n xs ys \<Longrightarrow> n = 0 \<Longrightarrow> xs = ys"
  by (induction rule: script.induct) auto

section \<open>The table the rolling row computes\<close>

fun dist :: "'a list \<Rightarrow> 'a list \<Rightarrow> nat" where
  \<comment> \<open>cell of the table, on the reversed prefixes\<close>
  "dist [] ys = length ys"
| "dist (x # xs) [] = Suc (length xs)"
| "dist (x # xs) (y # ys) =
     min (dist xs (y # ys) + 1) (min (dist (x # xs) ys + 1) (dist xs ys + (if x = y then 0 else 1)))"

lemma script_dist: "script (dist xs ys) xs ys"
proof (induction xs ys rule: dist.induct)
  case (1 ys)
  then show ?case by (simp add: script_Nil)
next
  case (2 x xs)
  then show ?case using script_Nil(2) [of "x # xs"] by simp
next
  case (3 x xs y ys)
  have "script (dist xs ys + (if x = y then 0 else 1)) (x # xs) (y # ys)"
    using 3(3) by (auto intro: script.intros)
  moreover have "script (dist xs (y # ys) + 1) (x # xs) (y # ys)"
    using script.Del [OF 3(1), of x] by simp
  moreover have "script (dist (x # xs) ys + 1) (x # xs) (y # ys)"
    using script.Ins [OF 3(2), of y] by simp
  ultimately show ?case by (simp only: dist.simps min_def split: if_splits) auto
qed

lemma dist_minimal: "script n xs ys \<Longrightarrow> dist xs ys \<le> n"
proof (induction rule: script.induct)
  case (Ins n xs ys y)
  then show ?case by (cases xs) (auto simp: min_def)
next
  case (Del n xs ys x)
  then show ?case by (cases ys) (auto simp: min_def dest: script_len)
qed (auto simp: min_def)

definition cell :: "'a list \<Rightarrow> 'a list \<Rightarrow> nat \<Rightarrow> nat \<Rightarrow> nat" where
  "cell ar br i j = dist (rev (take i ar)) (rev (take j br))"

lemma cell_0: "j \<le> length br \<Longrightarrow> cell ar br 0 j = j"
  by (simp add: cell_def)

lemma cell_Suc_0: "i < length ar \<Longrightarrow> cell ar br (Suc i) 0 = Suc i"
  by (simp add: cell_def take_Suc_conv_app_nth)

lemma cell_Suc_Suc:
  "i < length ar \<Longrightarrow> j < length br \<Longrightarrow> cell ar br (Suc i) (Suc j) =
     min (cell ar br i (Suc j) + 1) (min (cell ar br (Suc i) j + 1)
       (cell ar br i j + (if ar ! i = br ! j then 0 else 1)))"
  by (simp add: cell_def take_Suc_conv_app_nth)

definition mixed_row :: "nat list \<Rightarrow> nat list \<Rightarrow> nat \<Rightarrow> nat \<Rightarrow> nat list" where
  \<comment> \<open>the row after column j of line i + 1: new cells up to j, old ones above\<close>
  "mixed_row ar br i j =
     map (\<lambda>k. if k \<le> j then cell ar br (Suc i) k else cell ar br i k) [0..<length br + 1]"

lemma mixed_row_length [simp]: "length (mixed_row ar br i j) = Suc (length br)"
  by (simp add: mixed_row_def del: upt_Suc)

lemma mixed_row_nth [simp]:
  "k \<le> length br \<Longrightarrow> mixed_row ar br i j ! k =
     (if k \<le> j then cell ar br (Suc i) k else cell ar br i k)"
  by (simp add: mixed_row_def del: upt_Suc)

lemma ed_step_mixed:
  assumes "i < length ar" "j < length br"
  shows "ed_step ar br (Suc i) (mixed_row ar br i j, cell ar br i j) (Suc j) =
    (mixed_row ar br i (Suc j), cell ar br i (Suc j))"
proof -
  have "(mixed_row ar br i j)[Suc j := cell ar br (Suc i) (Suc j)] = mixed_row ar br i (Suc j)"
    using assms by (intro nth_equalityI) (auto simp: nth_list_update)
  then show ?thesis
    using assms by (simp add: ed_step_def Let_def cell_Suc_Suc)
qed

lemma ed_row_cells:
  assumes "i < length ar"
  shows "ed_row ar br (map (cell ar br i) [0..<length br + 1]) (Suc i) =
    map (cell ar br (Suc i)) [0..<length br + 1]"
proof -
  let ?row = "map (cell ar br i) [0..<length br + 1]"
  have start: "?row[0 := Suc i] = mixed_row ar br i 0"
    using cell_Suc_0 [OF assms, of br]
    by (intro nth_equalityI) (auto simp: nth_list_update simp del: upt_Suc)
  have "foldl (ed_step ar br (Suc i)) (?row[0 := Suc i], ?row ! 0) [1..<j + 1] =
      (mixed_row ar br i j, cell ar br i j)" if "j \<le> length br" for j
    using that
  proof (induction j)
    case 0
    then show ?case using start by (simp del: upt_Suc)
  next
    case (Suc j)
    have "[1..<Suc j + 1] = [1..<j + 1] @ [Suc j]" by simp
    with Suc ed_step_mixed [OF assms, of j br] show ?case by (simp del: upt_Suc)
  qed
  from this [of "length br"] show ?thesis
    by (simp add: ed_row_def mixed_row_def del: upt_Suc)
qed

lemma rows_cells:
  "m \<le> length ar \<Longrightarrow> foldl (ed_row ar br) [0..<length br + 1] [1..<m + 1] =
     map (cell ar br m) [0..<length br + 1]"
proof (induction m)
  case 0
  have "[0..<length br + 1] = map (cell ar br 0) [0..<length br + 1]"
    by (intro nth_equalityI) (auto simp: cell_0 simp del: upt_Suc)
  then show ?case by simp
next
  case (Suc m)
  have "[1..<Suc m + 1] = [1..<m + 1] @ [Suc m]" by simp
  with Suc ed_row_cells [of m ar br] show ?case by (simp del: upt_Suc)
qed

lemma row_result:
  "foldl (ed_row ar br) [0..<length br + 1] [1..<length ar + 1] ! length br = dist (rev ar) (rev br)"
  by (subst rows_cells) (simp_all add: cell_def del: upt_Suc)

lemma dist_sym: "dist xs ys = dist ys xs"
  by (rule antisym) (rule dist_minimal [OF script_sym [OF script_dist]])+

lemma dist_rev: "dist (rev xs) (rev ys) = dist xs ys"
proof -
  have "dist (rev xs) (rev ys) \<le> dist xs ys" for xs ys :: "'a list"
    by (rule dist_minimal [OF script_rev [OF script_dist]])
  from this this [of "rev xs" "rev ys"] show ?thesis by (simp add: antisym)
qed

text \<open>The rolling row computes the table's last cell.\<close>

lemma editDistance_dist: "editDistance a b = dist (runes a) (runes b)"
proof -
  have same: "dist xs xs = 0" for xs :: "nat list"
    using dist_minimal [OF script_refl] by force
  have nil: "dist xs [] = length xs" for xs :: "nat list"
    by (cases xs) auto
  note rows = row_result [of "runes b" "runes a"] row_result [of "runes a" "runes b"]
  show ?thesis
  proof (cases "a = b \<or> runes a = [] \<or> runes b = []")
    case True
    then show ?thesis by (auto simp: editDistance_def Let_def same nil)
  next
    case False
    then have ne: "(a = b) = False" "(length (runes a) = 0) = False" "(length (runes b) = 0) = False"
      by auto
    have "dist (runes b) (runes a) = dist (runes a) (runes b)" by (rule dist_sym)
    then show ?thesis
      unfolding editDistance_def Let_def ne if_False
      by (cases "length (runes a) < length (runes b)")
        (simp_all only: if_True if_False prod.case rows dist_rev)
  qed
qed

section \<open>Suggestions\<close>

lemma closest_fold:
  "foldl (closest_step t) (b, d) cs = (best, bd) \<Longrightarrow> best \<in> insert b (set cs)"
  by (induction cs arbitrary: b d)
    (fastforce simp: closest_step_def Let_def split: if_splits)+

lemma ClosestPath_mem: "ClosestPath t cs \<noteq> [] \<Longrightarrow> ClosestPath t cs \<in> set cs"
proof (induction t cs rule: ClosestPath.induct)
  case (1 t cs)
  obtain best bd where fold: "foldl (closest_step t) ([], 0) cs = (best, bd)" by force
  show ?case
  proof (cases "best \<noteq> [] \<and> isCloseMatch t bd")
    case True
    then have "ClosestPath t cs = best"
      using fold by (subst ClosestPath.simps) simp
    with closest_fold [OF fold] True show ?thesis by auto
  next
    case False
    with 1(2) fold obtain idx where idx: "last_index CHR ''.'' t = Some idx"
      by (subst (asm) ClosestPath.simps) (auto split: option.splits)
    let ?pre = "take idx t @ ''.''"
    let ?cs = "map (\<lambda>c. trim_prefix c ?pre) (filter (\<lambda>c. has_prefix c ?pre) cs)"
    let ?leaf = "ClosestPath (drop (idx + 1) t) ?cs"
    have unf: "ClosestPath t cs = (if ?cs \<noteq> [] then if ?leaf \<noteq> [] then ?pre @ ?leaf else [] else [])"
      using False fold idx by (subst ClosestPath.simps) (auto simp: Let_def)
    with 1(2) have ne: "?cs \<noteq> []" "?leaf \<noteq> []" by presburger+
    with unf have eq: "ClosestPath t cs = ?pre @ ?leaf" by simp
    have "?leaf \<in> set ?cs"
      using "1.IH" [OF fold [symmetric] refl _ idx refl refl refl] False ne by blast
    then obtain c where "c \<in> set cs" "has_prefix c ?pre" and leaf: "?leaf = trim_prefix c ?pre"
      unfolding set_map set_filter by blast
    then obtain r where r: "cut_prefix c ?pre = Some r" by (auto simp: has_prefix_def)
    then have "c = ?pre @ ?leaf"
      unfolding leaf by (simp add: trim_prefix_def) (simp add: cut_prefix_Some)
    with eq \<open>c \<in> set cs\<close> show ?thesis by simp
  qed
qed

section \<open>Properties\<close>

text \<open>C19: The single rolling row of \<open>editDistance\<close> computes the edit distance of the two
  rune sequences: there is an edit script of that length, and none shorter.\<close>

theorem editDistance_minimal:
  "script (editDistance a b) (runes a) (runes b) \<and>
   (\<forall>n. script n (runes a) (runes b) \<longrightarrow> editDistance a b \<le> n)"
  unfolding editDistance_dist using script_dist dist_minimal by blast

theorem editDistance_minimal_witness:
  "editDistance ''zone'' ''zones'' \<le> 1"
proof -
  have r: "runes ''zone'' = [122, 111, 110, 101]" "runes ''zones'' = [122, 111, 110, 101, 115]"
    by code_simp+
  have "script 1 [122, 111, 110, 101] [122, 111, 110, 101, 115 :: nat]"
    using script.Ins [OF script.Done, of 115] by (intro script.Keep) simp
  then show ?thesis using editDistance_minimal [of "''zone''" "''zones''"] by (simp add: r)
qed

text \<open>A suggestion is never invented: whatever \<open>ClosestPath\<close> returns for a mistyped
  path, through however many dotted levels, is one of the candidates it was given.\<close>

theorem ClosestPath_candidate:
  assumes "ClosestPath target candidates \<noteq> []"
  shows "ClosestPath target candidates \<in> set candidates"
  using assms by (rule ClosestPath_mem)

theorem ClosestPath_candidate_witness:
  "ClosestPath ''zon'' [''id'', ''zone''] = ''zone'' \<and> ClosestPath ''zon'' [''id'', ''zone''] \<in> set [''id'', ''zone'']"
proof -
  have e: "ClosestPath ''zon'' [''id'', ''zone''] = ''zone''" by code_simp
  show ?thesis using ClosestPath_candidate [of "''zon''" "[''id'', ''zone'']"] e by simp
qed

end
