(* ===== verification/Refs.thy ===== *)
theory Refs
  imports BlueprintTypes
begin

text \<open>
  Parsed references (\<open>internal/blueprint/refs.go\<close>), field paths (\<open>ParseFieldPath\<close> in
  \<open>load.go\<close>) and bare Go-template expressions (\<open>raw.go\<close>), with the round trip between a
  reference's written form and its parsed one.
\<close>

section \<open>ParseFrom\<close>

record from_ref =
  fr_param :: string
  fr_env :: string
  fr_resource :: string
  fr_statusPath :: "string list"
  fr_metadataPath :: string

definition no_ref :: from_ref where
  "no_ref = \<lparr>fr_param = [], fr_env = [], fr_resource = [], fr_statusPath = [], fr_metadataPath = []\<rparr>"

definition IsMetadataName :: "from_ref \<Rightarrow> bool" where
  "IsMetadataName r \<longleftrightarrow> fr_resource r \<noteq> [] \<and> fr_metadataPath r = ''name''"

definition parse_resource_ref :: "string \<Rightarrow> string \<Rightarrow> msg + from_ref" where
  \<comment> \<open>the \<open>resources.\<close> branch: \<open>s\<close> is the whole reference, \<open>rest\<close> what follows the prefix\<close>
  "parse_resource_ref s rest =
     (case cut_suffix rest ''.metadata.name'' of
        Some name \<Rightarrow>
          if \<not> match_string resourceNameRE name
          then Inl (Msg ''from: %q is not a valid resource name in a resources.<name>.metadata.name reference''
                 [Str name])
          else Inr (no_ref\<lparr>fr_resource := name, fr_metadataPath := ''name''\<rparr>)
      | None \<Rightarrow>
          (case go_cut rest ''.status.'' of
             None \<Rightarrow> Inl (Msg ''from: %q must be resources.<name>.status.<path>'' [Str s])
           | Some (name, path) \<Rightarrow>
               if path = []
               then Inl (Msg ''from: %q must be resources.<name>.status.<path>'' [Str s])
               else if \<not> match_string resourceNameRE name
               then Inl (Msg ''from: %q is not a valid resource name in a resources.<name>.status.<path> reference''
                      [Str name])
               else let parts = split_on CHR ''.'' path in
                 (case check_all (\<lambda>seg. refuse (\<not> match_string statusSegmentRE seg)
                      (Msg ''from: status path segment %q in %q is not a template identifier''
                        [Str seg, Str s])) parts of
                    Some e \<Rightarrow> Inl e
                  | None \<Rightarrow> Inr (no_ref\<lparr>fr_resource := name, fr_statusPath := parts\<rparr>))))"

definition ParseFrom :: "string \<Rightarrow> msg + from_ref" where
  "ParseFrom s =
     (case cut_prefix s ''params.'' of
        Some param \<Rightarrow> Inr (no_ref\<lparr>fr_param := param\<rparr>)
      | None \<Rightarrow>
     (case EnvRef s of
        Some envKey \<Rightarrow>
          if envKey = [] then Inl (Msg ''from: %q is missing an environment key name'' [Str s])
          else if \<not> match_string paramNameRE envKey
          then Inl (Msg ''from: %q is not a valid environment key name'' [Str s])
          else Inr (no_ref\<lparr>fr_env := envKey\<rparr>)
      | None \<Rightarrow>
     (case cut_prefix s ''resources.'' of
        Some rest \<Rightarrow> parse_resource_ref s rest
      | None \<Rightarrow> Inl (Msg ''from must start with params.<name>, params.<name>.<member>, env.<key>, resources.<name>.status.<path> or resources.<name>.metadata.name (got %q)''
                   [Str s]))))"

section \<open>ParseFieldPath\<close>

definition isDigits :: "string \<Rightarrow> bool" where
  "isDigits s = (if s = [] then False else list_all (\<lambda>r. 48 \<le> r \<and> r \<le> 57) (runes s))"

definition quotes :: string where "quotes = [dquote, CHR 0x27]"

definition ParseFieldPath :: "string \<Rightarrow> string \<times> string \<times> bool" where
  "ParseFieldPath p =
     (if has_suffix p '']''
      then case last_index CHR ''['' p of
             Some idx \<Rightarrow>
               if idx > 0 then
                 let inner = drop (idx + 1) (butlast p) in
                 if inner \<noteq> ''0'' \<and> \<not> isDigits inner
                 then (take idx p, trim_set inner quotes, True)
                 else (p, [], False)
               else (p, [], False)
           | None \<Rightarrow> (p, [], False)
      else (p, [], False))"

section \<open>Bare Go-template expressions\<close>

definition templateVarRE :: rx where
  "templateVarRE = Cat (Cls False [r_chr CHR ''$'']) (Cls False [r_lower, r_upper, r_under])"

definition templateFuncs :: "string list" where
  "templateFuncs = [''printf'', ''quote'', ''squote'', ''b64enc'', ''b64dec'', ''hasKey'', ''default'',
     ''coalesce'', ''ternary'', ''lower'', ''upper'', ''trim'', ''indent'', ''nindent'',
     ''int'', ''float64'', ''bool'', ''list'', ''dict'', ''until'', ''cat'', ''replace'',
     ''regexMatch'', ''toJson'', ''toYaml'', ''fromYaml'', ''fromJson'', ''include'',
     ''setResourceNameAnnotation'', ''dig'']"

definition IsBareGoTemplateExpr :: "string \<Rightarrow> bool" where
  "IsBareGoTemplateExpr s0 =
     (let s = trim_space s0 in
      if s = [] \<or> contains s ''{{'' then False
      else if match_string templateVarRE s then True
      else list_ex (\<lambda>fn. has_prefix s (fn @ '' '') \<or> has_prefix s (fn @ ''('') \<or> s = fn) templateFuncs)"

definition NormalizeRawGoTemplate :: "string \<Rightarrow> string" where
  "NormalizeRawGoTemplate raw =
     (let rawTrim = trim_space raw in
      if IsBareGoTemplateExpr rawTrim then ''{{ '' @ rawTrim @ '' }}'' else raw)"

section \<open>Written and parsed references\<close>

definition print_ref :: "from_ref \<Rightarrow> string" where
  "print_ref r =
     (if fr_resource r \<noteq> [] then
        if fr_metadataPath r \<noteq> [] then ''resources.'' @ fr_resource r @ ''.metadata.'' @ fr_metadataPath r
        else ''resources.'' @ fr_resource r @ ''.status.'' @ go_join ''.'' (fr_statusPath r)
      else if fr_env r \<noteq> [] then ''env.'' @ fr_env r
      else ''params.'' @ fr_param r)"

lemma ParseFrom_param: "ParseFrom (''params.'' @ p) = Inr (no_ref\<lparr>fr_param := p\<rparr>)"
  by (simp add: ParseFrom_def)

lemma ParseFrom_resources: "ParseFrom (''resources.'' @ rest) = parse_resource_ref (''resources.'' @ rest) rest"
  by (simp add: ParseFrom_def EnvRef_def)

lemma parse_resource_ref_cases:
  assumes "parse_resource_ref s rest = Inr r"
  obtains (Meta) n where "rest = n @ ''.metadata.name''" "dns_label n"
      "r = no_ref\<lparr>fr_resource := n, fr_metadataPath := ''name''\<rparr>"
    | (Status) n path where "rest = n @ ''.status.'' @ path" "dns_label n"
      "path \<noteq> []" "\<forall>seg \<in> set (split_on CHR ''.'' path). match_string statusSegmentRE seg"
      "r = no_ref\<lparr>fr_resource := n, fr_statusPath := split_on CHR ''.'' path\<rparr>"
proof (cases "cut_suffix rest ''.metadata.name''")
  case (Some n)
  then have "rest = n @ ''.metadata.name''" by (simp only: cut_suffix_Some)
  with assms Some Meta show ?thesis
    by (auto simp: parse_resource_ref_def resourceName_shape split: if_splits)
next
  case None
  with assms obtain n path where cut: "go_cut rest ''.status.'' = Some (n, path)"
    by (auto simp: parse_resource_ref_def split: option.splits)
  with assms None show ?thesis
    using go_cut_Some [OF cut] Status
    by (auto simp: parse_resource_ref_def Let_def check_all_None refuse_None resourceName_shape
        split: option.splits if_splits)
qed

lemma dns_label_ne: "dns_label n \<Longrightarrow> n \<noteq> []"
  by (simp add: dns_label_def)

text \<open>A parsed reference prints back to the string it was read from.\<close>

lemma ParseFrom_print:
  assumes "ParseFrom s = Inr r"
  shows "print_ref r = s"
proof (cases "cut_prefix s ''params.''")
  case (Some p)
  then have s: "s = ''params.'' @ p" by (simp only: cut_prefix_Some)
  from assms have "r = no_ref\<lparr>fr_param := p\<rparr>" unfolding s ParseFrom_param by simp
  then show ?thesis by (simp add: s print_ref_def no_ref_def)
next
  case no_param: None
  show ?thesis
  proof (cases "EnvRef s")
    case (Some k)
    then have "s = ''env.'' @ k" by (simp only: EnvRef_Some)
    moreover from assms no_param Some have "r = no_ref\<lparr>fr_env := k\<rparr>" "k \<noteq> []"
      by (auto simp: ParseFrom_def split: if_splits)
    ultimately show ?thesis by (simp add: print_ref_def no_ref_def)
  next
    case None
    with assms no_param obtain rest where rest: "cut_prefix s ''resources.'' = Some rest"
        and parse: "parse_resource_ref s rest = Inr r"
      by (auto simp: ParseFrom_def split: option.splits)
    from rest have s: "s = ''resources.'' @ rest" by (simp only: cut_prefix_Some)
    from parse show ?thesis
      by (cases rule: parse_resource_ref_cases)
        (auto simp: s print_ref_def no_ref_def go_join_split_on dest: dns_label_ne)
  qed
qed

lemma statusSegment_no_dot:
  assumes "match_string statusSegmentRE s"
  shows "CHR ''.'' \<notin> set s" "s \<noteq> []"
proof -
  from assms obtain c t where "s = c # t" "in_ranges [r_lower, r_upper, r_under] (code_of c)"
      "list_all (\<lambda>c. in_ranges [r_lower, r_upper, r_digit, r_under] (code_of c)) t"
    unfolding statusSegmentRE_def by (subst (asm) match_full) (auto simp: matches_Cls_Star_Cls)
  then show "CHR ''.'' \<notin> set s" "s \<noteq> []" by (auto simp: list_all_iff in_ranges_def)
qed

lemma paramName_statusSegment:
  "match_string paramNameRE s \<Longrightarrow> match_string statusSegmentRE s"
  unfolding paramName_shape statusSegmentRE_def
  by (subst match_full) (auto simp: matches_Cls_Star_Cls is_alpha_def is_alnum_def in_ranges_def
      list_all_iff)

text \<open>A status reference whose path does not end in \<open>metadata.name\<close> reads back.\<close>

lemma ParseFrom_status:
  assumes "dns_label n" "ss \<noteq> []" "\<forall>s \<in> set ss. match_string statusSegmentRE s"
    and "\<not> suffix ''.metadata.name'' (n @ ''.status.'' @ go_join ''.'' ss)"
  shows "ParseFrom (''resources.'' @ n @ ''.status.'' @ go_join ''.'' ss) =
    Inr (no_ref\<lparr>fr_resource := n, fr_statusPath := ss\<rparr>)"
proof -
  have nd: "CHR ''.'' \<notin> set n" using assms(1) by (rule dns_label_no_dot)
  have cut: "go_cut (n @ ''.status.'' @ go_join ''.'' ss) ''.status.'' = Some (n, go_join ''.'' ss)"
    using go_cut_no_dot [OF nd, of "''status.''" "go_join ''.'' ss"] by simp
  have sp: "split_on CHR ''.'' (go_join ''.'' ss) = ss"
    using assms(2,3) statusSegment_no_dot(1) by (intro split_on_join) blast+
  have ne: "go_join ''.'' ss \<noteq> []"
    using assms(2,3) statusSegment_no_dot(2) by (cases ss rule: list.exhaust; cases "tl ss") auto
  have suf: "cut_suffix (n @ ''.status.'' @ go_join ''.'' ss) ''.metadata.name'' = None"
    using assms(4) by (simp only: cut_suffix_None not_False_eq_True)
  have seg: "check_all (\<lambda>seg. refuse (\<not> match_string statusSegmentRE seg) (e seg)) ss = None" for e
    using assms(3) by (simp add: check_all_None refuse_None)
  show ?thesis
    unfolding ParseFrom_resources parse_resource_ref_def cut suf
    using sp ne assms(1) by (simp add: seg resourceName_shape Let_def)
qed

text \<open>The parsed form agrees with the two string-level readers of the same grammar.\<close>

lemma ParseFrom_resource_cases:
  assumes "ParseFrom s = Inr r" "fr_resource r \<noteq> []"
  obtains (Meta) n where "s = ''resources.'' @ n @ ''.metadata.name''" "dns_label n"
      "r = no_ref\<lparr>fr_resource := n, fr_metadataPath := ''name''\<rparr>"
    | (Status) n path where "s = ''resources.'' @ n @ ''.status.'' @ path" "dns_label n" "path \<noteq> []"
      "r = no_ref\<lparr>fr_resource := n, fr_statusPath := split_on CHR ''.'' path\<rparr>"
proof -
  from assms obtain rest where "cut_prefix s ''resources.'' = Some rest"
      and parse: "parse_resource_ref s rest = Inr r"
    by (auto simp: ParseFrom_def no_ref_def split: option.splits if_splits)
  then have "s = ''resources.'' @ rest" by (simp only: cut_prefix_Some)
  with parse Meta Status show ?thesis
    by (cases rule: parse_resource_ref_cases) auto
qed

lemma ParseFrom_StatusRef:
  assumes "ParseFrom s = Inr r" "fr_resource r \<noteq> []" "fr_metadataPath r \<noteq> ''name''"
  shows "StatusRef s = Some (fr_resource r, go_join ''.'' (fr_statusPath r)) \<and> dns_label (fr_resource r)"
  using assms(1,2)
proof (cases rule: ParseFrom_resource_cases)
  case (Meta n)
  with assms(3) show ?thesis by simp
next
  case (Status n path)
  then show ?thesis
    using StatusRef_build [OF dns_label_no_dot dns_label_ne, of n path]
    by (simp add: go_join_split_on no_ref_def)
qed

lemma ParseFrom_MetadataRef:
  assumes "ParseFrom s = Inr r" "fr_resource r \<noteq> []" "fr_metadataPath r = ''name''"
  shows "MetadataRef s = Some (fr_resource r, ''name'') \<and> dns_label (fr_resource r)"
  using assms(1,2)
proof (cases rule: ParseFrom_resource_cases)
  case (Meta n)
  then show ?thesis
    using MetadataRef_build [OF dns_label_no_dot dns_label_ne, of n "''name''"]
    by (simp add: no_ref_def)
next
  case (Status n path)
  with assms(3) show ?thesis by (simp add: no_ref_def)
qed

section \<open>Properties\<close>

text \<open>C21: Parsing a reference loses nothing: the parsed form, written back in the grammar,
  is the string that was read.\<close>

theorem ParseFrom_roundtrip:
  assumes "ParseFrom s = Inr r"
  shows "print_ref r = s"
  using assms by (rule ParseFrom_print)

theorem ParseFrom_roundtrip_witness:
  "print_ref (no_ref\<lparr>fr_resource := ''main-queue'', fr_statusPath := [''atProvider'', ''url'']\<rparr>) =
     ''resources.main-queue.status.atProvider.url''"
  by (rule ParseFrom_roundtrip) code_simp

text \<open>C22: Every written status reference reads back: for a DNS-label name and identifier
  segments, \<open>ParseFrom\<close> returns exactly that name and those segments, unless the text ends
  in \<open>.metadata.name\<close>, which the parser takes for the other form.\<close>

theorem ParseFrom_status_complete:
  assumes "dns_label n" "ss \<noteq> []" "\<forall>s \<in> set ss. match_string statusSegmentRE s"
    and "\<not> suffix ''.metadata.name'' (n @ ''.status.'' @ go_join ''.'' ss)"
  shows "ParseFrom (''resources.'' @ n @ ''.status.'' @ go_join ''.'' ss) =
    Inr (no_ref\<lparr>fr_resource := n, fr_statusPath := ss\<rparr>)"
  using assms by (rule ParseFrom_status)

theorem ParseFrom_status_complete_witness:
  "ParseFrom (''resources.'' @ ''db'' @ ''.status.'' @ go_join ''.'' [''atProvider'', ''id'']) =
    Inr (no_ref\<lparr>fr_resource := ''db'', fr_statusPath := [''atProvider'', ''id'']\<rparr>)"
  by (rule ParseFrom_status_complete) code_simp+

end
