(* ===== verification/GoFloat.thy ===== *)
theory GoFloat
  imports GoString
begin

text \<open>
  When \<open>strconv.ParseFloat(s, 64)\<close> returns a finite value and no error: the decimal and
  hexadecimal floating-point syntax with digit separators, read exactly, and the range check
  of the IEEE double (a value that rounds past the largest finite double is a range error).
  The words for infinities and NaN parse in Go but are refused by every caller, so they are
  refused here.
\<close>

definition lower_byte :: "char \<Rightarrow> nat" where
  "lower_byte c = (if 65 \<le> code_of c \<and> code_of c \<le> 90 then code_of c + 32 else code_of c)"

definition hex_letter :: "char \<Rightarrow> bool" where
  "hex_letter c \<longleftrightarrow> 97 \<le> lower_byte c \<and> lower_byte c \<le> 102"

record mant =
  m_value :: nat
  m_frac :: nat
  m_dot :: bool
  m_digits :: bool
  m_under :: bool

definition add_digit :: "nat \<Rightarrow> nat \<Rightarrow> mant \<Rightarrow> mant" where
  "add_digit base d m = m\<lparr>m_value := m_value m * base + d, m_digits := True,
     m_frac := (if m_dot m then m_frac m + 1 else m_frac m)\<rparr>"

fun scan_mant :: "nat \<Rightarrow> mant \<Rightarrow> string \<Rightarrow> mant \<times> string" where
  "scan_mant base m [] = (m, [])"
| "scan_mant base m (c # s) =
     (if c = CHR ''_'' then scan_mant base (m\<lparr>m_under := True\<rparr>) s
      else if c = CHR ''.'' then
        (if m_dot m then (m, c # s) else scan_mant base (m\<lparr>m_dot := True\<rparr>) s)
      else if is_digit c then scan_mant base (add_digit base (code_of c - 48) m) s
      else if base = 16 \<and> hex_letter c
        then scan_mant base (add_digit base (lower_byte c - 97 + 10) m) s
      else (m, c # s))"

fun scan_exp :: "nat \<Rightarrow> bool \<Rightarrow> string \<Rightarrow> nat \<times> bool \<times> string" where
  "scan_exp e usc [] = (e, usc, [])"
| "scan_exp e usc (c # s) =
     (if is_digit c then scan_exp (if e < 10000 then e * 10 + (code_of c - 48) else e) usc s
      else if c = CHR ''_'' then scan_exp e True s
      else (e, usc, c # s))"

datatype seen = Start | Digit | Under | Other

fun underscore_run :: "bool \<Rightarrow> seen \<Rightarrow> string \<Rightarrow> bool" where
  "underscore_run hex i [] = (i \<noteq> Under)"
| "underscore_run hex i (c # s) =
     (if is_digit c \<or> (hex \<and> hex_letter c) then underscore_run hex Digit s
      else if c = CHR ''_'' then (if i \<noteq> Digit then False else underscore_run hex Under s)
      else if i = Under then False else underscore_run hex Other s)"

definition drop_sign :: "string \<Rightarrow> string" where
  "drop_sign s = (case s of [] \<Rightarrow> [] | c # r \<Rightarrow> if c = CHR ''+'' \<or> c = CHR ''-'' then r else s)"

definition underscoreOK :: "string \<Rightarrow> bool" where
  "underscoreOK s = (case drop_sign s of
     c0 # c1 # r \<Rightarrow>
       if c0 = CHR ''0'' \<and> lower_byte c1 \<in> {98, 111, 120}
       then underscore_run (lower_byte c1 = 120) Digit r
       else underscore_run False Start (c0 # c1 # r)
   | r \<Rightarrow> underscore_run False Start r)"

definition finite_double :: "nat \<Rightarrow> nat \<Rightarrow> int \<Rightarrow> bool" where
  "finite_double M b E =
     (if E \<ge> 0 then M * b ^ nat E < 2 ^ 1024 - 2 ^ 970
      else M < (2 ^ 1024 - 2 ^ 970) * b ^ nat (- E))"

definition is_hex_prefix :: "string \<Rightarrow> bool" where
  "is_hex_prefix s = (case s of c0 # c1 # c2 # r \<Rightarrow> c0 = CHR ''0'' \<and> lower_byte c1 = 120 | _ \<Rightarrow> False)"

definition finite_float :: "string \<Rightarrow> bool" where
  "finite_float s =
     (let s0 = drop_sign s;
          hex = is_hex_prefix s0;
          base = (if hex then 16 else 10);
          (m, rest) = scan_mant base \<lparr>m_value = 0, m_frac = 0, m_dot = False, m_digits = False,
                                     m_under = False\<rparr> (if hex then drop 2 s0 else s0);
          shift = (if hex then 4 * int (m_frac m) else int (m_frac m));
          eb = (if hex then 2 else 10)
      in if \<not> m_digits m then False
         else case rest of
           [] \<Rightarrow> \<not> hex \<and> (m_under m \<longrightarrow> underscoreOK s) \<and> finite_double (m_value m) eb (- shift)
         | c # r \<Rightarrow>
             if lower_byte c \<noteq> (if hex then 112 else 101) then False
             else (let neg = (r \<noteq> [] \<and> hd r = CHR ''-''); r' = drop_sign r in
               if r' = [] \<or> \<not> is_digit (hd r') then False
               else (let (e, usc, r'') = scan_exp 0 (m_under m) r' in
                 r'' = [] \<and> (usc \<longrightarrow> underscoreOK s) \<and>
                 finite_double (m_value m) eb ((if neg then - int e else int e) - shift))))"

end
