(* ===== verification/Params.thy ===== *)
theory Params
  imports Refs GoFloat
begin

text \<open>
  Parameter declarations (\<open>internal/blueprint/load.go\<close>): the scalar rules shared by
  parameters, object members and status fields, the recursive member validator, and the
  walk of a dotted reference through the declared parameter tree.
\<close>

section \<open>Types a parameter may declare\<close>

definition validTypes :: "string list" where
  "validTypes = [''string'', ''integer'', ''number'', ''boolean'', ''object'']"

definition compositeTypes :: "string list" where
  "compositeTypes = [''object'', ''array'']"

definition memberTypes :: "string list" where
  "memberTypes = [''string'', ''integer'', ''number'', ''boolean'']"

section \<open>Scalar declarations\<close>

definition scalar_entry_check :: "string \<Rightarrow> string \<Rightarrow> string \<Rightarrow> string \<Rightarrow> msg option" where
  \<comment> \<open>one enum entry or default against the declared type; \<open>what\<close> is the noun in the error\<close>
  "scalar_entry_check what fieldPath typ e =
     (if typ = ''boolean'' then
        refuse (e \<noteq> ''true'' \<and> e \<noteq> ''false'')
          (Msg (''%s: '' @ what @ '' %q is not a valid boolean'') [Str fieldPath, Str e])
      else if typ = ''integer'' then
        refuse (parse_int64 e = None)
          (Msg (''%s: '' @ what @ '' %q is not a valid integer'') [Str fieldPath, Str e])
      else if typ = ''number'' then
        refuse (\<not> finite_float e)
          (Msg (''%s: '' @ what @ '' %q is not a valid number (NaN and Inf are refused)'')
            [Str fieldPath, Str e])
      else None)"

definition validateParameterScalars :: "string \<Rightarrow> parameter \<Rightarrow> msg option" where
  "validateParameterScalars fieldPath p = first_error
     [checkScalar (Str (fieldPath @ ''.description'')) (p_description p),
      checkScalar (Str (fieldPath @ ''.default'')) (p_default p),
      check_all (\<lambda>(i, e). checkScalar (Str (fieldPath @ ''.enum['' @ itoa i @ '']'')) e)
        (List.enumerate 0 (p_enum p)),
      if p_enum p \<noteq> [] then
        if p_type p = ''object'' \<or> p_type p = ''array''
        then Some (Msg ''%s: enum is not valid for type %q'' [Str fieldPath, Str (p_type p)])
        else check_all (scalar_entry_check ''enum entry'' fieldPath (p_type p)) (p_enum p)
      else None,
      if p_default p \<noteq> [] then first_error
        [if p_type p = ''object'' \<or> p_type p = ''array''
         then Some (Msg ''%s: default is not valid for type %q'' [Str fieldPath, Str (p_type p)])
         else scalar_entry_check ''default'' fieldPath (p_type p) (p_default p),
         refuse (p_enum p \<noteq> [] \<and> p_default p \<notin> set (p_enum p))
           (Msg ''%s: default %q is not in enum %v'' [Str fieldPath, Str (p_default p), Strs (p_enum p)])]
      else None]"

section \<open>Object members\<close>

lemma size_member: "(k, v) \<in> set (p_properties p) \<Longrightarrow> size v < size p"
proof (cases p)
  case (Parameter t r e d ds props f)
  assume "(k, v) \<in> set (p_properties p)"
  with Parameter have "(k, v) \<in> set props" by simp
  then have "size v < size_list (\<lambda>x. Suc (size (snd x))) props"
    by (induction props) auto
  with Parameter show ?thesis by (simp add: size_prod_simp)
qed

function validateParameterMembers :: "string \<Rightarrow> parameter \<Rightarrow> msg option" where
  "validateParameterMembers paramPath p = check_map (\<lambda>m mp.
     let mPath = paramPath @ ''.properties.'' @ m in
     if \<not> match_string paramNameRE m \<or> to_lower m \<in> set yamlParamKeywords
     then Some (Msg ''%s: invalid member name'' [Str mPath])
     else if p_type mp = ''object'' then
       if p_default mp \<noteq> [] \<or> p_enum mp \<noteq> []
       then Some (Msg ''%s: an object member takes no default or enum'' [Str mPath])
       else validateParameterMembers mPath mp
     else if p_from mp \<noteq> []
     then Some (Msg ''%s: from is not supported on input parameters'' [Str mPath])
     else if p_properties mp \<noteq> []
     then Some (Msg ''%s: properties are only valid on type: object members (this member is %q)''
            [Str mPath, Str (p_type mp)])
     else if p_type mp \<notin> set memberTypes then
       if p_type mp = ''array''
       then Some (Msg ''%s: member type array is not supported'' [Str mPath])
       else Some (Msg ''%s: unknown type %q'' [Str mPath, Str (p_type mp)])
     else validateParameterScalars mPath mp) (p_properties p)"
  by pat_completeness auto
termination
  by (relation "measure (\<lambda>(_, p). size p)") (auto dest: size_member)

declare validateParameterMembers.simps [simp del]

section \<open>Walking a dotted reference\<close>

definition sortedMemberNames :: "parameter \<Rightarrow> string list" where
  "sortedMemberNames p = sorted_keys (p_properties p)"

fun param_walk :: "marg \<Rightarrow> string list \<Rightarrow> parameter \<Rightarrow> string list \<Rightarrow> msg + parameter list" where
  \<comment> \<open>the loop of \<open>ParamChain\<close>: segments already walked, the declaration there, those left\<close>
  "param_walk ctx walked cur [] = Inr []"
| "param_walk ctx walked cur (seg # rest) =
     (let at = go_join ''.'' walked in
      if p_type cur \<noteq> ''object''
      then Inl (Msg ''%s: params.%s has type %q, not object'' [ctx, Str at, Str (p_type cur)])
      else if p_properties cur = []
      then Inl (Msg ''%s: params.%s declares no properties'' [ctx, Str at])
      else case map_of (p_properties cur) seg of
        None \<Rightarrow> Inl (Msg ''%s: references unknown member %q of params.%s (declared members: %s)''
                 [ctx, Str seg, Str at, Strs (sortedMemberNames cur)])
      | Some m \<Rightarrow> (case param_walk ctx (walked @ [seg]) m rest of
          Inl e \<Rightarrow> Inl e | Inr chain \<Rightarrow> Inr (m # chain)))"

definition ParamChain :: "xrd \<Rightarrow> marg \<Rightarrow> string \<Rightarrow> msg + (string list \<times> parameter list)" where
  "ParamChain x ctx ref =
     (let parts = split_on CHR ''.'' ref in
      case map_of (x_parameters x) (hd parts) of
        None \<Rightarrow> Inl (Msg ''%s: references unknown parameter %q'' [ctx, Str (hd parts)])
      | Some decl \<Rightarrow> (case param_walk ctx [hd parts] decl (tl parts) of
          Inl e \<Rightarrow> Inl e | Inr chain \<Rightarrow> Inr (parts, decl # chain)))"

definition resolveParamRef :: "xrd \<Rightarrow> marg \<Rightarrow> string \<Rightarrow> msg + parameter" where
  "resolveParamRef x ctx ref = (case ParamChain x ctx ref of
     Inl e \<Rightarrow> Inl e | Inr (_, chain) \<Rightarrow> Inr (last chain))"

section \<open>The declared tree as a nested environment\<close>

fun lookup_path :: "parameter gomap \<Rightarrow> string list \<Rightarrow> parameter option" where
  \<comment> \<open>what a path names in the tree of typed objects\<close>
  "lookup_path m [] = None"
| "lookup_path m [seg] = map_of m seg"
| "lookup_path m (seg # s2 # path) = (case map_of m seg of
     None \<Rightarrow> None
   | Some p \<Rightarrow> if p_type p = ''object'' then lookup_path (p_properties p) (s2 # path) else None)"

lemma param_walk_lookup:
  "map_of m seg = Some cur \<Longrightarrow>
   (case param_walk ctx walked cur path of
      Inl e \<Rightarrow> lookup_path m (seg # path) = None
    | Inr chain \<Rightarrow> lookup_path m (seg # path) = Some (last (cur # chain)) \<and> length chain = length path)"
proof (induction path arbitrary: m seg cur walked)
  case Nil
  then show ?case by simp
next
  case (Cons s2 path)
  show ?case
  proof (cases "map_of (p_properties cur) s2")
    case None
    with Cons.prems show ?thesis by (cases path) (auto simp: Let_def)
  next
    case (Some m2)
    then have "p_properties cur \<noteq> []" by auto
    with Some Cons.prems Cons.IH [OF Some, of "walked @ [s2]"] show ?thesis
      by (auto simp: Let_def split: sum.splits)
  qed
qed

text \<open>The walk succeeds exactly on the paths the declared tree defines.\<close>

lemma resolveParamRef_lookup:
  "resolveParamRef x ctx ref =
     (case lookup_path (x_parameters x) (split_on CHR ''.'' ref) of
        Some p \<Rightarrow> Inr p
      | None \<Rightarrow> Inl (projl (ParamChain x ctx ref)))"
proof -
  obtain seg path where sp: "split_on CHR ''.'' ref = seg # path"
    by (cases "split_on CHR ''.'' ref") auto
  show ?thesis
  proof (cases "map_of (x_parameters x) seg")
    case None
    then show ?thesis using sp
      by (cases path) (auto simp: resolveParamRef_def ParamChain_def)
  next
    case (Some decl)
    from param_walk_lookup [OF Some, where ctx = ctx and walked = "[seg]" and path = path] Some sp show ?thesis
      by (auto simp: resolveParamRef_def ParamChain_def split: sum.splits)
  qed
qed

lemma resolveParamRef_Inr:
  "resolveParamRef x ctx ref = Inr p \<longleftrightarrow>
     lookup_path (x_parameters x) (split_on CHR ''.'' ref) = Some p"
  by (auto simp: resolveParamRef_lookup split: option.splits)

section \<open>What the scalar rules accept\<close>

definition scalar_value_ok :: "string \<Rightarrow> string \<Rightarrow> bool" where
  "scalar_value_ok typ e \<longleftrightarrow>
     (typ = ''boolean'' \<longrightarrow> e = ''true'' \<or> e = ''false'') \<and>
     (typ = ''integer'' \<longrightarrow> parse_int64 e \<noteq> None) \<and>
     (typ = ''number'' \<longrightarrow> finite_float e)"

definition line_safe :: "string \<Rightarrow> bool" where
  "line_safe s \<longleftrightarrow> (\<forall>r \<in> set (runes s). \<not> (is_control r \<or> r = 0x2028 \<or> r = 0x2029))"

lemma checkScalar_line_safe [check_simps]: "checkScalar fp s = None \<longleftrightarrow> line_safe s"
  by (simp add: checkScalar_None line_safe_def)

lemma line_safe_bytes: "line_safe s \<Longrightarrow> c \<in> set s \<Longrightarrow> 0x20 \<le> code_of c \<and> code_of c \<noteq> 0x7F"
  using checkScalar_no_control_byte checkScalar_line_safe by blast

lemma scalar_entry_check_None [check_simps]:
  "scalar_entry_check what fp typ e = None \<longleftrightarrow> scalar_value_ok typ e"
  by (auto simp: scalar_entry_check_def scalar_value_ok_def refuse_None)

definition scalars_wf :: "parameter \<Rightarrow> bool" where
  "scalars_wf p \<longleftrightarrow> line_safe (p_description p) \<and> line_safe (p_default p) \<and>
     (\<forall>e \<in> set (p_enum p). line_safe e \<and> scalar_value_ok (p_type p) e) \<and>
     (p_enum p \<noteq> [] \<longrightarrow> p_type p \<notin> set compositeTypes) \<and>
     (p_default p \<noteq> [] \<longrightarrow> p_type p \<notin> set compositeTypes \<and> scalar_value_ok (p_type p) (p_default p) \<and>
        (p_enum p \<noteq> [] \<longrightarrow> p_default p \<in> set (p_enum p)))"

lemma validateParameterScalars_None [check_simps]:
  "validateParameterScalars fp p = None \<longleftrightarrow> scalars_wf p"
proof -
  have "check_all (\<lambda>(i, e). checkScalar (Str (fp @ ''.enum['' @ itoa i @ '']'')) e)
      (List.enumerate 0 (p_enum p)) = None \<longleftrightarrow> (\<forall>e \<in> set (p_enum p). line_safe e)"
    by (simp add: check_all_None checkScalar_line_safe split_beta enumerate_all)
  then show ?thesis
    unfolding validateParameterScalars_def scalars_wf_def
    by (simp only: first_error_None list.set ball_simps checkScalar_line_safe simp_thms)
      (cases "p_enum p = []"; cases "p_default p = []";
       simp add: check_simps compositeTypes_def conj_ac ball_conj_distrib)
qed

section \<open>Nested declarations\<close>

inductive member_of :: "parameter \<Rightarrow> parameter \<Rightarrow> bool" where
  \<comment> \<open>a declaration at any depth of a tree, the root included\<close>
  here: "member_of p p"
| below: "map_of (p_properties p) m = Some mp \<Longrightarrow> member_of q mp \<Longrightarrow> member_of q p"

lemma member_of_step:
  "member_of q p \<longleftrightarrow> q = p \<or> (\<exists>m mp. map_of (p_properties p) m = Some mp \<and> member_of q mp)"
  by (auto intro: member_of.intros elim: member_of.cases)

lemma member_of_all:
  "(\<forall>q. member_of q p \<longrightarrow> P q) \<longleftrightarrow>
     P p \<and> (\<forall>m mp. map_of (p_properties p) m = Some mp \<longrightarrow> (\<forall>q. member_of q mp \<longrightarrow> P q))"
  by (subst member_of_step) blast

lemma member_of_size: "map_of (p_properties p) m = Some mp \<Longrightarrow> size mp < size p"
  using map_of_SomeD size_member by fastforce

definition field_name_ok :: "string \<Rightarrow> bool" where
  "field_name_ok n \<longleftrightarrow> match_string paramNameRE n \<and> to_lower n \<notin> set yamlParamKeywords"

definition member_entry_ok :: "string \<Rightarrow> parameter \<Rightarrow> bool" where
  "member_entry_ok m mp \<longleftrightarrow> field_name_ok m \<and>
     (if p_type mp = ''object'' then p_default mp = [] \<and> p_enum mp = []
      else p_from mp = [] \<and> p_properties mp = [] \<and> p_type mp \<in> set memberTypes \<and> scalars_wf mp)"

definition members_ok :: "parameter \<Rightarrow> bool" where
  "members_ok p \<longleftrightarrow> (\<forall>m mp. map_of (p_properties p) m = Some mp \<longrightarrow> member_entry_ok m mp)"

lemma members_ok_leaf: "p_properties p = [] \<Longrightarrow> member_of q p \<Longrightarrow> members_ok q"
  by (subst (asm) member_of_step) (auto simp: members_ok_def)

lemma validateParameterMembers_None [check_simps]:
  "validateParameterMembers path p = None \<longleftrightarrow> (\<forall>q. member_of q p \<longrightarrow> members_ok q)"
proof (induction "size p" arbitrary: path p rule: less_induct)
  case less
  let ?f = "\<lambda>m mp. let mPath = path @ ''.properties.'' @ m in
     if \<not> match_string paramNameRE m \<or> to_lower m \<in> set yamlParamKeywords
     then Some (Msg ''%s: invalid member name'' [Str mPath])
     else if p_type mp = ''object'' then
       if p_default mp \<noteq> [] \<or> p_enum mp \<noteq> []
       then Some (Msg ''%s: an object member takes no default or enum'' [Str mPath])
       else validateParameterMembers mPath mp
     else if p_from mp \<noteq> []
     then Some (Msg ''%s: from is not supported on input parameters'' [Str mPath])
     else if p_properties mp \<noteq> []
     then Some (Msg ''%s: properties are only valid on type: object members (this member is %q)''
            [Str mPath, Str (p_type mp)])
     else if p_type mp \<notin> set memberTypes then
       if p_type mp = ''array''
       then Some (Msg ''%s: member type array is not supported'' [Str mPath])
       else Some (Msg ''%s: unknown type %q'' [Str mPath, Str (p_type mp)])
     else validateParameterScalars mPath mp"
  have entry: "?f m mp = None \<longleftrightarrow> member_entry_ok m mp \<and> (\<forall>q. member_of q mp \<longrightarrow> members_ok q)"
    if "map_of (p_properties p) m = Some mp" for m mp
    using less [OF member_of_size [OF that]]
    by (auto simp: Let_def member_entry_ok_def field_name_ok_def validateParameterScalars_None
        intro: members_ok_leaf)
  have "validateParameterMembers path p = None \<longleftrightarrow>
      (\<forall>m mp. map_of (p_properties p) m = Some mp \<longrightarrow> ?f m mp = None)"
    by (subst validateParameterMembers.simps) (rule check_map_None)
  also have "\<dots> \<longleftrightarrow> (\<forall>q. member_of q p \<longrightarrow> members_ok q)"
    by (subst member_of_all) (use entry members_ok_def in blast)
  finally show ?case .
qed

section \<open>Properties\<close>

text \<open>C23: A dotted parameter reference resolves exactly when the declared tree of typed
  objects defines that path, and then to the declaration the path names.\<close>

theorem resolveParamRef_decides:
  "resolveParamRef x ctx ref = Inr p \<longleftrightarrow>
     lookup_path (x_parameters x) (split_on CHR ''.'' ref) = Some p"
  by (rule resolveParamRef_Inr)

text \<open>The scalar rules accept a declaration exactly when its texts are single lines, every
  enum entry and the default are values of the declared scalar type, and the default is in the
  enum when there is one.\<close>

theorem validateParameterScalars_decides:
  "validateParameterScalars fp p = None \<longleftrightarrow> scalars_wf p"
  by (rule validateParameterScalars_None)

text \<open>The member validator accepts an object exactly when every member, at any depth, is
  identifier-shaped and is a well-formed scalar or an object without scalar attributes.\<close>

theorem validateParameterMembers_decides:
  "validateParameterMembers path p = None \<longleftrightarrow> (\<forall>q. member_of q p \<longrightarrow> members_ok q)"
  by (rule validateParameterMembers_None)

theorem validateParameterMembers_decides_witness:
  "members_ok (Parameter ''object'' False [] [] []
     [(''size'', Parameter ''integer'' False [] ''3'' [] [] [])] [])"
proof -
  let ?p = "Parameter ''object'' False [] [] [] [(''size'', Parameter ''integer'' False [] ''3'' [] [] [])] []"
  have "validateParameterMembers ''p'' ?p = None" by code_simp
  then show ?thesis
    using validateParameterMembers_decides [of "''p''" ?p] member_of.here [of ?p] by blast
qed

end
