(* ===== verification/Validate_Root.thy ===== *)
theory Validate_Root
  imports Params
begin

text \<open>
  The document-level validators: \<open>validateRoot\<close> and \<open>validateSources\<close>
  (\<open>validate_root.go\<close>), \<open>validateXRD\<close> and \<open>validateStatus\<close> (\<open>validate_xrd.go\<close>) and
  \<open>validateParameters\<close> (\<open>validate_params.go\<close>), each with the declarative condition it
  decides.
\<close>

section \<open>validateRoot\<close>

definition validateEmit :: "blueprint \<Rightarrow> emit_cfg \<Rightarrow> msg option" where
  \<comment> \<open>the block guarded by \<open>b.Spec.Emit != nil\<close>\<close>
  "validateEmit b em = first_error
     [refuse (em_templateSource em \<noteq> [] \<and>
        em_templateSource em \<notin> {TemplateSourceInline, TemplateSourceFileSystem})
        (Msg ''spec.emit.templateSource: %q is not a valid template source (must be %q or %q)''
          [Str (em_templateSource em), Str TemplateSourceInline, Str TemplateSourceFileSystem]),
      refuse (em_engine em \<noteq> [] \<and>
        to_lower (em_engine em) \<notin> {EngineGoTemplating, EngineKCL, EnginePython})
        (Msg ''spec.emit.engine: %q is not a valid engine (must be %q, %q, or %q)''
          [Str (em_engine em), Str EngineGoTemplating, Str EngineKCL, Str EnginePython]),
      refuse (TemplateSource b = TemplateSourceFileSystem \<and> Engine b \<noteq> EngineGoTemplating)
        (Msg ''spec.emit.templateSource: %s is only supported with the %s engine (current engine is %q)''
          [Str TemplateSourceFileSystem, Str EngineGoTemplating, Str (Engine b)])]"

definition validateRoot :: "blueprint \<Rightarrow> msg option" where
  "validateRoot b = first_error
     [refuse (b_apiVersion b \<noteq> APIVersion)
        (Msg ''apiVersion: %q is not valid (must be %q)'' [Str (b_apiVersion b), Str APIVersion]),
      refuse (b_kind b \<noteq> Kind)
        (Msg ''kind: %q is not valid (must be %q)'' [Str (b_kind b), Str Kind]),
      refuse (b_metaName b = []) (Msg ''metadata.name is required'' []),
      checkScalar (Str ''metadata.name'') (b_metaName b),
      refuse (length (b_metaName b) > 253)
        (Msg ''metadata.name: %q exceeds maximum length of 253 characters'' [Str (b_metaName b)]),
      refuse (\<not> match_string groupRE (b_metaName b) \<or> to_lower (b_metaName b) \<in> set yamlKeywords)
        (Msg ''metadata.name: %q is not a valid DNS subdomain name'' [Str (b_metaName b)]),
      case sp_emit (b_spec b) of None \<Rightarrow> None | Some em \<Rightarrow> validateEmit b em]"

section \<open>validateSources\<close>

fun sources_loop :: "nat \<Rightarrow> nat gomap \<Rightarrow> nat gomap \<Rightarrow> source list \<Rightarrow> msg option" where
  \<comment> \<open>index, \<open>seenProviders\<close>, \<open>seenCRDs\<close>, the sources left\<close>
  "sources_loop i seenP seenC [] = None"
| "sources_loop i seenP seenC (s # ss) =
     (if s_crds s \<noteq> [] then
        if s_provider s \<noteq> []
        then Some (Msg ''spec.sources[%d]: provider and crds are mutually exclusive'' [Num i])
        else case checkScalar (Ctx (Msg ''spec.sources[%d].crds'' [Num i])) (s_crds s) of
          Some e \<Rightarrow> Some e
        | None \<Rightarrow>
            if \<not> has_suffix (s_crds s) ''.yaml'' \<and> \<not> has_suffix (s_crds s) ''.yml''
            then Some (Msg ''spec.sources[%d].crds: %q must be a .yaml/.yml file path''
                   [Num i, Str (s_crds s)])
            else case map_of seenC (s_crds s) of
              Some prev \<Rightarrow> Some (Msg ''spec.sources[%d]: duplicate crds source %q (already declared at spec.sources[%d])''
                   [Num i, Str (s_crds s), Num prev])
            | None \<Rightarrow> sources_loop (i + 1) seenP (AList.update (s_crds s) i seenC) ss
      else if s_provider s = []
      then Some (Msg ''spec.sources[%d]: one of provider (a package ref) or crds (a CRD manifest file) is required'' [Num i])
      else if s_provider s = NativeProvider
      then Some (Msg ''spec.sources[%d].provider: %q is not a package source -- native Kubernetes kinds are vendored''
             [Num i, Str (s_provider s), Str NativeProvider])
      else if s_provider s = ClusterProvider
      then Some (Msg ''spec.sources[%d].provider: %q is not a package source -- %q is a live discovery pseudo-provider''
             [Num i, Str (s_provider s), Str (s_provider s), Str ClusterProvider])
      else case checkScalar (Ctx (Msg ''spec.sources[%d].provider'' [Num i])) (s_provider s) of
        Some e \<Rightarrow> Some e
      | None \<Rightarrow>
          if \<not> match_string providerRefRE (s_provider s)
          then Some (Msg ''spec.sources[%d].provider: %q is not a valid provider reference''
                 [Num i, Str (s_provider s)])
          else case map_of seenP (s_provider s) of
            Some prev \<Rightarrow> Some (Msg ''spec.sources[%d]: duplicate provider source %q (already declared at spec.sources[%d])''
                 [Num i, Str (s_provider s), Num prev])
          | None \<Rightarrow> sources_loop (i + 1) (AList.update (s_provider s) i seenP) seenC ss)"

definition validateSources :: "source list \<Rightarrow> msg option" where
  "validateSources ss = sources_loop 0 [] [] ss"

text \<open>What a well-formed source list is, said without the loop.\<close>

definition source_wf :: "source \<Rightarrow> bool" where
  "source_wf s \<longleftrightarrow>
     (if s_crds s \<noteq> [] then s_provider s = [] \<and> line_safe (s_crds s) \<and>
        (has_suffix (s_crds s) ''.yaml'' \<or> has_suffix (s_crds s) ''.yml'')
      else s_provider s \<notin> {[], NativeProvider, ClusterProvider} \<and> line_safe (s_provider s) \<and>
        match_string providerRefRE (s_provider s))"

definition crd_files :: "source list \<Rightarrow> string list" where
  "crd_files ss = filter (\<lambda>c. c \<noteq> []) (map s_crds ss)"

definition packages :: "source list \<Rightarrow> string list" where
  "packages ss = map s_provider (filter (\<lambda>s. s_crds s = []) ss)"

definition sources_wf :: "source list \<Rightarrow> bool" where
  "sources_wf ss \<longleftrightarrow> (\<forall>s \<in> set ss. source_wf s) \<and> distinct (crd_files ss) \<and> distinct (packages ss)"

lemma dom_update: "dom (map_of (AList.update k v m)) = insert k (dom (map_of m))"
  by (simp add: update_conv')

lemma sources_loop_None:
  "sources_loop i seenP seenC ss = None \<longleftrightarrow>
     (\<forall>s \<in> set ss. source_wf s) \<and> distinct (crd_files ss) \<and> distinct (packages ss) \<and>
     set (crd_files ss) \<inter> dom (map_of seenC) = {} \<and> set (packages ss) \<inter> dom (map_of seenP) = {}"
proof (induction ss arbitrary: i seenP seenC)
  case Nil
  then show ?case by (simp add: crd_files_def packages_def)
next
  case (Cons s ss)
  show ?case
  proof (cases "s_crds s = []")
    case True
    then have "crd_files (s # ss) = crd_files ss" "packages (s # ss) = s_provider s # packages ss"
      by (simp_all add: crd_files_def packages_def)
    with True show ?thesis
      by (auto simp: Cons.IH checkScalar_line_safe source_wf_def dom_update split: option.splits)
  next
    case False
    then have "crd_files (s # ss) = s_crds s # crd_files ss" "packages (s # ss) = packages ss"
      by (simp_all add: crd_files_def packages_def)
    with False show ?thesis
      by (auto simp: Cons.IH checkScalar_line_safe source_wf_def dom_update split: option.splits)
  qed
qed

lemma validateSources_None [check_simps]: "validateSources ss = None \<longleftrightarrow> sources_wf ss"
  by (simp add: validateSources_def sources_loop_None sources_wf_def)

section \<open>validateXRD\<close>

definition xrd_missing :: "xrd \<Rightarrow> string list" where
  \<comment> \<open>the required fields left empty\<close>
  "xrd_missing x = map fst (filter (\<lambda>(_, v). v = [])
     [(''group'', x_group x), (''kind'', x_kind x), (''plural'', x_plural x), (''version'', x_version x)])"

definition validateXRD :: "xrd \<Rightarrow> msg option" where
  "validateXRD x = (let missing = xrd_missing x; name = x_plural x @ ''.'' @ x_group x in first_error
     [if length missing = 1 then Some (Msg ''spec.xrd.%s is required'' [Str (hd missing)])
      else if length missing > 1 then Some (Msg ''spec.xrd needs %s'' [Strs missing])
      else None,
      refuse (\<not> match_string groupRE (x_group x) \<or> groupIsBareKeyword (x_group x))
        (Msg ''spec.xrd.group: %q is not a valid DNS subdomain'' [Str (x_group x)]),
      refuse (\<not> match_string kindRE (x_kind x))
        (Msg ''spec.xrd.kind: %q is not a valid Kind'' [Str (x_kind x)]),
      refuse (\<not> match_string pluralRE (x_plural x) \<or> to_lower (x_plural x) \<in> set yamlKeywords)
        (Msg ''spec.xrd.plural: %q is not a valid plural name'' [Str (x_plural x)]),
      refuse (\<not> match_string versionRE (x_version x))
        (Msg ''spec.xrd.version: %q is not a valid API version'' [Str (x_version x)]),
      refuse (length name > 63)
        (Msg ''spec.xrd: name %q is %d characters (must be at most 63 characters'' [Str name, Num (length name)]),
      if x_scope x = ''Namespaced'' then None
      else if x_scope x = ''Cluster''
      then Some (Msg ''spec.xrd.scope: Cluster is not supported in M1 -- use Namespaced'' [])
      else if x_scope x = ''LegacyCluster''
      then Some (Msg ''spec.xrd.scope: LegacyCluster is not valid in apiextensions.crossplane.io/v2'' [])
      else if x_scope x = []
      then Some (Msg ''spec.xrd.scope must be set explicitly to Namespaced or Cluster'' [])
      else Some (Msg ''spec.xrd.scope: unknown scope %q'' [Str (x_scope x)])])"

definition xrd_wf :: "xrd \<Rightarrow> bool" where
  "xrd_wf x \<longleftrightarrow> match_string groupRE (x_group x) \<and> \<not> groupIsBareKeyword (x_group x) \<and>
     match_string kindRE (x_kind x) \<and> match_string pluralRE (x_plural x) \<and>
     to_lower (x_plural x) \<notin> set yamlKeywords \<and> match_string versionRE (x_version x) \<and>
     length (x_plural x) + 1 + length (x_group x) \<le> 63 \<and> x_scope x = ''Namespaced''"

lemma empty_patterns:
  "\<not> match_string groupRE []" "\<not> match_string kindRE []"
  "\<not> match_string pluralRE []" "\<not> match_string versionRE []"
  by code_simp+

lemma xrd_missing_cases:
  assumes "x_group x \<noteq> []" "x_kind x \<noteq> []" "x_plural x \<noteq> []" "x_version x \<noteq> []"
  shows "xrd_missing x = []"
  using assms by (simp add: xrd_missing_def)

lemma validateXRD_None [check_simps]: "validateXRD x = None \<longleftrightarrow> xrd_wf x"
proof (cases "xrd_missing x = []")
  case True
  then show ?thesis
    by (auto simp: validateXRD_def xrd_wf_def Let_def refuse_None)
next
  case False
  then have "\<not> xrd_wf x"
    using xrd_missing_cases [of x] empty_patterns unfolding xrd_wf_def by metis
  moreover from False have "validateXRD x \<noteq> None"
    by (cases "xrd_missing x" rule: list.exhaust; cases "tl (xrd_missing x)")
      (auto simp: validateXRD_def Let_def)
  ultimately show ?thesis by blast
qed

section \<open>validateStatus\<close>

function validateStatusParameter :: "blueprint \<Rightarrow> string \<Rightarrow> parameter \<Rightarrow> msg option" where
  "validateStatusParameter b path p =
     (let segs = split_on CHR ''.'' path; name = last segs in
      if \<not> match_string paramNameRE name \<or> to_lower name \<in> set yamlParamKeywords
      then Some (Msg ''%s: invalid status field name'' [Str path])
      else if p_type p = ''array''
      then Some (Msg ''%s: type array is not supported in M1'' [Str path])
      else if p_type p \<notin> set validTypes
      then Some (Msg ''%s: unknown type %q'' [Str path, Str (p_type p)])
      else case validateParameterScalars path p of
        Some e \<Rightarrow> Some e
      | None \<Rightarrow>
          if p_properties p \<noteq> [] then
            if p_type p \<noteq> ''object''
            then Some (Msg ''%s: properties is only valid on type object (got type %q)''
                   [Str path, Str (p_type p)])
            else if p_from p \<noteq> []
            then Some (Msg ''%s: an object with properties cannot specify from: directly'' [Str path])
            else check_map (\<lambda>m mp. validateStatusParameter b (path @ ''.properties.'' @ m) mp)
                   (p_properties p)
          else if p_from p \<noteq> [] then
            (case StatusRef (p_from p) of
               None \<Rightarrow> Some (Msg ''%s: a status wire must be resources.<name>.status.<path> (got %q)''
                        [Str path, Str (p_from p)])
             | Some (target, statusPath) \<Rightarrow>
                 (case ResourceNamed b target of
                    None \<Rightarrow> Some (Msg ''%s: references unknown resource %q'' [Str path, Str target])
                  | Some decl \<Rightarrow>
                      if r_forEach decl \<noteq> []
                      then Some (Msg ''%s: resource %q is looped (forEach: %s)''
                             [Str path, Str target, Str (r_forEach decl), Str target, Str target, Str target])
                      else check_all (\<lambda>seg. refuse (\<not> match_string paramNameRE seg)
                             (Msg ''%s: status path segment %q in %q is not a valid field name''
                               [Str path, Str seg, Str (p_from p)])) (split_on CHR ''.'' statusPath)))
          else None)"
  by pat_completeness auto
termination
  by (relation "measure (\<lambda>(_, _, p). size p)") (auto dest: size_member)

declare validateStatusParameter.simps [simp del]

definition validateStatus :: "blueprint \<Rightarrow> msg option" where
  "validateStatus b = check_map (\<lambda>n p. validateStatusParameter b (''spec.xrd.status.'' @ n) p)
     (x_status (b_xrd b))"

section \<open>validateParameters\<close>

definition parameter_check :: "string \<Rightarrow> parameter \<Rightarrow> msg option" where
  \<comment> \<open>the body of the loop over the declared parameters\<close>
  "parameter_check n p =
     (if \<not> match_string paramNameRE n \<or> to_lower n \<in> set yamlParamKeywords
      then Some (Msg ''spec.xrd.parameters.%s: invalid parameter name'' [Str n])
      else if p_type p = ''array''
      then Some (Msg ''spec.xrd.parameters.%s: type array is not supported in M1'' [Str n])
      else if p_from p \<noteq> []
      then Some (Msg ''spec.xrd.parameters.%s: from is not supported on input parameters'' [Str n])
      else if p_type p \<notin> set validTypes
      then Some (Msg ''spec.xrd.parameters.%s: unknown type %q'' [Str n, Str (p_type p)])
      else case validateParameterScalars (''spec.xrd.parameters.'' @ n) p of
        Some e \<Rightarrow> Some e
      | None \<Rightarrow>
          if p_properties p \<noteq> [] then
            if p_type p \<noteq> ''object''
            then Some (Msg ''spec.xrd.parameters.%s: properties is only valid on type object (got type %q)''
                   [Str n, Str (p_type p)])
            else validateParameterMembers (''spec.xrd.parameters.'' @ n) p
          else None)"

definition validateParameters :: "blueprint \<Rightarrow> msg option" where
  "validateParameters b = first_error
     [check_map parameter_check (b_params b),
      if x_scope (b_xrd b) = ''Namespaced'' \<and> HasManagedResources b then
        (case map_of (b_params b) ''providerName'' of
           None \<Rightarrow> Some (Msg ''spec.xrd.parameters.providerName is required for a Namespaced XRD with managed resources'' [])
         | Some p \<Rightarrow>
             if p_type p \<noteq> ''string''
             then Some (Msg ''spec.xrd.parameters.providerName: type must be string, got %q'' [Str (p_type p)])
             else if \<not> p_required p
             then Some (Msg ''spec.xrd.parameters.providerName: must be required: true'' [])
             else None)
      else None]"

section \<open>What the two validators accept\<close>

definition unlooped :: "blueprint \<Rightarrow> string \<Rightarrow> bool" where
  \<comment> \<open>a declared resource whose composed document carries exactly its own name\<close>
  "unlooped b target \<longleftrightarrow> (\<exists>decl. ResourceNamed b target = Some decl \<and> r_forEach decl = [])"

definition status_wire_ok :: "blueprint \<Rightarrow> string \<Rightarrow> bool" where
  "status_wire_ok b from \<longleftrightarrow> (\<exists>target path. StatusRef from = Some (target, path) \<and> unlooped b target \<and>
     (\<forall>seg \<in> set (split_on CHR ''.'' path). match_string paramNameRE seg))"

definition status_node_ok :: "blueprint \<Rightarrow> parameter \<Rightarrow> bool" where
  "status_node_ok b p \<longleftrightarrow> p_type p \<in> set validTypes \<and> scalars_wf p \<and>
     (p_properties p \<noteq> [] \<longrightarrow> p_type p = ''object'' \<and> p_from p = []) \<and>
     (p_from p \<noteq> [] \<longrightarrow> status_wire_ok b (p_from p)) \<and>
     (\<forall>m mp. map_of (p_properties p) m = Some mp \<longrightarrow> field_name_ok (last (split_on CHR ''.'' m)))"

lemma split_on_cat: "split_on c (a @ c # s) = split_on c a @ split_on c s"
  by (induction a) (auto split: list.splits)

lemma last_split_on: "last (split_on c (a @ c # s)) = last (split_on c s)"
  by (simp add: split_on_cat)

lemma status_wire_check:
  "(case StatusRef from of
      None \<Rightarrow> Some (e1 :: msg)
    | Some (target, statusPath) \<Rightarrow>
        (case ResourceNamed b target of
           None \<Rightarrow> Some (e2 target)
         | Some decl \<Rightarrow>
             if r_forEach decl \<noteq> [] then Some (e3 target decl)
             else check_all (\<lambda>seg. refuse (\<not> match_string paramNameRE seg) (e4 seg))
                    (split_on CHR ''.'' statusPath))) = None \<longleftrightarrow> status_wire_ok b from"
  by (auto simp: status_wire_ok_def unlooped_def check_all_None refuse_None split: option.splits)

lemma validateStatusParameter_None:
  "validateStatusParameter b path p = None \<longleftrightarrow>
     field_name_ok (last (split_on CHR ''.'' path)) \<and> (\<forall>q. member_of q p \<longrightarrow> status_node_ok b q)"
proof (induction "size p" arbitrary: path p rule: less_induct)
  case less
  have path_last: "last (split_on CHR ''.'' (path @ ''.properties.'' @ m)) = last (split_on CHR ''.'' m)" for m
    using last_split_on [of "CHR ''.''" "path @ ''.properties''" m] by simp
  define C where
    "C = check_map (\<lambda>m mp. validateStatusParameter b (path @ ''.properties.'' @ m) mp) (p_properties p)"
  have below: "C = None
      \<longleftrightarrow> (\<forall>m mp. map_of (p_properties p) m = Some mp \<longrightarrow>
            field_name_ok (last (split_on CHR ''.'' m)) \<and> (\<forall>q. member_of q mp \<longrightarrow> status_node_ok b q))"
    by (simp only: C_def check_map_None less [OF member_of_size] path_last cong: imp_cong)
  let ?R = "if p_properties p \<noteq> [] then
        p_type p = ''object'' \<and> p_from p = [] \<and>
        (\<forall>m mp. map_of (p_properties p) m = Some mp \<longrightarrow>
            field_name_ok (last (split_on CHR ''.'' m)) \<and> (\<forall>q. member_of q mp \<longrightarrow> status_node_ok b q))
      else p_from p \<noteq> [] \<longrightarrow> status_wire_ok b (p_from p)"
  have "validateStatusParameter b path p = None \<longleftrightarrow>
      field_name_ok (last (split_on CHR ''.'' path)) \<and> p_type p \<in> set validTypes \<and> scalars_wf p \<and> ?R"
    unfolding validateStatusParameter.simps [of b path p] C_def [symmetric]
    by (simp add: below status_wire_check Let_def field_name_ok_def validateParameterScalars_None
        validTypes_def)
  also have "\<dots> \<longleftrightarrow> field_name_ok (last (split_on CHR ''.'' path)) \<and> (\<forall>q. member_of q p \<longrightarrow> status_node_ok b q)"
  proof (cases "p_properties p = []")
    case True
    then show ?thesis unfolding member_of_all [of p] status_node_ok_def [of b p] by auto
  next
    case False
    then show ?thesis
      unfolding member_of_all [of p] status_node_ok_def [of b p]
      by (simp only: if_True not_False_eq_True simp_thms) blast
  qed
  finally show ?case .
qed

lemma validateStatus_None [check_simps]:
  "validateStatus b = None \<longleftrightarrow>
     (\<forall>n p. map_of (x_status (b_xrd b)) n = Some p \<longrightarrow> field_name_ok (last (split_on CHR ''.'' n)) \<and>
       (\<forall>q. member_of q p \<longrightarrow> status_node_ok b q))"
proof -
  have "last (split_on CHR ''.'' (''spec.xrd.status.'' @ n)) = last (split_on CHR ''.'' n)" for n
    using last_split_on [of "CHR ''.''" "''spec.xrd.status''" n] by simp
  then show ?thesis
    unfolding validateStatus_def check_map_None validateStatusParameter_None by simp
qed

definition parameter_ok :: "string \<Rightarrow> parameter \<Rightarrow> bool" where
  "parameter_ok n p \<longleftrightarrow> field_name_ok n \<and> p_from p = [] \<and> p_type p \<in> set validTypes \<and> scalars_wf p \<and>
     (p_properties p \<noteq> [] \<longrightarrow> p_type p = ''object'') \<and> (\<forall>q. member_of q p \<longrightarrow> members_ok q)"

lemma parameter_check_None: "parameter_check n p = None \<longleftrightarrow> parameter_ok n p"
  by (auto simp: parameter_check_def parameter_ok_def field_name_ok_def validateParameterScalars_None
      validateParameterMembers_None validTypes_def intro: members_ok_leaf)

definition provider_rule :: "blueprint \<Rightarrow> bool" where
  "provider_rule b \<longleftrightarrow> (x_scope (b_xrd b) = ''Namespaced'' \<and> HasManagedResources b \<longrightarrow>
     (\<exists>p. map_of (b_params b) ''providerName'' = Some p \<and> p_type p = ''string'' \<and> p_required p))"

lemma validateParameters_None [check_simps]:
  "validateParameters b = None \<longleftrightarrow>
     (\<forall>n p. map_of (b_params b) n = Some p \<longrightarrow> parameter_ok n p) \<and> provider_rule b"
  by (auto simp: validateParameters_def check_map_None parameter_check_None provider_rule_def
      split: option.splits)

section \<open>Properties\<close>

text \<open>The source list is accepted exactly when each entry is either one CRD manifest path
  or one package reference, and no manifest and no package is declared twice.\<close>

theorem validateSources_decides:
  "validateSources ss = None \<longleftrightarrow>
     (\<forall>s \<in> set ss. source_wf s) \<and> distinct (crd_files ss) \<and> distinct (packages ss)"
  unfolding validateSources_None sources_wf_def ..

theorem validateSources_decides_witness:
  "source_wf \<lparr>s_provider = ''ghcr.io/o/p:v1'', s_crds = []\<rparr>"
proof -
  have "validateSources [\<lparr>s_provider = ''ghcr.io/o/p:v1'', s_crds = []\<rparr>] = None" by code_simp
  then show ?thesis using validateSources_decides by force
qed

end
