(* ===== verification/Wires.thy ===== *)
theory Wires
  imports Closest Validate_Root
begin

text \<open>
  References between the parts of a document: \<open>validateMetadataRef\<close>,
  \<open>validateStatusRef\<close> and the \<open>validateForEach\<close> family of \<open>load.go\<close>, the \<open>when\<close>
  condition of a resource (\<open>validate_resources.go\<close>), and the resolution of a \<open>from:\<close>
  reference that fields and annotations share.
\<close>

section \<open>References to other resources\<close>

definition validateMetadataRef :: "blueprint \<Rightarrow> resource \<Rightarrow> marg \<Rightarrow> string \<Rightarrow> msg option" where
  "validateMetadataRef b r what from =
     (let bad = Some (Msg ''resource %q %s: a metadata reference must be resources.<name>.metadata.name (got %q)''
            [Str (r_name r), what, Str from]) in
      case MetadataRef from of
        None \<Rightarrow> bad
      | Some (target, path) \<Rightarrow>
          if path \<noteq> ''name'' then bad
          else if target = r_name r
          then Some (Msg ''resource %q %s: references its own metadata.name'' [Str (r_name r), what])
          else case ResourceNamed b target of
            None \<Rightarrow> Some (Msg ''resource %q %s: references unknown resource %q''
                     [Str (r_name r), what, Str target])
          | Some decl \<Rightarrow>
              refuse (r_forEach decl \<noteq> [])
                (Msg ''resource %q %s: resource %q is looped (forEach: %s), so its name is indexed''
                  [Str (r_name r), what, Str target, Str (r_forEach decl), Str target, Str target]))"

definition validateStatusRef :: "blueprint \<Rightarrow> resource \<Rightarrow> marg \<Rightarrow> string \<Rightarrow> msg option" where
  "validateStatusRef b r what from =
     (case StatusRef from of
        None \<Rightarrow> Some (Msg ''resource %q %s: a resources. reference must be resources.<name>.status.<path> (got %q)''
                 [Str (r_name r), what, Str from])
      | Some (target, path) \<Rightarrow>
          if target = r_name r
          then Some (Msg ''resource %q %s: references its own status'' [Str (r_name r), what])
          else case ResourceNamed b target of
            None \<Rightarrow> Some (Msg ''resource %q %s: references unknown resource %q''
                     [Str (r_name r), what, Str target])
          | Some decl \<Rightarrow>
              if r_forEach decl \<noteq> []
              then Some (Msg ''resource %q %s: resource %q is looped (forEach: %s)''
                     [Str (r_name r), what, Str target, Str (r_forEach decl), Str target, Str target, Str target])
              else check_all (\<lambda>seg. refuse (\<not> match_string paramNameRE seg)
                     (Msg ''resource %q %s: status path segment %q in %q is not a valid field name''
                       [Str (r_name r), what, Str seg, Str from])) (split_on CHR ''.'' path))"

section \<open>Loop bounds\<close>

definition validateForEachParamRef :: "xrd \<Rightarrow> resource \<Rightarrow> msg option" where
  "validateForEachParamRef x r =
     (case cut_prefix (r_forEach r) ''params.'' of
        None \<Rightarrow> Some (Msg ''resource %q: forEach must reference a parameter as params.<name> (got %q)''
                 [Str (r_name r), Str (r_forEach r)])
      | Some param \<Rightarrow>
          (case go_cut param ''.'' of
             Some (name, member) \<Rightarrow>
               Some (Msg ''resource %q: forEach cannot reference member %q of parameter %q''
                 [Str (r_name r), Str member, Str name, Str (r_forEach r)])
           | None \<Rightarrow>
               (case map_of (x_parameters x) param of
                  None \<Rightarrow> Some (Msg ''resource %q: forEach references unknown parameter %q''
                           [Str (r_name r), Str param])
                | Some decl \<Rightarrow>
                    if p_type decl \<noteq> ''integer''
                    then Some (Msg ''resource %q: forEach parameter %q has type %q, want integer''
                           [Str (r_name r), Str param, Str (p_type decl), Str param])
                    else refuse (\<not> p_required decl \<and> p_default decl = [])
                      (Msg ''resource %q: forEach parameter %q must be required or carry a default''
                        [Str (r_name r), Str param]))))"

definition validateForEachEnvRef :: "blueprint \<Rightarrow> resource \<Rightarrow> msg option" where
  "validateForEachEnvRef b r =
     (case EnvRef (r_forEach r) of
        None \<Rightarrow> Some (Msg ''resource %q: forEach must reference a parameter as params.<name>, an environment key as env.<key> (got %q)''
                 [Str (r_name r), Str (r_forEach r)])
      | Some envKey \<Rightarrow>
          (case map_of (b_env b) envKey of
             None \<Rightarrow> Some (UnknownEnvKeyError (Ctx (Msg ''resource %q: forEach'' [Str (r_name r)]))
                      envKey (b_env b))
           | Some decl \<Rightarrow>
               refuse (k_type decl \<noteq> ''integer'')
                 (Msg ''resource %q: forEach environment key %q has type %q, want integer''
                   [Str (r_name r), Str envKey, Str (k_type decl), Str envKey])))"

definition validateForEachStatusRef :: "blueprint \<Rightarrow> resource \<Rightarrow> msg option" where
  "validateForEachStatusRef b r = validateStatusRef b r (Str ''forEach'') (r_forEach r)"

definition resource_forEach_check :: "blueprint \<Rightarrow> nat \<Rightarrow> resource \<Rightarrow> msg option" where
  "resource_forEach_check b i r =
     (if r_forEach r = [] then None
      else first_error
        [checkScalar (Ctx (Msg ''spec.resources[%d].forEach'' [Num i])) (r_forEach r),
         if has_prefix (r_forEach r) statusRefPrefix then validateForEachStatusRef b r
         else if EnvRef (r_forEach r) \<noteq> None then validateForEachEnvRef b r
         else validateForEachParamRef (b_xrd b) r])"

section \<open>Conditions\<close>

definition when_head :: "string \<Rightarrow> string" where
  "when_head s = (case go_cut s '' '' of None \<Rightarrow> s | Some (head, _) \<Rightarrow> head)"

definition resource_when_check :: "blueprint \<Rightarrow> nat \<Rightarrow> resource \<Rightarrow> msg option" where
  "resource_when_check b i r =
     (let name_r = Str (r_name r); head = when_head (r_when r) in
      if r_when r = [] then None
      else case checkScalar (Ctx (Msg ''spec.resources[%d].when'' [Num i])) (r_when r) of
        Some e \<Rightarrow> Some e
      | None \<Rightarrow>
      if has_prefix head ''params.'' \<and> contains (trim_prefix head ''params.'') ''.''
      then Some (Msg ''resource %q: when cannot reference an object member (got %q)'' [name_r, Str head])
      else case ParseWhen (r_when r) of
        Inl e \<Rightarrow> Some (Msg ''resource %q: %w'' [name_r, Ctx e])
      | Inr (source, name, op, literal) \<Rightarrow>
          if source = ''env'' then
            (case map_of (b_env b) name of
               None \<Rightarrow> Some (UnknownEnvKeyError (Ctx (Msg ''resource %q: when'' [name_r])) name (b_env b))
             | Some decl \<Rightarrow>
                 if op = [] then
                   refuse (k_type decl \<noteq> ''boolean'')
                     (Msg ''resource %q: when environment key %q has type %q, want boolean''
                       [name_r, Str name, Str (k_type decl), Str name, Str name, Str name])
                 else refuse (k_type decl \<noteq> ''string'')
                     (Msg ''resource %q: when environment key %q has type %q, want string -- the %s form''
                       [name_r, Str name, Str (k_type decl), Str op]))
          else
            (case map_of (b_params b) name of
               None \<Rightarrow> Some (Msg ''resource %q: when references unknown parameter %q'' [name_r, Str name])
             | Some decl \<Rightarrow>
                 if \<not> p_required decl \<and> p_default decl = []
                 then Some (Msg ''resource %q: when parameter %q must be required or carry a default''
                        [name_r, Str name])
                 else if op = [] then
                   refuse (p_type decl \<noteq> ''boolean'')
                     (Msg ''resource %q: when parameter %q has type %q, want boolean''
                       [name_r, Str name, Str (p_type decl), Str name, Str name])
                 else if p_type decl \<noteq> ''string''
                 then Some (Msg ''resource %q: when parameter %q has type %q, want string -- the %s form''
                        [name_r, Str name, Str (p_type decl), Str op])
                 else refuse (p_enum decl \<noteq> [] \<and> literal \<notin> set (p_enum decl))
                     (Msg ''resource %q: when literal %q is not among the enum values of parameter %q: %v''
                       [name_r, Str literal, Str name, Strs (p_enum decl)])))"

section \<open>What an accepted reference names\<close>

definition status_ref_ok :: "blueprint \<Rightarrow> resource \<Rightarrow> string \<Rightarrow> bool" where
  "status_ref_ok b r from \<longleftrightarrow> (\<exists>target path. StatusRef from = Some (target, path) \<and>
     target \<noteq> r_name r \<and> unlooped b target \<and>
     (\<forall>seg \<in> set (split_on CHR ''.'' path). match_string paramNameRE seg))"

definition metadata_ref_ok :: "blueprint \<Rightarrow> resource \<Rightarrow> string \<Rightarrow> bool" where
  "metadata_ref_ok b r from \<longleftrightarrow> (\<exists>target. MetadataRef from = Some (target, ''name'') \<and>
     target \<noteq> r_name r \<and> unlooped b target)"

lemma validateStatusRef_None [check_simps]:
  "validateStatusRef b r what from = None \<longleftrightarrow> status_ref_ok b r from"
  by (auto simp: validateStatusRef_def status_ref_ok_def unlooped_def check_all_None refuse_None
      split: option.splits)

lemma validateMetadataRef_None [check_simps]:
  "validateMetadataRef b r what from = None \<longleftrightarrow> metadata_ref_ok b r from"
  by (auto simp: validateMetadataRef_def metadata_ref_ok_def unlooped_def refuse_None Let_def
      split: option.splits)

definition always_present :: "parameter \<Rightarrow> bool" where
  \<comment> \<open>the key is in every composite's spec: required, or defaulted by the schema\<close>
  "always_present p \<longleftrightarrow> p_required p \<or> p_default p \<noteq> []"

definition loop_bound_ok :: "blueprint \<Rightarrow> resource \<Rightarrow> string \<Rightarrow> bool" where
  "loop_bound_ok b r bound \<longleftrightarrow>
     (has_prefix bound ''resources.'' \<and> status_ref_ok b r bound) \<or>
     (\<exists>k ek. bound = ''env.'' @ k \<and> map_of (b_env b) k = Some ek \<and> k_type ek = ''integer'') \<or>
     (\<exists>p decl. bound = ''params.'' @ p \<and> CHR ''.'' \<notin> set p \<and> map_of (b_params b) p = Some decl \<and>
        p_type decl = ''integer'' \<and> always_present decl)"

lemma has_prefix_disjoint:
  "has_prefix s ''resources.'' \<Longrightarrow> s \<noteq> ''env.'' @ k \<and> s \<noteq> ''params.'' @ p"
  by (auto simp: has_prefix_iff prefix_def)

lemma validateForEachParamRef_None:
  "validateForEachParamRef x r = None \<longleftrightarrow>
     (\<exists>p decl. r_forEach r = ''params.'' @ p \<and> CHR ''.'' \<notin> set p \<and>
        map_of (x_parameters x) p = Some decl \<and> p_type decl = ''integer'' \<and> always_present decl)"
proof (cases "cut_prefix (r_forEach r) ''params.''")
  case None
  then have "\<not> (\<exists>p. r_forEach r = ''params.'' @ p)"
    using cut_prefix_append by (metis option.distinct(1))
  with None show ?thesis by (auto simp: validateForEachParamRef_def)
next
  case (Some p)
  then have eq: "r_forEach r = ''params.'' @ p" by (simp only: cut_prefix_Some)
  show ?thesis
    unfolding validateForEachParamRef_def Some
    by (auto simp: eq go_cut_single_None refuse_None always_present_def split: option.splits)
      (auto simp: go_cut_single_None [symmetric])
qed

lemma validateForEachEnvRef_None:
  "validateForEachEnvRef b r = None \<longleftrightarrow>
     (\<exists>k ek. r_forEach r = ''env.'' @ k \<and> map_of (b_env b) k = Some ek \<and> k_type ek = ''integer'')"
proof (cases "EnvRef (r_forEach r)")
  case None
  then have "\<nexists>k. r_forEach r = ''env.'' @ k" by (metis EnvRef_Some option.distinct(1))
  with None show ?thesis by (auto simp: validateForEachEnvRef_def)
next
  case (Some k)
  then have "r_forEach r = ''env.'' @ k" by (simp only: EnvRef_Some)
  with Some show ?thesis by (auto simp: validateForEachEnvRef_def refuse_None split: option.splits)
qed

lemma resource_forEach_check_None [check_simps]:
  "resource_forEach_check b i r = None \<longleftrightarrow>
     (r_forEach r \<noteq> [] \<longrightarrow> line_safe (r_forEach r) \<and> loop_bound_ok b r (r_forEach r))"
proof (cases "has_prefix (r_forEach r) ''resources.''")
  case True
  with has_prefix_disjoint [OF True] show ?thesis
    by (auto simp: resource_forEach_check_def loop_bound_ok_def checkScalar_line_safe statusRefPrefix_def
        validateForEachStatusRef_def validateStatusRef_None)
next
  case False
  show ?thesis
  proof (cases "EnvRef (r_forEach r)")
    case None
    then have "\<nexists>k. r_forEach r = ''env.'' @ k" by (metis EnvRef_Some option.distinct(1))
    with None False show ?thesis
      by (auto simp: resource_forEach_check_def loop_bound_ok_def checkScalar_line_safe
          statusRefPrefix_def validateForEachParamRef_None)
  next
    case (Some k)
    then have "r_forEach r = ''env.'' @ k" by (simp only: EnvRef_Some)
    then have "\<nexists>p. r_forEach r = ''params.'' @ p" by simp
    with Some False show ?thesis
      by (auto simp: resource_forEach_check_def loop_bound_ok_def checkScalar_line_safe
          statusRefPrefix_def validateForEachEnvRef_None)
  qed
qed

section \<open>What an accepted condition compares\<close>

definition member_condition :: "string \<Rightarrow> bool" where
  "member_condition expr \<longleftrightarrow> has_prefix (when_head expr) ''params.'' \<and>
     contains (trim_prefix (when_head expr) ''params.'') ''.''"

definition env_condition_ok :: "blueprint \<Rightarrow> string \<Rightarrow> string \<Rightarrow> bool" where
  "env_condition_ok b key op \<longleftrightarrow> (\<exists>ek. map_of (b_env b) key = Some ek \<and>
     k_type ek = (if op = [] then ''boolean'' else ''string''))"

definition param_condition_ok :: "blueprint \<Rightarrow> string \<Rightarrow> string \<Rightarrow> string \<Rightarrow> bool" where
  "param_condition_ok b name op literal \<longleftrightarrow> (\<exists>decl. map_of (b_params b) name = Some decl \<and>
     always_present decl \<and> p_type decl = (if op = [] then ''boolean'' else ''string'') \<and>
     (op \<noteq> [] \<and> p_enum decl \<noteq> [] \<longrightarrow> literal \<in> set (p_enum decl)))"

definition condition_ok :: "blueprint \<Rightarrow> string \<Rightarrow> bool" where
  "condition_ok b expr \<longleftrightarrow> (\<exists>source name op literal. ParseWhen expr = Inr (source, name, op, literal) \<and>
     (if source = ''env'' then env_condition_ok b name op else param_condition_ok b name op literal))"

lemma resource_when_check_None [check_simps]:
  "resource_when_check b i r = None \<longleftrightarrow>
     (r_when r \<noteq> [] \<longrightarrow> line_safe (r_when r) \<and> \<not> member_condition (r_when r) \<and> condition_ok b (r_when r))"
proof (cases "ParseWhen (r_when r)")
  case (Inl e)
  then show ?thesis
    by (auto simp: resource_when_check_def Let_def condition_ok_def member_condition_def
        checkScalar_line_safe split: option.splits)
next
  case (Inr q)
  obtain source name op literal where q: "q = (source, name, op, literal)" by (cases q) auto
  show ?thesis
    unfolding resource_when_check_def Let_def condition_ok_def member_condition_def Inr q
    by (auto simp: checkScalar_line_safe env_condition_ok_def param_condition_ok_def refuse_None
        always_present_def split: option.splits)
qed

section \<open>Counting the ways a field is set\<close>

definition set_count :: "string list \<Rightarrow> nat" where
  "set_count vs = length (filter (\<lambda>v. v \<noteq> []) vs)"

definition raw_foreign :: "blueprint \<Rightarrow> field \<Rightarrow> bool" where
  \<comment> \<open>Go-template syntax in a \<open>raw:\<close> value under another engine\<close>
  "raw_foreign b f \<longleftrightarrow> f_raw f \<noteq> [] \<and> Engine b \<noteq> EngineGoTemplating \<and>
     (contains (f_raw f) ''{{'' \<or> IsBareGoTemplateExpr (f_raw f))"

definition field_lines_check :: "(string \<Rightarrow> marg) \<Rightarrow> (string \<times> string) list \<Rightarrow> msg option" where
  \<comment> \<open>the loop over the labelled values of an entry\<close>
  "field_lines_check loc vs = check_all (\<lambda>(label, v). checkScalar (loc label) v) vs"

lemma field_lines_check_None [check_simps]:
  "field_lines_check w vs = None \<longleftrightarrow> (\<forall>(label, v) \<in> set vs. line_safe v)"
  by (auto simp: field_lines_check_def check_all_None checkScalar_line_safe)

definition field_lines :: "field \<Rightarrow> bool" where
  "field_lines f \<longleftrightarrow> line_safe (f_from f) \<and> line_safe (f_raw f) \<and> line_safe (f_template f) \<and>
     line_safe (f_value f)"

end
