(* ===== verification/Validate_Fields.thy ===== *)
theory Validate_Fields
  imports Wires
begin

text \<open>
  A resource's \<open>fields:\<close> entries (\<open>validateFields\<close> in \<open>validate_resources.go\<close>): the
  path grammar, the exactly-one-of rule, and the reference each \<open>from:\<close> must resolve to.
\<close>

section \<open>The validator\<close>

definition field_ctx :: "resource \<Rightarrow> string \<Rightarrow> marg" where
  "field_ctx r p = Ctx (Msg ''resource %q field %q'' [Str (r_name r), Str p])"

definition map_key_check :: "blueprint \<Rightarrow> resource \<Rightarrow> string \<Rightarrow> msg option" where
  \<comment> \<open>a path with a bracketed key: the key, and no field that sets the whole map\<close>
  "map_key_check b r p =
     (case ParseFieldPath p of (basePath, mapKey, isMap) \<Rightarrow>
      if \<not> isMap then None
      else if mapKey = []
      then Some (Msg ''resource %q field %q: empty map key inside brackets'' [Str (r_name r), Str p])
      else case checkScalar (Ctx (Msg ''resource %q field %q: map key'' [Str (r_name r), Str p])) mapKey of
        Some e \<Rightarrow> Some e
      | None \<Rightarrow>
          (case map_of (r_fields r) basePath of
             None \<Rightarrow> None
           | Some whole \<Rightarrow>
               let isObjParam = (f_from whole \<noteq> [] \<and>
                     (case ParamRef (f_from whole) of
                        None \<Rightarrow> False
                      | Some (pref, _) \<Rightarrow> pref \<noteq> [] \<and>
                          (case map_of (b_params b) pref of
                             None \<Rightarrow> False | Some pdecl \<Rightarrow> p_type pdecl = ''object'')))
               in refuse (\<not> isObjParam)
                    (Msg ''resource %q field %q conflicts with field %q, which sets the whole map''
                      [Str (r_name r), Str p, Str basePath])))"

definition is_map_leaf :: "resource \<Rightarrow> string \<Rightarrow> bool" where
  "is_map_leaf r p \<longleftrightarrow> list_ex (\<lambda>(other, _). has_prefix other (p @ ''['')) (r_fields r) \<or>
     p = ''tags'' \<or> p = ''labels'' \<or> p = ''annotations'' \<or>
     has_suffix p ''.tags'' \<or> has_suffix p ''.labels'' \<or> has_suffix p ''.annotations''"

definition ref_param :: "string \<Rightarrow> string" where
  \<comment> \<open>\<open>param, _, _ := ParamRef(from)\<close>\<close>
  "ref_param from = (case ParamRef from of None \<Rightarrow> [] | Some (param, _) \<Rightarrow> param)"

definition field_param_check :: "blueprint \<Rightarrow> resource \<Rightarrow> string \<Rightarrow> string \<Rightarrow> parameter \<Rightarrow> msg option" where
  \<comment> \<open>the shapes a parameter wired into field \<open>p\<close> may have\<close>
  "field_param_check b r p from decl =
     (let param = ref_param from;
          (_, _, isMap) = ParseFieldPath p;
          composite = Msg ''resource %q field %q: parameter %q has type %q, and a from: mapping cannot render a composite value in M1''
            [Str (r_name r), Str p, Str param, Str (p_type decl), Str param]
      in if p_type decl = ''array'' then Some composite
         else if p_type decl = ''object'' then
           if isMap then Some composite
           else if p_properties decl \<noteq> [] \<and> \<not> is_map_leaf r p
           then Some (Msg ''resource %q field %q: parameter %q is a typed object''
                  [Str (r_name r), Str p, Str param, Str param, Strs (sortedMemberNames decl)])
           else refuse (p_properties decl = [] \<and> \<not> is_map_leaf r p) composite
         else None)"

definition field_from_check :: "blueprint \<Rightarrow> resource \<Rightarrow> string \<Rightarrow> string \<Rightarrow> msg option" where
  "field_from_check b r p from =
     (case ParseFrom from of
        Inl e \<Rightarrow> Some (Msg ''resource %q field %q: %w'' [Str (r_name r), Str p, Ctx e])
      | Inr ref \<Rightarrow>
          let what = Ctx (Msg ''field %q'' [Str p]) in
          if fr_resource ref \<noteq> [] then
            if IsMetadataName ref then validateMetadataRef b r what from
            else validateStatusRef b r what from
          else if fr_env ref \<noteq> [] then
            (case map_of (b_env b) (fr_env ref) of
               None \<Rightarrow> Some (UnknownEnvKeyError (field_ctx r p) (fr_env ref) (b_env b))
             | Some _ \<Rightarrow> None)
          else (case resolveParamRef (b_xrd b) (field_ctx r p) (fr_param ref) of
             Inl e \<Rightarrow> Some e
           | Inr decl \<Rightarrow> field_param_check b r p from decl))"

definition field_template_check :: "blueprint \<Rightarrow> resource \<Rightarrow> string \<Rightarrow> string \<Rightarrow> msg option" where
  "field_template_check b r p template =
     (if Engine b \<noteq> EngineGoTemplating
      then Some (Msg ''resource %q field %q: engine %q does not support template: fields''
             [Str (r_name r), Str p, Str (Engine b)])
      else if map_of (b_templates b) template = None
      then Some (Msg ''resource %q field %q: references unknown template %q''
             [Str (r_name r), Str p, Str template])
      else refuse (r_provider r = NativeProvider)
        (Msg ''resource %q field %q: template: fields are not supported on a native Kubernetes resource (provider %q) in v1''
          [Str (r_name r), Str p, Str NativeProvider]))"

definition field_check :: "blueprint \<Rightarrow> resource \<Rightarrow> string \<Rightarrow> field \<Rightarrow> msg option" where
  "field_check b r p f =
     (if trim_space p = [] then Some (Msg ''resource %q: empty field path'' [Str (r_name r)])
      else first_error
       [checkScalar (field_ctx r p) p,
        map_key_check b r p,
        let n = set_count [f_from f, f_value f, f_raw f, f_template f] in
        refuse (n \<noteq> 1)
          (Msg ''resource %q field %q: set exactly one of from, value, raw or template (got %d)''
            [Str (r_name r), Str p, Num n]),
        field_lines_check (\<lambda>label. Ctx (Msg ''resource %q field %q: %s'' [Str (r_name r), Str p, Str label]))
          [(''from'', f_from f), (''raw'', f_raw f), (''template'', f_template f), (''value'', f_value f)],
        refuse (raw_foreign b f)
          (Msg ''resource %q field %q: raw %q contains Go-template syntax which is only supported with the go-templating engine (current engine is %q)''
            [Str (r_name r), Str p, Str (f_raw f), Str (Engine b)]),
        if f_template f \<noteq> [] then field_template_check b r p (f_template f) else None,
        if f_from f \<noteq> [] then field_from_check b r p (f_from f) else None])"

definition validateFields :: "blueprint \<Rightarrow> resource \<Rightarrow> msg option" where
  "validateFields b r = check_map (field_check b r) (r_fields r)"

section \<open>What it accepts\<close>

definition param_decl :: "blueprint \<Rightarrow> string \<Rightarrow> parameter option" where
  \<comment> \<open>the declaration a dotted reference names in the parameter tree\<close>
  "param_decl b ref = lookup_path (b_params b) (split_on CHR ''.'' ref)"

definition from_resolves :: "blueprint \<Rightarrow> resource \<Rightarrow> string \<Rightarrow> (parameter \<Rightarrow> bool) \<Rightarrow> bool" where
  \<comment> \<open>a reference names a declared, unlooped other resource, a declared environment key, or a
      declared parameter of an admissible shape\<close>
  "from_resolves b r from shape \<longleftrightarrow>
     (\<exists>ref. ParseFrom from = Inr ref \<and>
       (if fr_resource ref \<noteq> [] then
          if fr_metadataPath ref = ''name'' then metadata_ref_ok b r from else status_ref_ok b r from
        else if fr_env ref \<noteq> [] then map_of (b_env b) (fr_env ref) \<noteq> None
        else (\<exists>decl. param_decl b (fr_param ref) = Some decl \<and> shape decl)))"

definition field_shape :: "resource \<Rightarrow> string \<Rightarrow> parameter \<Rightarrow> bool" where
  "field_shape r p decl \<longleftrightarrow> p_type decl \<noteq> ''array'' \<and>
     (p_type decl = ''object'' \<longrightarrow> \<not> snd (snd (ParseFieldPath p)) \<and> is_map_leaf r p)"

lemma field_param_check_None: "field_param_check b r p from decl = None \<longleftrightarrow> field_shape r p decl"
  by (cases "ParseFieldPath p") (auto simp: field_param_check_def field_shape_def Let_def refuse_None)

lemma field_from_check_None:
  "field_from_check b r p from = None \<longleftrightarrow> from_resolves b r from (field_shape r p)"
proof (cases "ParseFrom from")
  case (Inl e)
  then show ?thesis by (simp add: field_from_check_def from_resolves_def)
next
  case (Inr ref)
  have "(case resolveParamRef (b_xrd b) (field_ctx r p) (fr_param ref) of
           Inl e \<Rightarrow> Some e | Inr decl \<Rightarrow> field_param_check b r p from decl) = None \<longleftrightarrow>
        (\<exists>decl. param_decl b (fr_param ref) = Some decl \<and> field_shape r p decl)"
    unfolding resolveParamRef_lookup param_decl_def
    by (cases "lookup_path (b_params b) (split_on CHR ''.'' (fr_param ref))")
      (simp_all add: field_param_check_None)
  with Inr show ?thesis
    by (auto simp: field_from_check_def from_resolves_def Let_def IsMetadataName_def
        validateMetadataRef_None validateStatusRef_None split: option.splits)
qed

definition field_template_ok :: "blueprint \<Rightarrow> resource \<Rightarrow> string \<Rightarrow> bool" where
  "field_template_ok b r t \<longleftrightarrow> Engine b = EngineGoTemplating \<and> map_of (b_templates b) t \<noteq> None \<and>
     r_provider r \<noteq> NativeProvider"

definition field_ok :: "blueprint \<Rightarrow> resource \<Rightarrow> string \<Rightarrow> field \<Rightarrow> bool" where
  "field_ok b r p f \<longleftrightarrow> trim_space p \<noteq> [] \<and> line_safe p \<and> map_key_check b r p = None \<and>
     set_count [f_from f, f_value f, f_raw f, f_template f] = 1 \<and> field_lines f \<and> \<not> raw_foreign b f \<and>
     (f_template f \<noteq> [] \<longrightarrow> field_template_ok b r (f_template f)) \<and>
     (f_from f \<noteq> [] \<longrightarrow> from_resolves b r (f_from f) (field_shape r p))"

lemma field_check_None: "field_check b r p f = None \<longleftrightarrow> field_ok b r p f"
proof -
  have t: "field_template_check b r p t = None \<longleftrightarrow> field_template_ok b r t" for t
    by (auto simp: field_template_check_def field_template_ok_def refuse_None)
  show ?thesis
    by (simp add: field_check_def field_ok_def t field_from_check_None field_lines_check_None
        checkScalar_line_safe refuse_None field_lines_def Let_def conj_assoc)
qed

lemma validateFields_None [check_simps]:
  "validateFields b r = None \<longleftrightarrow> (\<forall>p f. map_of (r_fields r) p = Some f \<longrightarrow> field_ok b r p f)"
  unfolding validateFields_def check_map_None field_check_None ..

end
