(* ===== verification/Annotations.thy ===== *)
theory Annotations
  imports Validate_Fields
begin

text \<open>
  A resource's \<open>annotations:\<close> entries (\<open>internal/blueprint/annotations.go\<close>): the
  qualified-name grammar of the keys, the reserved composition-resource-name keys, and the
  value forms.
\<close>

section \<open>Keys\<close>

definition annotationPrefixMaxLen :: nat where "annotationPrefixMaxLen = 253"
definition annotationNameMaxLen :: nat where "annotationNameMaxLen = 63"

definition reservedAnnotationKeys :: "string list" where
  "reservedAnnotationKeys = [''crossplane.io/composition-resource-name'',
     ''gotemplating.fn.crossplane.io/composition-resource-name'']"

definition ReservedAnnotationKey :: "string \<Rightarrow> bool" where
  "ReservedAnnotationKey k \<longleftrightarrow> k \<in> set reservedAnnotationKeys"

definition annotation_name_check :: "string \<Rightarrow> msg option" where
  \<comment> \<open>the tail of \<open>checkAnnotationKey\<close>: what follows the slash, or the whole key\<close>
  "annotation_name_check name = first_error
     [refuse (name = []) (Msg ''the name after / is empty'' []),
      refuse (length name > annotationNameMaxLen)
        (Msg ''the name %q is %d characters; an annotation name is at most %d''
          [Str name, Num (length name), Num annotationNameMaxLen]),
      refuse (\<not> match_string annotationNameRE name)
        (Msg ''the name %q is not a valid annotation name'' [Str name])]"

definition checkAnnotationKey :: "string \<Rightarrow> msg option" where
  "checkAnnotationKey k =
     (if k = [] then Some (Msg ''annotation key is empty'' [])
      else if count_char CHR ''/'' k > 1
      then Some (Msg ''an annotation key has at most one /'' [])
      else case go_cut k ''/'' of
        Some (pre, rest) \<Rightarrow> first_error
          [refuse (pre = []) (Msg ''the prefix before / is empty'' []),
           refuse (length pre > annotationPrefixMaxLen)
             (Msg ''the prefix %q is %d characters; a DNS-subdomain prefix is at most %d''
               [Str pre, Num (length pre), Num annotationPrefixMaxLen]),
           refuse (\<not> match_string groupRE pre) (Msg ''the prefix %q is not a DNS subdomain'' [Str pre]),
           annotation_name_check rest]
      | None \<Rightarrow> annotation_name_check k)"

section \<open>Entries\<close>

definition annotation_what :: "string \<Rightarrow> marg" where
  "annotation_what k = Ctx (Msg ''annotation %q'' [Str k])"

definition annotation_ctx :: "resource \<Rightarrow> string \<Rightarrow> marg" where
  "annotation_ctx r k = Ctx (Msg ''resource %q %s'' [Str (r_name r), annotation_what k])"

definition annotation_from_check :: "blueprint \<Rightarrow> resource \<Rightarrow> string \<Rightarrow> string \<Rightarrow> msg option" where
  "annotation_from_check b r k from =
     (case ParseFrom from of
        Inl e \<Rightarrow> Some (Msg ''resource %q %s: %w'' [Str (r_name r), annotation_what k, Ctx e])
      | Inr ref \<Rightarrow>
          if fr_resource ref \<noteq> [] then
            if IsMetadataName ref then validateMetadataRef b r (annotation_what k) from
            else validateStatusRef b r (annotation_what k) from
          else if fr_env ref \<noteq> [] then
            (case map_of (b_env b) (fr_env ref) of
               None \<Rightarrow> Some (UnknownEnvKeyError (annotation_ctx r k) (fr_env ref) (b_env b))
             | Some _ \<Rightarrow> None)
          else (case resolveParamRef (b_xrd b) (annotation_ctx r k) (fr_param ref) of
             Inl e \<Rightarrow> Some e
           | Inr decl \<Rightarrow>
               refuse (p_type decl \<in> set compositeTypes)
                 (Msg ''resource %q %s: parameter %q has type %q, and an annotation wire can only carry a scalar''
                   [Str (r_name r), annotation_what k, Str (fr_param ref), Str (p_type decl)])))"

definition annotation_template_check :: "blueprint \<Rightarrow> resource \<Rightarrow> string \<Rightarrow> string \<Rightarrow> msg option" where
  "annotation_template_check b r k template =
     (if Engine b \<noteq> EngineGoTemplating
      then Some (Msg ''resource %q %s: engine %q does not support template: fields''
             [Str (r_name r), annotation_what k, Str (Engine b)])
      else refuse (map_of (b_templates b) template = None)
        (Msg ''resource %q %s: references unknown template %q''
          [Str (r_name r), annotation_what k, Str template]))"

definition annotation_check :: "blueprint \<Rightarrow> resource \<Rightarrow> string \<Rightarrow> field \<Rightarrow> msg option" where
  "annotation_check b r k f = first_error
     [checkScalar (Ctx (Msg ''resource %q %s: key'' [Str (r_name r), annotation_what k])) k,
      case checkAnnotationKey k of
        None \<Rightarrow> None
      | Some e \<Rightarrow> Some (Msg ''resource %q %s: %w'' [Str (r_name r), annotation_what k, Ctx e]),
      refuse (k \<in> set reservedAnnotationKeys)
        (Msg ''resource %q %s: this key is the composition-resource-name annotation''
          [Str (r_name r), annotation_what k]),
      let n = set_count [f_from f, f_value f, f_raw f, f_template f] in
      refuse (n \<noteq> 1)
        (Msg ''resource %q %s: set exactly one of from, value, raw or template (got %d)''
          [Str (r_name r), annotation_what k, Num n]),
      field_lines_check (\<lambda>lbl. Ctx (Msg ''resource %q %s: %s'' [Str (r_name r), annotation_what k, Str lbl]))
        [(''from'', f_from f), (''raw'', f_raw f), (''template'', f_template f), (''value'', f_value f)],
      refuse (raw_foreign b f)
        (Msg ''resource %q %s: raw %q contains Go-template syntax which is only supported with the go-templating engine (current engine is %q)''
          [Str (r_name r), annotation_what k, Str (f_raw f), Str (Engine b)]),
      if f_template f \<noteq> [] then annotation_template_check b r k (f_template f) else None,
      if f_from f \<noteq> [] then annotation_from_check b r k (f_from f) else None]"

definition validateResourceAnnotations :: "blueprint \<Rightarrow> resource \<Rightarrow> msg option" where
  "validateResourceAnnotations b r = check_map (annotation_check b r) (r_annotations r)"

section \<open>What it accepts\<close>

definition qualified_name :: "string \<Rightarrow> bool" where
  \<comment> \<open>an optional DNS-subdomain prefix and a slash, then a name\<close>
  "qualified_name k \<longleftrightarrow> (\<exists>name. name \<noteq> [] \<and> length name \<le> 63 \<and> match_string annotationNameRE name \<and>
     CHR ''/'' \<notin> set name \<and>
     (k = name \<or> (\<exists>pre. k = pre @ ''/'' @ name \<and> pre \<noteq> [] \<and> length pre \<le> 253 \<and>
        CHR ''/'' \<notin> set pre \<and> match_string groupRE pre)))"

lemma count_char_simps [simp]:
  "count_char d [] = 0"
  "count_char d (c # s) = (if c = d then 1 else 0) + count_char d s"
  "count_char d (s @ t) = count_char d s + count_char d t"
  by (simp_all add: count_char_def)

lemma count_char_0: "count_char d s = 0 \<longleftrightarrow> d \<notin> set s"
  by (simp add: count_char_def filter_empty_conv) blast

lemma annotation_name_check_None:
  "annotation_name_check n = None \<longleftrightarrow> n \<noteq> [] \<and> length n \<le> 63 \<and> match_string annotationNameRE n"
  by (auto simp: annotation_name_check_def annotationNameMaxLen_def refuse_None)

definition scalar_shape :: "parameter \<Rightarrow> bool" where
  "scalar_shape decl \<longleftrightarrow> p_type decl \<notin> set compositeTypes"

lemma annotation_from_check_None:
  "annotation_from_check b r k from = None \<longleftrightarrow> from_resolves b r from scalar_shape"
proof (cases "ParseFrom from")
  case (Inl e)
  then show ?thesis by (simp add: annotation_from_check_def from_resolves_def)
next
  case (Inr ref)
  have "(case resolveParamRef (b_xrd b) c (fr_param ref) of
           Inl e \<Rightarrow> Some e | Inr decl \<Rightarrow> refuse (p_type decl \<in> set compositeTypes) (m decl)) = None \<longleftrightarrow>
        (\<exists>decl. param_decl b (fr_param ref) = Some decl \<and> scalar_shape decl)" for c m
    unfolding resolveParamRef_lookup param_decl_def
    by (cases "lookup_path (b_params b) (split_on CHR ''.'' (fr_param ref))")
      (simp_all add: refuse_None scalar_shape_def)
  with Inr show ?thesis
    by (auto simp: annotation_from_check_def from_resolves_def Let_def IsMetadataName_def
        validateMetadataRef_None validateStatusRef_None split: option.splits)
qed

lemma checkAnnotationKey_None [check_simps]: "checkAnnotationKey k = None \<longleftrightarrow> qualified_name k"
proof (cases "go_cut k ''/''")
  case None
  then have ns: "CHR ''/'' \<notin> set k" by (simp only: go_cut_single_None not_False_eq_True)
  then have "count_char CHR ''/'' k = 0" by (simp add: count_char_0)
  with None have "checkAnnotationKey k = None \<longleftrightarrow> k \<noteq> [] \<and> annotation_name_check k = None"
    by (simp add: checkAnnotationKey_def)
  also have "\<dots> \<longleftrightarrow> qualified_name k"
    using ns by (auto simp: annotation_name_check_None qualified_name_def)
  finally show ?thesis .
next
  case (Some pr)
  obtain pre rest where pr: "pr = (pre, rest)" by (cases pr)
  with Some have k: "k = pre @ CHR ''/'' # rest" and ns: "CHR ''/'' \<notin> set pre"
    by (auto simp only: go_cut_single_Some)
  from ns have "count_char CHR ''/'' pre = 0" by (simp add: count_char_0)
  then have one: "count_char CHR ''/'' k > 1 \<longleftrightarrow> CHR ''/'' \<in> set rest"
    using count_char_0 [of "CHR ''/''" rest] by (auto simp: k)
  have "checkAnnotationKey k = None \<longleftrightarrow> CHR ''/'' \<notin> set rest \<and> pre \<noteq> [] \<and> length pre \<le> 253 \<and>
      match_string groupRE pre \<and> annotation_name_check rest = None"
    using Some one by (auto simp: checkAnnotationKey_def pr annotationPrefixMaxLen_def refuse_None)
      (simp add: k)
  also have "\<dots> \<longleftrightarrow> qualified_name k"
  proof
    assume "qualified_name k"
    then obtain name pre' where "k = pre' @ CHR ''/'' # name" "CHR ''/'' \<notin> set pre'" "CHR ''/'' \<notin> set name"
      "name \<noteq> []" "length name \<le> 63" "match_string annotationNameRE name"
      "pre' \<noteq> []" "length pre' \<le> 253" "match_string groupRE pre'"
      by (auto simp: qualified_name_def k)
    moreover from this have "go_cut k ''/'' = Some (pre', name)"
      by (simp only: go_cut_single_Some) simp
    then have "pre' = pre" "name = rest" using Some pr by simp_all
    ultimately show "CHR ''/'' \<notin> set rest \<and> pre \<noteq> [] \<and> length pre \<le> 253 \<and>
      match_string groupRE pre \<and> annotation_name_check rest = None"
      by (simp add: annotation_name_check_None)
  qed (use k ns in \<open>auto simp: annotation_name_check_None qualified_name_def\<close>)
  finally show ?thesis .
qed

definition annotation_ok :: "blueprint \<Rightarrow> resource \<Rightarrow> string \<Rightarrow> field \<Rightarrow> bool" where
  "annotation_ok b r k f \<longleftrightarrow> line_safe k \<and> qualified_name k \<and> \<not> ReservedAnnotationKey k \<and>
     set_count [f_from f, f_value f, f_raw f, f_template f] = 1 \<and> field_lines f \<and> \<not> raw_foreign b f \<and>
     (f_template f \<noteq> [] \<longrightarrow> Engine b = EngineGoTemplating \<and> map_of (b_templates b) (f_template f) \<noteq> None) \<and>
     (f_from f \<noteq> [] \<longrightarrow> from_resolves b r (f_from f) scalar_shape)"

lemma annotation_check_None: "annotation_check b r k f = None \<longleftrightarrow> annotation_ok b r k f"
proof -
  have t: "annotation_template_check b r k t = None \<longleftrightarrow>
      Engine b = EngineGoTemplating \<and> map_of (b_templates b) t \<noteq> None" for t
    by (auto simp: annotation_template_check_def refuse_None)
  have key: "(case checkAnnotationKey k of None \<Rightarrow> None | Some e \<Rightarrow> Some (m e)) = None \<longleftrightarrow> qualified_name k"
    for m :: "msg \<Rightarrow> msg"
    using checkAnnotationKey_None [of k] by (auto split: option.splits)
  show ?thesis
    unfolding annotation_check_def annotation_ok_def
    by (simp add: key t annotation_from_check_None field_lines_check_None checkScalar_line_safe
        refuse_None field_lines_def Let_def conj_assoc ReservedAnnotationKey_def)
qed

lemma validateResourceAnnotations_None [check_simps]:
  "validateResourceAnnotations b r = None \<longleftrightarrow>
     (\<forall>k f. map_of (r_annotations r) k = Some f \<longrightarrow> annotation_ok b r k f)"
  unfolding validateResourceAnnotations_def check_map_None annotation_check_None ..

section \<open>Properties\<close>

text \<open>The key checks admit exactly the Kubernetes qualified names: an optional DNS-subdomain
  prefix of at most 253 bytes and one slash, then a name of at most 63 bytes with alphanumeric
  ends.\<close>

theorem checkAnnotationKey_decides:
  "checkAnnotationKey k = None \<longleftrightarrow> qualified_name k"
  by (rule checkAnnotationKey_None)

end
