(* ===== verification/Envelope.thy ===== *)
theory Envelope
  imports Wires
begin

text \<open>
  A resource's \<open>envelope:\<close> entries (\<open>internal/blueprint/envelope.go\<close>). The source checks
  only neighbouring paths for one path extending another; \<open>adjacent_complete\<close> shows that the
  sorted order and the segment grammar make that enough.
\<close>

section \<open>The validator\<close>

definition envelope_ctx :: "resource \<Rightarrow> string \<Rightarrow> marg" where
  "envelope_ctx r p = Ctx (Msg ''resource %q envelope %q'' [Str (r_name r), Str p])"

definition envelope_from_check :: "blueprint \<Rightarrow> resource \<Rightarrow> string \<Rightarrow> string \<Rightarrow> msg option" where
  "envelope_from_check b r p from =
     (case EnvRef from of
        Some envKey \<Rightarrow>
          (case map_of (b_env b) envKey of
             None \<Rightarrow> Some (UnknownEnvKeyError (envelope_ctx r p) envKey (b_env b))
           | Some _ \<Rightarrow> None)
      | None \<Rightarrow>
          (case cut_prefix from ''params.'' of
             None \<Rightarrow> Some (Msg ''resource %q envelope %q: from must start with params. or env. (got %q)''
                      [Str (r_name r), Str p, Str from])
           | Some param \<Rightarrow>
               (case resolveParamRef (b_xrd b) (envelope_ctx r p) param of
                  Inl e \<Rightarrow> Some e
                | Inr decl \<Rightarrow>
                    if p_type decl \<in> set compositeTypes then
                      (let name = (case ParamRef from of None \<Rightarrow> [] | Some (n, _) \<Rightarrow> n) in
                       if p_type decl = ''object'' \<and> p_properties decl \<noteq> []
                       then Some (Msg ''resource %q envelope %q: parameter %q is a typed object''
                              [Str (r_name r), Str p, Str name, Str name, Strs (sortedMemberNames decl)])
                       else Some (Msg ''resource %q envelope %q: parameter %q has type %q, and a from: mapping cannot render a composite value in M1''
                              [Str (r_name r), Str p, Str name, Str (p_type decl), Str name]))
                    else None)))"

definition envelope_entry_check :: "blueprint \<Rightarrow> resource \<Rightarrow> string \<Rightarrow> field \<Rightarrow> msg option" where
  "envelope_entry_check b r p f = first_error
     [check_all (\<lambda>seg. refuse (\<not> match_string paramNameRE seg \<or> to_lower seg \<in> set yamlKeywords)
        (Msg ''resource %q envelope %q: segment %q is not a valid envelope key''
          [Str (r_name r), Str p, Str seg])) (split_on CHR ''.'' p),
      let n = set_count [f_from f, f_value f, f_raw f] in
      refuse (n \<noteq> 1)
        (Msg ''resource %q envelope %q: set exactly one of from, value or raw (got %d)''
          [Str (r_name r), Str p, Num n]),
      field_lines_check (\<lambda>label. Ctx (Msg ''resource %q envelope %q: %s'' [Str (r_name r), Str p, Str label]))
        [(''from'', f_from f), (''raw'', f_raw f), (''value'', f_value f)],
      refuse (raw_foreign b f)
        (Msg ''resource %q envelope %q: raw %q contains Go-template syntax which is only supported with the go-templating engine (current engine is %q)''
          [Str (r_name r), Str p, Str (f_raw f), Str (Engine b)]),
      if f_from f \<noteq> [] then envelope_from_check b r p (f_from f) else None]"

fun adjacent_check :: "resource \<Rightarrow> string list \<Rightarrow> msg option" where
  "adjacent_check r (p # q # rest) =
     (if has_prefix q (p @ ''.'')
      then Some (Msg ''resource %q envelope: %q and %q conflict'' [Str (r_name r), Str p, Str q])
      else adjacent_check r (q # rest))"
| "adjacent_check r _ = None"

definition validateResourceEnvelope :: "blueprint \<Rightarrow> resource \<Rightarrow> msg option" where
  "validateResourceEnvelope b r = first_error
     [check_map (envelope_entry_check b r) (r_envelope r),
      adjacent_check r (sorted_keys (r_envelope r))]"

section \<open>Neighbours suffice\<close>

definition path_char :: "char \<Rightarrow> bool" where
  "path_char c \<longleftrightarrow> c = CHR ''.'' \<or> is_alnum c"

lemma path_char_dot: "path_char c \<Longrightarrow> c \<le> CHR ''.'' \<Longrightarrow> c = CHR ''.''"
  by (auto simp: path_char_def is_alnum_def in_ranges_def less_eq_char_def)

lemma between_extends:
  "p < s \<Longrightarrow> s \<le> p @ CHR ''.'' # w \<Longrightarrow> list_all path_char s \<Longrightarrow> prefix (p @ ''.'') s"
proof (induction p arbitrary: s)
  case Nil
  then obtain c t where s: "s = c # t" by (cases s) auto
  with Nil have "c \<le> CHR ''.''" by (auto split: if_splits)
  with Nil s path_char_dot show ?case by auto
next
  case (Cons x p)
  then obtain c t where s: "s = c # t" by (cases s) auto
  with Cons.prems have "c = x" by (auto split: if_splits)
  with Cons s show ?case by auto
qed

lemma sorted_successor:
  assumes "sorted (p # q # rest)" "distinct (p # q # rest)" "e \<in> set (q # rest)"
  shows "p < q" "q \<le> (e :: string)"
  using assms by (auto simp: less_le)

lemma adjacent_complete:
  assumes "sorted ps" "distinct ps" "\<forall>p \<in> set ps. list_all path_char p"
  shows "adjacent_check r ps = None \<longleftrightarrow> (\<forall>p \<in> set ps. \<forall>q \<in> set ps. \<not> prefix (p @ ''.'') q)"
  using assms
proof (induction ps rule: adjacent_check.induct)
  case (1 r p q rest)
  have less: "p < q" using sorted_successor(1) [OF 1(2,3), of q] by simp
  have up: "\<not> prefix (e @ ''.'') p" if "e \<in> set (p # q # rest)" for e
  proof
    assume "prefix (e @ ''.'') p"
    then obtain w where w: "p = (e @ ''.'') @ w" by (rule prefixE)
    have "e < e @ CHR ''.'' # w" by (induction e) auto
    with w that 1(2) show False by (auto simp: leD)
  qed
  have down: "prefix (p @ ''.'') q" if "prefix (p @ ''.'') e" "e \<in> set (q # rest)" for e
  proof -
    from that obtain w where "e = p @ CHR ''.'' # w" by (auto simp: prefix_def)
    with sorted_successor [OF 1(2,3) that(2)] 1(4) show ?thesis
      by (intro between_extends) auto
  qed
  show ?case
  proof (cases "prefix (p @ ''.'') q")
    case True
    then show ?thesis by (auto simp: has_prefix_iff)
  next
    case False
    then have "adjacent_check r (p # q # rest) = adjacent_check r (q # rest)"
      by (simp add: has_prefix_iff)
    moreover have "adjacent_check r (q # rest) = None \<longleftrightarrow>
        (\<forall>p \<in> set (q # rest). \<forall>q \<in> set (q # rest). \<not> prefix (p @ ''.'') q)"
      using 1(1) False 1(2-4) by (simp add: has_prefix_iff)
    ultimately show ?thesis using up down False by (auto simp del: adjacent_check.simps)
  qed
qed auto

section \<open>What it accepts\<close>

definition envelope_ref_ok :: "blueprint \<Rightarrow> string \<Rightarrow> bool" where
  "envelope_ref_ok b from \<longleftrightarrow>
     (\<exists>k. from = ''env.'' @ k \<and> map_of (b_env b) k \<noteq> None) \<or>
     (\<exists>ref decl. from = ''params.'' @ ref \<and> lookup_path (b_params b) (split_on CHR ''.'' ref) = Some decl \<and>
        p_type decl \<notin> set compositeTypes)"

lemma envelope_from_check_None: "envelope_from_check b r p from = None \<longleftrightarrow> envelope_ref_ok b from"
proof (cases "EnvRef from")
  case (Some k)
  then have "from = ''env.'' @ k" by (simp only: EnvRef_Some)
  with Some show ?thesis
    by (auto simp: envelope_from_check_def envelope_ref_ok_def split: option.splits)
next
  case None
  then have ne: "\<nexists>k. from = ''env.'' @ k" by (metis EnvRef_Some option.distinct(1))
  show ?thesis
  proof (cases "cut_prefix from ''params.''")
    case (Some ref)
    then have "from = ''params.'' @ ref" by (simp only: cut_prefix_Some)
    with None Some ne show ?thesis
      unfolding envelope_from_check_def envelope_ref_ok_def resolveParamRef_lookup
      by (cases "lookup_path (b_params b) (split_on CHR ''.'' ref)") (auto simp: Let_def)
  next
    case None2: None
    then have "\<nexists>k. from = ''params.'' @ k" by (metis cut_prefix_Some option.distinct(1))
    with None None2 ne show ?thesis by (auto simp: envelope_from_check_def envelope_ref_ok_def)
  qed
qed

definition envelope_entry_ok :: "blueprint \<Rightarrow> string \<Rightarrow> field \<Rightarrow> bool" where
  "envelope_entry_ok b p f \<longleftrightarrow>
     (\<forall>seg \<in> set (split_on CHR ''.'' p). match_string paramNameRE seg \<and> to_lower seg \<notin> set yamlKeywords) \<and>
     set_count [f_from f, f_value f, f_raw f] = 1 \<and>
     line_safe (f_from f) \<and> line_safe (f_raw f) \<and> line_safe (f_value f) \<and> \<not> raw_foreign b f \<and>
     (f_from f \<noteq> [] \<longrightarrow> envelope_ref_ok b (f_from f))"

lemma envelope_entry_check_None: "envelope_entry_check b r p f = None \<longleftrightarrow> envelope_entry_ok b p f"
  by (simp add: envelope_entry_check_def envelope_entry_ok_def envelope_from_check_None
      field_lines_check_None check_all_None refuse_None Let_def conj_assoc)

lemma envelope_path_chars:
  assumes "\<forall>seg \<in> set (split_on CHR ''.'' p). match_string paramNameRE seg"
  shows "list_all path_char p"
proof -
  have "set (go_join ''.'' ss) \<subseteq> insert CHR ''.'' (\<Union> (set ` set ss))" for ss
    by (induction ss rule: induct_list012) auto
  from this [of "split_on CHR ''.'' p"] have "set p \<subseteq> insert CHR ''.'' (\<Union> (set ` set (split_on CHR ''.'' p)))"
    by (simp add: go_join_split_on)
  with assms paramName_alnum show ?thesis
    by (fastforce simp: list_all_iff path_char_def)
qed

lemma validateResourceEnvelope_None [check_simps]:
  assumes "gomap_ok (r_envelope r)"
  shows "validateResourceEnvelope b r = None \<longleftrightarrow>
    (\<forall>p f. map_of (r_envelope r) p = Some f \<longrightarrow> envelope_entry_ok b p f) \<and>
    (\<forall>p \<in> fst ` set (r_envelope r). \<forall>q \<in> fst ` set (r_envelope r). \<not> prefix (p @ ''.'') q)"
proof (cases "\<forall>p f. map_of (r_envelope r) p = Some f \<longrightarrow> envelope_entry_ok b p f")
  case True
  have "list_all path_char p" if "p \<in> set (sorted_keys (r_envelope r))" for p
  proof -
    from that obtain f where "map_of (r_envelope r) p = Some f"
      by (metis domD dom_map_of_conv_image_fst set_sorted_keys)
    with True show ?thesis by (intro envelope_path_chars) (auto simp: envelope_entry_ok_def)
  qed
  with assms have "adjacent_check r (sorted_keys (r_envelope r)) = None \<longleftrightarrow>
      (\<forall>p \<in> fst ` set (r_envelope r). \<forall>q \<in> fst ` set (r_envelope r). \<not> prefix (p @ ''.'') q)"
    by (subst adjacent_complete) simp_all
  with True show ?thesis
    by (simp add: validateResourceEnvelope_def check_map_None envelope_entry_check_None)
next
  case False
  then have "check_map (envelope_entry_check b r) (r_envelope r) \<noteq> None"
    unfolding check_map_None envelope_entry_check_None .
  with False show ?thesis by (auto simp: validateResourceEnvelope_def)
qed

section \<open>Properties\<close>

text \<open>C20: Checking neighbours in sorted order is enough: an envelope of well-formed paths
  passes the adjacency loop exactly when no path sets a node another sets a child of.\<close>

theorem envelope_conflicts:
  assumes "gomap_ok (r_envelope r)"
    and "\<forall>p \<in> fst ` set (r_envelope r). \<forall>seg \<in> set (split_on CHR ''.'' p). match_string paramNameRE seg"
  shows "adjacent_check r (sorted_keys (r_envelope r)) = None \<longleftrightarrow>
    (\<forall>p \<in> fst ` set (r_envelope r). \<forall>q \<in> fst ` set (r_envelope r). \<not> prefix (p @ ''.'') q)"
proof -
  have "\<forall>p \<in> set (sorted_keys (r_envelope r)). list_all path_char p"
    using assms(2) envelope_path_chars by simp
  then show ?thesis using adjacent_complete [of "sorted_keys (r_envelope r)" r] assms(1) by simp
qed

theorem envelope_conflicts_witness:
  "let f = \<lparr>f_from = [], f_value = ''v'', f_raw = [], f_template = []\<rparr>;
       r = \<lparr>r_name = ''q'', r_kind = ''Queue'', r_provider = [], r_forEach = [], r_when = [], r_fields = [],
            r_envelope = [(''ref.name'', f), (''refs'', f), (''ref'', f)], r_annotations = []\<rparr>
   in adjacent_check r (sorted_keys (r_envelope r)) \<noteq> None"
proof -
  let ?f = "\<lparr>f_from = [], f_value = ''v'', f_raw = [], f_template = []\<rparr>"
  let ?r = "\<lparr>r_name = ''q'', r_kind = ''Queue'', r_provider = [], r_forEach = [], r_when = [], r_fields = [],
            r_envelope = [(''ref.name'', ?f), (''refs'', ?f), (''ref'', ?f)], r_annotations = []\<rparr>"
  have "gomap_ok (r_envelope ?r)" by (simp add: gomap_ok_def)
  moreover have "\<forall>p \<in> set (map fst (r_envelope ?r)). \<forall>seg \<in> set (split_on CHR ''.'' p). match_string paramNameRE seg"
    by code_simp
  ultimately show ?thesis using envelope_conflicts [of ?r] by (simp add: Let_def)
qed

end
