(* ===== verification/Validate_Env.thy ===== *)
theory Validate_Env
  imports Validate_Root
begin

text \<open>
  Environment declarations (\<open>validate_environment.go\<close>): the typed keys of
  \<open>spec.environment\<close>, the configs of \<open>spec.environmentConfigs\<close>, and the names
  \<open>EffectiveEnvironmentConfigs\<close> (\<open>types.go\<close>) derives for unnamed configs.
\<close>

section \<open>The validators\<close>

definition validEnvTypes :: "string list" where
  "validEnvTypes = [''string'', ''integer'', ''number'', ''boolean'']"

definition env_value_check :: "(string \<Rightarrow> msg) \<Rightarrow> string \<Rightarrow> string \<Rightarrow> msg option" where
  \<comment> \<open>the switch on the declared type; \<open>mk\<close> builds the error from the noun of the type\<close>
  "env_value_check mk typ v =
     (if typ = ''boolean'' then refuse (to_lower v \<notin> {''true'', ''false''}) (mk ''boolean'')
      else if typ = ''integer'' then refuse (parse_int64 v = None) (mk ''integer'')
      else if typ = ''number'' then refuse (\<not> finite_float v) (mk ''number'')
      else None)"

definition env_key_check :: "string \<Rightarrow> env_key \<Rightarrow> msg option" where
  "env_key_check n k =
     (if \<not> match_string paramNameRE n \<or> to_lower n \<in> set yamlParamKeywords
      then Some (Msg ''spec.environment.%s: invalid environment key name'' [Str n])
      else if k_type k \<notin> set validEnvTypes then
        if k_type k = []
        then Some (Msg ''spec.environment.%s: type is required'' [Str n])
        else Some (Msg ''spec.environment.%s: unknown type %q'' [Str n, Str (k_type k)])
      else first_error
        [checkScalar (Ctx (Msg ''spec.environment.%s.description'' [Str n])) (k_description k),
         if k_default k \<noteq> [] then first_error
           [checkScalar (Ctx (Msg ''spec.environment.%s.default'' [Str n])) (k_default k),
            env_value_check (\<lambda>what. Msg (''spec.environment.%s: default %q is not a valid '' @ what)
              [Str n, Str (k_default k)]) (k_type k) (k_default k)]
         else None])"

definition validateEnvironment :: "blueprint \<Rightarrow> msg option" where
  "validateEnvironment b =
     (if b_env b = [] then None
      else if Engine b = EngineKCL
      then Some (Msg ''spec.environment: engine %q does not support spec.environment'' [Str (Engine b)])
      else check_map env_key_check (b_env b))"

definition config_name_ok :: "string \<Rightarrow> bool" where
  "config_name_ok n \<longleftrightarrow> match_string resourceNameRE n \<and> to_lower n \<notin> set yamlKeywords"

definition config_data_check :: "blueprint \<Rightarrow> nat \<Rightarrow> env_config \<Rightarrow> msg option" where
  "config_data_check b i cfg = check_map (\<lambda>k val.
     case map_of (b_env b) k of
       None \<Rightarrow> Some (Msg ''spec.environmentConfigs[%d]: unknown environment key %q'' [Num i, Str k])
     | Some envKey \<Rightarrow>
         if val \<noteq> [] then
           env_value_check (\<lambda>what. Msg (''spec.environmentConfigs[%d].data.%s: value %q is not a valid '' @ what)
             [Num i, Str k, Str val]) (k_type envKey) val
         else None) (EffectiveData cfg)"

definition config_head_check :: "nat \<Rightarrow> env_config \<Rightarrow> msg option" where
  \<comment> \<open>the checks on the written name and selector\<close>
  "config_head_check i cfg = first_error
     [if c_name cfg \<noteq> [] then first_error
        [checkScalar (Ctx (Msg ''spec.environmentConfigs[%d].name'' [Num i])) (c_name cfg),
         refuse (\<not> config_name_ok (c_name cfg))
           (Msg ''spec.environmentConfigs[%d].name: %q is not a valid config name'' [Num i, Str (c_name cfg)])]
      else None,
      case c_selector cfg of
        None \<Rightarrow> None
      | Some labels \<Rightarrow>
          if labels = []
          then Some (Msg ''spec.environmentConfigs[%d]: selector declared with empty matchLabels'' [Num i])
          else check_map (\<lambda>k v. first_error
            [checkScalar (Ctx (Msg ''spec.environmentConfigs[%d].selector.matchLabels key %q'' [Num i, Str k])) k,
             checkScalar (Ctx (Msg ''spec.environmentConfigs[%d].selector.matchLabels[%s]'' [Num i, Str k])) v])
            labels]"

fun configs_loop :: "blueprint \<Rightarrow> nat \<Rightarrow> nat gomap \<Rightarrow> (env_config \<times> env_config) list \<Rightarrow> msg option" where
  \<comment> \<open>index, \<open>seenNames\<close>, the configs left, each with its effective form\<close>
  "configs_loop b i seen [] = None"
| "configs_loop b i seen ((cfg, eff) # rest) =
     (case config_head_check i cfg of
        Some e \<Rightarrow> Some e
      | None \<Rightarrow>
          let effName = c_name eff in
          if \<not> config_name_ok effName
          then Some (Msg ''spec.environmentConfigs[%d]: effective config name %q is not a valid config name''
                 [Num i, Str effName])
          else case map_of seen effName of
            Some prev \<Rightarrow> Some (Msg ''spec.environmentConfigs[%d]: duplicate config name %q (previously defined at index %d)''
                 [Num i, Str effName, Num prev])
          | None \<Rightarrow>
              (case config_data_check b i cfg of
                 Some e \<Rightarrow> Some e
               | None \<Rightarrow> configs_loop b (i + 1) (AList.update effName i seen) rest))"

definition validateEnvironmentConfigs :: "blueprint \<Rightarrow> msg option" where
  "validateEnvironmentConfigs b =
     (let cfgs = sp_environmentConfigs (b_spec b) in
      if cfgs = [] then None
      else if b_env b = []
      then Some (Msg ''spec.environmentConfigs declared without spec.environment keys'' [])
      else configs_loop b 0 [] (zip cfgs (EffectiveEnvironmentConfigs b)))"

section \<open>What they accept\<close>

definition env_value_ok :: "string \<Rightarrow> string \<Rightarrow> bool" where
  "env_value_ok typ v \<longleftrightarrow>
     (typ = ''boolean'' \<longrightarrow> to_lower v \<in> {''true'', ''false''}) \<and>
     (typ = ''integer'' \<longrightarrow> parse_int64 v \<noteq> None) \<and>
     (typ = ''number'' \<longrightarrow> finite_float v)"

lemma env_value_check_None [check_simps]: "env_value_check mk typ v = None \<longleftrightarrow> env_value_ok typ v"
  by (auto simp: env_value_check_def env_value_ok_def refuse_None)

definition env_key_ok :: "string \<Rightarrow> env_key \<Rightarrow> bool" where
  "env_key_ok n k \<longleftrightarrow> field_name_ok n \<and> k_type k \<in> set validEnvTypes \<and> line_safe (k_description k) \<and>
     (k_default k \<noteq> [] \<longrightarrow> line_safe (k_default k) \<and> env_value_ok (k_type k) (k_default k))"

lemma env_key_check_None: "env_key_check n k = None \<longleftrightarrow> env_key_ok n k"
  by (auto simp: env_key_check_def env_key_ok_def field_name_ok_def checkScalar_line_safe
      env_value_check_None)

lemma validateEnvironment_None [check_simps]:
  "validateEnvironment b = None \<longleftrightarrow>
     (b_env b \<noteq> [] \<longrightarrow> Engine b \<noteq> EngineKCL) \<and>
     (\<forall>n k. map_of (b_env b) n = Some k \<longrightarrow> env_key_ok n k)"
  by (auto simp: validateEnvironment_def check_map_None env_key_check_None)

definition selector_ok :: "string gomap \<Rightarrow> bool" where
  "selector_ok labels \<longleftrightarrow> labels \<noteq> [] \<and>
     (\<forall>k v. map_of labels k = Some v \<longrightarrow> line_safe k \<and> line_safe v)"

definition config_data_ok :: "blueprint \<Rightarrow> env_config \<Rightarrow> bool" where
  "config_data_ok b cfg \<longleftrightarrow> (\<forall>k v. map_of (EffectiveData cfg) k = Some v \<longrightarrow>
     (\<exists>ek. map_of (b_env b) k = Some ek \<and> (v \<noteq> [] \<longrightarrow> env_value_ok (k_type ek) v)))"

definition config_ok :: "blueprint \<Rightarrow> env_config \<Rightarrow> bool" where
  "config_ok b cfg \<longleftrightarrow>
     (c_name cfg \<noteq> [] \<longrightarrow> line_safe (c_name cfg) \<and> config_name_ok (c_name cfg)) \<and>
     (case c_selector cfg of None \<Rightarrow> True | Some labels \<Rightarrow> selector_ok labels) \<and>
     config_name_ok (c_name (effective_config cfg)) \<and> config_data_ok b cfg"

lemma config_head_check_None:
  "config_head_check i cfg = None \<longleftrightarrow>
     (c_name cfg \<noteq> [] \<longrightarrow> line_safe (c_name cfg) \<and> config_name_ok (c_name cfg)) \<and>
     (case c_selector cfg of None \<Rightarrow> True | Some labels \<Rightarrow> selector_ok labels)"
  by (auto simp: config_head_check_def check_map_None checkScalar_line_safe refuse_None selector_ok_def
      split: option.splits)

lemma config_data_check_None: "config_data_check b i cfg = None \<longleftrightarrow> config_data_ok b cfg"
  unfolding config_data_check_def config_data_ok_def check_map_None
  by (intro all_cong1 imp_cong refl) (auto simp: env_value_check_None split: option.splits)

lemma configs_loop_None:
  "configs_loop b i seen (map (\<lambda>c. (c, effective_config c)) cfgs) = None \<longleftrightarrow>
     (\<forall>c \<in> set cfgs. config_ok b c) \<and> distinct (map (c_name \<circ> effective_config) cfgs) \<and>
     (c_name \<circ> effective_config) ` set cfgs \<inter> dom (map_of seen) = {}"
proof (induction cfgs arbitrary: i seen)
  case Nil
  then show ?case by simp
next
  case (Cons c cfgs)
  have "configs_loop b i seen (map (\<lambda>c. (c, effective_config c)) (c # cfgs)) = None \<longleftrightarrow>
      config_ok b c \<and> map_of seen (c_name (effective_config c)) = None \<and>
      configs_loop b (i + 1) (AList.update (c_name (effective_config c)) i seen)
        (map (\<lambda>c. (c, effective_config c)) cfgs) = None"
    using config_head_check_None [of i c] config_data_check_None [of b i c]
    by (auto simp: config_ok_def Let_def split: option.split)
  then show ?case
    by (simp only: Cons.IH dom_update) (auto simp: domIff)
qed

lemma zip_map_self: "zip xs (map f xs) = map (\<lambda>x. (x, f x)) xs"
  by (simp add: zip_map2 zip_same_conv_map)

lemma validateEnvironmentConfigs_None [check_simps]:
  "validateEnvironmentConfigs b = None \<longleftrightarrow>
     (let cfgs = sp_environmentConfigs (b_spec b) in cfgs \<noteq> [] \<longrightarrow> b_env b \<noteq> [] \<and>
       (\<forall>c \<in> set cfgs. config_ok b c) \<and> distinct (map c_name (EffectiveEnvironmentConfigs b)))"
  by (auto simp: validateEnvironmentConfigs_def Let_def zip_map_self configs_loop_None
      EffectiveEnvironmentConfigs_def)

section \<open>Generated config names\<close>

lemma collapse_no_double: "\<not> contains (collapse_hyphens s) ''--''"
  by (induction s rule: collapse_hyphens.induct) (subst collapse_hyphens.simps, simp)

lemma sanitize_rune_label: "sanitize_rune r = CHR ''-'' \<or> is_label_char (sanitize_rune r)"
  by (auto simp: sanitize_rune_def is_label_char_def in_ranges_def)

lemma set_replace_all: "set (replace_all s old new) \<subseteq> set s \<union> set new"
proof (induction s old new rule: replace_all.induct)
  case (3 c s o1 os new)
  then show ?case
    by (auto split: option.splits simp: cut_prefix_Some)
qed auto

lemma set_collapse: "set (collapse_hyphens s) \<subseteq> set s"
proof (induction s rule: collapse_hyphens.induct)
  case (1 s)
  show ?case
  proof (cases "contains s ''--''")
    case True
    have "CHR ''-'' \<in> set s" using True by (auto simp: contains_iff)
    with set_replace_all [of s "''--''" "''-''"] 1 [OF True] True show ?thesis
      by (subst collapse_hyphens.simps) auto
  qed (subst collapse_hyphens.simps, simp)
qed

lemma trim_set_dash:
  assumes "\<forall>c \<in> set s. c = CHR ''-'' \<or> is_label_char c"
  shows "trim_set s ''-'' = [] \<or> dns_label (trim_set s ''-'')"
proof -
  let ?d = "\<lambda>c. c \<in> set ''-''"
  define t where "t = trim_set s ''-''"
  have t: "t = rev (dropWhile ?d (rev (dropWhile ?d s)))"
    by (simp only: t_def trim_set_def trim_right_set_def)
  have sub: "set t \<subseteq> set s"
    by (auto simp: t dest!: set_dropWhileD)
  have last: "last t \<noteq> CHR ''-''" if "t \<noteq> []"
    using that hd_dropWhile [of ?d "rev (dropWhile ?d s)"] by (simp add: t last_rev)
  have hd: "hd t \<noteq> CHR ''-''" if "t \<noteq> []"
  proof -
    have pre: "prefix t (dropWhile ?d s)"
      by (metis t rev_rev_ident suffix_dropWhile suffix_to_prefix)
    then obtain u where u: "dropWhile ?d s = t @ u" by (rule prefixE)
    with that have "dropWhile ?d s \<noteq> []" "hd (dropWhile ?d s) = hd t" by auto
    with hd_dropWhile [of ?d s] show ?thesis by (metis list.set_intros(1) dropWhile_eq_Nil_conv)
  qed
  from sub assms last hd have "t = [] \<or> dns_label t"
    unfolding dns_label_def list_all_iff by (metis hd_in_set last_in_set subsetD)
  then show ?thesis by (simp only: t_def)
qed

lemma sanitize_label: "sanitizeEnvConfigName s = [] \<or> dns_label (sanitizeEnvConfigName s)"
proof -
  have "\<forall>c \<in> set (map sanitize_rune (runes (to_lower s))). c = CHR ''-'' \<or> is_label_char c"
    using sanitize_rune_label by auto
  with set_collapse show ?thesis
    unfolding sanitizeEnvConfigName_def by (intro trim_set_dash) blast
qed

lemma dns_label_join:
  "ws \<noteq> [] \<Longrightarrow> \<forall>w \<in> set ws. dns_label w \<Longrightarrow> dns_label (go_join ''-'' ws)"
proof (induction ws rule: induct_list012)
  case (3 v w ws)
  then have "dns_label v" "dns_label (go_join ''-'' (w # ws))" by simp_all
  then show ?case by (auto simp: dns_label_def)
qed auto

lemma selector_name_label: "selector_name labels = [] \<or> dns_label (selector_name labels)"
proof -
  let ?f = "\<lambda>k. sanitizeEnvConfigName (k @ ''-'' @ (case map_of labels k of None \<Rightarrow> [] | Some v \<Rightarrow> v))"
  let ?ws = "sort (filter (\<lambda>p. p \<noteq> []) (map ?f (sorted_keys labels)))"
  have "\<forall>w \<in> set ?ws. dns_label w" using sanitize_label by auto
  then show ?thesis
    using dns_label_join [of ?ws] unfolding selector_name_def by (cases "?ws = []") auto
qed

lemma effective_name_label:
  assumes "c_name cfg \<noteq> [] \<Longrightarrow> dns_label (c_name cfg)"
  shows "c_name (effective_config cfg) = [] \<or> dns_label (c_name (effective_config cfg))"
proof -
  have "dns_label ''default''" by code_simp
  then show ?thesis
    using assms selector_name_label by (auto simp: effective_config_def split: option.splits)
qed

section \<open>Properties\<close>

text \<open>C40: A name generated for an unnamed environment config, from its selector's labels, is
  empty or a DNS label, whatever the labels hold.\<close>

theorem effective_config_label:
  assumes "c_name cfg = []"
  shows "c_name (effective_config cfg) = [] \<or> dns_label (c_name (effective_config cfg))"
  by (rule effective_name_label) (simp add: assms)

theorem effective_config_label_witness:
  "c_name (effective_config \<lparr>c_name = [], c_selector = Some [(''Env'', ''Dev_1'')], c_data = [], c_values = []\<rparr>)
     = ''env-dev-1'' \<and>
   dns_label (c_name (effective_config
     \<lparr>c_name = [], c_selector = Some [(''Env'', ''Dev_1'')], c_data = [], c_values = []\<rparr>))"
proof -
  let ?c = "\<lparr>c_name = [], c_selector = Some [(''Env'', ''Dev_1'')], c_data = [], c_values = []\<rparr> :: env_config"
  have e: "c_name (effective_config ?c) = ''env-dev-1''" by code_simp
  show ?thesis using effective_config_label [of ?c] e by simp
qed

end
