(* ===== verification/Validate_Resources.thy ===== *)
theory Validate_Resources
  imports Annotations Envelope Validate_Env
begin

text \<open>
  The resources loop (\<open>validateResources\<close> in \<open>validate_resources.go\<close>): identity, kind,
  provider, loop bound and condition of each resource, then its fields, envelope and
  annotations.
\<close>

section \<open>The validator\<close>

fun duplicate_check :: "nat \<Rightarrow> string list \<Rightarrow> resource list \<Rightarrow> msg option" where
  \<comment> \<open>the first loop: index, \<open>resourceNames\<close>, the resources left\<close>
  "duplicate_check i seen [] = None"
| "duplicate_check i seen (r # rs) =
     (if r_name r \<in> set seen
      then Some (Msg ''spec.resources[%d]: duplicate resource name %q'' [Num i, Str (r_name r)])
      else duplicate_check (i + 1) (if r_name r \<noteq> [] then r_name r # seen else seen) rs)"

definition resource_head_check :: "nat \<Rightarrow> resource \<Rightarrow> msg option" where
  \<comment> \<open>name and kind\<close>
  "resource_head_check i r =
     (if r_name r = [] \<and> r_kind r = []
      then Some (Msg ''spec.resources[%d]: needs a name and a kind'' [Num i])
      else if r_name r = []
      then Some (Msg ''spec.resources[%d] (kind %q): needs a name'' [Num i, Str (r_kind r)])
      else if r_kind r = []
      then Some (Msg ''spec.resources[%d] %q: needs a kind'' [Num i, Str (r_name r)])
      else first_error
        [checkScalar (Ctx (Msg ''spec.resources[%d].name'' [Num i])) (r_name r),
         refuse (\<not> config_name_ok (r_name r))
           (Msg ''spec.resources[%d] %q: invalid resource name'' [Num i, Str (r_name r)]),
         checkScalar (Ctx (Msg ''spec.resources[%d].kind'' [Num i])) (r_kind r),
         refuse (\<not> match_string kindRE (r_kind r))
           (Msg ''spec.resources[%d].kind: %q is not a valid Kind'' [Num i, Str (r_kind r)])])"

definition special_provider :: "blueprint \<Rightarrow> string \<Rightarrow> bool" where
  \<comment> \<open>a pseudo-provider, or the path of a declared CRD manifest\<close>
  "special_provider b p \<longleftrightarrow> p = NativeProvider \<or> p = ClusterProvider \<or>
     list_ex (\<lambda>s. s_crds s \<noteq> [] \<and> s_crds s = p) (sp_sources (b_spec b))"

definition resource_provider_check :: "blueprint \<Rightarrow> nat \<Rightarrow> resource \<Rightarrow> msg option" where
  "resource_provider_check b i r =
     (if r_provider r = [] then None
      else first_error
        [checkScalar (Ctx (Msg ''spec.resources[%d].provider'' [Num i])) (r_provider r),
         refuse (\<not> special_provider b (r_provider r) \<and> \<not> match_string providerRefRE (r_provider r))
           (Msg ''spec.resources[%d].provider: %q is not a valid provider reference''
             [Num i, Str (r_provider r)]),
         refuse (\<not> special_provider b (r_provider r) \<and>
            \<not> list_ex (\<lambda>s. s_provider s = r_provider r) (sp_sources (b_spec b)))
           (Msg ''spec.resources[%d] (%q): provider %q is not declared in spec.sources''
             [Num i, Str (r_name r), Str (r_provider r)])])"

definition resource_check :: "blueprint \<Rightarrow> nat \<times> resource \<Rightarrow> msg option" where
  "resource_check b ir = (case ir of (i, r) \<Rightarrow> first_error
     [resource_head_check i r,
      resource_provider_check b i r,
      resource_forEach_check b i r,
      resource_when_check b i r,
      validateFields b r,
      validateResourceEnvelope b r,
      validateResourceAnnotations b r])"

definition validateResources :: "blueprint \<Rightarrow> msg option" where
  "validateResources b = first_error
     [duplicate_check 0 [] (b_resources b),
      check_all (resource_check b) (List.enumerate 0 (b_resources b))]"

section \<open>What it accepts\<close>

lemma duplicate_check_None:
  assumes "\<forall>r \<in> set rs. r_name r \<noteq> []"
  shows "duplicate_check i seen rs = None \<longleftrightarrow> distinct (map r_name rs) \<and> set (map r_name rs) \<inter> set seen = {}"
  using assms by (induction i seen rs rule: duplicate_check.induct) auto

definition provider_ok :: "blueprint \<Rightarrow> string \<Rightarrow> bool" where
  "provider_ok b p \<longleftrightarrow> line_safe p \<and> (special_provider b p \<or>
     match_string providerRefRE p \<and> (\<exists>s \<in> set (sp_sources (b_spec b)). s_provider s = p))"

definition conflict_free :: "resource \<Rightarrow> bool" where
  \<comment> \<open>no envelope path sets a node that another sets a child of\<close>
  "conflict_free r \<longleftrightarrow> (\<forall>p \<in> fst ` set (r_envelope r). \<forall>q \<in> fst ` set (r_envelope r).
     \<not> prefix (p @ ''.'') q)"

definition resource_ok :: "blueprint \<Rightarrow> resource \<Rightarrow> bool" where
  "resource_ok b r \<longleftrightarrow>
     r_name r \<noteq> [] \<and> line_safe (r_name r) \<and> config_name_ok (r_name r) \<and>
     r_kind r \<noteq> [] \<and> line_safe (r_kind r) \<and> match_string kindRE (r_kind r) \<and>
     (r_provider r \<noteq> [] \<longrightarrow> provider_ok b (r_provider r)) \<and>
     (r_forEach r \<noteq> [] \<longrightarrow> line_safe (r_forEach r) \<and> loop_bound_ok b r (r_forEach r)) \<and>
     (r_when r \<noteq> [] \<longrightarrow> line_safe (r_when r) \<and> \<not> member_condition (r_when r) \<and> condition_ok b (r_when r)) \<and>
     (\<forall>p f. map_of (r_fields r) p = Some f \<longrightarrow> field_ok b r p f) \<and>
     (\<forall>p f. map_of (r_envelope r) p = Some f \<longrightarrow> envelope_entry_ok b p f) \<and> conflict_free r \<and>
     (\<forall>k f. map_of (r_annotations r) k = Some f \<longrightarrow> annotation_ok b r k f)"

definition resource_maps_ok :: "resource \<Rightarrow> bool" where
  "resource_maps_ok r \<longleftrightarrow> gomap_ok (r_fields r) \<and> gomap_ok (r_envelope r) \<and> gomap_ok (r_annotations r)"

lemma resource_check_None:
  assumes "resource_maps_ok r"
  shows "resource_check b (i, r) = None \<longleftrightarrow> resource_ok b r"
proof -
  have h: "resource_head_check i r = None \<longleftrightarrow>
      r_name r \<noteq> [] \<and> line_safe (r_name r) \<and> config_name_ok (r_name r) \<and>
      r_kind r \<noteq> [] \<and> line_safe (r_kind r) \<and> match_string kindRE (r_kind r)"
    by (auto simp: resource_head_check_def checkScalar_line_safe refuse_None)
  have p: "resource_provider_check b i r = None \<longleftrightarrow> (r_provider r \<noteq> [] \<longrightarrow> provider_ok b (r_provider r))"
    by (auto simp: resource_provider_check_def checkScalar_line_safe refuse_None provider_ok_def list_ex_iff)
  have "validateResourceEnvelope b r = None \<longleftrightarrow>
      (\<forall>p f. map_of (r_envelope r) p = Some f \<longrightarrow> envelope_entry_ok b p f) \<and> conflict_free r"
    using assms by (simp add: validateResourceEnvelope_None resource_maps_ok_def conflict_free_def)
  then show ?thesis
    by (simp only: resource_check_def resource_ok_def prod.case first_error.simps check_seq_None h p
        resource_forEach_check_None resource_when_check_None validateFields_None
        validateResourceAnnotations_None simp_thms conj_assoc)
qed

lemma validateResources_None:
  assumes "\<forall>r \<in> set (b_resources b). resource_maps_ok r"
  shows "validateResources b = None \<longleftrightarrow>
    (\<forall>r \<in> set (b_resources b). resource_ok b r) \<and> distinct (map r_name (b_resources b))"
proof -
  have "check_all (resource_check b) (List.enumerate 0 (b_resources b)) = None \<longleftrightarrow>
      (\<forall>r \<in> set (b_resources b). resource_ok b r)"
  proof -
    have "(\<forall>x \<in> set (List.enumerate 0 (b_resources b)). resource_check b x = None) \<longleftrightarrow>
        (\<forall>x \<in> set (List.enumerate 0 (b_resources b)). resource_ok b (snd x))"
      using assms resource_check_None by (intro ball_cong refl) (force dest: enumerate_mem)
    then show ?thesis
      using enumerate_all [of 0 "b_resources b" "resource_ok b"] by (simp only: check_all_None)
  qed
  moreover have "duplicate_check 0 [] (b_resources b) = None \<longleftrightarrow> distinct (map r_name (b_resources b))"
    if "\<forall>r \<in> set (b_resources b). resource_ok b r"
    using that by (subst duplicate_check_None) (auto simp: resource_ok_def)
  ultimately show ?thesis by (auto simp: validateResources_def)
qed

end
