(* ===== verification/Templates.thy ===== *)
theory Templates
  imports Validate_Env
begin

text \<open>
  User templates and conventions (\<open>internal/blueprint/templates.go\<close>). The Go template
  parser (\<open>text/template\<close> with sprig and the engine's own functions) is the parameter
  \<open>parse_tpl\<close>: it maps an assembled define block to an error, or to the names of the
  templates the text defines and the nodes of the root tree.
\<close>

section \<open>Assembly\<close>

definition quote_name :: "string \<Rightarrow> string" where
  \<comment> \<open>\<open>%q\<close> on a name without characters to escape, which \<open>templateNameRE\<close> ensures\<close>
  "quote_name n = [dquote] @ n @ [dquote]"

definition TemplateBlockLines :: "string \<Rightarrow> string \<Rightarrow> string list" where
  "TemplateBlockLines name body =
     [''{{- define '' @ quote_name name @ '' }}''] @
     map (\<lambda>l. trim_right_set l [CHR '' '', CHR 0x09])
       (split_on CHR 0x0A (trim_right_set body [CHR 0x0A])) @
     [''{{- end }}'']"

section \<open>Validation\<close>

datatype root_node = TextNode string | OtherNode string

type_synonym tpl_parse = "string \<Rightarrow> msg + (string list \<times> root_node list option)"

definition checkTemplateBody :: "string \<Rightarrow> string \<Rightarrow> msg option" where
  "checkTemplateBody fieldPath body = check_all (\<lambda>(i, r).
     if r = 0x0A \<or> r = 0x09 then None
     else refuse (is_control r \<or> r = 0x2028 \<or> r = 0x2029)
       (Msg ''%s: contains the control character %q at byte %d'' [Str fieldPath, Num r, Num i]))
     (go_range 0 body)"

definition validateTemplateBody :: "tpl_parse \<Rightarrow> string \<Rightarrow> string \<Rightarrow> msg option" where
  "validateTemplateBody parse_tpl name body =
     (let assembled = go_join [CHR 0x0A] (TemplateBlockLines name body) in
      case parse_tpl assembled of
        Inl e \<Rightarrow> Some (Msg ''spec.templates.%s: does not parse under the rendering engine: %w'' [Str name, Ctx e])
      | Inr (defined, root) \<Rightarrow> first_error
          [check_all (\<lambda>tt. refuse (tt \<noteq> ''cf-validate'' \<and> tt \<noteq> name)
             (Msg ''spec.templates.%s: body defines an extra template %q'' [Str name, Str tt])) defined,
           case root of
             None \<Rightarrow> None
           | Some nodes \<Rightarrow> check_all (\<lambda>n. case n of
               TextNode txt \<Rightarrow> refuse (trim_space txt \<noteq> [])
                 (Msg ''spec.templates.%s: content escapes the define block (near %q)''
                   [Str name, Str (trim_space txt)])
             | OtherNode src \<Rightarrow>
                 Some (Msg ''spec.templates.%s: content escapes the define block (near %q)''
                   [Str name, Str (trim_space src)])) nodes])"

definition template_check :: "tpl_parse \<Rightarrow> string \<Rightarrow> string \<Rightarrow> msg option" where
  "template_check parse_tpl n body = first_error
     [refuse (\<not> match_string templateNameRE n) (Msg ''spec.templates.%s: invalid template name'' [Str n]),
      refuse (body = []) (Msg ''spec.templates.%s: body is required'' [Str n]),
      checkTemplateBody (''spec.templates.'' @ n) body,
      validateTemplateBody parse_tpl n body]"

definition convention_check :: "blueprint \<Rightarrow> nat \<times> convention \<Rightarrow> msg option" where
  "convention_check b ic = (case ic of (i, c) \<Rightarrow> first_error
     [refuse (cv_match c = []) (Msg ''spec.conventions[%d].match is required'' [Num i]),
      refuse (\<not> match_string conventionMatchRE (cv_match c))
        (Msg ''spec.conventions[%d].match: %q is not a valid field-name suffix'' [Num i, Str (cv_match c)]),
      refuse (cv_template c = []) (Msg ''spec.conventions[%d].template is required'' [Num i]),
      refuse (map_of (b_templates b) (cv_template c) = None)
        (Msg ''spec.conventions[%d]: references unknown template %q'' [Num i, Str (cv_template c)])])"

definition validateTemplates :: "tpl_parse \<Rightarrow> blueprint \<Rightarrow> msg option" where
  "validateTemplates parse_tpl b = first_error
     [if Engine b \<noteq> EngineGoTemplating then first_error
        [refuse (sp_conventions (b_spec b) \<noteq> [])
           (Msg ''spec.conventions: engine %q does not support template: conventions'' [Str (Engine b)]),
         refuse (b_templates b \<noteq> [])
           (Msg ''spec.templates: engine %q does not support template: blocks'' [Str (Engine b)])]
      else None,
      check_map (template_check parse_tpl) (b_templates b),
      check_all (convention_check b) (List.enumerate 0 (sp_conventions (b_spec b)))]"

section \<open>What they accept\<close>

definition body_runes_ok :: "string \<Rightarrow> bool" where
  "body_runes_ok body \<longleftrightarrow>
     (\<forall>r \<in> set (runes body). r \<noteq> 0x0A \<and> r \<noteq> 0x09 \<longrightarrow> \<not> (is_control r \<or> r = 0x2028 \<or> r = 0x2029))"

lemma go_range_all: "(\<forall>x \<in> set (go_range n s). P (snd x)) \<longleftrightarrow> (\<forall>r \<in> set (runes s). P r)"
proof -
  have "(\<forall>x \<in> set (go_range n s). P (snd x)) \<longleftrightarrow> (\<forall>r \<in> set (map snd (go_range n s)). P r)" by auto
  then show ?thesis by (simp add: go_range_runes)
qed

lemma checkTemplateBody_None [check_simps]: "checkTemplateBody fp body = None \<longleftrightarrow> body_runes_ok body"
  unfolding checkTemplateBody_def check_all_None body_runes_ok_def
  by (subst go_range_all [symmetric, where n = 0]) (auto simp: refuse_None split_beta)

definition blank_node :: "root_node \<Rightarrow> bool" where
  "blank_node n \<longleftrightarrow> (\<exists>txt. n = TextNode txt \<and> trim_space txt = [])"

definition block_closed :: "tpl_parse \<Rightarrow> string \<Rightarrow> string \<Rightarrow> bool" where
  \<comment> \<open>the block parses, defines only itself and leaves nothing but blanks around itself\<close>
  "block_closed parse_tpl name body \<longleftrightarrow>
     (\<exists>defined root. parse_tpl (go_join [CHR 0x0A] (TemplateBlockLines name body)) = Inr (defined, root) \<and>
        set defined \<subseteq> {''cf-validate'', name} \<and>
        (\<forall>nodes. root = Some nodes \<longrightarrow> (\<forall>n \<in> set nodes. blank_node n)))"

lemma blank_node_check:
  "(case n of TextNode txt \<Rightarrow> refuse (trim_space txt \<noteq> []) (e txt) | OtherNode src \<Rightarrow> Some (f src)) = None \<longleftrightarrow>
     blank_node n"
  by (cases n) (auto simp: refuse_None blank_node_def)

lemma validateTemplateBody_None [check_simps]:
  "validateTemplateBody parse_tpl name body = None \<longleftrightarrow> block_closed parse_tpl name body"
proof (cases "parse_tpl (go_join [CHR 0x0A] (TemplateBlockLines name body))")
  case (Inl e)
  then show ?thesis by (simp add: validateTemplateBody_def block_closed_def)
next
  case (Inr dr)
  then show ?thesis
    by (cases dr) (auto simp: validateTemplateBody_def block_closed_def check_all_None blank_node_check
        refuse_None split: option.splits)
qed

definition template_ok :: "tpl_parse \<Rightarrow> string \<Rightarrow> string \<Rightarrow> bool" where
  "template_ok parse_tpl n body \<longleftrightarrow> match_string templateNameRE n \<and> body \<noteq> [] \<and> body_runes_ok body \<and>
     block_closed parse_tpl n body"

definition convention_ok :: "blueprint \<Rightarrow> convention \<Rightarrow> bool" where
  "convention_ok b c \<longleftrightarrow> cv_match c \<noteq> [] \<and> match_string conventionMatchRE (cv_match c) \<and>
     cv_template c \<noteq> [] \<and> map_of (b_templates b) (cv_template c) \<noteq> None"

lemma convention_check_None: "convention_check b ic = None \<longleftrightarrow> convention_ok b (snd ic)"
  by (cases ic) (simp add: convention_check_def convention_ok_def refuse_None)

lemma validateTemplates_None [check_simps]:
  "validateTemplates parse_tpl b = None \<longleftrightarrow>
     (Engine b \<noteq> EngineGoTemplating \<longrightarrow> sp_conventions (b_spec b) = [] \<and> b_templates b = []) \<and>
     (\<forall>n body. map_of (b_templates b) n = Some body \<longrightarrow> template_ok parse_tpl n body) \<and>
     (\<forall>c \<in> set (sp_conventions (b_spec b)). convention_ok b c)"
proof -
  have "template_check parse_tpl n body = None \<longleftrightarrow> template_ok parse_tpl n body" for n body
    by (simp add: template_check_def template_ok_def refuse_None checkTemplateBody_None
        validateTemplateBody_None)
  then show ?thesis
    by (simp add: validateTemplates_def check_map_None check_all_None convention_check_None
        enumerate_all refuse_None)
qed

section \<open>Lines of an assembled block\<close>

lemma TemplateBlockLines_no_newline:
  assumes "CHR 0x0A \<notin> set name" "l \<in> set (TemplateBlockLines name body)"
  shows "CHR 0x0A \<notin> set l"
proof -
  have sub: "set (trim_right_set l cs) \<subseteq> set l" for l cs
    by (auto simp: trim_right_set_def dest: set_dropWhileD)
  from assms(2) consider "l = ''{{- define '' @ quote_name name @ '' }}''" | "l = ''{{- end }}''"
    | l' where "l' \<in> set (split_on CHR 0x0A (trim_right_set body [CHR 0x0A]))"
      "l = trim_right_set l' [CHR '' '', CHR 0x09]"
    by (auto simp: TemplateBlockLines_def)
  then show ?thesis
  proof cases
    case 3
    with sub split_on_no_sep show ?thesis by blast
  qed (use assms(1) in \<open>auto simp: quote_name_def\<close>)
qed

end
