(* ===== verification/Pipeline.thy ===== *)
theory Pipeline
  imports Validate_Env
begin

text \<open>
  The function pipeline (\<open>internal/blueprint/pipeline.go\<close>) and flow-style maps
  (\<open>raw.go\<close>). A decoded YAML value is a \<open>yval\<close>; \<open>yaml.Unmarshal\<close> into a
  \<open>map[string]any\<close> is the parameter \<open>yaml_map\<close>. Numbers are kept as \<open>fmt.Sprint\<close> prints
  them, the one thing the program does with them.
\<close>

section \<open>Constants\<close>

definition TemplatingStepName :: string where "TemplatingStepName = ''render-resources''"
definition TemplatingFunctionName :: string where "TemplatingFunctionName = ''function-go-templating''"
definition EnvironmentConfigsStepName :: string where "EnvironmentConfigsStepName = ''environment-configs''"
definition PositionBefore :: string where "PositionBefore = ''before''"
definition PositionAfter :: string where "PositionAfter = ''after''"

definition HasEnvironment :: "blueprint \<Rightarrow> bool" where
  "HasEnvironment b \<longleftrightarrow> b_env b \<noteq> [] \<or> sp_environmentConfigs (b_spec b) \<noteq> []"

section \<open>Decoded YAML\<close>

datatype yval = YNull | YBool bool | YNum string | YStr string | YList "yval list"
  | YMap "(string \<times> yval) list"

type_synonym yaml_map = "string \<Rightarrow> msg + yval gomap"

definition str_at :: "yval gomap \<Rightarrow> string \<Rightarrow> string" where
  \<comment> \<open>\<open>s, _ := v[key].(string)\<close>\<close>
  "str_at v key = (case map_of v key of Some (YStr s) \<Rightarrow> s | _ \<Rightarrow> [])"

definition ParsePipelineInput :: "yaml_map \<Rightarrow> string \<Rightarrow> msg + yval gomap" where
  "ParsePipelineInput yaml_map raw =
     (case yaml_map raw of
        Inl e \<Rightarrow> Inl (Msg ''must be a YAML mapping (a function input is a typed object): %w'' [Ctx e])
      | Inr v \<Rightarrow>
          (case check_all (\<lambda>key. refuse (str_at v key = [])
             (Msg ''must carry a non-empty %s'' [Str key])) [''apiVersion'', ''kind''] of
             Some e \<Rightarrow> Inl e
           | None \<Rightarrow> Inr v))"

lemma size_yval_list: "v \<in> set vs \<Longrightarrow> size v < size (YList vs)"
  using size_list_estimation' [of v vs "size v" size] by fastforce

lemma size_yval_map:
  assumes "(k, v) \<in> set m"
  shows "size v < size (YMap m)"
proof -
  from assms have "size v < size_list (\<lambda>x. Suc (size (snd x))) m"
    by (induction m) auto
  then show ?thesis by (simp add: size_prod_simp)
qed

lemma size_yval_enum: "(i, e :: yval) \<in> set (List.enumerate n vs) \<Longrightarrow> size e < Suc (size_list size vs)"
  using size_yval_list [of e vs] enumerate_mem [of i e n vs] by simp

function checkInputScalars :: "string \<Rightarrow> yval \<Rightarrow> msg option" where
  "checkInputScalars at (YMap t) = check_map (\<lambda>k v. first_error
     [checkScalar (Str (at @ '' key '' @ k)) k, checkInputScalars (at @ ''.'' @ k) v]) t"
| "checkInputScalars at (YList t) = check_all (\<lambda>(i, e).
     checkInputScalars (at @ ''['' @ itoa i @ '']'') e) (List.enumerate 0 t)"
| "checkInputScalars at (YStr s) = checkScalar (Str at) s"
| "checkInputScalars at YNull = None"
| "checkInputScalars at (YBool x) = None"
| "checkInputScalars at (YNum x) = None"
  by pat_completeness auto
termination
  by (relation "measure (\<lambda>(_, v). size v)")
    (auto dest: size_yval_map size_yval_enum)

declare checkInputScalars.simps [simp del]

section \<open>Steps\<close>

definition builtin_function :: "blueprint \<Rightarrow> string" where
  "builtin_function b =
     (if Engine b = EngineKCL then KCLFunctionName
      else if Engine b = EnginePython then PythonFunctionName
      else TemplatingFunctionName)"

definition step_at :: "nat \<Rightarrow> marg" where
  "step_at i = Ctx (Msg ''spec.pipeline[%d]'' [Num i])"

definition step_name_check :: "nat \<Rightarrow> nat gomap \<Rightarrow> pipeline_step \<Rightarrow> msg option" where
  "step_name_check i seenName s = first_error
     [refuse (st_name s = []) (Msg ''%s.name is required'' [step_at i]),
      checkScalar (Ctx (Msg ''%s.name'' [step_at i])) (st_name s),
      refuse (\<not> config_name_ok (st_name s))
        (Msg ''%s.name: %q is not a valid step name'' [step_at i, Str (st_name s)]),
      refuse (st_name s = TemplatingStepName)
        (Msg ''%s.name: %q collides with the built-in templating step's name'' [step_at i, Str (st_name s)]),
      case map_of seenName (st_name s) of
        None \<Rightarrow> None
      | Some prev \<Rightarrow> Some (Msg ''%s.name: duplicate step name %q (already declared at spec.pipeline[%d])''
          [step_at i, Str (st_name s), Num prev])]"

definition step_function_check :: "blueprint \<Rightarrow> nat \<Rightarrow> pipeline_step \<Rightarrow> msg option" where
  "step_function_check b i s = first_error
     [refuse (st_functionRef s = []) (Msg ''%s.functionRef is required'' [step_at i]),
      checkScalar (Ctx (Msg ''%s.functionRef'' [step_at i])) (st_functionRef s),
      refuse (\<not> config_name_ok (st_functionRef s))
        (Msg ''%s.functionRef: %q is not a valid function name'' [step_at i, Str (st_functionRef s)]),
      refuse (st_functionRef s = builtin_function b)
        (Msg ''%s.functionRef: %q is the built-in templating function'' [step_at i, Str (st_functionRef s)])]"

definition step_package_check :: "nat \<Rightarrow> (string \<times> nat) gomap \<Rightarrow> pipeline_step \<Rightarrow> msg option" where
  "step_package_check i seenPkg s = first_error
     [refuse (st_package s = []) (Msg ''%s.package is required'' [step_at i]),
      checkScalar (Ctx (Msg ''%s.package'' [step_at i])) (st_package s),
      refuse (\<not> match_string providerRefRE (st_package s))
        (Msg ''%s.package: %q is not a valid package reference'' [step_at i, Str (st_package s)]),
      case map_of seenPkg (st_functionRef s) of
        None \<Rightarrow> None
      | Some (pkg, prev) \<Rightarrow> refuse (pkg \<noteq> st_package s)
          (Msg ''%s.package: functionRef %q already declared at spec.pipeline[%d] with a different package (%q vs %q)''
            [step_at i, Str (st_functionRef s), Num prev, Str pkg, Str (st_package s)])]"

definition step_rest_check :: "yaml_map \<Rightarrow> nat \<Rightarrow> pipeline_step \<Rightarrow> msg option" where
  "step_rest_check yaml_map i s = first_error
     [refuse (st_position s \<notin> {[], PositionBefore, PositionAfter})
        (Msg ''%s.position: %q is not valid (must be %q or %q)''
          [step_at i, Str (st_position s), Str PositionBefore, Str PositionAfter, Str PositionAfter]),
      refuse (st_functionRef s = EnvironmentConfigsFunctionName \<and> st_position s = PositionAfter)
        (Msg ''%s.position: %q is not valid for %s''
          [step_at i, Str (st_position s), Str (st_functionRef s)]),
      if st_input s = [] then None
      else case ParsePipelineInput yaml_map (st_input s) of
        Inl e \<Rightarrow> Some (Msg ''%s.input: %w'' [step_at i, Ctx e])
      | Inr v \<Rightarrow> checkInputScalars (''spec.pipeline['' @ itoa i @ ''].input'') (YMap v)]"

fun pipeline_loop :: "yaml_map \<Rightarrow> blueprint \<Rightarrow> nat \<Rightarrow> nat gomap \<Rightarrow> (string \<times> nat) gomap \<Rightarrow>
    pipeline_step list \<Rightarrow> msg option" where
  \<comment> \<open>index, \<open>seenName\<close>, \<open>seenPkg\<close>, the steps left\<close>
  "pipeline_loop yaml_map b i seenName seenPkg [] = None"
| "pipeline_loop yaml_map b i seenName seenPkg (s # ss) = first_error
     [step_name_check i seenName s,
      step_function_check b i s,
      step_package_check i seenPkg s,
      step_rest_check yaml_map i s,
      pipeline_loop yaml_map b (i + 1) (AList.update (st_name s) i seenName)
        (AList.update (st_functionRef s) (st_package s, i) seenPkg) ss]"

definition validatePipeline :: "yaml_map \<Rightarrow> blueprint \<Rightarrow> msg option" where
  "validatePipeline yaml_map b = pipeline_loop yaml_map b 0 [] [] (sp_pipeline (b_spec b))"

section \<open>What it accepts\<close>

inductive string_in :: "string \<Rightarrow> yval \<Rightarrow> bool" where
  \<comment> \<open>a scalar or a map key anywhere in a decoded value\<close>
  "string_in s (YStr s)"
| "v \<in> set vs \<Longrightarrow> string_in s v \<Longrightarrow> string_in s (YList vs)"
| "map_of m k = Some v \<Longrightarrow> string_in k (YMap m)"
| "map_of m k = Some v \<Longrightarrow> string_in s v \<Longrightarrow> string_in s (YMap m)"

inductive_simps string_in_simps [simp]: "string_in s (YStr t)" "string_in s (YList vs)"
  "string_in s YNull" "string_in s (YBool x)" "string_in s (YNum x)"
inductive_simps string_in_YMap: "string_in s (YMap m)"

lemma checkInputScalars_None [check_simps]:
  "checkInputScalars at v = None \<longleftrightarrow> (\<forall>s. string_in s v \<longrightarrow> line_safe s)"
proof (induction at v rule: checkInputScalars.induct)
  case (1 at t)
  have "first_error [checkScalar (Str (at @ '' key '' @ k)) k, checkInputScalars (at @ ''.'' @ k) v] = None \<longleftrightarrow>
      line_safe k \<and> (\<forall>s. string_in s v \<longrightarrow> line_safe s)" if "map_of t k = Some v" for k v
    using 1 [OF map_of_SomeD [OF that]] by (simp only: first_error.simps check_seq_None checkScalar_line_safe simp_thms)
  then have "checkInputScalars at (YMap t) = None \<longleftrightarrow>
      (\<forall>k v. map_of t k = Some v \<longrightarrow> line_safe k \<and> (\<forall>s. string_in s v \<longrightarrow> line_safe s))"
    unfolding checkInputScalars.simps check_map_None by blast
  then show ?case unfolding string_in_YMap by blast
next
  case (2 at t)
  then have each: "(case x of (i, e) \<Rightarrow> checkInputScalars (at @ ''['' @ itoa i @ '']'') e) = None \<longleftrightarrow>
      (\<forall>s. string_in s (snd x) \<longrightarrow> line_safe s)" if "x \<in> set (List.enumerate 0 t)" for x
    using that by (cases x) auto
  have "checkInputScalars at (YList t) = None \<longleftrightarrow>
      (\<forall>x \<in> set (List.enumerate 0 t). \<forall>s. string_in s (snd x) \<longrightarrow> line_safe s)"
    unfolding checkInputScalars.simps check_all_None using each by (rule ball_cong [OF refl])
  then show ?case
    using enumerate_all [of 0 t "\<lambda>e. \<forall>s. string_in s e \<longrightarrow> line_safe s"] by auto
qed (simp_all add: checkInputScalars.simps checkScalar_line_safe)

definition step_ok :: "yaml_map \<Rightarrow> blueprint \<Rightarrow> pipeline_step \<Rightarrow> bool" where
  "step_ok yaml_map b s \<longleftrightarrow>
     st_name s \<noteq> [] \<and> line_safe (st_name s) \<and> config_name_ok (st_name s) \<and>
     st_name s \<noteq> TemplatingStepName \<and>
     st_functionRef s \<noteq> [] \<and> line_safe (st_functionRef s) \<and> config_name_ok (st_functionRef s) \<and>
     st_functionRef s \<noteq> builtin_function b \<and>
     st_package s \<noteq> [] \<and> line_safe (st_package s) \<and> match_string providerRefRE (st_package s) \<and>
     st_position s \<in> {[], PositionBefore, PositionAfter} \<and>
     \<not> (st_functionRef s = EnvironmentConfigsFunctionName \<and> st_position s = PositionAfter) \<and>
     (st_input s \<noteq> [] \<longrightarrow> (\<exists>v. ParsePipelineInput yaml_map (st_input s) = Inr v \<and>
        (\<forall>t. string_in t (YMap v) \<longrightarrow> line_safe t)))"

definition packages_agree :: "pipeline_step list \<Rightarrow> bool" where
  "packages_agree ss \<longleftrightarrow> (\<forall>s \<in> set ss. \<forall>t \<in> set ss.
     st_functionRef s = st_functionRef t \<longrightarrow> st_package s = st_package t)"

definition pipeline_wf :: "yaml_map \<Rightarrow> blueprint \<Rightarrow> pipeline_step list \<Rightarrow> bool" where
  "pipeline_wf yaml_map b ss \<longleftrightarrow> (\<forall>s \<in> set ss. step_ok yaml_map b s) \<and> distinct (map st_name ss) \<and>
     packages_agree ss"

lemma step_checks_None:
  "step_name_check i seenName s = None \<and> step_function_check b i s = None \<and>
     step_package_check i seenPkg s = None \<and> step_rest_check yaml_map i s = None \<longleftrightarrow>
   step_ok yaml_map b s \<and> map_of seenName (st_name s) = None \<and>
     (\<forall>pkg prev. map_of seenPkg (st_functionRef s) = Some (pkg, prev) \<longrightarrow> pkg = st_package s)"
proof -
  have n: "step_name_check i seenName s = None \<longleftrightarrow> st_name s \<noteq> [] \<and> line_safe (st_name s) \<and>
      config_name_ok (st_name s) \<and> st_name s \<noteq> TemplatingStepName \<and> map_of seenName (st_name s) = None"
    by (simp add: step_name_check_def refuse_None checkScalar_line_safe split: option.split)
  have f: "step_function_check b i s = None \<longleftrightarrow> st_functionRef s \<noteq> [] \<and> line_safe (st_functionRef s) \<and>
      config_name_ok (st_functionRef s) \<and> st_functionRef s \<noteq> builtin_function b"
    by (simp add: step_function_check_def refuse_None checkScalar_line_safe)
  have p: "step_package_check i seenPkg s = None \<longleftrightarrow> st_package s \<noteq> [] \<and> line_safe (st_package s) \<and>
      match_string providerRefRE (st_package s) \<and>
      (\<forall>pkg prev. map_of seenPkg (st_functionRef s) = Some (pkg, prev) \<longrightarrow> pkg = st_package s)"
    by (auto simp: step_package_check_def refuse_None checkScalar_line_safe split: option.split)
  have r: "step_rest_check yaml_map i s = None \<longleftrightarrow> st_position s \<in> {[], PositionBefore, PositionAfter} \<and>
      \<not> (st_functionRef s = EnvironmentConfigsFunctionName \<and> st_position s = PositionAfter) \<and>
      (st_input s \<noteq> [] \<longrightarrow> (\<exists>v. ParsePipelineInput yaml_map (st_input s) = Inr v \<and>
        (\<forall>t. string_in t (YMap v) \<longrightarrow> line_safe t)))"
    unfolding step_rest_check_def
    by (cases "ParsePipelineInput yaml_map (st_input s)") (simp_all add: refuse_None checkInputScalars_None)
  show ?thesis unfolding n f p r step_ok_def by blast
qed

definition seen_agree :: "(string \<times> nat) gomap \<Rightarrow> pipeline_step list \<Rightarrow> bool" where
  "seen_agree seenPkg ss \<longleftrightarrow> (\<forall>s \<in> set ss. \<forall>pkg prev.
     map_of seenPkg (st_functionRef s) = Some (pkg, prev) \<longrightarrow> pkg = st_package s)"

lemma pipeline_loop_None:
  "pipeline_loop yaml_map b i seenName seenPkg ss = None \<longleftrightarrow>
     (\<forall>s \<in> set ss. step_ok yaml_map b s) \<and> distinct (map st_name ss) \<and>
     st_name ` set ss \<inter> dom (map_of seenName) = {} \<and> packages_agree ss \<and> seen_agree seenPkg ss"
proof (induction ss arbitrary: i seenName seenPkg)
  case Nil
  then show ?case by (simp add: packages_agree_def seen_agree_def)
next
  case (Cons s ss)
  have agree: "packages_agree (s # ss) \<and> seen_agree seenPkg (s # ss) \<longleftrightarrow>
      (\<forall>pkg prev. map_of seenPkg (st_functionRef s) = Some (pkg, prev) \<longrightarrow> pkg = st_package s) \<and>
      packages_agree ss \<and> seen_agree (AList.update (st_functionRef s) (st_package s, i) seenPkg) ss"
  proof (cases "\<forall>pkg prev. map_of seenPkg (st_functionRef s) = Some (pkg, prev) \<longrightarrow> pkg = st_package s")
    case True
    have "seen_agree (AList.update (st_functionRef s) (st_package s, i) seenPkg) ss \<longleftrightarrow>
        seen_agree seenPkg ss \<and> (\<forall>t \<in> set ss. st_functionRef t = st_functionRef s \<longrightarrow> st_package t = st_package s)"
    proof -
      have each: "(\<forall>pkg prev. map_of (AList.update (st_functionRef s) (st_package s, i) seenPkg) (st_functionRef t)
            = Some (pkg, prev) \<longrightarrow> pkg = st_package t) \<longleftrightarrow>
          (\<forall>pkg prev. map_of seenPkg (st_functionRef t) = Some (pkg, prev) \<longrightarrow> pkg = st_package t) \<and>
          (st_functionRef t = st_functionRef s \<longrightarrow> st_package t = st_package s)" for t
        using True by (cases "st_functionRef t = st_functionRef s") (auto simp: update_conv')
      show ?thesis by (simp only: seen_agree_def each ball_conj_distrib)
    qed
    moreover have "packages_agree (s # ss) \<longleftrightarrow> packages_agree ss \<and>
        (\<forall>t \<in> set ss. st_functionRef t = st_functionRef s \<longrightarrow> st_package t = st_package s)"
      by (auto simp: packages_agree_def)
    moreover have "seen_agree seenPkg (s # ss) \<longleftrightarrow> seen_agree seenPkg ss"
      using True by (auto simp: seen_agree_def)
    ultimately show ?thesis using True by blast
  next
    case False
    then have "\<not> seen_agree seenPkg (s # ss)" by (auto simp: seen_agree_def)
    with False show ?thesis by blast
  qed
  have "pipeline_loop yaml_map b i seenName seenPkg (s # ss) = None \<longleftrightarrow>
      (step_ok yaml_map b s \<and> map_of seenName (st_name s) = None \<and>
       (\<forall>pkg prev. map_of seenPkg (st_functionRef s) = Some (pkg, prev) \<longrightarrow> pkg = st_package s)) \<and>
      pipeline_loop yaml_map b (i + 1) (AList.update (st_name s) i seenName)
        (AList.update (st_functionRef s) (st_package s, i) seenPkg) ss = None"
    unfolding step_checks_None [where i = i and b = b and yaml_map = yaml_map, symmetric] by simp
  also have "\<dots> \<longleftrightarrow> (\<forall>s \<in> set (s # ss). step_ok yaml_map b s) \<and> distinct (map st_name (s # ss)) \<and>
      st_name ` set (s # ss) \<inter> dom (map_of seenName) = {} \<and> packages_agree (s # ss) \<and>
      seen_agree seenPkg (s # ss)"
  proof -
    have "distinct (map st_name (s # ss)) \<and> st_name ` set (s # ss) \<inter> dom (map_of seenName) = {} \<longleftrightarrow>
        map_of seenName (st_name s) = None \<and> distinct (map st_name ss) \<and>
        st_name ` set ss \<inter> insert (st_name s) (dom (map_of seenName)) = {}"
      by (auto simp: domIff)
    moreover have "(\<forall>s \<in> set (s # ss). step_ok yaml_map b s) \<longleftrightarrow>
        step_ok yaml_map b s \<and> (\<forall>s \<in> set ss. step_ok yaml_map b s)"
      by simp
    ultimately show ?thesis unfolding Cons.IH dom_update using agree by satx
  qed
  finally show ?case .
qed

lemma validatePipeline_None [check_simps]:
  "validatePipeline yaml_map b = None \<longleftrightarrow> pipeline_wf yaml_map b (sp_pipeline (b_spec b))"
  by (auto simp: validatePipeline_def pipeline_loop_None pipeline_wf_def seen_agree_def)

section \<open>Flow-style maps\<close>

fun flow_values :: "yval gomap \<Rightarrow> string gomap option" where
  "flow_values [] = Some []"
| "flow_values ((k, v) # m) =
     (case v of
        YStr s \<Rightarrow> map_option (Cons (k, s)) (flow_values m)
      | YNum s \<Rightarrow> map_option (Cons (k, s)) (flow_values m)
      | YBool x \<Rightarrow> map_option (Cons (k, if x then ''true'' else ''false'')) (flow_values m)
      | _ \<Rightarrow> None)"

definition ParseFlowStyleMap :: "yaml_map \<Rightarrow> string \<Rightarrow> string gomap option" where
  "ParseFlowStyleMap yaml_map s =
     (let trimmed = trim_space s in
      if \<not> has_prefix trimmed ''{'' \<or> \<not> has_suffix trimmed ''}'' \<or> contains trimmed ''{{'' then None
      else case yaml_map trimmed of
        Inl _ \<Rightarrow> None
      | Inr rawMap \<Rightarrow> if rawMap = [] then None else flow_values rawMap)"

section \<open>Properties\<close>

text \<open>The pipeline is accepted exactly when every step is well formed and takes neither the
  built-in step's name nor its function, step names are unique, and steps that share a function
  name the same package for it.\<close>

theorem validatePipeline_decides:
  "validatePipeline yaml_map b = None \<longleftrightarrow> pipeline_wf yaml_map b (sp_pipeline (b_spec b))"
  by (rule validatePipeline_None)

end
