(* ===== verification/Validate.thy ===== *)
theory Validate
  imports Validate_Resources Templates Pipeline
begin

text \<open>
  \<open>Blueprint.Validate\<close> (\<open>load.go\<close>): the validators in the source's order, and
  \<open>blueprint_wf\<close>, the declarative notion of a well-formed document it decides.
\<close>

section \<open>The sequence\<close>

definition Validate :: "tpl_parse \<Rightarrow> yaml_map \<Rightarrow> blueprint \<Rightarrow> msg option" where
  "Validate parse_tpl yaml_map b = first_error
     [validateRoot b,
      validateSources (sp_sources (b_spec b)),
      validateXRD (b_xrd b),
      validateEnvironment b,
      validateEnvironmentConfigs b,
      validateParameters b,
      validateStatus b,
      validateTemplates parse_tpl b,
      validateResources b,
      validatePipeline yaml_map b]"

section \<open>Well-formed documents\<close>

definition emit_ok :: "blueprint \<Rightarrow> emit_cfg \<Rightarrow> bool" where
  "emit_ok b em \<longleftrightarrow>
     em_templateSource em \<in> {[], TemplateSourceInline, TemplateSourceFileSystem} \<and>
     (em_engine em \<noteq> [] \<longrightarrow> to_lower (em_engine em) \<in> {EngineGoTemplating, EngineKCL, EnginePython}) \<and>
     (TemplateSource b = TemplateSourceFileSystem \<longrightarrow> Engine b = EngineGoTemplating)"

definition root_ok :: "blueprint \<Rightarrow> bool" where
  "root_ok b \<longleftrightarrow> b_apiVersion b = APIVersion \<and> b_kind b = Kind \<and> b_metaName b \<noteq> [] \<and>
     line_safe (b_metaName b) \<and> length (b_metaName b) \<le> 253 \<and> match_string groupRE (b_metaName b) \<and>
     to_lower (b_metaName b) \<notin> set yamlKeywords \<and>
     (\<forall>em. sp_emit (b_spec b) = Some em \<longrightarrow> emit_ok b em)"

lemma validateRoot_None [check_simps]: "validateRoot b = None \<longleftrightarrow> root_ok b"
proof -
  have "validateEmit b em = None \<longleftrightarrow> emit_ok b em" for em
    by (auto simp: validateEmit_def emit_ok_def refuse_None)
  then show ?thesis
    by (auto simp: validateRoot_def root_ok_def refuse_None checkScalar_line_safe split: option.split)
qed

definition environment_ok :: "blueprint \<Rightarrow> bool" where
  "environment_ok b \<longleftrightarrow>
     (b_env b \<noteq> [] \<longrightarrow> Engine b \<noteq> EngineKCL) \<and>
     (\<forall>n k. map_of (b_env b) n = Some k \<longrightarrow> env_key_ok n k) \<and>
     (sp_environmentConfigs (b_spec b) \<noteq> [] \<longrightarrow> b_env b \<noteq> [] \<and>
       (\<forall>c \<in> set (sp_environmentConfigs (b_spec b)). config_ok b c) \<and>
       distinct (map c_name (EffectiveEnvironmentConfigs b)))"

definition schema_ok :: "blueprint \<Rightarrow> bool" where
  "schema_ok b \<longleftrightarrow> xrd_wf (b_xrd b) \<and>
     (\<forall>n p. map_of (b_params b) n = Some p \<longrightarrow> parameter_ok n p) \<and> provider_rule b \<and>
     (\<forall>n p. map_of (x_status (b_xrd b)) n = Some p \<longrightarrow>
        field_name_ok (last (split_on CHR ''.'' n)) \<and> (\<forall>q. member_of q p \<longrightarrow> status_node_ok b q))"

definition templates_ok :: "tpl_parse \<Rightarrow> blueprint \<Rightarrow> bool" where
  "templates_ok parse_tpl b \<longleftrightarrow>
     (Engine b \<noteq> EngineGoTemplating \<longrightarrow> sp_conventions (b_spec b) = [] \<and> b_templates b = []) \<and>
     (\<forall>n body. map_of (b_templates b) n = Some body \<longrightarrow> template_ok parse_tpl n body) \<and>
     (\<forall>c \<in> set (sp_conventions (b_spec b)). convention_ok b c)"

definition resources_ok :: "blueprint \<Rightarrow> bool" where
  "resources_ok b \<longleftrightarrow> (\<forall>r \<in> set (b_resources b). resource_ok b r) \<and> distinct (map r_name (b_resources b))"

definition blueprint_wf :: "tpl_parse \<Rightarrow> yaml_map \<Rightarrow> blueprint \<Rightarrow> bool" where
  "blueprint_wf parse_tpl yaml_map b \<longleftrightarrow>
     root_ok b \<and> sources_wf (sp_sources (b_spec b)) \<and> schema_ok b \<and> environment_ok b \<and>
     templates_ok parse_tpl b \<and> resources_ok b \<and> pipeline_wf yaml_map b (sp_pipeline (b_spec b))"

definition maps_ok :: "blueprint \<Rightarrow> bool" where
  \<comment> \<open>no key twice in any map of a resource: what a Go map is\<close>
  "maps_ok b \<longleftrightarrow> (\<forall>r \<in> set (b_resources b). resource_maps_ok r)"

lemma Validate_wf:
  assumes "maps_ok b"
  shows "Validate parse_tpl yaml_map b = None \<longleftrightarrow> blueprint_wf parse_tpl yaml_map b"
proof -
  have r: "validateResources b = None \<longleftrightarrow> resources_ok b"
    using assms validateResources_None [of b] by (simp add: maps_ok_def resources_ok_def)
  have e: "validateEnvironment b = None \<and> validateEnvironmentConfigs b = None \<longleftrightarrow> environment_ok b"
    unfolding validateEnvironment_None validateEnvironmentConfigs_None environment_ok_def Let_def by blast
  have s: "validateXRD (b_xrd b) = None \<and> validateParameters b = None \<and> validateStatus b = None \<longleftrightarrow> schema_ok b"
    unfolding validateXRD_None validateParameters_None validateStatus_None schema_ok_def by blast
  have t: "validateTemplates parse_tpl b = None \<longleftrightarrow> templates_ok parse_tpl b"
    unfolding validateTemplates_None templates_ok_def ..
  show ?thesis
    unfolding Validate_def blueprint_wf_def first_error.simps check_seq_None
      validateRoot_None validateSources_None r t validatePipeline_None e [symmetric] s [symmetric]
    by blast
qed

section \<open>What a well-formed document guarantees\<close>

lemma ResourceNamed_Some:
  "ResourceNamed b n = Some r \<Longrightarrow> r \<in> set (b_resources b) \<and> r_name r = n"
  by (auto simp: ResourceNamed_def find_Some_iff)

lemma ResourceNamed_mem:
  assumes "distinct (map r_name (b_resources b))" "r \<in> set (b_resources b)"
  shows "ResourceNamed b (r_name r) = Some r"
proof -
  have "ResourceNamed b (r_name r) \<noteq> None"
    using assms(2) by (auto simp: ResourceNamed_def find_None_iff)
  then obtain r' where r': "ResourceNamed b (r_name r) = Some r'" by blast
  with ResourceNamed_Some [OF r'] assms have "r' = r"
    by (metis distinct_map inj_onD)
  with r' show ?thesis by simp
qed

text \<open>A field or annotation wire names another declared resource that is not looped.\<close>

lemma from_resolves_resource:
  assumes "from_resolves b r from shape" "ParseFrom from = Inr ref" "fr_resource ref \<noteq> []"
  shows "fr_resource ref \<noteq> r_name r \<and> unlooped b (fr_resource ref)"
proof (cases "fr_metadataPath ref = ''name''")
  case True
  with assms ParseFrom_MetadataRef [OF assms(2,3) True] show ?thesis
    by (auto simp: from_resolves_def metadata_ref_ok_def)
next
  case False
  with assms ParseFrom_StatusRef [OF assms(2,3) False] show ?thesis
    by (auto simp: from_resolves_def status_ref_ok_def)
qed

lemma unlooped_mem: "unlooped b t \<Longrightarrow> \<exists>d \<in> set (b_resources b). r_name d = t \<and> r_forEach d = []"
  using ResourceNamed_Some by (auto simp: unlooped_def)

lemma wf_resource:
  assumes "blueprint_wf parse_tpl yaml_map b" "r \<in> set (b_resources b)"
  shows "resource_ok b r"
  using assms by (simp add: blueprint_wf_def resources_ok_def)

section \<open>The strings an emitter writes on one line\<close>

definition entry_scalars :: "field gomap \<Rightarrow> string list" where
  \<comment> \<open>the values a field, envelope or annotation entry may be set by, bar the template name\<close>
  "entry_scalars m = concat (map (\<lambda>(_, f). [f_from f, f_value f, f_raw f]) m)"

definition resource_scalars :: "resource \<Rightarrow> string list" where
  "resource_scalars r = [r_name r, r_kind r, r_provider r, r_forEach r, r_when r] @
     map fst (r_fields r) @ map fst (r_annotations r) @
     entry_scalars (r_fields r) @ entry_scalars (r_envelope r) @ entry_scalars (r_annotations r)"

definition param_scalars :: "parameter \<Rightarrow> string list" where
  "param_scalars p = [p_description p, p_default p] @ p_enum p"

definition env_scalars :: "env_key \<Rightarrow> string list" where
  "env_scalars k = [k_description k, k_default k]"

lemma gomap_mem: "gomap_ok m \<Longrightarrow> (k, v) \<in> set m \<Longrightarrow> map_of m k = Some v"
  by (simp add: gomap_ok_def)

lemma line_safe_Nil [simp]: "line_safe []"
  by (simp add: line_safe_def runes_def)

lemma entry_scalars_safe:
  assumes "gomap_ok m"
    and "\<And>p f. map_of m p = Some f \<Longrightarrow> line_safe (f_from f) \<and> line_safe (f_value f) \<and> line_safe (f_raw f)"
    and "s \<in> set (entry_scalars m)"
  shows "line_safe s"
proof -
  from assms(3) obtain p f where "(p, f) \<in> set m" "s \<in> {f_from f, f_value f, f_raw f}"
    by (auto simp: entry_scalars_def)
  with assms(2) [OF gomap_mem [OF assms(1)]] show ?thesis by auto
qed

lemma resource_scalars_safe:
  assumes "resource_ok b r" "resource_maps_ok r" "s \<in> set (resource_scalars r)"
  shows "line_safe s"
proof -
  have m: "gomap_ok (r_fields r)" "gomap_ok (r_envelope r)" "gomap_ok (r_annotations r)"
    using assms(2) by (auto simp: resource_maps_ok_def)
  have f: "field_ok b r p f" if "map_of (r_fields r) p = Some f" for p f
    using assms(1) that by (simp add: resource_ok_def)
  have e: "envelope_entry_ok b p f" if "map_of (r_envelope r) p = Some f" for p f
    using assms(1) that by (simp add: resource_ok_def)
  have a: "annotation_ok b r k f" if "map_of (r_annotations r) k = Some f" for k f
    using assms(1) that by (simp add: resource_ok_def)
  from assms(3) consider "s \<in> {r_name r, r_kind r, r_provider r, r_forEach r, r_when r}"
    | v where "(s, v) \<in> set (r_fields r)" | v where "(s, v) \<in> set (r_annotations r)"
    | "s \<in> set (entry_scalars (r_fields r))" | "s \<in> set (entry_scalars (r_envelope r))"
    | "s \<in> set (entry_scalars (r_annotations r))"
    by (auto simp: resource_scalars_def)
  then show ?thesis
  proof cases
    case 1
    have "line_safe (r_provider r)"
      using assms(1) by (cases "r_provider r = []") (auto simp: resource_ok_def provider_ok_def)
    moreover have "line_safe (r_forEach r)"
      using assms(1) by (cases "r_forEach r = []") (auto simp: resource_ok_def)
    moreover have "line_safe (r_when r)"
      using assms(1) by (cases "r_when r = []") (auto simp: resource_ok_def)
    ultimately show ?thesis using 1 assms(1) by (auto simp: resource_ok_def)
  next
    case (2 v)
    with f gomap_mem [OF m(1)] show ?thesis by (auto simp: field_ok_def)
  next
    case (3 v)
    with a gomap_mem [OF m(3)] show ?thesis by (auto simp: annotation_ok_def)
  next
    case 4
    then show ?thesis using f by (elim entry_scalars_safe [OF m(1), rotated]) (auto simp: field_ok_def field_lines_def)
  next
    case 5
    then show ?thesis using e by (elim entry_scalars_safe [OF m(2), rotated]) (auto simp: envelope_entry_ok_def)
  next
    case 6
    then show ?thesis using a by (elim entry_scalars_safe [OF m(3), rotated]) (auto simp: annotation_ok_def field_lines_def)
  qed
qed

end
