(* ===== verification/RawRefs.thy ===== *)
theory RawRefs
  imports BlueprintTypes
begin

text \<open>
  References inside raw Go-template text (\<open>internal/blueprint/edit.go\<close>): the patterns that
  find a resource or a parameter in an expression, and the rewriting of each. The patterns are
  those the source compiles, with \<open>regexp.QuoteMeta(name)\<close> as the literal \<open>name\<close>; a
  replacement text is used as it stands, so the rewriters are the code's for a new name without
  a dollar sign (any other is refused by the validation that follows).
\<close>

section \<open>Building blocks\<close>

abbreviation "squote \<equiv> CHR 0x27"
abbreviation "bquote \<equiv> CHR 0x60"

definition rx_spaces :: rx where
  \<comment> \<open>\<open>\s+\<close>\<close>
  "rx_spaces = rx_plus (Cls False [(9, 10), (12, 13), (32, 32)])"

definition rx_quoted :: "string \<Rightarrow> rx" where
  \<comment> \<open>the word in double quotes, single quotes or back quotes\<close>
  "rx_quoted w = rx_alts [rx_lit ([dquote] @ w @ [dquote]), rx_lit ([squote] @ w @ [squote]),
     rx_lit ([bquote] @ w @ [bquote])]"

definition rx_root :: rx where
  \<comment> \<open>\<open>(?:\$|\$\.|\.)\<close>\<close>
  "rx_root = rx_alts [rx_lit ''$'', rx_lit ''$.'', rx_lit ''.'']"

definition resource_tail :: rx where
  "resource_tail = Alt Eos (Cls True [r_lower, r_upper, r_digit, r_under, r_dash])"

definition param_tail :: rx where
  "param_tail = Alt Eos (Cls True [r_lower, r_upper, r_digit, r_under])"

definition rx_resources_dotted :: rx where
  "rx_resources_dotted = Cat (Alt (Cat (rx_opt rx_root) (rx_lit ''observed.resources'')) (rx_lit ''resources''))
     (rx_lit ''.'')"

definition rx_call_resources :: "string \<Rightarrow> rx" where
  \<comment> \<open>\<open>\bfn\s+(?:(?:\$|\$\.|\.)?(?:observed\.)?resources)\s+\<close>\<close>
  "rx_call_resources fn = rx_seq [WordB, rx_lit fn, rx_spaces, rx_opt rx_root, rx_opt (rx_lit ''observed.''),
     rx_lit ''resources'', rx_spaces]"

definition rx_composed :: rx where
  "rx_composed = rx_seq [WordB, rx_lit ''getComposedResource'', rx_spaces,
     rx_plus (Cls True [(9, 10), (12, 13), (32, 32), r_chr dquote, r_chr squote, r_chr bquote]), rx_spaces]"

definition rx_dig :: rx where
  "rx_dig = rx_seq [WordB, rx_lit ''dig'', rx_spaces, rx_quoted ''resources'', rx_spaces]"

definition rx_params_dotted :: rx where
  "rx_params_dotted = rx_alts [rx_lit ''$spec'', rx_lit ''.spec'', rx_lit ''$params'', rx_lit ''.params'', rx_lit ''params'']"

definition rx_call_params :: "string \<Rightarrow> rx" where
  "rx_call_params fn = rx_seq [WordB, rx_lit fn, rx_spaces,
     rx_alts [Cat (rx_opt rx_root) (rx_lit ''observed.composite.resource.spec''),
              Cat rx_root (rx_lit ''spec''), Cat (rx_opt rx_root) (rx_lit ''params'')],
     rx_spaces]"

section \<open>Finding references\<close>

definition rawReferencesResource :: "string \<Rightarrow> string \<Rightarrow> bool" where
  "rawReferencesResource raw name =
     (if raw = [] \<or> name = [] then False
      else list_ex (\<lambda>head. match_string (rx_seq [head, rx_quoted name, Grp 1 resource_tail]) raw)
             [rx_call_resources ''index'', rx_call_resources ''hasKey'', rx_composed, rx_dig] \<or>
           match_string (rx_seq [rx_resources_dotted, rx_lit name, Grp 1 resource_tail]) raw)"

definition rawReferencesParam :: "string \<Rightarrow> string \<Rightarrow> bool" where
  "rawReferencesParam raw name =
     (if raw = [] \<or> name = [] then False
      else match_string (rx_seq [rx_params_dotted, rx_lit ''.'', rx_lit name, Grp 1 param_tail]) raw \<or>
           list_ex (\<lambda>head. match_string (rx_seq [head, rx_quoted name, Grp 1 param_tail]) raw)
             [rx_call_params ''index'', rx_call_params ''hasKey''])"

section \<open>Rewriting references\<close>

definition sub_between :: "string \<Rightarrow> nat \<Rightarrow> nat \<Rightarrow> caps \<Rightarrow> string" where
  \<comment> \<open>the replacement \<open>${i}to${j}\<close>\<close>
  "sub_between to i j cs = group cs i @ to @ group cs j"

definition rewrite_calls :: "rx list \<Rightarrow> string \<Rightarrow> string \<Rightarrow> string \<Rightarrow> string" where
  \<comment> \<open>the loop over the three quotes, each call pattern in turn\<close>
  "rewrite_calls heads from to raw =
     fold (\<lambda>q r. fold (\<lambda>head r. replace_rx (rx_seq [Grp 1 (Cat head (rx_lit [q])), rx_lit from, Grp 2 (rx_lit [q])])
            (sub_between to 1 2) r) heads r)
       [dquote, squote, bquote] raw"

definition rewriteRawResource :: "string \<Rightarrow> string \<Rightarrow> string \<Rightarrow> string" where
  "rewriteRawResource raw from to =
     (if raw = [] \<or> from = [] \<or> to = [] \<or> from = to then raw
      else rewrite_calls [rx_call_resources ''index'', rx_call_resources ''hasKey'', rx_composed, rx_dig] from to
        (replace_rx (rx_seq [Grp 1 rx_resources_dotted, rx_lit from, Grp 2 resource_tail])
          (sub_between to 1 2) raw))"

definition rewriteRawParam :: "string \<Rightarrow> string \<Rightarrow> string \<Rightarrow> string" where
  "rewriteRawParam raw from to =
     (if raw = [] \<or> from = [] \<or> to = [] \<or> from = to then raw
      else rewrite_calls [rx_call_params ''index'', rx_call_params ''hasKey''] from to
        (replace_rx (rx_seq [Grp 1 (Cat (Grp 2 rx_params_dotted) (rx_lit ''.'')), rx_lit from, Grp 3 param_tail])
          (sub_between to 1 3) raw))"

end
