(* ===== verification/GoQuote.thy ===== *)
theory GoQuote
  imports GoString
begin

text \<open>
  \<open>strconv.Quote\<close>, the \<open>%q\<close> verb: a rune is written as it is when it is printable, and as an
  escape sequence otherwise. Which runes past ASCII are printable is the Unicode table of the
  Go release the program is built with, a parameter.
\<close>

type_synonym printable = "nat \<Rightarrow> bool"

definition IsPrint :: "printable \<Rightarrow> nat \<Rightarrow> bool" where
  "IsPrint ip r \<longleftrightarrow> (if r < 0x80 then 0x20 \<le> r \<and> r \<le> 0x7E else ip r)"

fun hex_digits :: "nat \<Rightarrow> nat \<Rightarrow> string" where
  \<comment> \<open>the last digits of a number, in lower-case hexadecimal\<close>
  "hex_digits 0 r = []"
| "hex_digits (Suc n) r = hex_digits n (r div 16) @ [''0123456789abcdef'' ! (r mod 16)]"

definition quote_escape :: "nat \<Rightarrow> string" where
  "quote_escape r =
     (if r = 7 then ''a'' else if r = 8 then ''b'' else if r = 12 then ''f'' else if r = 10 then ''n''
      else if r = 13 then ''r'' else if r = 9 then ''t'' else if r = 11 then ''v''
      else if r < 0x20 \<or> r = 0x7F then ''x'' @ hex_digits 2 r
      else if r < 0x10000 then ''u'' @ hex_digits 4 r
      else ''U'' @ hex_digits 8 r)"

definition quote_rune :: "printable \<Rightarrow> nat \<times> string \<Rightarrow> string" where
  "quote_rune ip = (\<lambda>(r, bytes).
     if r = rune_error \<and> length bytes = 1 then bslash # ''x'' @ hex_digits 2 (code_of (hd bytes))
     else if r = code_of dquote \<or> r = code_of bslash then bslash # bytes
     else if IsPrint ip r then bytes
     else bslash # quote_escape r)"

definition go_quote :: "printable \<Rightarrow> string \<Rightarrow> string" where
  "go_quote ip s = [dquote] @ concat (map (quote_rune ip) (segs s)) @ [dquote]"

text \<open>The quoted text is the text in quotes, or it holds an
  escape.\<close>

lemma quote_concat_cases:
  assumes "\<forall>x \<in> set xs. f x = snd x \<or> c \<in> set (f x)"
  shows "concat (map f xs) = concat (map snd xs) \<or> c \<in> set (concat (map f xs))"
  using assms by (induction xs) auto

lemma go_quote_cases:
  "go_quote ip s = dquote # s @ [dquote] \<or> bslash \<in> set (go_quote ip s)"
proof -
  have "quote_rune ip (r, bytes) = bytes \<or> bslash \<in> set (quote_rune ip (r, bytes))" for r bytes
    by (simp add: quote_rune_def)
  then have "\<forall>x \<in> set (segs s). quote_rune ip x = snd x \<or> bslash \<in> set (quote_rune ip x)" by (metis prod.collapse)
  from quote_concat_cases [OF this] show ?thesis
    by (auto simp: go_quote_def concat_segs)
qed

end
