(* ===== verification/Edit.thy ===== *)
theory Edit
  imports Validate RawRefs GoQuote
begin

text \<open>
  Atomic edits (\<open>internal/blueprint/edit.go\<close>). An operation takes the receiver's value and
  returns the error (\<open>None\<close> for nil) with the receiver's value afterwards. \<open>deepCopy\<close> is the
  copy by value; a map the source copies key by key is rebuilt entry by entry. A loop that
  assigns the entries of the map it ranges over is the map of its body over the entries.
\<close>

section \<open>Copies\<close>

function copyParameter :: "parameter \<Rightarrow> parameter" where
  "copyParameter p = Parameter (p_type p) (p_required p) ([] @ p_enum p) (p_default p) (p_description p)
     (map (\<lambda>(name, member). (name, copyParameter member)) (p_properties p)) (p_from p)"
  by pat_completeness auto
termination
  by (relation "measure size") (auto dest: size_member)

declare copyParameter.simps [simp del]

definition copy_map :: "'a gomap \<Rightarrow> 'a gomap" where
  "copy_map m = map (\<lambda>(k, v). (k, v)) m"

definition copy_config :: "env_config \<Rightarrow> env_config" where
  "copy_config cfg = cfg\<lparr>c_selector := map_option copy_map (c_selector cfg),
     c_data := copy_map (c_data cfg), c_values := copy_map (c_values cfg)\<rparr>"

definition copy_resource :: "resource \<Rightarrow> resource" where
  "copy_resource r = r\<lparr>r_fields := copy_map (r_fields r), r_envelope := copy_map (r_envelope r),
     r_annotations := copy_map (r_annotations r)\<rparr>"

definition deepCopy :: "blueprint \<Rightarrow> blueprint" where
  "deepCopy b = (let s = b_spec b in b\<lparr>b_spec := s\<lparr>
     sp_sources := [] @ sp_sources s, sp_conventions := [] @ sp_conventions s,
     sp_templates := copy_map (sp_templates s), sp_environment := copy_map (sp_environment s),
     sp_environmentConfigs := map copy_config (sp_environmentConfigs s),
     sp_pipeline := map (\<lambda>st. st) (sp_pipeline s),
     sp_emit := map_option (\<lambda>em. em) (sp_emit s),
     sp_xrd := (sp_xrd s)\<lparr>x_parameters :=
       map (\<lambda>(name, p). (name, copyParameter p)) (x_parameters (sp_xrd s))\<rparr>,
     sp_resources := map copy_resource (sp_resources s)\<rparr>\<rparr>)"

section \<open>Who references what\<close>

definition whenParam :: "string \<Rightarrow> string" where
  "whenParam w =
     (if w = [] then []
      else case ParseWhen w of
        Inl _ \<Rightarrow> []
      | Inr (source, param, _, _) \<Rightarrow> if source \<noteq> ''params'' then [] else param)"

definition anyFrom :: "field gomap \<Rightarrow> string \<Rightarrow> bool" where
  "anyFrom m want = list_ex (\<lambda>(_, f). f_from f = want \<or> has_prefix (f_from f) (want @ ''.'')) m"

definition anyRawParam :: "field gomap \<Rightarrow> string \<Rightarrow> bool" where
  "anyRawParam m name = list_ex (\<lambda>(_, f). rawReferencesParam (f_raw f) name) m"

definition ReferencingResources :: "blueprint \<Rightarrow> string \<Rightarrow> string list" where
  "ReferencingResources b name = (let want = ''params.'' @ name in
     map r_name (filter (\<lambda>r. r_forEach r = want \<or> whenParam (r_when r) = name \<or>
       anyFrom (r_fields r) want \<or> anyFrom (r_envelope r) want \<or> anyFrom (r_annotations r) want \<or>
       anyRawParam (r_fields r) name \<or> anyRawParam (r_envelope r) name \<or> anyRawParam (r_annotations r) name)
       (b_resources b)))"

definition anyStatusFrom :: "field gomap \<Rightarrow> string \<Rightarrow> bool" where
  "anyStatusFrom m name = list_ex (\<lambda>(_, f).
     (f_from f \<noteq> [] \<and> (case ParseFrom (f_from f) of Inl _ \<Rightarrow> False | Inr ref \<Rightarrow> fr_resource ref = name)) \<or>
     (f_raw f \<noteq> [] \<and> rawReferencesResource (f_raw f) name)) m"

definition StatusReferencingResources :: "blueprint \<Rightarrow> string \<Rightarrow> string list" where
  "StatusReferencingResources b name = map r_name (filter (\<lambda>r.
     if r_name r = name then False
     else (case StatusRef (r_forEach r) of None \<Rightarrow> False | Some (target, _) \<Rightarrow> target = name) \<or>
       anyStatusFrom (r_fields r) name \<or> anyStatusFrom (r_annotations r) name \<or> anyStatusFrom (r_envelope r) name)
     (b_resources b))"

fun index_from :: "nat \<Rightarrow> string \<Rightarrow> resource list \<Rightarrow> nat option" where
  "index_from i name [] = None"
| "index_from i name (r # rs) = (if r_name r = name then Some i else index_from (i + 1) name rs)"

definition resourceIndex :: "blueprint \<Rightarrow> string \<Rightarrow> nat option" where
  \<comment> \<open>\<open>None\<close> is -1\<close>
  "resourceIndex b name = index_from 0 name (b_resources b)"

section \<open>Rewriting references\<close>

definition renameParamRef :: "string \<Rightarrow> string \<Rightarrow> string \<Rightarrow> string \<times> bool" where
  "renameParamRef from oldRef newRef =
     (if from = oldRef then (newRef, True)
      else case cut_prefix from (oldRef @ ''.'') of
        Some rest \<Rightarrow> (newRef @ ''.'' @ rest, True)
      | None \<Rightarrow> (from, False))"

definition rename_wire :: "string \<Rightarrow> string \<Rightarrow> string \<Rightarrow> string" where
  \<comment> \<open>the status and metadata wires to a renamed resource\<close>
  "rename_wire from to s =
     (case cut_prefix s (''resources.'' @ from @ ''.status.'') of
        Some rest \<Rightarrow> ''resources.'' @ to @ ''.status.'' @ rest
      | None \<Rightarrow> if s = ''resources.'' @ from @ ''.metadata.name''
                then ''resources.'' @ to @ ''.metadata.name'' else s)"

definition rename_resource_entry :: "string \<Rightarrow> string \<Rightarrow> field \<Rightarrow> field" where
  "rename_resource_entry from to f =
     (let f1 = f\<lparr>f_from := rename_wire from to (f_from f)\<rparr> in
      if f_raw f1 \<noteq> [] \<and> rawReferencesResource (f_raw f1) from
      then f1\<lparr>f_raw := rewriteRawResource (f_raw f1) from to\<rparr> else f1)"

definition rename_entries :: "('a \<Rightarrow> 'a) \<Rightarrow> 'a gomap \<Rightarrow> 'a gomap" where
  "rename_entries g m = map (\<lambda>(k, v). (k, g v)) m"

definition rename_bound :: "string \<Rightarrow> string \<Rightarrow> string \<Rightarrow> string" where
  "rename_bound from to bound =
     (case cut_prefix bound (''resources.'' @ from @ ''.status.'') of
        Some rest \<Rightarrow> ''resources.'' @ to @ ''.status.'' @ rest
      | None \<Rightarrow> bound)"

definition rename_in_resource :: "string \<Rightarrow> string \<Rightarrow> resource \<Rightarrow> resource" where
  "rename_in_resource from to r = r\<lparr>
     r_fields := rename_entries (rename_resource_entry from to) (r_fields r),
     r_envelope := rename_entries (rename_resource_entry from to) (r_envelope r),
     r_annotations := rename_entries (rename_resource_entry from to) (r_annotations r),
     r_forEach := rename_bound from to (r_forEach r)\<rparr>"

definition rename_param_entry :: "string \<Rightarrow> string \<Rightarrow> field \<Rightarrow> field" where
  "rename_param_entry from to f =
     (let f1 = f\<lparr>f_from := fst (renameParamRef (f_from f) (''params.'' @ from) (''params.'' @ to))\<rparr> in
      if f_raw f1 \<noteq> [] \<and> rawReferencesParam (f_raw f1) from
      then f1\<lparr>f_raw := rewriteRawParam (f_raw f1) from to\<rparr> else f1)"

definition rename_condition :: "printable \<Rightarrow> string \<Rightarrow> string \<Rightarrow> string \<Rightarrow> string" where
  "rename_condition ip from to w =
     (if whenParam w \<noteq> from then w
      else case ParseWhen w of
        Inl _ \<Rightarrow> ''params.'' @ to
      | Inr (_, _, op, literal) \<Rightarrow>
          if op = [] then ''params.'' @ to
          else ''params.'' @ to @ '' '' @ op @ '' '' @ go_quote ip literal)"

definition rename_param_in_resource :: "printable \<Rightarrow> string \<Rightarrow> string \<Rightarrow> resource \<Rightarrow> resource" where
  "rename_param_in_resource ip from to r = r\<lparr>
     r_forEach := (if r_forEach r = ''params.'' @ from then ''params.'' @ to else r_forEach r),
     r_when := rename_condition ip from to (r_when r),
     r_fields := rename_entries (rename_param_entry from to) (r_fields r),
     r_envelope := rename_entries (rename_param_entry from to) (r_envelope r),
     r_annotations := rename_entries (rename_param_entry from to) (r_annotations r)\<rparr>"

section \<open>Operations\<close>

definition commit :: "tpl_parse \<Rightarrow> yaml_map \<Rightarrow> (msg \<Rightarrow> msg) \<Rightarrow> blueprint \<Rightarrow> blueprint \<Rightarrow> msg option \<times> blueprint" where
  \<comment> \<open>the shared tail: validate the copy, write it back only when it is accepted\<close>
  "commit parse_tpl yaml_map wrap b cp =
     (case Validate parse_tpl yaml_map cp of
        Some err \<Rightarrow> (Some (wrap err), b)
      | None \<Rightarrow> (None, cp))"

abbreviation set_resources :: "resource list \<Rightarrow> blueprint \<Rightarrow> blueprint" where
  "set_resources rs b \<equiv> b\<lparr>b_spec := (b_spec b)\<lparr>sp_resources := rs\<rparr>\<rparr>"

abbreviation set_templates :: "string gomap \<Rightarrow> blueprint \<Rightarrow> blueprint" where
  "set_templates ts b \<equiv> b\<lparr>b_spec := (b_spec b)\<lparr>sp_templates := ts\<rparr>\<rparr>"

abbreviation set_params :: "parameter gomap \<Rightarrow> blueprint \<Rightarrow> blueprint" where
  "set_params ps b \<equiv> b\<lparr>b_spec := (b_spec b)\<lparr>sp_xrd := (sp_xrd (b_spec b))\<lparr>x_parameters := ps\<rparr>\<rparr>\<rparr>"

definition RenameResource ::
    "tpl_parse \<Rightarrow> yaml_map \<Rightarrow> string \<Rightarrow> string \<Rightarrow> blueprint \<Rightarrow> msg option \<times> blueprint" where
  "RenameResource parse_tpl yaml_map from to b =
     (case resourceIndex b from of
        None \<Rightarrow> (Some (Msg ''rename resource: %q is not declared'' [Str from]), b)
      | Some idx \<Rightarrow>
          if from = to then (None, b)
          else if resourceIndex b to \<noteq> None
          then (Some (Msg ''rename resource: %q is already declared'' [Str to]), b)
          else
            let cp = deepCopy b;
                rs = b_resources cp;
                cp = set_resources (rs[idx := (rs ! idx)\<lparr>r_name := to\<rparr>]) cp;
                cp = set_resources (map (rename_in_resource from to) (b_resources cp)) cp;
                cp = set_templates (rename_entries (\<lambda>body. if rawReferencesResource body from
                       then rewriteRawResource body from to else body) (b_templates cp)) cp
            in commit parse_tpl yaml_map
                 (\<lambda>err. Msg ''rename resource %q to %q: %w'' [Str from, Str to, Ctx err]) b cp)"

definition DeleteResource ::
    "tpl_parse \<Rightarrow> yaml_map \<Rightarrow> string \<Rightarrow> blueprint \<Rightarrow> msg option \<times> blueprint" where
  "DeleteResource parse_tpl yaml_map name b =
     (case resourceIndex b name of
        None \<Rightarrow> (Some (Msg ''delete resource: %q is not declared'' [Str name]), b)
      | Some idx \<Rightarrow>
          let refs = StatusReferencingResources b name in
          if refs \<noteq> []
          then (Some (Msg ''delete resource %q: its status, metadata, or raw reference is still wired into resources %s''
                 [Str name, Strs refs]), b)
          else case check_all (\<lambda>(tName, body). refuse (rawReferencesResource body name)
                 (Msg ''delete resource %q: still referenced by template %q'' [Str name, Str tName])) (b_templates b) of
            Some err \<Rightarrow> (Some err, b)
          | None \<Rightarrow>
              let cp = deepCopy b;
                  cp = set_resources (take idx (b_resources cp) @ drop (idx + 1) (b_resources cp)) cp
              in commit parse_tpl yaml_map (\<lambda>err. Msg ''delete resource %q: %w'' [Str name, Ctx err]) b cp)"

definition AddParameter ::
    "tpl_parse \<Rightarrow> yaml_map \<Rightarrow> string \<Rightarrow> parameter \<Rightarrow> blueprint \<Rightarrow> msg option \<times> blueprint" where
  "AddParameter parse_tpl yaml_map name p b =
     (if map_of (b_params b) name \<noteq> None
      then (Some (Msg ''add parameter: %q is already declared'' [Str name]), b)
      else let cp = deepCopy b; cp = set_params (AList.update name p (b_params cp)) cp
           in commit parse_tpl yaml_map (\<lambda>err. Msg ''add parameter %q: %w'' [Str name, Ctx err]) b cp)"

definition RenameParameter ::
    "tpl_parse \<Rightarrow> yaml_map \<Rightarrow> printable \<Rightarrow> string \<Rightarrow> string \<Rightarrow> blueprint \<Rightarrow> msg option \<times> blueprint" where
  "RenameParameter parse_tpl yaml_map ip from to b =
     (case map_of (b_params b) from of
        None \<Rightarrow> (Some (Msg ''rename parameter: %q is not declared'' [Str from]), b)
      | Some p \<Rightarrow>
          if from = to then (None, b)
          else if map_of (b_params b) to \<noteq> None
          then (Some (Msg ''rename parameter: %q is already declared'' [Str to]), b)
          else
            let cp = deepCopy b;
                cp = set_params (AList.update to p (AList.delete from (b_params cp))) cp;
                cp = set_resources (map (rename_param_in_resource ip from to) (b_resources cp)) cp;
                cp = set_templates (rename_entries (\<lambda>body. if rawReferencesParam body from
                       then rewriteRawParam body from to else body) (b_templates cp)) cp
            in commit parse_tpl yaml_map
                 (\<lambda>err. Msg ''rename parameter %q to %q: %w'' [Str from, Str to, Ctx err]) b cp)"

definition SetParameter ::
    "tpl_parse \<Rightarrow> yaml_map \<Rightarrow> string \<Rightarrow> parameter \<Rightarrow> blueprint \<Rightarrow> msg option \<times> blueprint" where
  "SetParameter parse_tpl yaml_map name p b =
     (if map_of (b_params b) name = None
      then (Some (Msg ''set parameter: %q is not declared'' [Str name]), b)
      else let cp = deepCopy b; cp = set_params (AList.update name p (b_params cp)) cp
           in commit parse_tpl yaml_map (\<lambda>err. Msg ''set parameter %q: %w'' [Str name, Ctx err]) b cp)"

definition DeleteParameter ::
    "tpl_parse \<Rightarrow> yaml_map \<Rightarrow> string \<Rightarrow> blueprint \<Rightarrow> msg option \<times> blueprint" where
  "DeleteParameter parse_tpl yaml_map name b =
     (if map_of (b_params b) name = None
      then (Some (Msg ''delete parameter: %q is not declared'' [Str name]), b)
      else let refs = ReferencingResources b name in
      if refs \<noteq> []
      then (Some (Msg ''delete parameter %q: still referenced by resources %s'' [Str name, Strs refs]), b)
      else case check_all (\<lambda>(tName, body). refuse (rawReferencesParam body name)
             (Msg ''delete parameter %q: still referenced by template %q'' [Str name, Str tName])) (b_templates b) of
        Some err \<Rightarrow> (Some err, b)
      | None \<Rightarrow>
          let cp = deepCopy b; cp = set_params (AList.delete name (b_params cp)) cp
          in commit parse_tpl yaml_map (\<lambda>err. Msg ''delete parameter %q: %w'' [Str name, Ctx err]) b cp)"

definition AddResource ::
    "tpl_parse \<Rightarrow> yaml_map \<Rightarrow> resource \<Rightarrow> blueprint \<Rightarrow> msg option \<times> blueprint" where
  "AddResource parse_tpl yaml_map r b =
     (if r_name r = [] then (Some (Msg ''add resource: name is required'' []), b)
      else if ResourceNamed b (r_name r) \<noteq> None
      then (Some (Msg ''add resource: %q is already declared'' [Str (r_name r)]), b)
      else let cp = deepCopy b; cp = set_resources (b_resources cp @ [r]) cp
           in commit parse_tpl yaml_map (\<lambda>err. Msg ''add resource %q: %w'' [Str (r_name r), Ctx err]) b cp)"

definition SetResource ::
    "tpl_parse \<Rightarrow> yaml_map \<Rightarrow> string \<Rightarrow> resource \<Rightarrow> blueprint \<Rightarrow> msg option \<times> blueprint" where
  "SetResource parse_tpl yaml_map name r b =
     (case resourceIndex b name of
        None \<Rightarrow> (Some (Msg ''set resource: %q is not declared'' [Str name]), b)
      | Some idx \<Rightarrow>
          if r_name r \<noteq> [] \<and> r_name r \<noteq> name
          then (Some (Msg ''set resource %q: cannot rename resource via PUT (use rename endpoint)'' [Str name]), b)
          else let r = (if r_name r = [] then r\<lparr>r_name := name\<rparr> else r);
                   cp = deepCopy b;
                   cp = set_resources ((b_resources cp)[idx := r]) cp
               in commit parse_tpl yaml_map (\<lambda>err. Msg ''set resource %q: %w'' [Str name, Ctx err]) b cp)"

section \<open>The copy\<close>

lemma copyParameter_id [simp]: "copyParameter p = p"
proof (induction p rule: copyParameter.induct)
  case (1 p)
  then have "map (\<lambda>(name, member). (name, copyParameter member)) (p_properties p) = p_properties p"
    by (intro map_idI) auto
  then show ?case by (subst copyParameter.simps) simp
qed

lemma copy_map_id [simp]: "copy_map m = m"
  by (simp add: copy_map_def)

lemma deepCopy_id [simp]: "deepCopy b = b"
proof -
  have "copy_config c = c" for c by (cases "c_selector c") (simp_all add: copy_config_def)
  moreover have "copy_resource r = r" for r by (simp add: copy_resource_def)
  moreover have "map_option (\<lambda>em. em) e = e" for e :: "emit_cfg option" by (cases e) simp_all
  ultimately show ?thesis by (simp add: deepCopy_def Let_def map_idI)
qed

end
