(* ===== verification/Edit_Props.thy ===== *)
theory Edit_Props
  imports Edit
begin

text \<open>
  What the atomic edits promise: the contract of a guarded edit as a locale with the facts
  about sessions proved once, its interpretation on the operations of \<open>edit.go\<close>, and the
  effect of each operation on references.
\<close>

section \<open>The contract of guarded edits\<close>

definition session :: "('e \<Rightarrow> 's \<Rightarrow> 'err option \<times> 's) \<Rightarrow> 'e list \<Rightarrow> 's \<Rightarrow> 's" where
  \<comment> \<open>edits applied one after the other, errors reported and otherwise ignored\<close>
  "session step es s = fold (\<lambda>e s. snd (step e s)) es s"

fun accepted :: "('e \<Rightarrow> 's \<Rightarrow> 'err option \<times> 's) \<Rightarrow> 'e list \<Rightarrow> 's \<Rightarrow> 'e list" where
  "accepted step [] s = []"
| "accepted step (e # es) s =
     (case step e s of
        (None, s') \<Rightarrow> e # accepted step es s'
      | (Some _, _) \<Rightarrow> accepted step es s)"

locale guarded_edits =
  fixes valid :: "'s \<Rightarrow> bool"
    and admissible :: "'e \<Rightarrow> bool"
    and step :: "'e \<Rightarrow> 's \<Rightarrow> 'err option \<times> 's"
  assumes refused: "step e s = (Some err, s') \<Longrightarrow> s' = s"
    and committed: "step e s = (None, s') \<Longrightarrow> valid s \<Longrightarrow> admissible e \<Longrightarrow> valid s'"
begin

lemma step_valid: "valid s \<Longrightarrow> admissible e \<Longrightarrow> valid (snd (step e s))"
proof (cases "step e s")
  case (Pair r s')
  assume "valid s" "admissible e"
  with Pair refused committed show ?thesis by (cases r) auto
qed

lemma session_valid: "valid s \<Longrightarrow> \<forall>e \<in> set es. admissible e \<Longrightarrow> valid (session step es s)"
  by (induction es arbitrary: s) (auto simp: session_def step_valid)

lemma session_accepted: "session step (accepted step es s) s = session step es s"
proof (induction es arbitrary: s)
  case Nil
  then show ?case by simp
next
  case (Cons e es)
  obtain r s' where step: "step e s = (r, s')" by (cases "step e s")
  show ?case
  proof (cases r)
    case None
    with Cons.IH [of s'] step show ?thesis by (simp add: session_def)
  next
    case (Some err)
    with step refused have "s' = s" by blast
    with Cons.IH [of s] step Some show ?thesis by (simp add: session_def)
  qed
qed

end

section \<open>The edits\<close>

datatype edit = RenameRes string string | DeleteRes string | AddRes resource | SetRes string resource
  | AddPar string parameter | RenamePar string string | SetPar string parameter | DeletePar string

definition apply_edit :: "tpl_parse \<Rightarrow> yaml_map \<Rightarrow> printable \<Rightarrow> edit \<Rightarrow> blueprint \<Rightarrow> msg option \<times> blueprint" where
  "apply_edit parse_tpl yaml_map ip e b = (case e of
     RenameRes f t \<Rightarrow> RenameResource parse_tpl yaml_map f t b
   | DeleteRes n \<Rightarrow> DeleteResource parse_tpl yaml_map n b
   | AddRes r \<Rightarrow> AddResource parse_tpl yaml_map r b
   | SetRes n r \<Rightarrow> SetResource parse_tpl yaml_map n r b
   | AddPar n p \<Rightarrow> AddParameter parse_tpl yaml_map n p b
   | RenamePar f t \<Rightarrow> RenameParameter parse_tpl yaml_map ip f t b
   | SetPar n p \<Rightarrow> SetParameter parse_tpl yaml_map n p b
   | DeletePar n \<Rightarrow> DeleteParameter parse_tpl yaml_map n b)"

definition edit_maps_ok :: "edit \<Rightarrow> bool" where
  "edit_maps_ok e = (case e of AddRes r \<Rightarrow> resource_maps_ok r | SetRes n r \<Rightarrow> resource_maps_ok r | _ \<Rightarrow> True)"

definition good :: "tpl_parse \<Rightarrow> yaml_map \<Rightarrow> blueprint \<Rightarrow> bool" where
  "good parse_tpl yaml_map b \<longleftrightarrow> maps_ok b \<and> Validate parse_tpl yaml_map b = None"

lemma commit_None [simp]:
  "commit pt ym w b cp = (None, b') \<longleftrightarrow> Validate pt ym cp = None \<and> b' = cp"
  by (auto simp: commit_def split: option.splits)

lemma commit_Some: "commit pt ym w b cp = (Some e, b') \<Longrightarrow> b' = b"
  by (auto simp: commit_def split: option.splits)

lemmas edit_defs = RenameResource_def DeleteResource_def AddResource_def SetResource_def
  AddParameter_def RenameParameter_def SetParameter_def DeleteParameter_def

lemma edit_refused: "apply_edit pt ym ip e b = (Some err, b') \<Longrightarrow> b' = b"
  by (cases e) (auto simp: apply_edit_def edit_defs Let_def split: option.splits if_splits dest: commit_Some)

lemma fst_rename_entries [simp]: "map fst (rename_entries g m) = map fst m"
  by (induction m) (auto simp: rename_entries_def)

lemma gomap_ok_rename [simp]: "gomap_ok (rename_entries g m) = gomap_ok m"
  by (simp add: gomap_ok_def)

lemma map_of_rename_entries [simp]: "map_of (rename_entries g m) k = map_option g (map_of m k)"
  by (induction m) (auto simp: rename_entries_def)

lemma resource_maps_rename [simp]:
  "resource_maps_ok (rename_in_resource f t r) = resource_maps_ok r"
  "resource_maps_ok (rename_param_in_resource ip f t r) = resource_maps_ok r"
  "resource_maps_ok (r\<lparr>r_name := n\<rparr>) = resource_maps_ok r"
  by (simp_all add: resource_maps_ok_def rename_in_resource_def rename_param_in_resource_def)

lemma index_from_Some:
  "index_from i n rs = Some j \<Longrightarrow> i \<le> j \<and> j - i < length rs \<and> r_name (rs ! (j - i)) = n"
proof (induction i n rs rule: index_from.induct)
  case (2 i n r rs)
  then show ?case by (auto split: if_splits simp: nth_Cons' Suc_diff_le)
qed auto

lemma resourceIndex_Some:
  "resourceIndex b n = Some j \<Longrightarrow> j < length (b_resources b) \<and> r_name (b_resources b ! j) = n"
  using index_from_Some [of 0 n "b_resources b" j] by (simp add: resourceIndex_def)

lemma index_from_None: "index_from i n rs = None \<longleftrightarrow> n \<notin> r_name ` set rs"
  by (induction i n rs rule: index_from.induct) auto

lemma resourceIndex_None: "resourceIndex b n = None \<longleftrightarrow> n \<notin> r_name ` set (b_resources b)"
  by (simp add: resourceIndex_def index_from_None)

text \<open>What a committed operation has written.\<close>

definition renamed_resource :: "nat \<Rightarrow> string \<Rightarrow> string \<Rightarrow> blueprint \<Rightarrow> blueprint" where
  "renamed_resource idx f t b =
     set_templates (rename_entries (\<lambda>body. if rawReferencesResource body f then rewriteRawResource body f t
         else body) (b_templates b))
       (set_resources (map (rename_in_resource f t)
          ((b_resources b)[idx := (b_resources b ! idx)\<lparr>r_name := t\<rparr>])) b)"

definition renamed_param :: "printable \<Rightarrow> parameter \<Rightarrow> string \<Rightarrow> string \<Rightarrow> blueprint \<Rightarrow> blueprint" where
  "renamed_param ip p f t b =
     set_templates (rename_entries (\<lambda>body. if rawReferencesParam body f then rewriteRawParam body f t
         else body) (b_templates b))
       (set_resources (map (rename_param_in_resource ip f t) (b_resources b))
         (set_params (AList.update t p (AList.delete f (b_params b))) b))"

lemma RenameResource_None:
  "RenameResource pt ym f t b = (None, b') \<longleftrightarrow>
     (\<exists>idx. resourceIndex b f = Some idx \<and>
       (if f = t then b' = b
        else resourceIndex b t = None \<and> b' = renamed_resource idx f t b \<and> Validate pt ym b' = None))"
  unfolding RenameResource_def
  by (cases "resourceIndex b f") (auto simp: renamed_resource_def Let_def)

lemma RenameParameter_None:
  "RenameParameter pt ym ip f t b = (None, b') \<longleftrightarrow>
     (\<exists>p. map_of (b_params b) f = Some p \<and>
       (if f = t then b' = b
        else map_of (b_params b) t = None \<and> b' = renamed_param ip p f t b \<and> Validate pt ym b' = None))"
  unfolding RenameParameter_def
  by (cases "map_of (b_params b) f") (auto simp: renamed_param_def Let_def)

lemma DeleteResource_None:
  "DeleteResource pt ym n b = (None, b') \<longleftrightarrow>
     (\<exists>idx. resourceIndex b n = Some idx \<and> StatusReferencingResources b n = [] \<and>
       (\<forall>(k, body) \<in> set (b_templates b). \<not> rawReferencesResource body n) \<and>
       b' = set_resources (take idx (b_resources b) @ drop (idx + 1) (b_resources b)) b \<and>
       Validate pt ym b' = None)"
proof -
  have "check_all (\<lambda>(k, body). refuse (rawReferencesResource body n) (m k)) (b_templates b) = None \<longleftrightarrow>
      (\<forall>(k, body) \<in> set (b_templates b). \<not> rawReferencesResource body n)" for m :: "string \<Rightarrow> msg"
    by (auto simp: check_all_None refuse_None)
  then show ?thesis
    unfolding DeleteResource_def by (cases "resourceIndex b n") (auto simp: Let_def split: option.split)
qed

lemma SetResource_None:
  "SetResource pt ym n r b = (None, b') \<longleftrightarrow>
     (\<exists>idx. resourceIndex b n = Some idx \<and> (r_name r = [] \<or> r_name r = n) \<and>
       b' = set_resources ((b_resources b)[idx := r\<lparr>r_name := n\<rparr>]) b \<and> Validate pt ym b' = None)"
  unfolding SetResource_def by (cases "resourceIndex b n") (auto simp: Let_def)

lemma AddResource_None:
  "AddResource pt ym r b = (None, b') \<longleftrightarrow> r_name r \<noteq> [] \<and> ResourceNamed b (r_name r) = None \<and>
     b' = set_resources (b_resources b @ [r]) b \<and> Validate pt ym b' = None"
  unfolding AddResource_def by (auto simp: Let_def)

lemma AddParameter_None:
  "AddParameter pt ym n p b = (None, b') \<longleftrightarrow> map_of (b_params b) n = None \<and>
     b' = set_params (AList.update n p (b_params b)) b \<and> Validate pt ym b' = None"
  unfolding AddParameter_def by (auto simp: Let_def)

lemma SetParameter_None:
  "SetParameter pt ym n p b = (None, b') \<longleftrightarrow> map_of (b_params b) n \<noteq> None \<and>
     b' = set_params (AList.update n p (b_params b)) b \<and> Validate pt ym b' = None"
  unfolding SetParameter_def by (auto simp: Let_def)

lemma DeleteParameter_None:
  "DeleteParameter pt ym n b = (None, b') \<longleftrightarrow> map_of (b_params b) n \<noteq> None \<and>
     ReferencingResources b n = [] \<and> (\<forall>(k, body) \<in> set (b_templates b). \<not> rawReferencesParam body n) \<and>
     b' = set_params (AList.delete n (b_params b)) b \<and> Validate pt ym b' = None"
proof -
  have "check_all (\<lambda>(k, body). refuse (rawReferencesParam body n) (m k)) (b_templates b) = None \<longleftrightarrow>
      (\<forall>(k, body) \<in> set (b_templates b). \<not> rawReferencesParam body n)" for m :: "string \<Rightarrow> msg"
    by (auto simp: check_all_None refuse_None)
  then show ?thesis
    unfolding DeleteParameter_def by (auto simp: Let_def split: option.split)
qed

lemmas edit_None = RenameResource_None RenameParameter_None DeleteResource_None DeleteParameter_None
  SetResource_None SetParameter_None AddResource_None AddParameter_None

lemma maps_ok_set [simp]:
  "maps_ok (set_resources rs b) \<longleftrightarrow> (\<forall>r \<in> set rs. resource_maps_ok r)"
  "maps_ok (set_templates ts b) = maps_ok b"
  "maps_ok (set_params ps b) = maps_ok b"
  by (simp_all add: maps_ok_def)

lemma all_set_update: "\<forall>x \<in> set xs. P x \<Longrightarrow> P y \<Longrightarrow> \<forall>x \<in> set (xs[i := y]). P x"
  using set_update_subset_insert [of xs i y] by blast

lemma maps_ok_update:
  assumes "maps_ok b" "i < length (b_resources b)"
  shows "\<forall>r \<in> set ((b_resources b)[i := (b_resources b ! i)\<lparr>r_name := t\<rparr>]). resource_maps_ok r"
  using assms by (intro all_set_update) (simp_all add: maps_ok_def)

lemma maps_ok_renamed:
  assumes "maps_ok b"
  shows "i < length (b_resources b) \<Longrightarrow> maps_ok (renamed_resource i f t b)"
    and "maps_ok (renamed_param ip p f t b)"
  using maps_ok_update [OF assms] assms
  by (auto simp: renamed_resource_def renamed_param_def maps_ok_def)

lemma edit_committed:
  "apply_edit pt ym ip e b = (None, b') \<Longrightarrow> b' = b \<or> Validate pt ym b' = None"
  by (cases e) (auto simp: apply_edit_def edit_None split: if_splits)

lemma edit_maps:
  assumes "apply_edit pt ym ip e b = (None, b')" "maps_ok b" "edit_maps_ok e"
  shows "maps_ok b'"
proof (cases e)
  case (RenameRes f t)
  with assms maps_ok_renamed(1) resourceIndex_Some show ?thesis
    by (fastforce simp: apply_edit_def RenameResource_None split: if_splits)
next
  case (RenamePar f t)
  with assms maps_ok_renamed(2) show ?thesis
    by (auto simp: apply_edit_def RenameParameter_None split: if_splits)
next
  case (SetRes n r)
  then have "resource_maps_ok (r\<lparr>r_name := n\<rparr>)" using assms(3) by (simp add: edit_maps_ok_def)
  with SetRes assms(1,2) show ?thesis
    by (auto simp: apply_edit_def SetResource_None maps_ok_def dest!: set_update_subset_insert [THEN subsetD])
next
  case (DeleteRes n)
  with assms show ?thesis
    by (auto simp: apply_edit_def DeleteResource_None maps_ok_def dest!: in_set_takeD in_set_dropD)
qed (use assms in \<open>auto simp: apply_edit_def edit_None maps_ok_def edit_maps_ok_def\<close>)

interpretation edits: guarded_edits "good parse_tpl yaml_map" edit_maps_ok "apply_edit parse_tpl yaml_map ip"
  for parse_tpl yaml_map ip
proof
  show "s' = s" if "apply_edit parse_tpl yaml_map ip e s = (Some err, s')" for e s s' err
    using that by (rule edit_refused)
  show "good parse_tpl yaml_map s'"
    if "apply_edit parse_tpl yaml_map ip e s = (None, s')" "good parse_tpl yaml_map s" "edit_maps_ok e" for e s s'
    using edit_committed [OF that(1)] edit_maps [OF that(1)] that(2,3) by (auto simp: good_def)
qed

end
