(* ===== verification/Captures.thy ===== *)
theory Captures
  imports Ident
begin

text \<open>
  What the groups of a match hold. \<open>captures r u cs cs'\<close> says that the pattern can consume
  \<open>u\<close> turning the group list \<open>cs\<close> into \<open>cs'\<close>; every result of the matcher on a pattern
  without assertions is described by it, negated classes included.
\<close>

definition consumes :: "bool \<Rightarrow> (nat \<times> nat) list \<Rightarrow> string \<Rightarrow> bool" where
  "consumes neg rs u \<longleftrightarrow> u \<noteq> [] \<and>
     (\<exists>t x. decode_rune (u @ t) = (x, length u) \<and> in_ranges rs x \<noteq> neg)"

inductive captures :: "rx \<Rightarrow> string \<Rightarrow> caps \<Rightarrow> caps \<Rightarrow> bool" where
  Eps: "captures Eps [] cs cs"
| Cls: "consumes neg rs u \<Longrightarrow> captures (Cls neg rs) u cs cs"
| Cat: "captures a u cs cs1 \<Longrightarrow> captures b v cs1 cs2 \<Longrightarrow> captures (Cat a b) (u @ v) cs cs2"
| AltL: "captures a u cs cs' \<Longrightarrow> captures (Alt a b) u cs cs'"
| AltR: "captures b u cs cs' \<Longrightarrow> captures (Alt a b) u cs cs'"
| Star0: "captures (Star a) [] cs cs"
| StarS: "captures a u cs cs1 \<Longrightarrow> captures (Star a) v cs1 cs2 \<Longrightarrow> captures (Star a) (u @ v) cs cs2"
| Grp: "captures a u cs cs' \<Longrightarrow> captures (Grp n a) u cs ((n, u) # cs')"

inductive_simps captures_Eps [simp]: "captures Eps u cs cs'"
inductive_simps captures_Cls: "captures (Cls neg rs) u cs cs'"
inductive_simps captures_Cat: "captures (Cat a b) u cs cs'"
inductive_simps captures_Alt [simp]: "captures (Alt a b) u cs cs'"
inductive_simps captures_Grp: "captures (Grp n a) u cs cs'"

fun unanchored :: "rx \<Rightarrow> bool" where
  "unanchored Eps = True"
| "unanchored (Cls neg rs) = True"
| "unanchored (Cat a b) = (unanchored a \<and> unanchored b)"
| "unanchored (Alt a b) = (unanchored a \<and> unanchored b)"
| "unanchored (Star a) = unanchored a"
| "unanchored (Grp n a) = unanchored a"
| "unanchored Bos = False"
| "unanchored Eos = False"
| "unanchored WordB = False"

definition described :: "rx \<Rightarrow> (rx_state \<Rightarrow> rx_state list) \<Rightarrow> bool" where
  "described r f \<longleftrightarrow> (\<forall>p s cs p' t cs'. (p', t, cs') \<in> set (f (p, s, cs)) \<longrightarrow>
     (\<exists>u. s = u @ t \<and> captures r u cs cs'))"

lemma describedD:
  "described r f \<Longrightarrow> (p', t, cs') \<in> set (f (p, s, cs)) \<Longrightarrow> \<exists>u. s = u @ t \<and> captures r u cs cs'"
  by (simp add: described_def)

lemma described_star: "described a f \<Longrightarrow> described (Star a) (star_run n f)"
proof (induction n)
  case 0
  then show ?case by (auto simp: described_def intro: captures.Star0)
next
  case (Suc n)
  show ?case
    unfolding described_def
  proof (intro allI impI)
    fix p s cs p' t cs'
    assume "(p', t, cs') \<in> set (star_run (Suc n) f (p, s, cs))"
    then consider "t = s" "cs' = cs"
      | q s1 cs1 where "(q, s1, cs1) \<in> set (f (p, s, cs))" "(p', t, cs') \<in> set (star_run n f (q, s1, cs1))"
      by auto
    then show "\<exists>u. s = u @ t \<and> captures (Star a) u cs cs'"
    proof cases
      case 1
      then show ?thesis by (auto intro: captures.Star0)
    next
      case 2
      from describedD [OF Suc.prems 2(1)] describedD [OF Suc.IH [OF Suc.prems] 2(2)]
      obtain u v where "s = u @ s1" "captures a u cs cs1" "s1 = v @ t" "captures (Star a) v cs1 cs'" by blast
      then show ?thesis by (intro exI [of _ "u @ v"]) (auto intro: captures.StarS)
    qed
  qed
qed

theorem run_captures: "unanchored r \<Longrightarrow> described r (run r)"
proof (induction r)
  case Eps
  then show ?case by (simp add: described_def)
next
  case (Cls neg rs)
  show ?case
    unfolding described_def
  proof (intro allI impI)
    fix p s cs p' t cs'
    assume m: "(p', t, cs') \<in> set (run (Cls neg rs) (p, s, cs))"
    then obtain c s' where s: "s = c # s'" by (cases s) auto
    obtain x w where dec: "decode_rune (c # s') = (x, w)" by force
    with m s have t: "t = drop w s" "cs' = cs" "in_ranges rs x \<noteq> neg" by (auto split: if_splits)
    from dec have w: "1 \<le> w" "w \<le> length s" using decode_width_pos decode_width_le s by blast+
    then have "take w s \<noteq> []" "length (take w s) = w" by (auto simp: s)
    moreover have "decode_rune (take w s @ drop w s) = (x, w)" using dec s by simp
    ultimately have "consumes neg rs (take w s)"
      unfolding consumes_def using t(3) by metis
    with t show "\<exists>u. s = u @ t \<and> captures (Cls neg rs) u cs cs'"
      by (intro exI [of _ "take w s"]) (auto simp: captures_Cls)
  qed
next
  case (Cat a b)
  then have a: "described a (run a)" and b: "described b (run b)" by simp_all
  show ?case
    unfolding described_def
  proof (intro allI impI)
    fix p s cs p' t cs'
    assume "(p', t, cs') \<in> set (run (Cat a b) (p, s, cs))"
    then obtain q s1 cs1 where 1: "(q, s1, cs1) \<in> set (run a (p, s, cs))"
      and 2: "(p', t, cs') \<in> set (run b (q, s1, cs1))" by auto
    from describedD [OF a 1] describedD [OF b 2] obtain u v where
      "s = u @ s1" "captures a u cs cs1" "s1 = v @ t" "captures b v cs1 cs'" by blast
    then show "\<exists>u. s = u @ t \<and> captures (Cat a b) u cs cs'"
      by (intro exI [of _ "u @ v"]) (auto intro: captures.Cat)
  qed
next
  case (Alt a b)
  then show ?case by (fastforce simp: described_def)
next
  case (Star a)
  then have "described (Star a) (star_run n (run a))" for n by (simp add: described_star)
  then show ?case unfolding described_def by (simp add: describedD)
next
  case (Grp n a)
  then have a: "described a (run a)" by simp
  show ?case
    unfolding described_def
  proof (intro allI impI)
    fix p s cs p' t cs'
    assume "(p', t, cs') \<in> set (run (Grp n a) (p, s, cs))"
    then obtain cs1 where 1: "(p', t, cs1) \<in> set (run a (p, s, cs))"
      and cs': "cs' = (n, take (length s - length t) s) # cs1" by auto
    from describedD [OF a 1] obtain u where "s = u @ t" "captures a u cs cs1" by blast
    with cs' show "\<exists>u. s = u @ t \<and> captures (Grp n a) u cs cs'"
      by (auto simp: captures_Grp)
  qed
qed simp_all

section \<open>Reading off the shapes\<close>

lemma consumes_ascii:
  assumes "list_all (\<lambda>(lo, hi). hi < 0x80) rs"
  shows "consumes False rs u \<longleftrightarrow> (\<exists>c. u = [c] \<and> in_ranges rs (code_of c))"
proof
  assume "consumes False rs u"
  then obtain c v t x where u: "u = c # v" and dec: "decode_rune (c # v @ t) = (x, length u)"
    and x: "in_ranges rs x"
    by (cases u) (auto simp: consumes_def)
  from decode_small [OF dec in_ranges_ascii [OF assms x]] u x show "\<exists>c. u = [c] \<and> in_ranges rs (code_of c)"
    by auto
next
  assume "\<exists>c. u = [c] \<and> in_ranges rs (code_of c)"
  then obtain c where c: "u = [c]" "in_ranges rs (code_of c)" by blast
  then have "code_of c < 0x80" using in_ranges_ascii [OF assms] by blast
  with c show "consumes False rs u" unfolding consumes_def by (intro conjI exI [of _ "[]"]) auto
qed

lemma consumes_excluded:
  assumes "consumes True rs u" "c \<in> set u" "code_of c < 0x80"
  shows "\<not> in_ranges rs (code_of c)"
proof -
  from assms(1) obtain d v t x where u: "u = d # v" and dec: "decode_rune (d # v @ t) = (x, length u)"
    and x: "\<not> in_ranges rs x"
    by (cases u) (auto simp: consumes_def)
  have "v = []"
  proof (rule ccontr)
    assume "v \<noteq> []"
    then have "1 < length u" by (simp add: u)
    moreover have "c \<in> set (d # take (length u - 1) (v @ t))" using assms(2) by (simp add: u)
    ultimately have "0x80 \<le> code_of c" using decode_wide_bytes [OF dec] by blast
    with assms(3) show False by simp
  qed
  with assms(2,3) u dec have "x = code_of c" by auto
  with x show ?thesis by simp
qed

lemma captures_lit:
  assumes "list_all (\<lambda>c. code_of c < 0x80) w"
  shows "captures (rx_lit w) u cs cs' \<longleftrightarrow> u = w \<and> cs' = cs"
proof -
  have "captures (foldr (\<lambda>r acc. Cat (Cls False [(r, r)]) acc) (map code_of w) Eps) u cs cs' \<longleftrightarrow> u = w \<and> cs' = cs"
    using assms
  proof (induction w arbitrary: u)
    case (Cons c w)
    then have "list_all (\<lambda>(lo, hi). hi < 0x80) [(code_of c, code_of c)]" by simp
    from consumes_ascii [OF this] have "consumes False [(code_of c, code_of c)] v \<longleftrightarrow> v = [c]" for v
      by (simp add: in_ranges_def eq_iff [symmetric])
    then have "captures (Cls False [(code_of c, code_of c)]) v cs1 cs2 \<longleftrightarrow> v = [c] \<and> cs2 = cs1" for v cs1 cs2
      by (simp add: captures_Cls) blast
    moreover have "captures (foldr (\<lambda>r acc. Cat (Cls False [(r, r)]) acc) (map code_of w) Eps) v cs cs' \<longleftrightarrow>
        v = w \<and> cs' = cs" for v
      using Cons by simp
    ultimately show ?case unfolding list.map foldr.simps comp_apply captures_Cat by auto
  qed auto
  with assms show ?thesis by (simp add: rx_lit_def runes_ascii)
qed

lemma captures_star_Cls:
  assumes "captures (Star (Cls neg rs)) u cs cs'"
  shows "cs' = cs \<and> (\<exists>us. u = concat us \<and> (\<forall>v \<in> set us. consumes neg rs v))"
  using assms
proof (induction "Star (Cls neg rs)" u cs cs' rule: captures.induct)
  case (Star0 cs)
  then show ?case by (intro conjI exI [of _ "[]"]) auto
next
  case (StarS u cs cs1 v cs2)
  then obtain us where "v = concat us" "\<forall>v \<in> set us. consumes neg rs v" "cs2 = cs1" by auto
  with StarS(1) show ?case by (intro conjI exI [of _ "u # us"]) (auto simp: captures_Cls)
qed

lemma captures_full:
  assumes "unanchored r" "submatch (rx_full r) s = Some cs"
  shows "captures r s [] cs"
proof -
  from assms(2) obtain p t where "(p, t, cs) \<in> set (run (rx_full r) (None, s, []))"
    unfolding submatch_def by (auto split: list.splits prod.splits)
  then have "(p, [], cs) \<in> set (run r (None, s, []))"
    by (auto simp: rx_full_def split: if_splits)
  from describedD [OF run_captures [OF assms(1)] this] show ?thesis by simp
qed

end
