(* ===== verification/When.thy ===== *)
theory When
  imports Captures BlueprintTypes
begin

text \<open>
  The grammar of \<open>when\<close> conditions (\<open>ParseWhen\<close> in \<open>types.go\<close>): what an accepted condition
  looks like, and that every condition of that shape is read back in its parts.
\<close>

section \<open>The shape of an accepted condition\<close>

definition literal_ok :: "string \<Rightarrow> bool" where
  "literal_ok s \<longleftrightarrow> dquote \<notin> set s \<and> bslash \<notin> set s"

definition when_text :: "string \<Rightarrow> string \<Rightarrow> string \<Rightarrow> string \<Rightarrow> string" where
  \<comment> \<open>a condition written out\<close>
  "when_text source name op literal =
     (if op = [] then source @ ''.'' @ name
      else source @ ''.'' @ name @ '' '' @ op @ '' '' @ [dquote] @ literal @ [dquote])"

definition when_parts_ok :: "string \<Rightarrow> string \<Rightarrow> string \<Rightarrow> string \<Rightarrow> bool" where
  "when_parts_ok source name op literal \<longleftrightarrow> source \<in> {''params'', ''env''} \<and>
     match_string paramNameRE name \<and>
     (op = [] \<and> literal = [] \<or> op \<in> {''=='', ''!=''} \<and> literal_ok literal)"

lemma captures_alpha_alnum:
  assumes "captures (Cat c_alpha (Star c_alnum)) u cs cs'"
  shows "cs' = cs \<and> match_string paramNameRE u"
proof -
  have a: "list_all (\<lambda>(lo, hi). hi < 0x80) [r_lower, r_upper]"
    "list_all (\<lambda>(lo, hi). hi < 0x80) [r_lower, r_upper, r_digit]" by simp_all
  from assms obtain v w cs1 where u: "u = v @ w" "captures c_alpha v cs cs1"
      "captures (Star c_alnum) w cs1 cs'"
    by (auto simp: captures_Cat)
  from u(2) obtain c where c: "v = [c]" "is_alpha c" "cs1 = cs"
    by (auto simp: captures_Cls consumes_ascii [OF a(1)] is_alpha_def)
  from captures_star_Cls [OF u(3)] obtain us where us: "w = concat us" "cs' = cs1"
      "\<forall>v \<in> set us. consumes False [r_lower, r_upper, r_digit] v" by blast
  have "list_all is_alnum w"
    using us(3) unfolding us(1) list_all_iff by (auto simp: consumes_ascii [OF a(2)] is_alnum_def)
  with u(1) c us(2) show ?thesis by (auto simp: paramName_shape)
qed

lemma captures_head:
  assumes "captures rx_when_head u cs cs'"
  shows "\<exists>source name. source \<in> {''params'', ''env''} \<and> match_string paramNameRE name \<and>
    u = source @ ''.'' @ name \<and> cs' = (2, name) # (1, source) # cs"
proof -
  have lit: "captures (rx_lit ''params'') v a b \<longleftrightarrow> v = ''params'' \<and> b = a"
    "captures (rx_lit ''env'') v a b \<longleftrightarrow> v = ''env'' \<and> b = a"
    "captures (rx_lit ''.'') v a b \<longleftrightarrow> v = ''.'' \<and> b = a" for v a b
    by (rule captures_lit, simp)+
  from assms obtain v d w where u: "u = v @ d @ w" "v \<in> {''params'', ''env''}" "d = ''.''"
      and w: "captures (Grp 2 (Cat c_alpha (Star c_alnum))) w ((1, v) # cs) cs'"
    unfolding rx_when_head_def rx_seq.simps captures_Cat captures_Grp captures_Alt lit by blast
  from w obtain cs2 where "captures (Cat c_alpha (Star c_alnum)) w ((1, v) # cs) cs2" "cs' = (2, w) # cs2"
    unfolding captures_Grp by blast
  with captures_alpha_alnum u show ?thesis by blast
qed

lemma captures_literal:
  assumes "captures (Star (Cls True [r_chr dquote, r_chr bslash])) u cs cs'"
  shows "cs' = cs \<and> literal_ok u"
proof -
  from captures_star_Cls [OF assms] obtain us where us: "u = concat us" "cs' = cs"
      "\<forall>v \<in> set us. consumes True [r_chr dquote, r_chr bslash] v" by blast
  have "c \<noteq> dquote \<and> c \<noteq> bslash" if "v \<in> set us" "c \<in> set v" for c v
  proof (cases "code_of c < 0x80")
    case True
    with consumes_excluded us(3) that show ?thesis
      by (fastforce simp: in_ranges_def r_chr_def)
  next
    case False
    then show ?thesis by auto
  qed
  with us show ?thesis by (auto simp: literal_ok_def)
qed

lemma bare_shape:
  assumes "submatch whenBareRE s = Some cs"
  shows "\<exists>source name. when_parts_ok source name [] [] \<and> s = when_text source name [] [] \<and>
    group cs 1 = source \<and> group cs 2 = name"
proof -
  have "unanchored rx_when_head" by code_simp
  from captures_head [OF captures_full [OF this assms [unfolded whenBareRE_def]]]
  show ?thesis by (auto simp: when_parts_ok_def when_text_def group_def)
qed

lemma cmp_shape:
  assumes "submatch whenCmpRE s = Some cs"
  shows "\<exists>source name op literal. op \<noteq> [] \<and> when_parts_ok source name op literal \<and>
    s = when_text source name op literal \<and>
    group cs 1 = source \<and> group cs 2 = name \<and> group cs 3 = op \<and> group cs 4 = literal"
proof -
  let ?r = "rx_seq [rx_when_head, rx_lit '' '', Grp 3 (Alt (rx_lit ''=='') (rx_lit ''!='')),
     rx_lit ('' '' @ [dquote]), Grp 4 (Star (Cls True [r_chr dquote, r_chr bslash])), rx_lit [dquote]]"
  have lit: "captures (rx_lit '' '') v a b \<longleftrightarrow> v = '' '' \<and> b = a"
    "captures (rx_lit ''=='') v a b \<longleftrightarrow> v = ''=='' \<and> b = a"
    "captures (rx_lit ''!='') v a b \<longleftrightarrow> v = ''!='' \<and> b = a"
    "captures (rx_lit ('' '' @ [dquote])) v a b \<longleftrightarrow> v = '' '' @ [dquote] \<and> b = a"
    "captures (rx_lit [dquote]) v a b \<longleftrightarrow> v = [dquote] \<and> b = a" for v a b
    by (rule captures_lit, simp)+
  have "unanchored ?r" by code_simp
  from captures_full [OF this assms [unfolded whenCmpRE_def]]
  obtain h op q l cs1 where s: "s = h @ '' '' @ op @ ('' '' @ [dquote]) @ l @ [dquote]"
      and h: "captures rx_when_head h [] cs1" and op: "op \<in> {''=='', ''!=''}"
      and l: "captures (Grp 4 (Star (Cls True [r_chr dquote, r_chr bslash]))) l ((3, op) # cs1) cs"
    unfolding rx_seq.simps captures_Cat captures_Grp captures_Alt lit by blast
  from l obtain cs2 where l2: "captures (Star (Cls True [r_chr dquote, r_chr bslash])) l ((3, op) # cs1) cs2"
      and cs: "cs = (4, l) # cs2" unfolding captures_Grp by blast
  from captures_literal [OF l2] captures_head [OF h] op show ?thesis
    by (auto simp: s cs when_parts_ok_def when_text_def group_def)
qed

lemma ParseWhen_shape:
  assumes "ParseWhen s = Inr (source, name, op, literal)"
  shows "when_parts_ok source name op literal \<and> s = when_text source name op literal"
proof (cases "submatch whenBareRE s")
  case (Some cs)
  with bare_shape [OF Some] assms show ?thesis by (auto simp: ParseWhen_def)
next
  case None
  with assms obtain cs where cs: "submatch whenCmpRE s = Some cs"
    by (auto simp: ParseWhen_def split: option.splits)
  with cmp_shape [OF cs] None assms show ?thesis by (auto simp: ParseWhen_def)
qed

section \<open>Reading a written condition\<close>

lemma name_no_space: "match_string paramNameRE n \<Longrightarrow> CHR '' '' \<notin> set n"
  using paramName_alnum is_alnum_not(2) by (fastforce simp: list_all_iff)

lemma when_head_cut:
  assumes "source \<in> {''params'', ''env''}"
  shows "go_cut (source @ ''.'' @ rest) ''.'' = Some (source, rest)"
  using assms go_cut_no_dot [of source "[]" rest] by auto

lemma when_text_inj:
  assumes "when_parts_ok s1 n1 o1 l1" "when_parts_ok s2 n2 o2 l2"
    and "when_text s1 n1 o1 l1 = when_text s2 n2 o2 l2"
  shows "s1 = s2 \<and> n1 = n2 \<and> o1 = o2 \<and> l1 = l2"
proof -
  define tl where "tl n op l = n @ (if op = [] then [] else '' '' @ op @ '' '' @ [dquote] @ l @ [dquote])"
    for n op l
  have tx: "when_text s n op l = s @ ''.'' @ tl n op l" for s n op l
    by (simp add: when_text_def tl_def)
  from assms(1,2) have "go_cut (when_text s1 n1 o1 l1) ''.'' = Some (s1, tl n1 o1 l1)"
    "go_cut (when_text s2 n2 o2 l2) ''.'' = Some (s2, tl n2 o2 l2)"
    unfolding tx when_parts_ok_def by (blast intro: when_head_cut)+
  with assms(3) have s: "s1 = s2" and tl: "tl n1 o1 l1 = tl n2 o2 l2" by simp_all
  have cut: "go_cut (tl n op l) '' '' = (if op = [] then None else Some (n, op @ '' '' @ [dquote] @ l @ [dquote]))"
    if "when_parts_ok s n op l" for s n op l
  proof -
    have ns: "CHR '' '' \<notin> set n" using that name_no_space by (simp add: when_parts_ok_def)
    then show ?thesis
      using go_cut_first [OF ns, of "[]" "op @ '' '' @ [dquote] @ l @ [dquote]"]
      by (auto simp: tl_def go_cut_single_None)
  qed
  show ?thesis
  proof (cases "o1 = []")
    case True
    with cut [OF assms(1)] cut [OF assms(2)] tl have "o2 = []" by (auto split: if_splits)
    with True s tl assms show ?thesis by (simp add: tl_def when_parts_ok_def)
  next
    case False
    with cut [OF assms(1)] cut [OF assms(2)] tl have "o2 \<noteq> []" "n1 = n2"
        "o1 @ '' '' @ [dquote] @ l1 @ [dquote] = o2 @ '' '' @ [dquote] @ l2 @ [dquote]"
      by (auto split: if_splits)
    moreover from False this assms have "length o1 = 2" "length o2 = 2"
      by (auto simp: when_parts_ok_def)
    ultimately show ?thesis using s by simp
  qed
qed

lemma reach_literal:
  assumes "literal_ok l"
  shows "reach (run (Star (Cls True [r_chr dquote, r_chr bslash])) (p, l @ dquote # rest, cs)) (dquote # rest)"
proof -
  let ?f = "run (Cls True [r_chr dquote, r_chr bslash])"
  have "literal_ok l \<Longrightarrow> length l \<le> n \<Longrightarrow> reach (star_run n ?f (p, l @ dquote # rest, cs)) (dquote # rest)" for n p l
  proof (induction n arbitrary: p l)
    case 0
    then show ?case by (simp add: reach_def)
  next
    case (Suc n)
    show ?case
    proof (cases l)
      case Nil
      have "reach [(p, dquote # rest, cs)] (dquote # rest)" by (simp add: reach_def)
      with Nil show ?thesis unfolding star_run.simps reach_append by simp
    next
      case (Cons c l')
      let ?s = "l' @ dquote # rest"
      obtain x w where dec: "decode_rune (c # ?s) = (x, w)" by force
      have w: "w \<le> length l"
      proof (rule ccontr)
        assume "\<not> w \<le> length l"
        then have "dquote \<in> set (c # take (w - 1) ?s)" "1 < w" by (auto simp: Cons take_Cons')
        with decode_wide_bytes [OF dec] have "0x80 \<le> code_of dquote" by blast
        then show False by simp
      qed
      have "x \<noteq> code_of dquote \<and> x \<noteq> code_of bslash"
      proof (rule ccontr)
        assume x: "\<not> (x \<noteq> code_of dquote \<and> x \<noteq> code_of bslash)"
        then have "x < 0x80" by auto
        from decode_small [OF dec this] x have "c = dquote \<or> c = bslash"
          by (metis of_char_eq_iff)
        with Suc.prems(1) Cons show False by (auto simp: literal_ok_def)
      qed
      then have "\<not> in_ranges [r_chr dquote, r_chr bslash] x"
        by (auto simp: in_ranges_def r_chr_def)
      then have f: "?f (p, l @ dquote # rest, cs) = [(Some x, drop w (c # ?s), cs)]"
        using dec by (simp add: Cons)
      have w1: "1 \<le> w" using decode_width_pos [OF dec] .
      have d: "drop w (c # ?s) = drop w l @ dquote # rest" using w by (simp add: Cons flip: append_Cons)
      have "literal_ok (drop w l)" using Suc.prems(1) by (auto simp: literal_ok_def dest: in_set_dropD)
      moreover have "length (drop w l) \<le> n" using Suc.prems(2) w1 by simp
      ultimately have "reach (star_run n ?f (Some x, drop w (c # ?s), cs)) (dquote # rest)"
        unfolding d by (rule Suc.IH)
      moreover have "shorter (p, l @ dquote # rest, cs) (Some x, drop w (c # ?s), cs)"
        using w1 by (simp add: shorter_def Cons)
      ultimately show ?thesis unfolding star_run.simps f by (simp add: reach_append)
    qed
  qed
  from this [OF assms, of "length (l @ dquote # rest)" p] show ?thesis by simp
qed

lemma plain_reach:
  assumes "plain r" "matches r u"
  shows "reach (run r (p, u @ t, cs)) t"
  using run_matches [OF assms(1)] assms(2) by blast

lemma matches_lit: "list_all (\<lambda>c. code_of c < 0x80) w \<Longrightarrow> matches (rx_lit w) w"
proof -
  assume "list_all (\<lambda>c. code_of c < 0x80) w"
  then have "matches (foldr (\<lambda>r acc. Cat (Cls False [(r, r)]) acc) (map code_of w) Eps) w"
  proof (induction w)
    case (Cons c w)
    then have "matches (Cls False [(code_of c, code_of c)]) [c]"
      by (intro matches.Cls) (auto simp: in_ranges_def)
    from matches.Cat [OF this] Cons show ?case by simp
  qed (simp add: matches.Eps)
  then show ?thesis using \<open>list_all _ w\<close> by (simp add: rx_lit_def runes_ascii)
qed

lemma head_plain: "plain rx_when_head" by code_simp

lemma head_matches:
  assumes "source \<in> {''params'', ''env''}" "match_string paramNameRE name"
  shows "matches rx_when_head (source @ ''.'' @ name)"
proof -
  have "plain (Cat c_alpha (Star c_alnum))" by simp
  with assms(2) have "matches (Cat c_alpha (Star c_alnum)) name"
    unfolding paramNameRE_def by (simp only: match_full)
  then have "matches (Grp 2 (Cat c_alpha (Star c_alnum))) name" by (rule matches.Grp)
  moreover have "matches (rx_lit ''.'') ''.''" by (rule matches_lit) simp
  moreover have "matches (Grp 1 (Alt (rx_lit ''params'') (rx_lit ''env''))) source"
    using assms(1) matches_lit [of "''params''"] matches_lit [of "''env''"]
    by (intro matches.Grp) (auto intro: matches.AltL matches.AltR)
  ultimately show ?thesis
    unfolding rx_when_head_def rx_seq.simps by (intro matches.Cat)
qed

lemma bare_found:
  assumes "source \<in> {''params'', ''env''}" "match_string paramNameRE name"
  shows "submatch whenBareRE (source @ ''.'' @ name) \<noteq> None"
proof -
  have "reach (run rx_when_head (None, source @ ''.'' @ name, [])) []"
    using plain_reach [OF head_plain head_matches [OF assms], where t = "[]"] by simp
  then have "run whenBareRE (None, source @ ''.'' @ name, []) \<noteq> []"
    unfolding whenBareRE_def run_full_nonempty .
  then show ?thesis by (auto simp: submatch_def split: list.splits)
qed

lemma cmp_found:
  assumes "source \<in> {''params'', ''env''}" "match_string paramNameRE name" "op \<in> {''=='', ''!=''}"
    and "literal_ok literal"
  shows "submatch whenCmpRE (source @ ''.'' @ name @ '' '' @ op @ '' '' @ [dquote] @ literal @ [dquote]) \<noteq> None"
proof -
  let ?rest = "'' '' @ op @ ('' '' @ [dquote]) @ literal @ [dquote]"
  let ?s = "(source @ ''.'' @ name) @ ?rest"
  have pl: "plain (rx_lit '' '')" "plain (rx_lit ('' '' @ [dquote]))" "plain (rx_lit [dquote])"
    "plain (Alt (rx_lit ''=='') (rx_lit ''!=''))" by code_simp+
  have m: "matches (rx_lit '' '') '' ''" "matches (rx_lit ('' '' @ [dquote])) ('' '' @ [dquote])"
    "matches (rx_lit [dquote]) [dquote]" by (rule matches_lit, simp)+
  have mo: "matches (Alt (rx_lit ''=='') (rx_lit ''!='')) op"
    using assms(3) matches_lit [of "''==''"] matches_lit [of "''!=''"] by auto
  have e: "reach (run (rx_lit [dquote]) (p, [dquote], cs)) []" for p cs
    using plain_reach [OF pl(3) m(3), where t = "[]"] by simp
  have "reach (run (rx_seq [rx_when_head, rx_lit '' '', Grp 3 (Alt (rx_lit ''=='') (rx_lit ''!='')),
      rx_lit ('' '' @ [dquote]), Grp 4 (Star (Cls True [r_chr dquote, r_chr bslash])), rx_lit [dquote]])
      (None, ?s, [])) []"
    unfolding rx_seq.simps
    by (rule reach_Cat [OF plain_reach [OF head_plain head_matches [OF assms(1,2)]]]
        reach_Cat [OF plain_reach [OF pl(1) m(1)]]
        reach_Cat [OF reach_Grp [THEN iffD2, OF plain_reach [OF pl(4) mo]]]
        reach_Cat [OF plain_reach [OF pl(2) m(2)]]
        reach_Cat [OF reach_Grp [THEN iffD2, OF reach_literal [OF assms(4)]]] e)+
  then have "run whenCmpRE (None, ?s, []) \<noteq> []"
    unfolding whenCmpRE_def run_full_nonempty .
  then show ?thesis by (auto simp: submatch_def split: list.splits)
qed

lemma ParseWhen_text:
  assumes "when_parts_ok source name op literal"
  shows "ParseWhen (when_text source name op literal) = Inr (source, name, op, literal)"
proof -
  have "\<exists>q. ParseWhen (when_text source name op literal) = Inr q"
  proof (cases "op = []")
    case True
    with assms bare_found [of source name] show ?thesis
      by (auto simp: ParseWhen_def when_text_def when_parts_ok_def split: option.splits)
  next
    case False
    then have "submatch whenCmpRE (when_text source name op literal) \<noteq> None"
      using cmp_found [of source name op literal] assms
      by (simp only: when_text_def when_parts_ok_def if_False) blast
    then show ?thesis by (auto simp: ParseWhen_def split: option.splits)
  qed
  then obtain s n o1 l where q: "ParseWhen (when_text source name op literal) = Inr (s, n, o1, l)"
    by (metis prod.exhaust)
  from ParseWhen_shape [OF q] when_text_inj [OF assms] q show ?thesis by metis
qed

section \<open>Properties\<close>

text \<open>C24: \<open>ParseWhen\<close> accepts exactly the written conditions \<open>params.name\<close>, \<open>env.key\<close> and
  their comparisons with a quote-free literal, and returns precisely the parts they were
  written from.\<close>

theorem ParseWhen_decides:
  "ParseWhen s = Inr (source, name, op, literal) \<longleftrightarrow>
     when_parts_ok source name op literal \<and> s = when_text source name op literal"
  using ParseWhen_shape ParseWhen_text by blast

end
