(* ===== verification/Edit_Refs.thy ===== *)
theory Edit_Refs
  imports Edit_Props When
begin

text \<open>
  What renaming does to references. \<open>retarget\<close> is the rename on parsed references; the
  string rewriting of \<open>RenameResource\<close> refines it, and the rewriting of \<open>RenameParameter\<close>
  keeps the declaration every wire resolves to.
\<close>

section \<open>Renaming a resource\<close>

definition retarget :: "string \<Rightarrow> string \<Rightarrow> from_ref \<Rightarrow> from_ref" where
  "retarget f t ref = (if fr_resource ref = f then ref\<lparr>fr_resource := t\<rparr> else ref)"

lemma status_not_in_meta: "\<not> contains ''.metadata.name'' ''.status.''"
  by code_simp

lemma meta_suffix_status:
  "suffix ''.metadata.name'' (n @ ''.status.'' @ path) \<longleftrightarrow> suffix ''.metadata.name'' (''.status.'' @ path)"
proof
  assume "suffix ''.metadata.name'' (n @ ''.status.'' @ path)"
  then consider u where "''.metadata.name'' = u @ ''.status.'' @ path" | "suffix ''.metadata.name'' (''.status.'' @ path)"
    unfolding suffix_append by blast
  then show "suffix ''.metadata.name'' (''.status.'' @ path)"
  proof cases
    case 1
    with status_not_in_meta show ?thesis unfolding contains_iff by blast
  qed
qed (simp only: suffix_appendI)

lemma status_wire_head:
  assumes "dns_label n" "dns_label f"
  shows "n @ ''.status.'' @ path = f @ ''.status.'' @ rest \<longleftrightarrow> n = f \<and> path = rest"
proof
  assume eq: "n @ ''.status.'' @ path = f @ ''.status.'' @ rest"
  have "go_cut (n @ ''.status.'' @ path) ''.status.'' = Some (n, path)"
    "go_cut (f @ ''.status.'' @ rest) ''.status.'' = Some (f, rest)"
    using go_cut_no_dot [OF dns_label_no_dot [OF assms(1)], of "''status.''" path]
      go_cut_no_dot [OF dns_label_no_dot [OF assms(2)], of "''status.''" rest] by simp_all
  with eq show "n = f \<and> path = rest" by simp
qed simp

lemma meta_wire_head:
  assumes "dns_label n" "dns_label f"
  shows "n @ ''.metadata.name'' \<noteq> f @ ''.status.'' @ rest"
proof
  assume "n @ ''.metadata.name'' = f @ ''.status.'' @ rest"
  moreover have "go_cut (n @ ''.metadata.name'') ''.'' = Some (n, ''metadata.name'')"
    "go_cut (f @ ''.status.'' @ rest) ''.'' = Some (f, ''status.'' @ rest)"
    using go_cut_no_dot [OF dns_label_no_dot [OF assms(1)], of "[]" "''metadata.name''"]
      go_cut_no_dot [OF dns_label_no_dot [OF assms(2)], of "[]" "''status.'' @ rest"] by simp_all
  ultimately show False by simp
qed

lemma rename_wire_status:
  assumes "dns_label n" "dns_label f"
  shows "rename_wire f t (''resources.'' @ n @ ''.status.'' @ path) =
    ''resources.'' @ (if n = f then t else n) @ ''.status.'' @ path"
proof (cases "n = f")
  case True
  have "cut_prefix (''resources.'' @ n @ ''.status.'' @ path) (''resources.'' @ f @ ''.status.'') = Some path"
    unfolding cut_prefix_Some True by simp
  then show ?thesis unfolding rename_wire_def using True by simp
next
  case False
  have "cut_prefix (''resources.'' @ n @ ''.status.'' @ path) (''resources.'' @ f @ ''.status.'') = None"
  proof (rule ccontr)
    assume "cut_prefix (''resources.'' @ n @ ''.status.'' @ path) (''resources.'' @ f @ ''.status.'') \<noteq> None"
    then obtain rest where "''resources.'' @ n @ ''.status.'' @ path = (''resources.'' @ f @ ''.status.'') @ rest"
      unfolding not_None_eq cut_prefix_Some by blast
    then have "n @ ''.status.'' @ path = f @ ''.status.'' @ rest"
      by (simp only: append_assoc same_append_eq)
    with status_wire_head [OF assms] False show False by blast
  qed
  moreover have "n @ ''.status.'' @ path \<noteq> f @ ''.metadata.name''"
    using meta_wire_head [OF assms(2,1)] by metis
  ultimately show ?thesis
    unfolding rename_wire_def using False by (simp only: option.case same_append_eq if_False)
qed

lemma rename_wire_meta:
  assumes "dns_label n" "dns_label f"
  shows "rename_wire f t (''resources.'' @ n @ ''.metadata.name'') =
    ''resources.'' @ (if n = f then t else n) @ ''.metadata.name''"
proof -
  have "cut_prefix (''resources.'' @ n @ ''.metadata.name'') (''resources.'' @ f @ ''.status.'') = None"
  proof (rule ccontr)
    assume "cut_prefix (''resources.'' @ n @ ''.metadata.name'') (''resources.'' @ f @ ''.status.'') \<noteq> None"
    then obtain rest where "''resources.'' @ n @ ''.metadata.name'' = (''resources.'' @ f @ ''.status.'') @ rest"
      unfolding not_None_eq cut_prefix_Some by blast
    then have "n @ ''.metadata.name'' = f @ ''.status.'' @ rest"
      by (simp only: append_assoc same_append_eq)
    with meta_wire_head [OF assms] show False by blast
  qed
  then show ?thesis
    unfolding rename_wire_def by (simp only: option.case same_append_eq append_same_eq split: if_split) blast
qed

lemma parse_status_again:
  assumes "ParseFrom (''resources.'' @ n @ ''.status.'' @ path) =
      Inr (no_ref\<lparr>fr_resource := n, fr_statusPath := ss\<rparr>)" "dns_label n" "dns_label t"
  shows "ParseFrom (''resources.'' @ t @ ''.status.'' @ path) =
    Inr (no_ref\<lparr>fr_resource := t, fr_statusPath := ss\<rparr>)"
proof -
  have cut: "go_cut (m @ ''.status.'' @ path) ''.status.'' = Some (m, path)" if "dns_label m" for m
    using go_cut_no_dot [OF dns_label_no_dot [OF that], of "''status.''" path] by simp
  have "cut_suffix (n @ ''.status.'' @ path) ''.metadata.name'' = None"
  proof (rule ccontr)
    assume "cut_suffix (n @ ''.status.'' @ path) ''.metadata.name'' \<noteq> None"
    with assms(1) show False
      unfolding ParseFrom_resources parse_resource_ref_def no_ref_def by (auto split: if_splits)
  qed
  then have suf: "cut_suffix (m @ ''.status.'' @ path) ''.metadata.name'' = None" for m
    unfolding cut_suffix_None meta_suffix_status .
  show ?thesis
    using assms(1) unfolding ParseFrom_resources parse_resource_ref_def suf cut [OF assms(2)] cut [OF assms(3)]
    using assms(2,3) by (auto simp: resourceName_shape Let_def check_all_None refuse_None no_ref_def
        split: if_splits option.splits)
qed

text \<open>The string rewriting commutes with parsing.\<close>

lemma rename_wire_parse:
  assumes "ParseFrom s = Inr ref" "dns_label f" "dns_label t"
  shows "ParseFrom (rename_wire f t s) = Inr (retarget f t ref)"
proof (cases "fr_resource ref = []")
  case True
  have "rename_wire f t s = s"
  proof -
    have "\<not> prefix ''resources.'' s"
    proof
      assume "prefix ''resources.'' s"
      then obtain rest where s: "s = ''resources.'' @ rest" by (rule prefixE)
      with assms(1) have "parse_resource_ref s rest = Inr ref" by (simp only: ParseFrom_resources)
      then show False using True by (cases rule: parse_resource_ref_cases) (auto dest: dns_label_ne)
    qed
    then have "cut_prefix s (''resources.'' @ f @ ''.status.'') = None"
      "s \<noteq> ''resources.'' @ f @ ''.metadata.name''"
      unfolding cut_prefix_None using append_prefixD prefixI by blast+
    then show ?thesis by (simp only: rename_wire_def option.case if_False)
  qed
  with assms True dns_label_ne [OF assms(2)] show ?thesis by (simp add: retarget_def)
next
  case False
  from assms(1) False show ?thesis
  proof (cases rule: ParseFrom_resource_cases)
    case (Meta n)
    have "parse_resource_ref (''resources.'' @ m @ ''.metadata.name'') (m @ ''.metadata.name'') =
        Inr (no_ref\<lparr>fr_resource := m, fr_metadataPath := ''name''\<rparr>)" if "dns_label m" for m
    proof -
      have "cut_suffix (m @ ''.metadata.name'') ''.metadata.name'' = Some m"
        by (simp only: cut_suffix_Some)
      with that show ?thesis by (simp only: parse_resource_ref_def option.case resourceName_shape simp_thms if_False)
    qed
    then have "ParseFrom (''resources.'' @ m @ ''.metadata.name'') =
        Inr (no_ref\<lparr>fr_resource := m, fr_metadataPath := ''name''\<rparr>)" if "dns_label m" for m
      using that by (simp only: ParseFrom_resources)
    with Meta assms(3) show ?thesis
      by (simp only: Meta(1) rename_wire_meta [OF Meta(2) assms(2)])
        (simp add: retarget_def no_ref_def)
  next
    case (Status n path)
    have p: "ParseFrom (''resources.'' @ n @ ''.status.'' @ path) =
        Inr (no_ref\<lparr>fr_resource := n, fr_statusPath := split_on CHR ''.'' path\<rparr>)"
      using assms(1) unfolding Status(1,4) .
    from parse_status_again [OF p Status(2) assms(3)] p show ?thesis
      unfolding Status(1) rename_wire_status [OF Status(2) assms(2)] Status(4)
      by (simp add: retarget_def no_ref_def)
  qed
qed

section \<open>What a committed rename leaves\<close>

lemma good_wf: "good pt ym b \<Longrightarrow> blueprint_wf pt ym b"
  using Validate_wf [of b pt ym] by (auto simp: good_def)

lemma good_resource: "good pt ym b \<Longrightarrow> r \<in> set (b_resources b) \<Longrightarrow> resource_ok b r"
  using good_wf wf_resource by blast

lemma good_distinct: "good pt ym b \<Longrightarrow> distinct (map r_name (b_resources b))"
  using good_wf by (simp add: blueprint_wf_def resources_ok_def)

lemma good_label: "good pt ym b \<Longrightarrow> r \<in> set (b_resources b) \<Longrightarrow> dns_label (r_name r)"
  using good_resource by (auto simp: resource_ok_def config_name_ok_def resourceName_shape)

lemma renamed_nth:
  assumes "good pt ym b" "resourceIndex b f = Some idx" "i < length (b_resources b)"
  shows "b_resources (renamed_resource idx f t b) ! i =
    rename_in_resource f t
      (if r_name (b_resources b ! i) = f then (b_resources b ! i)\<lparr>r_name := t\<rparr> else b_resources b ! i)"
proof -
  have idx: "idx < length (b_resources b)" "r_name (b_resources b ! idx) = f"
    using resourceIndex_Some [OF assms(2)] by auto
  have "r_name (b_resources b ! i) = f \<longleftrightarrow> i = idx"
    using good_distinct [OF assms(1)] idx assms(3) by (metis length_map nth_eq_iff_index_eq nth_map)
  with idx assms(3) show ?thesis by (auto simp: renamed_resource_def)
qed

lemma rename_labels:
  assumes "good pt ym b" "RenameResource pt ym f t b = (None, b')" "f \<noteq> t"
  shows "dns_label f" "dns_label t" "good pt ym b'" "\<exists>idx. resourceIndex b f = Some idx \<and> b' = renamed_resource idx f t b"
proof -
  from assms obtain idx where idx: "resourceIndex b f = Some idx" "b' = renamed_resource idx f t b"
      "Validate pt ym b' = None"
    by (auto simp: RenameResource_None)
  from resourceIndex_Some [OF idx(1)] have i: "idx < length (b_resources b)" "r_name (b_resources b ! idx) = f"
    by auto
  with good_label [OF assms(1)] show "dns_label f" by (metis nth_mem)
  show g: "good pt ym b'"
    using maps_ok_renamed(1) [of b idx f t] assms(1) idx i by (simp add: good_def)
  have "length (b_resources b') = length (b_resources b)" by (simp add: idx(2) renamed_resource_def)
  with i have "b_resources b' ! idx \<in> set (b_resources b')" by simp
  moreover have "r_name (b_resources b' ! idx) = t"
    using renamed_nth [OF assms(1) idx(1) i(1), of t] idx(2) i(2) by (simp add: rename_in_resource_def)
  ultimately show "dns_label t" using good_label [OF g] by metis
  show "\<exists>idx. resourceIndex b f = Some idx \<and> b' = renamed_resource idx f t b" using idx by blast
qed

lemma f_from_rename_entry [simp]: "f_from (rename_resource_entry f t fld) = rename_wire f t (f_from fld)"
  by (simp add: rename_resource_entry_def Let_def)

lemma f_from_param_entry [simp]:
  "f_from (rename_param_entry f t fld) = fst (renameParamRef (f_from fld) (''params.'' @ f) (''params.'' @ t))"
  by (simp add: rename_param_entry_def Let_def)

section \<open>Renaming a parameter\<close>

lemma good_param: "good pt ym b \<Longrightarrow> map_of (b_params b) n = Some p \<Longrightarrow> match_string paramNameRE n"
  using good_wf by (auto simp: blueprint_wf_def schema_ok_def parameter_ok_def field_name_ok_def)

lemma lookup_path_head:
  assumes "map_of m s = map_of m' s'"
  shows "lookup_path m (s # path) = lookup_path m' (s' # path)"
  using assms by (cases path) auto

lemma rename_param_labels:
  assumes "good pt ym b" "RenameParameter pt ym ip f t b = (None, b')" "f \<noteq> t"
  shows "\<exists>p. map_of (b_params b) f = Some p \<and> b' = renamed_param ip p f t b"
    and "map_of (b_params b) t = None" "good pt ym b'" "CHR ''.'' \<notin> set f" "CHR ''.'' \<notin> set t"
    and "match_string paramNameRE t"
proof -
  from assms obtain p where p: "map_of (b_params b) f = Some p" "b' = renamed_param ip p f t b"
      "Validate pt ym b' = None" "map_of (b_params b) t = None"
    by (auto simp: RenameParameter_None)
  then show "\<exists>p. map_of (b_params b) f = Some p \<and> b' = renamed_param ip p f t b" "map_of (b_params b) t = None"
    by blast+
  show g: "good pt ym b'" using maps_ok_renamed(2) [of b ip p f t] assms(1) p by (simp add: good_def)
  show "CHR ''.'' \<notin> set f" using paramName_no_dot [OF good_param [OF assms(1) p(1)]] .
  have "map_of (b_params b') t = Some p" by (simp add: p(2) renamed_param_def update_conv')
  from good_param [OF g this] show "match_string paramNameRE t" .
  then show "CHR ''.'' \<notin> set t" by (rule paramName_no_dot)
qed

lemma renamed_params:
  "map_of (b_params (renamed_param ip p f t b)) n =
     (if n = t then Some p else if n = f then None else map_of (b_params b) n)"
  by (simp add: renamed_param_def update_conv' delete_conv')

definition rename_head :: "string \<Rightarrow> string \<Rightarrow> string list \<Rightarrow> string list" where
  \<comment> \<open>the rename on a reference cut into segments\<close>
  "rename_head f t ss = (if hd ss = f then t # tl ss else ss)"

lemma renameParamRef_segs:
  assumes "CHR ''.'' \<notin> set f" "CHR ''.'' \<notin> set t"
  shows "\<exists>ref'. fst (renameParamRef (''params.'' @ ref) (''params.'' @ f) (''params.'' @ t)) = ''params.'' @ ref' \<and>
    split_on CHR ''.'' ref' = rename_head f t (split_on CHR ''.'' ref)"
proof (cases "ref = f")
  case True
  have "split_on CHR ''.'' f = [f]" "split_on CHR ''.'' t = [t]"
    using assms by (simp_all add: split_on_single)
  with True show ?thesis by (intro exI [of _ t]) (simp add: renameParamRef_def rename_head_def)
next
  case ne: False
  show ?thesis
  proof (cases "cut_prefix (''params.'' @ ref) ((''params.'' @ f) @ ''.'')")
    case (Some rest)
    then have "''params.'' @ ref = ((''params.'' @ f) @ ''.'') @ rest" by (simp only: cut_prefix_Some)
    then have ref: "ref = f @ CHR ''.'' # rest" by simp
    have "fst (renameParamRef (''params.'' @ ref) (''params.'' @ f) (''params.'' @ t)) =
        ''params.'' @ t @ CHR ''.'' # rest"
      using ne Some by (simp add: renameParamRef_def)
    moreover have "split_on CHR ''.'' (t @ CHR ''.'' # rest) = rename_head f t (split_on CHR ''.'' ref)"
      unfolding ref using split_on_append [OF assms(1), of rest] split_on_append [OF assms(2), of rest]
      by (simp add: rename_head_def)
    ultimately show ?thesis by blast
  next
    case None
    have "hd (split_on CHR ''.'' ref) \<noteq> f"
    proof
      assume hd: "hd (split_on CHR ''.'' ref) = f"
      obtain w ws where w: "split_on CHR ''.'' ref = w # ws" by (cases "split_on CHR ''.'' ref") auto
      have ref: "go_join ''.'' (w # ws) = ref" using go_join_split_on [of "CHR ''.''" ref] w by simp
      with hd w ne obtain v vs where "ws = v # vs" by (cases ws) auto
      with ref hd w have "ref = f @ ''.'' @ go_join ''.'' (v # vs)" by simp
      then have "''params.'' @ ref = ((''params.'' @ f) @ ''.'') @ go_join ''.'' (v # vs)" by simp
      with None show False by (metis cut_prefix_append option.distinct(1))
    qed
    with None ne show ?thesis by (intro exI [of _ ref]) (simp add: renameParamRef_def rename_head_def)
  qed
qed

lemma rename_keeps_declaration:
  assumes "good pt ym b" "RenameParameter pt ym ip f t b = (None, b')" "f \<noteq> t"
    and "param_decl b ref = Some decl"
  shows "\<exists>ref'. fst (renameParamRef (''params.'' @ ref) (''params.'' @ f) (''params.'' @ t)) = ''params.'' @ ref' \<and>
    param_decl b' ref' = Some decl"
proof -
  obtain p where p: "map_of (b_params b) f = Some p" "b' = renamed_param ip p f t b"
    using rename_param_labels(1) [OF assms(1-3)] by blast
  note t = rename_param_labels(2) [OF assms(1-3)]
  obtain ref' where ref': "fst (renameParamRef (''params.'' @ ref) (''params.'' @ f) (''params.'' @ t)) = ''params.'' @ ref'"
      "split_on CHR ''.'' ref' = rename_head f t (split_on CHR ''.'' ref)"
    using renameParamRef_segs [OF rename_param_labels(4,5) [OF assms(1-3)]] by blast
  obtain seg path where sp: "split_on CHR ''.'' ref = seg # path" by (cases "split_on CHR ''.'' ref") auto
  from assms(4) sp have found: "lookup_path (b_params b) (seg # path) = Some decl" by (simp add: param_decl_def)
  then have "map_of (b_params b) seg \<noteq> None" by (cases path) (auto split: option.splits)
  with t have "seg \<noteq> t" by auto
  have "lookup_path (b_params b') (rename_head f t (seg # path)) = lookup_path (b_params b) (seg # path)"
    using \<open>seg \<noteq> t\<close> p(1) unfolding rename_head_def list.sel p(2)
    by (auto simp: renamed_params intro!: lookup_path_head)
  with found ref' sp show ?thesis by (auto simp: param_decl_def)
qed

lemma bslash_not_alnum: "\<not> is_alnum bslash"
  by code_simp

lemma when_text_bslash: "when_parts_ok source name op literal \<Longrightarrow> bslash \<notin> set (when_text source name op literal)"
  using paramName_alnum [of name] by (auto simp: when_parts_ok_def when_text_def literal_ok_def list_all_iff bslash_not_alnum)

lemma rename_condition_ne: "ParseWhen w = Inr q \<Longrightarrow> w \<noteq> [] \<and> rename_condition ip f t w \<noteq> []"
  using ParseWhen_shape [of w] by (cases q) (auto simp: when_text_def rename_condition_def Let_def split: sum.split)

lemma rename_condition_parse:
  assumes "ParseWhen w = Inr (''params'', f, op, literal)" "f \<noteq> []" "match_string paramNameRE t"
    and "ParseWhen (rename_condition ip f t w) = Inr q"
  shows "ParseWhen (rename_condition ip f t w) = Inr (''params'', t, op, literal)"
proof -
  have parts: "when_parts_ok ''params'' f op literal" "w = when_text ''params'' f op literal"
    using ParseWhen_shape [OF assms(1)] by blast+
  have "w \<noteq> []" by (simp add: parts(2) when_text_def)
  with assms(1) have "whenParam w = f" by (simp add: whenParam_def)
  with assms(1) have new: "rename_condition ip f t w =
      (if op = [] then ''params.'' @ t else ''params.'' @ t @ '' '' @ op @ '' '' @ go_quote ip literal)"
    by (simp add: rename_condition_def)
  obtain s' n' o' l' where "q = (s', n', o', l')" by (cases q)
  with assms(4) have "bslash \<notin> set (rename_condition ip f t w)"
    using ParseWhen_shape when_text_bslash by metis
  then have "op = [] \<or> go_quote ip literal = [dquote] @ literal @ [dquote]"
    using go_quote_cases [of ip literal] unfolding new by (auto split: if_splits)
  with new have "rename_condition ip f t w = when_text ''params'' t op literal"
    by (auto simp: when_text_def)
  moreover have "when_parts_ok ''params'' t op literal" using parts(1) assms(3) by (simp add: when_parts_ok_def)
  ultimately show ?thesis by (simp only: ParseWhen_text)
qed

end
