(* ===== verification/Sample.thy ===== *)
theory Sample
  imports Validate
begin

text \<open>
  A small document for the witnesses: an XRD with a provider name, a loop count and a typed
  object, a status field, an environment key, and three resources wired to each other. The
  parsers of external code are instantiated by functions that accept the one input given to
  them.
\<close>

definition scalar_param :: "string \<Rightarrow> bool \<Rightarrow> parameter" where
  "scalar_param t req = Parameter t req [] [] [] [] []"

definition no_field :: field where
  "no_field = \<lparr>f_from = [], f_value = [], f_raw = [], f_template = []\<rparr>"

definition bare_resource :: "string \<Rightarrow> string \<Rightarrow> resource" where
  "bare_resource n k = \<lparr>r_name = n, r_kind = k, r_provider = [], r_forEach = [], r_when = [],
     r_fields = [], r_envelope = [], r_annotations = []\<rparr>"

definition sample_queue :: resource where
  "sample_queue = (bare_resource ''main-queue'' ''Queue'')
     \<lparr>r_provider := ''ghcr.io/org/aws:v1'',
      r_fields := [(''region'', no_field\<lparr>f_from := ''params.region''\<rparr>),
                   (''maxSize'', no_field\<lparr>f_from := ''params.tuning.size''\<rparr>)],
      r_envelope := [(''providerConfigRef.name'', no_field\<lparr>f_from := ''params.providerName''\<rparr>)]\<rparr>"

definition sample_policy :: resource where
  "sample_policy = (bare_resource ''queue-policy'' ''QueuePolicy'')
     \<lparr>r_provider := ''ghcr.io/org/aws:v1'', r_forEach := ''params.count'',
      r_fields := [(''queueUrl'', no_field\<lparr>f_from := ''resources.main-queue.status.atProvider.url''\<rparr>),
                   (''zone'', no_field\<lparr>f_from := ''env.zone''\<rparr>)]\<rparr>"

definition sample_alarm :: resource where
  "sample_alarm = (bare_resource ''alarm'' ''ConfigMap'')
     \<lparr>r_provider := ''k8s'', r_when := ''params.alarms'',
      r_fields := [(''data.queue'', no_field\<lparr>f_from := ''resources.main-queue.metadata.name''\<rparr>)],
      r_annotations := [(''example.org/zone'', no_field\<lparr>f_from := ''env.zone''\<rparr>)]\<rparr>"

definition sample_xrd :: xrd where
  "sample_xrd = \<lparr>x_group = ''platform.example.org'', x_kind = ''XQueue'', x_plural = ''xqueues'',
     x_version = ''v1'', x_scope = ''Namespaced'',
     x_parameters =
       [(''region'', scalar_param ''string'' True), (''providerName'', scalar_param ''string'' True),
        (''count'', scalar_param ''integer'' True), (''alarms'', scalar_param ''boolean'' True),
        (''tuning'', Parameter ''object'' False [] [] [] [(''size'', scalar_param ''integer'' False)] [])],
     x_status = [(''url'', Parameter ''string'' False [] [] [] [] ''resources.main-queue.status.atProvider.url'')]\<rparr>"

definition sample :: blueprint where
  "sample = \<lparr>b_apiVersion = ''factory.crossplane.io/v1alpha1'', b_kind = ''Blueprint'',
     b_metaName = ''queues'',
     b_spec = \<lparr>sp_sources = [\<lparr>s_provider = ''ghcr.io/org/aws:v1'', s_crds = []\<rparr>],
       sp_xrd = sample_xrd,
       sp_environment = [(''zone'', \<lparr>k_type = ''string'', k_required = False, k_description = [], k_default = []\<rparr>)],
       sp_environmentConfigs = [],
       sp_templates = [(''cf.tags'', ''team: a'')],
       sp_conventions = [\<lparr>cv_match = ''tags'', cv_template = ''cf.tags''\<rparr>],
       sp_resources = [sample_queue, sample_policy, sample_alarm],
       sp_pipeline = [\<lparr>st_name = ''auto-ready'', st_functionRef = ''function-auto-ready'',
         st_package = ''ghcr.io/org/auto-ready:v1'', st_input = [], st_position = []\<rparr>],
       sp_emit = None\<rparr>\<rparr>"

definition sample_tpl :: tpl_parse where
  "sample_tpl s = Inr ([''cf-validate'', ''cf.tags''], Some [])"

definition sample_yaml :: yaml_map where
  "sample_yaml s = Inr [(''apiVersion'', YStr ''v1''), (''kind'', YStr ''Input'')]"

lemma sample_root: "validateRoot sample = None" by code_simp
lemma sample_sources: "validateSources (sp_sources (b_spec sample)) = None" by code_simp
lemma sample_schema: "validateXRD (b_xrd sample) = None" by code_simp
lemma sample_env: "validateEnvironment sample = None" by code_simp
lemma sample_configs: "validateEnvironmentConfigs sample = None" by code_simp
lemma sample_params: "validateParameters sample = None" by code_simp
lemma sample_status: "validateStatus sample = None" by code_simp
lemma sample_templates: "validateTemplates sample_tpl sample = None" by code_simp
lemma sample_resources: "validateResources sample = None" by code_simp
lemma sample_pipeline: "validatePipeline sample_yaml sample = None" by code_simp

lemma sample_valid: "Validate sample_tpl sample_yaml sample = None"
  by (simp add: Validate_def sample_root sample_sources sample_schema sample_env sample_configs
      sample_params sample_status sample_templates sample_resources sample_pipeline)

lemma sample_maps: "maps_ok sample"
  by code_simp

definition sample_plain :: blueprint where
  \<comment> \<open>the document without its composite status\<close>
  "sample_plain = sample\<lparr>b_spec := (b_spec sample)\<lparr>sp_xrd := sample_xrd\<lparr>x_status := []\<rparr>\<rparr>\<rparr>"

lemma plain_fields: "b_params sample_plain = b_params sample" "b_resources sample_plain = b_resources sample"
  by (simp_all add: sample_plain_def sample_def)

lemma plain_maps: "maps_ok sample_plain"
  using sample_maps by (simp add: maps_ok_def sample_plain_def)

end
