(* ===== verification/Edit_Claims.thy ===== *)
theory Edit_Claims
  imports Edit_Refs Sample
begin

text \<open>
  The properties of the atomic edits of \<open>internal/blueprint/edit.go\<close>: sessions of edits keep
  the document valid and refused ones leave no trace, renaming keeps what every reference
  means, and a deletion leaves no reference behind.
\<close>

lemma sample_good: "good sample_tpl sample_yaml sample"
  using sample_maps sample_valid by (simp add: good_def)

section \<open>Sessions\<close>

text \<open>C4: A session of edits, whatever their order and however many are refused, keeps the
  document valid: no operation ever writes back a document \<open>Validate\<close> rejects.\<close>

theorem edit_session_valid:
  assumes "maps_ok b" "Validate parse_tpl yaml_map b = None" "\<forall>e \<in> set es. edit_maps_ok e"
  shows "Validate parse_tpl yaml_map (session (apply_edit parse_tpl yaml_map ip) es b) = None \<and>
    maps_ok (session (apply_edit parse_tpl yaml_map ip) es b)"
  using edits.session_valid [of parse_tpl yaml_map b es ip] assms by (simp add: good_def)

theorem edit_session_valid_witness:
  "Validate sample_tpl sample_yaml (session (apply_edit sample_tpl sample_yaml (\<lambda>_. True))
     [RenamePar ''tuning'' ''limits'', DeleteRes ''main-queue'', DeletePar ''absent''] sample) = None"
  using edit_session_valid [OF sample_maps sample_valid,
      of "[RenamePar ''tuning'' ''limits'', DeleteRes ''main-queue'', DeletePar ''absent'']"]
  by (simp add: edit_maps_ok_def)


section \<open>Renaming\<close>

text \<open>C5: After a committed \<open>RenameResource\<close> every resource keeps its place, the renamed one
  has the new name, and each field wired to it, and no other, is retargeted: parsing the new
  reference gives the old parse with the new name.\<close>

theorem RenameResource_retargets:
  assumes "good parse_tpl yaml_map b" "RenameResource parse_tpl yaml_map f t b = (None, b')" "f \<noteq> t"
    and "i < length (b_resources b)" "map_of (r_fields (b_resources b ! i)) p = Some fld"
    and "ParseFrom (f_from fld) = Inr ref"
  shows "r_name (b_resources b' ! i) = (if r_name (b_resources b ! i) = f then t else r_name (b_resources b ! i)) \<and>
    (\<exists>fld'. map_of (r_fields (b_resources b' ! i)) p = Some fld' \<and> ParseFrom (f_from fld') = Inr (retarget f t ref))"
proof -
  obtain idx where idx: "resourceIndex b f = Some idx" "b' = renamed_resource idx f t b"
    using rename_labels(4) [OF assms(1-3)] by blast
  have "ParseFrom (rename_wire f t (f_from fld)) = Inr (retarget f t ref)"
    using rename_wire_parse [OF assms(6)] rename_labels(1,2) [OF assms(1-3)] by blast
  then show ?thesis
    using renamed_nth [OF assms(1) idx(1) assms(4), of t] assms(5)
    by (simp add: idx(2) rename_in_resource_def)
qed


lemma plain_valid: "Validate sample_tpl sample_yaml sample_plain = None" by code_simp

lemma plain_good: "good sample_tpl sample_yaml sample_plain"
  using plain_maps plain_valid by (simp add: good_def)

definition plain_renamed :: blueprint where
  "plain_renamed = renamed_resource 0 ''main-queue'' ''jobs'' sample_plain"

lemma plain_renamed_valid: "Validate sample_tpl sample_yaml plain_renamed = None" by code_simp

lemma plain_rename: "RenameResource sample_tpl sample_yaml ''main-queue'' ''jobs'' sample_plain = (None, plain_renamed)"
proof -
  have "resourceIndex sample_plain ''main-queue'' = Some 0" "resourceIndex sample_plain ''jobs'' = None"
    by (simp_all add: resourceIndex_def plain_fields sample_def sample_queue_def sample_policy_def sample_alarm_def bare_resource_def)
  with plain_renamed_valid show ?thesis by (simp add: RenameResource_None plain_renamed_def)
qed

theorem RenameResource_retargets_witness:
  "r_name (b_resources plain_renamed ! 1) = ''queue-policy'' \<and>
   (\<exists>fld. map_of (r_fields (b_resources plain_renamed ! 1)) ''queueUrl'' = Some fld \<and>
     ParseFrom (f_from fld) = Inr (no_ref\<lparr>fr_resource := ''jobs'', fr_statusPath := [''atProvider'', ''url'']\<rparr>))"
proof -
  have p: "ParseFrom ''resources.main-queue.status.atProvider.url'' =
      Inr (no_ref\<lparr>fr_resource := ''main-queue'', fr_statusPath := [''atProvider'', ''url'']\<rparr>)"
    by code_simp
  have r: "b_resources sample_plain ! 1 = sample_policy" "1 < length (b_resources sample_plain)"
    by (simp_all add: plain_fields sample_def)
  show ?thesis
    using RenameResource_retargets [OF plain_good plain_rename _ r(2), where p = "''queueUrl''"
        and fld = "no_field\<lparr>f_from := ''resources.main-queue.status.atProvider.url''\<rparr>"] p r(1)
    by (simp add: sample_policy_def bare_resource_def retarget_def no_ref_def)
qed


definition sample_limits :: blueprint where
  "sample_limits = renamed_param (\<lambda>_. True)
     (Parameter ''object'' False [] [] [] [(''size'', scalar_param ''integer'' False)] [])
     ''tuning'' ''limits'' sample"

lemma sample_limits_valid: "Validate sample_tpl sample_yaml sample_limits = None" by code_simp

lemma sample_limits: "RenameParameter sample_tpl sample_yaml (\<lambda>_. True) ''tuning'' ''limits'' sample = (None, sample_limits)"
  using sample_limits_valid
  by (simp add: RenameParameter_None sample_limits_def) (simp add: sample_def sample_xrd_def)


text \<open>C25: A resource whose status the composite's own status is wired to cannot be renamed: the
  wires of \<open>spec.xrd.status\<close>, at any depth, are not rewritten, so the renamed document never
  validates and the operation always reports an error.\<close>

theorem RenameResource_status_refused:
  assumes "good parse_tpl yaml_map b" "f \<noteq> t"
    and "map_of (x_status (b_xrd b)) n = Some p" "member_of q p"
    and "StatusRef (p_from q) = Some (f, path)" "p_from q \<noteq> []"
  shows "fst (RenameResource parse_tpl yaml_map f t b) \<noteq> None"
proof
  assume "fst (RenameResource parse_tpl yaml_map f t b) = None"
  then obtain b' where b': "RenameResource parse_tpl yaml_map f t b = (None, b')" by (metis prod.collapse)
  obtain idx where idx: "resourceIndex b f = Some idx" "b' = renamed_resource idx f t b"
    using rename_labels(4) [OF assms(1) b' assms(2)] by blast
  have g: "good parse_tpl yaml_map b'" using rename_labels(3) [OF assms(1) b' assms(2)] .
  have "x_status (b_xrd b') = x_status (b_xrd b)" by (simp add: idx(2) renamed_resource_def)
  with good_wf [OF g] assms(3,4) have "status_node_ok b' q"
    by (auto simp: blueprint_wf_def schema_ok_def)
  with assms(5,6) have "unlooped b' f" by (auto simp: status_node_ok_def status_wire_ok_def)
  then obtain d where "d \<in> set (b_resources b')" "r_name d = f" using unlooped_mem by blast
  then obtain i where i: "i < length (b_resources b)" "r_name (b_resources b' ! i) = f"
    by (auto simp: idx(2) renamed_resource_def in_set_conv_nth)
  with renamed_nth [OF assms(1) idx(1) i(1), of t] assms(2) show False
    by (auto simp: idx(2) rename_in_resource_def split: if_splits)
qed

theorem RenameResource_status_refused_witness:
  "fst (RenameResource sample_tpl sample_yaml ''main-queue'' ''jobs'' sample) \<noteq> None"
proof -
  let ?p = "Parameter ''string'' False [] [] [] [] ''resources.main-queue.status.atProvider.url''"
  have "StatusRef ''resources.main-queue.status.atProvider.url'' = Some (''main-queue'', ''atProvider.url'')"
    by code_simp
  moreover have "map_of (x_status (b_xrd sample)) ''url'' = Some ?p"
    by (simp add: sample_def sample_xrd_def)
  ultimately show ?thesis
    using RenameResource_status_refused [OF sample_good, of "''main-queue''" "''jobs''" "''url''" ?p ?p "''atProvider.url''"]
    by (simp add: member_of.intros)
qed

section \<open>Deleting\<close>

lemma remove_named:
  assumes "distinct (map r_name rs)" "i < length rs"
  shows "take i rs @ drop (i + 1) rs = filter (\<lambda>r. r_name r \<noteq> r_name (rs ! i)) rs"
  using assms
proof (induction rs arbitrary: i)
  case (Cons r rs)
  show ?case
  proof (cases i)
    case 0
    from Cons.prems(1) have "filter (\<lambda>q. r_name q \<noteq> r_name r) rs = rs" by (intro filter_True) (auto simp: image_iff)
    with 0 show ?thesis by simp
  next
    case (Suc j)
    with Cons show ?thesis by force
  qed
qed simp

definition status_refers :: "string \<Rightarrow> resource \<Rightarrow> bool" where
  \<comment> \<open>what keeps a resource of that name from being deleted\<close>
  "status_refers n r \<longleftrightarrow> (\<exists>path. StatusRef (r_forEach r) = Some (n, path)) \<or>
     anyStatusFrom (r_fields r @ r_envelope r @ r_annotations r) n"

lemma anyStatusFrom_iff:
  "anyStatusFrom m n \<longleftrightarrow> (\<exists>(k, f) \<in> set m.
     (f_from f \<noteq> [] \<and> (\<exists>ref. ParseFrom (f_from f) = Inr ref \<and> fr_resource ref = n)) \<or>
     (f_raw f \<noteq> [] \<and> rawReferencesResource (f_raw f) n))"
proof -
  have "(case x of Inl _ \<Rightarrow> False | Inr ref \<Rightarrow> fr_resource ref = n) \<longleftrightarrow>
      (\<exists>ref. x = Inr ref \<and> fr_resource ref = n)" for x :: "msg + from_ref"
    by (cases x) auto
  then show ?thesis unfolding anyStatusFrom_def list_ex_iff by simp
qed

lemma StatusReferencing_None:
  "StatusReferencingResources b n = [] \<longleftrightarrow> (\<forall>r \<in> set (b_resources b). r_name r = n \<or> \<not> status_refers n r)"
  unfolding StatusReferencingResources_def status_refers_def anyStatusFrom_def
  by (auto simp: filter_empty_conv split: option.splits if_splits)

text \<open>C7: After a committed \<open>DeleteResource\<close> exactly the named resource is gone, the others
  keep their order, and nothing refers to it any more: no loop bound, no wire and no raw
  expression of a field, envelope path or annotation, and no template body.\<close>

theorem DeleteResource_no_reference:
  assumes "good parse_tpl yaml_map b" "DeleteResource parse_tpl yaml_map n b = (None, b')"
  shows "b_resources b' = filter (\<lambda>r. r_name r \<noteq> n) (b_resources b) \<and>
    length (b_resources b) = length (b_resources b') + 1 \<and>
    \<not> (\<exists>r \<in> set (b_resources b'). \<exists>path. StatusRef (r_forEach r) = Some (n, path)) \<and>
    \<not> (\<exists>r \<in> set (b_resources b'). \<exists>(k, f) \<in> set (r_fields r @ r_envelope r @ r_annotations r).
         (f_from f \<noteq> [] \<and> (\<exists>ref. ParseFrom (f_from f) = Inr ref \<and> fr_resource ref = n)) \<or>
         (f_raw f \<noteq> [] \<and> rawReferencesResource (f_raw f) n)) \<and>
    \<not> (\<exists>(k, body) \<in> set (b_templates b'). rawReferencesResource body n)"
proof -
  obtain idx where idx: "resourceIndex b n = Some idx" "StatusReferencingResources b n = []"
      "\<forall>(k, body) \<in> set (b_templates b). \<not> rawReferencesResource body n"
      "b' = set_resources (take idx (b_resources b) @ drop (idx + 1) (b_resources b)) b"
    using assms(2) by (auto simp: DeleteResource_None)
  have rs: "b_resources b' = filter (\<lambda>r. r_name r \<noteq> n) (b_resources b)"
    using remove_named [OF good_distinct [OF assms(1)] resourceIndex_Some [OF idx(1), THEN conjunct1]]
      resourceIndex_Some [OF idx(1)] by (simp add: idx(4))
  have "length (b_resources b) = length (b_resources b') + 1"
    using resourceIndex_Some [OF idx(1)] by (auto simp: idx(4))
  moreover have "\<not> status_refers n r" if "r \<in> set (b_resources b')" for r
    using that idx(2) by (auto simp: rs StatusReferencing_None)
  ultimately show ?thesis
    using rs idx(3,4) by (fastforce simp: status_refers_def anyStatusFrom_iff)
qed
definition sample_less :: blueprint where
  "sample_less = set_resources [sample_queue, sample_policy] sample"

lemma sample_delete: "DeleteResource sample_tpl sample_yaml ''alarm'' sample = (None, sample_less)"
proof -
  have v: "Validate sample_tpl sample_yaml sample_less = None" by code_simp
  have i: "resourceIndex sample ''alarm'' = Some 2" by code_simp
  have s: "StatusReferencingResources sample ''alarm'' = []" by code_simp
  have t: "\<not> rawReferencesResource ''team: a'' ''alarm''" by code_simp
  have r: "b_templates sample = [(''cf.tags'', ''team: a'')]"
    "b_resources sample = [sample_queue, sample_policy, sample_alarm]" by (simp_all add: sample_def)
  show ?thesis using v i s t by (simp add: DeleteResource_None sample_less_def r)
qed

theorem DeleteResource_no_reference_witness:
  "b_resources sample_less = filter (\<lambda>r. r_name r \<noteq> ''alarm'') (b_resources sample)"
  using DeleteResource_no_reference [OF sample_good sample_delete] by blast

definition param_refers :: "string \<Rightarrow> resource \<Rightarrow> bool" where
  \<comment> \<open>what keeps a parameter of that name from being deleted\<close>
  "param_refers n r \<longleftrightarrow> r_forEach r = ''params.'' @ n \<or> whenParam (r_when r) = n \<or>
     (\<exists>(k, f) \<in> set (r_fields r @ r_envelope r @ r_annotations r).
        f_from f = ''params.'' @ n \<or> prefix (''params.'' @ n @ ''.'') (f_from f) \<or>
        rawReferencesParam (f_raw f) n)"

lemma entry_refers_iff:
  "anyFrom m (''params.'' @ n) \<or> anyRawParam m n \<longleftrightarrow> (\<exists>(k, f) \<in> set m.
     f_from f = ''params.'' @ n \<or> prefix (''params.'' @ n @ ''.'') (f_from f) \<or> rawReferencesParam (f_raw f) n)"
  unfolding anyFrom_def anyRawParam_def list_ex_iff has_prefix_iff append_assoc by blast

lemma entry_refers_append: "anyFrom (m @ m') w \<longleftrightarrow> anyFrom m w \<or> anyFrom m' w"
    "anyRawParam (m @ m') n \<longleftrightarrow> anyRawParam m n \<or> anyRawParam m' n"
  by (auto simp: anyFrom_def anyRawParam_def)

lemma update_fresh: "k \<notin> fst ` set m \<Longrightarrow> AList.update k v m = m @ [(k, v)]"
  by (induction m) auto

lemma index_from_append:
  "r_name r \<notin> r_name ` set rs \<Longrightarrow> index_from i (r_name r) (rs @ [r]) = Some (i + length rs)"
  by (induction rs arbitrary: i) auto

lemma ResourceNamed_fresh: "ResourceNamed b n = None \<longleftrightarrow> n \<notin> r_name ` set (b_resources b)"
  by (auto simp: ResourceNamed_def find_None_iff)

lemma ReferencingResources_None:
  "ReferencingResources b n = [] \<longleftrightarrow> (\<forall>r \<in> set (b_resources b). \<not> param_refers n r)"
  unfolding ReferencingResources_def param_refers_def entry_refers_iff [symmetric] entry_refers_append Let_def
  by (simp add: filter_empty_conv)

text \<open>C8: After a committed \<open>DeleteParameter\<close> exactly the named parameter is gone, nothing else
  has changed, and nothing refers to it: no loop bound, no condition, no wire to it or to a
  member of it, no raw expression and no template body.\<close>

theorem DeleteParameter_no_reference:
  assumes "DeleteParameter parse_tpl yaml_map n b = (None, b')"
  shows "map_of (b_params b') = (map_of (b_params b))(n := None) \<and>
    b_resources b' = b_resources b \<and> b_templates b' = b_templates b \<and>
    \<not> (\<exists>r \<in> set (b_resources b'). r_forEach r = ''params.'' @ n \<or>
         (\<exists>op literal. n \<noteq> [] \<and> ParseWhen (r_when r) = Inr (''params'', n, op, literal)) \<or>
         (\<exists>(k, f) \<in> set (r_fields r @ r_envelope r @ r_annotations r).
            f_from f = ''params.'' @ n \<or> prefix (''params.'' @ n @ ''.'') (f_from f) \<or>
            rawReferencesParam (f_raw f) n)) \<and>
    \<not> (\<exists>(k, body) \<in> set (b_templates b'). rawReferencesParam body n)"
proof -
  from assms have d: "ReferencingResources b n = []" "b' = set_params (AList.delete n (b_params b)) b"
      "\<forall>(k, body) \<in> set (b_templates b). \<not> rawReferencesParam body n"
    by (auto simp: DeleteParameter_None)
  have "whenParam w = n" if "ParseWhen w = Inr (''params'', n, op, literal)" "n \<noteq> []" for w op literal
    using that ParseWhen_shape [OF that(1)] by (auto simp: whenParam_def when_text_def)
  with d show ?thesis
    unfolding ReferencingResources_None param_refers_def by (auto simp: delete_conv')
qed

lemma add_delete_parameter:
  assumes "Validate parse_tpl yaml_map b = None" "AddParameter parse_tpl yaml_map n p b = (None, b')"
  shows "DeleteParameter parse_tpl yaml_map n b' = (None, b) \<longleftrightarrow>
    ReferencingResources b n = [] \<and> \<not> (\<exists>(k, body) \<in> set (b_templates b). rawReferencesParam body n)"
proof -
  from assms(2) have a: "map_of (b_params b) n = None" "b' = set_params (AList.update n p (b_params b)) b"
    by (auto simp: AddParameter_None)
  have "AList.delete n (AList.update n p (b_params b)) = b_params b"
    using a(1) by (force simp: map_of_eq_None_iff update_fresh AList.delete_eq intro!: filter_True)
  with assms(1) show ?thesis by (auto simp: DeleteParameter_None a(2) ReferencingResources_None update_conv')
qed

lemma add_delete_resource:
  assumes "Validate parse_tpl yaml_map b = None" "AddResource parse_tpl yaml_map r b = (None, b')"
  shows "DeleteResource parse_tpl yaml_map (r_name r) b' = (None, b) \<longleftrightarrow>
    StatusReferencingResources b (r_name r) = [] \<and>
    \<not> (\<exists>(k, body) \<in> set (b_templates b). rawReferencesResource body (r_name r))"
proof -
  from assms(2) have a: "r_name r \<notin> r_name ` set (b_resources b)" "b' = set_resources (b_resources b @ [r]) b"
    by (auto simp: AddResource_None ResourceNamed_fresh)
  have i: "resourceIndex b' (r_name r) = Some (length (b_resources b))"
    using a(1) by (simp add: a(2) resourceIndex_def index_from_append)
  show ?thesis
    using assms(1) by (auto simp: DeleteResource_None i StatusReferencing_None) (auto simp: a(2))
qed

text \<open>C32: Adding and then deleting is the identity: a parameter or resource just added can be
  deleted exactly when nothing mentions it yet, and deleting it restores the document, map
  entries and list order included.\<close>

theorem add_delete_roundtrip:
  assumes "Validate parse_tpl yaml_map b = None"
  shows "(AddParameter parse_tpl yaml_map n p b = (None, b1) \<longrightarrow>
      (DeleteParameter parse_tpl yaml_map n b1 = (None, b) \<longleftrightarrow>
        ReferencingResources b n = [] \<and> \<not> (\<exists>(k, body) \<in> set (b_templates b). rawReferencesParam body n))) \<and>
    (AddResource parse_tpl yaml_map r b = (None, b2) \<longrightarrow>
      (DeleteResource parse_tpl yaml_map (r_name r) b2 = (None, b) \<longleftrightarrow>
        StatusReferencingResources b (r_name r) = [] \<and>
        \<not> (\<exists>(k, body) \<in> set (b_templates b). rawReferencesResource body (r_name r))))"
  using add_delete_parameter [OF assms] add_delete_resource [OF assms] by blast

definition sample_extra :: blueprint where
  "sample_extra = set_params (AList.update ''extra'' (scalar_param ''string'' False) (b_params sample)) sample"

lemma sample_add: "AddParameter sample_tpl sample_yaml ''extra'' (scalar_param ''string'' False) sample = (None, sample_extra)"
proof -
  have "Validate sample_tpl sample_yaml sample_extra = None" by code_simp
  then show ?thesis by (simp add: AddParameter_None sample_extra_def) (simp add: sample_def sample_xrd_def)
qed

lemma sample_mentions:
  "ReferencingResources sample ''extra'' = [] \<and>
   \<not> (\<exists>(k, body) \<in> set (b_templates sample). rawReferencesParam body ''extra'')"
proof -
  have "ReferencingResources sample ''extra'' = []" by code_simp
  moreover have "\<not> rawReferencesParam ''team: a'' ''extra''" by code_simp
  moreover have "b_templates sample = [(''cf.tags'', ''team: a'')]" by (simp add: sample_def)
  ultimately show ?thesis by simp
qed

theorem add_delete_roundtrip_witness:
  "DeleteParameter sample_tpl sample_yaml ''extra'' sample_extra = (None, sample)"
  using add_delete_roundtrip [OF sample_valid] sample_add sample_mentions by blast

theorem DeleteParameter_no_reference_witness:
  "\<not> (\<exists>r \<in> set (b_resources sample). r_forEach r = ''params.extra'')"
proof -
  have "DeleteParameter sample_tpl sample_yaml ''extra'' sample_extra = (None, sample)"
    using add_delete_parameter [OF sample_valid sample_add] sample_mentions by blast
  from DeleteParameter_no_reference [OF this] show ?thesis by auto
qed

end
