(* ===== verification/SchemaTree.thy ===== *)
theory SchemaTree
  imports GoString Complex_Main "HOL-Library.Log_Nat"
begin

text \<open>
  Schema trees (\<open>internal/schema/tree.go\<close>): decoded OpenAPI values, the node tree built from a
  properties map, the required-chain annotation and the flattening to addressed leaves and
  branches. A decoded \<open>any\<close> is a \<open>jval\<close>; a nil interface is \<open>JNull\<close>. A pointer to a node the
  source fills in and hands on is the node's value.
\<close>

section \<open>Decoded values\<close>

datatype jval = JNull | JBool bool | JFloat rat | JInt int | JStr string | JList "jval list"
  | JObj "(string \<times> jval) list"

definition as_str :: "jval option \<Rightarrow> string" where
  \<comment> \<open>\<open>v, _ = x.(string)\<close>\<close>
  "as_str v = (case v of Some (JStr s) \<Rightarrow> s | _ \<Rightarrow> [])"

definition as_obj :: "jval option \<Rightarrow> (string \<times> jval) list option" where
  \<comment> \<open>\<open>v, ok := x.(map[string]any)\<close>\<close>
  "as_obj v = (case v of Some (JObj m) \<Rightarrow> Some m | _ \<Rightarrow> None)"

definition obj_or_nil :: "jval option \<Rightarrow> (string \<times> jval) list" where
  "obj_or_nil v = (case as_obj v of Some m \<Rightarrow> m | None \<Rightarrow> [])"

definition stringSlice :: "jval option \<Rightarrow> string list" where
  "stringSlice v = (case v of
     Some (JList raw) \<Rightarrow> List.map_filter (\<lambda>e. case e of JStr s \<Rightarrow> Some s | _ \<Rightarrow> None) raw
   | _ \<Rightarrow> [])"

definition float_of_int :: "int \<Rightarrow> rat" where
  \<comment> \<open>\<open>float64(n)\<close>: round to nearest, ties to even, at 53 bits\<close>
  "float_of_int i =
     (let n = nat \<bar>i\<bar>; e = floorlog 2 n - 53; m = n div 2 ^ e; r = n mod 2 ^ e;
          m' = (if 2 * r > 2 ^ e \<or> (2 * r = 2 ^ e \<and> odd m) then m + 1 else m)
      in of_int (sgn i) * of_nat (m' * 2 ^ e))"

definition parseNumberPtr :: "jval option \<Rightarrow> rat option" where
  "parseNumberPtr v = (case v of
     Some (JFloat num) \<Rightarrow> Some num
   | Some (JInt num) \<Rightarrow> Some (float_of_int num)
   | _ \<Rightarrow> None)"

section \<open>Nodes\<close>

datatype node = Node (n_name: string) (n_type: string) (n_description: string) (n_required: bool)
  (n_children: "node list") (n_chain: bool) (n_enum: "string list") (n_default: jval)
  (n_minimum: "rat option") (n_maximum: "rat option") (n_format: string)

fun set_children :: "node list \<Rightarrow> node \<Rightarrow> node" where
  "set_children cs (Node nm t d r _ c e df mn mx f) = Node nm t d r cs c e df mn mx f"

fun set_type :: "string \<Rightarrow> node \<Rightarrow> node" where
  "set_type t (Node nm _ d r cs c e df mn mx f) = Node nm t d r cs c e df mn mx f"

fun set_chain :: "bool \<Rightarrow> node \<Rightarrow> node" where
  "set_chain c (Node nm t d r cs _ e df mn mx f) = Node nm t d r cs c e df mn mx f"

lemma set_sel [simp]:
  "n_name (set_children cs n) = n_name n" "n_name (set_type t n) = n_name n" "n_name (set_chain c n) = n_name n"
  "n_type (set_children cs n) = n_type n" "n_type (set_type t n) = t" "n_type (set_chain c n) = n_type n"
  "n_required (set_children cs n) = n_required n" "n_required (set_type t n) = n_required n"
  "n_required (set_chain c n) = n_required n"
  "n_children (set_children cs n) = cs" "n_children (set_type t n) = n_children n"
  "n_children (set_chain c n) = n_children n"
  "n_chain (set_children cs n) = n_chain n" "n_chain (set_type t n) = n_chain n" "n_chain (set_chain c n) = c"
  by (cases n; simp)+

lemma size_children [termination_simp]: "size_list size (n_children n) < size n"
  by (cases n) simp

section \<open>Building a tree\<close>

definition leaf_node :: "string \<Rightarrow> (string \<times> jval) list \<Rightarrow> bool \<Rightarrow> node" where
  \<comment> \<open>the scalar parts of \<open>buildNode\<close>\<close>
  "leaf_node name raw required =
     Node name (as_str (map_of raw ''type'')) (as_str (map_of raw ''description'')) required [] False
       (case map_of raw ''enum'' of Some (JList es) \<Rightarrow> stringSlice (Some (JList es)) | _ \<Rightarrow> [])
       (case map_of raw ''default'' of Some def \<Rightarrow> def | None \<Rightarrow> JNull)
       (parseNumberPtr (map_of raw ''minimum'')) (parseNumberPtr (map_of raw ''maximum''))
       (as_str (map_of raw ''format''))"

definition additional :: "(string \<times> jval) list \<Rightarrow> bool" where
  \<comment> \<open>\<open>additionalProperties\<close> present, not false and not nil\<close>
  "additional raw = (case map_of raw ''additionalProperties'' of
     Some addProps \<Rightarrow> addProps \<noteq> JBool False \<and> addProps \<noteq> JNull | None \<Rightarrow> False)"

lemma size_lookup:
  assumes "map_of m k = Some (JObj raw)"
  shows "size (JObj raw) < size (JObj m)"
proof -
  have "(k, JObj raw) \<in> set m" using assms by (rule map_of_SomeD)
  then have "size (JObj raw) < size_list (size_prod (\<lambda>x. 0) size) m"
    by (induction m) auto
  then show ?thesis by simp
qed

lemma size_obj: "as_obj (map_of m k) = Some raw \<Longrightarrow> size (JObj raw) < size (JObj m)"
  using size_lookup [of m k raw] by (auto simp: as_obj_def split: option.splits jval.splits)

lemma size_obj_or_nil:
  assumes "k \<in> fst ` set m"
  shows "size (JObj (obj_or_nil (map_of m k))) < size (JObj m)"
proof (cases "as_obj (map_of m k)")
  case None
  with assms show ?thesis by (cases m) (auto simp: obj_or_nil_def)
next
  case (Some raw)
  with size_obj [OF Some] show ?thesis by (simp add: obj_or_nil_def)
qed

function BuildTree :: "(string \<times> jval) list \<Rightarrow> string list \<Rightarrow> node list"
  and buildNode :: "string \<Rightarrow> (string \<times> jval) list \<Rightarrow> bool \<Rightarrow> node" where
  "BuildTree props required =
     map (\<lambda>name. buildNode name (obj_or_nil (map_of props name)) (name \<in> set required)) (sorted_keys props)"
| "buildNode name raw required =
     (let n = leaf_node name raw required in
      if n_type n = ''object''
      then (case as_obj (map_of raw ''properties'') of
              Some props \<Rightarrow>
                if 0 < length props then set_children (BuildTree props (stringSlice (map_of raw ''required''))) n
                else if additional raw then set_type ''map'' n else n
            | None \<Rightarrow> if additional raw then set_type ''map'' n else n)
      else if n_type n = ''array''
      then (case as_obj (map_of raw ''items'') of
              Some items \<Rightarrow>
                (case as_obj (map_of items ''properties'') of
                   Some props \<Rightarrow> set_children (BuildTree props (stringSlice (map_of items ''required''))) n
                 | None \<Rightarrow> n)
            | None \<Rightarrow> n)
      else (case as_obj (map_of raw ''properties'') of
              Some props \<Rightarrow>
                if n_type n = []
                then set_children (BuildTree props (stringSlice (map_of raw ''required''))) (set_type ''object'' n)
                else n
            | None \<Rightarrow> if additional raw \<and> n_type n = [] then set_type ''map'' n else n))"
  by pat_completeness auto
termination
  by (relation "measure (case_sum (\<lambda>(props, _). size (JObj props)) (\<lambda>(_, raw, _). size (JObj raw)))")
    (auto intro: size_obj size_obj_or_nil less_trans [OF size_obj size_obj] simp del: jval.size simp: image_iff)

declare BuildTree.simps [simp del] buildNode.simps [simp del]

section \<open>Required chains\<close>

function annotateChain :: "node list \<Rightarrow> bool \<Rightarrow> node list" where
  "annotateChain [] parentHeld = []"
| "annotateChain (n # ns) parentHeld =
     (let held = (parentHeld \<and> n_required n)
      in set_children (annotateChain (n_children n) held) (set_chain held n)) # annotateChain ns parentHeld"
  by pat_completeness auto
termination
  by (relation "measure (\<lambda>(ns, _). size_list size ns)") (auto intro: less_trans [OF size_children])

definition ComputeRequiredChain :: "node list \<Rightarrow> bool \<Rightarrow> node list" where
  "ComputeRequiredChain nodes topLevelHeld =
     map (\<lambda>n. set_children (annotateChain (n_children n) (n_required n \<or> topLevelHeld)) (set_chain (n_required n) n))
       nodes"

section \<open>Flattening\<close>

definition node_path :: "string \<Rightarrow> node \<Rightarrow> string" where
  "node_path pre n = (if pre \<noteq> [] then pre @ ''.'' @ n_name n else n_name n)"

definition child_prefix :: "string \<Rightarrow> node \<Rightarrow> string" where
  \<comment> \<open>the prefix of a node's children\<close>
  "child_prefix pre n = (if n_type n = ''array'' then node_path pre n @ ''[0]'' else node_path pre n)"

function Leaves :: "node list \<Rightarrow> string \<Rightarrow> (string \<times> node) list" where
  "Leaves [] pre = []"
| "Leaves (n # ns) pre =
     (if length (n_children n) = 0 then [(node_path pre n, n)]
      else if n_type n = ''array'' then Leaves (n_children n) (node_path pre n @ ''[0]'')
      else Leaves (n_children n) (node_path pre n)) @ Leaves ns pre"
  by pat_completeness auto
termination
  by (relation "measure (\<lambda>(ns, _). size_list size ns)") (auto intro: less_trans [OF size_children])

function hasChainLeaf_in :: "node list \<Rightarrow> bool" where
  \<comment> \<open>the loop of \<open>hasChainLeaf\<close> over the children\<close>
  "hasChainLeaf_in [] = False"
| "hasChainLeaf_in (c # cs) =
     (if length (n_children c) = 0 then (if n_chain c then True else hasChainLeaf_in cs)
      else if hasChainLeaf_in (n_children c) then True else hasChainLeaf_in cs)"
  by pat_completeness auto
termination
  by (relation "measure (\<lambda>ns. size_list size ns)") (auto intro: less_trans [OF size_children])

definition hasChainLeaf :: "node \<Rightarrow> bool" where
  "hasChainLeaf n = hasChainLeaf_in (n_children n)"

function RequiredBranches :: "node list \<Rightarrow> string \<Rightarrow> (string \<times> node) list" where
  "RequiredBranches [] pre = []"
| "RequiredBranches (n # ns) pre =
     (if length (n_children n) = 0 then []
      else (if n_chain n \<and> \<not> hasChainLeaf n then [(node_path pre n, n)] else []) @
        RequiredBranches (n_children n) (child_prefix pre n)) @
     RequiredBranches ns pre"
  by pat_completeness auto
termination
  by (relation "measure (\<lambda>(ns, _). size_list size ns)") (auto intro: less_trans [OF size_children])

section \<open>Nodes addressed by their ancestors\<close>

fun lineage :: "node list \<Rightarrow> node list \<Rightarrow> bool" where
  \<comment> \<open>a node with its ancestors, outermost first\<close>
  "lineage nodes [] = False"
| "lineage nodes (n # ms) = (n \<in> set nodes \<and> (ms = [] \<or> lineage (n_children n) ms))"

fun path_of :: "string \<Rightarrow> node list \<Rightarrow> string" where
  "path_of pre [] = pre"
| "path_of pre (n # ms) = (if ms = [] then node_path pre n else path_of (child_prefix pre n) ms)"

lemma lineage_ne: "lineage nodes ns \<Longrightarrow> ns \<noteq> []"
  by (cases ns) auto

lemma lineage_Nil: "\<not> lineage [] ns"
  by (cases ns) auto

lemma lineage_Cons:
  "lineage (n # nodes) ns \<longleftrightarrow> (\<exists>ms. ns = n # ms \<and> (ms = [] \<or> lineage (n_children n) ms)) \<or> lineage nodes ns"
  by (cases ns) auto

lemma path_of_Cons: "ms \<noteq> [] \<Longrightarrow> path_of pre (n # ms) = path_of (child_prefix pre n) ms"
  by simp

lemma Leaves_Cons:
  "Leaves (n # ns) pre =
     (if n_children n = [] then [(node_path pre n, n)] else Leaves (n_children n) (child_prefix pre n)) @
     Leaves ns pre"
  by (simp add: child_prefix_def)

declare Leaves.simps(2) [simp del]

lemma lineage_step:
  "(\<exists>ns. lineage (n # nodes) ns \<and> Q ns) \<longleftrightarrow>
     Q [n] \<or> (\<exists>ms. lineage (n_children n) ms \<and> Q (n # ms)) \<or> (\<exists>ns. lineage nodes ns \<and> Q ns)"
  unfolding lineage_Cons by (auto dest: lineage_ne)

lemma lineage_below:
  "(\<exists>ms. lineage cs ms \<and> Q (last (n # ms)) (path_of pre (n # ms))) \<longleftrightarrow>
   (\<exists>ms. lineage cs ms \<and> Q (last ms) (path_of (child_prefix pre n) ms))"
  by (intro iff_exI conj_cong refl) (simp add: lineage_ne)

lemma lineage_flat:
  "(\<exists>ns. lineage (n # nodes) ns \<and> Q (last ns) (path_of pre ns)) \<longleftrightarrow>
     Q n (node_path pre n) \<or>
     (\<exists>ms. lineage (n_children n) ms \<and> Q (last ms) (path_of (child_prefix pre n) ms)) \<or>
     (\<exists>ns. lineage nodes ns \<and> Q (last ns) (path_of pre ns))"
  unfolding lineage_step lineage_below [of "n_children n" Q] by simp

lemma Leaves_mem:
  "(p, l) \<in> set (Leaves nodes pre) \<longleftrightarrow>
     (\<exists>ns. lineage nodes ns \<and> last ns = l \<and> n_children l = [] \<and> p = path_of pre ns)"
proof (induction nodes pre arbitrary: p l rule: Leaves.induct)
  case 1
  then show ?case by (simp add: lineage_Nil)
next
  case (2 n nodes pre)
  let ?Q = "\<lambda>m q. m = l \<and> n_children l = [] \<and> p = q"
  have below: "(p, l) \<in> set (if n_children n = [] then [(node_path pre n, n)]
      else Leaves (n_children n) (child_prefix pre n)) \<longleftrightarrow>
    ?Q n (node_path pre n) \<or> (\<exists>ms. lineage (n_children n) ms \<and> ?Q (last ms) (path_of (child_prefix pre n) ms))"
    using 2(1,2) by (cases "n_children n = []") (auto simp: child_prefix_def lineage_Nil)
  show ?case
    unfolding Leaves_Cons lineage_flat [of n nodes ?Q pre] set_append Un_iff below 2(3) by blast
qed

lemma hasChainLeaf_in_iff:
  "hasChainLeaf_in nodes \<longleftrightarrow> (\<exists>ns. lineage nodes ns \<and> n_children (last ns) = [] \<and> n_chain (last ns))"
proof (induction nodes rule: hasChainLeaf_in.induct)
  case 1
  then show ?case by (simp add: lineage_Nil)
next
  case (2 n nodes)
  let ?Q = "\<lambda>m (q::string). n_children m = [] \<and> n_chain m"
  show ?case
    unfolding lineage_flat [of n nodes ?Q undefined] using 2 
    by (cases "n_children n = []") (auto simp: lineage_Nil)
qed

lemma RequiredBranches_mem:
  "(p, b) \<in> set (RequiredBranches nodes pre) \<longleftrightarrow>
     (\<exists>ns. lineage nodes ns \<and> last ns = b \<and> p = path_of pre ns \<and>
       n_children b \<noteq> [] \<and> n_chain b \<and> \<not> hasChainLeaf b)"
proof (induction nodes pre arbitrary: p b rule: RequiredBranches.induct)
  case 1
  then show ?case by (simp add: lineage_Nil)
next
  case (2 n nodes pre)
  let ?Q = "\<lambda>m q. m = b \<and> p = q \<and> n_children b \<noteq> [] \<and> n_chain b \<and> \<not> hasChainLeaf b"
  show ?case
    unfolding lineage_flat [of n nodes ?Q pre] using 2
    by (cases "n_children n = []") (auto simp: lineage_Nil)
qed

text \<open>Flattening loses nothing that is required: \<open>RequiredBranches\<close> lists exactly the required
  branches under which \<open>Leaves\<close> has no required row, so every required node of an annotated tree
  is a leaf row, a branch row, or has a required leaf row beneath it.\<close>

theorem RequiredBranches_decides:
  "(p, b) \<in> set (RequiredBranches nodes pre) \<longleftrightarrow>
     (\<exists>ns. lineage nodes ns \<and> last ns = b \<and> p = path_of pre ns \<and> n_children b \<noteq> [] \<and> n_chain b \<and>
       \<not> (\<exists>q l. (q, l) \<in> set (Leaves (n_children b) (child_prefix pre b)) \<and> n_chain l))"
  unfolding RequiredBranches_mem hasChainLeaf_def hasChainLeaf_in_iff Leaves_mem
  by (intro iff_exI conj_cong refl) auto

section \<open>What annotating keeps and computes\<close>

lemma annotateChain_lineage:
  "lineage (annotateChain nodes held) ns \<Longrightarrow> n_chain (last ns) \<longleftrightarrow> held \<and> (\<forall>n \<in> set ns. n_required n)"
proof (induction nodes held arbitrary: ns rule: annotateChain.induct)
  case (1 held)
  then show ?case by (simp add: lineage_Nil)
next
  case (2 n nodes held)
  show ?case
  proof (cases "lineage (annotateChain nodes held) ns")
    case True
    then show ?thesis by (rule "2.IH"(2))
  next
    case False
    with "2.prems" obtain ms where ns: "ns = set_children (annotateChain (n_children n) (held \<and> n_required n))
          (set_chain (held \<and> n_required n) n) # ms"
        "ms = [] \<or> lineage (annotateChain (n_children n) (held \<and> n_required n)) ms"
      by (auto simp: lineage_Cons Let_def)
    then show ?thesis using "2.IH"(1) [OF refl, of ms] by (cases "ms = []") auto
  qed
qed

lemma annotateChain_paths [simp]: "map fst (Leaves (annotateChain nodes held) pre) = map fst (Leaves nodes pre)"
proof (induction nodes held arbitrary: pre rule: annotateChain.induct)
  case (2 n nodes held)
  have "annotateChain cs h = [] \<longleftrightarrow> cs = []" for cs h by (cases cs) simp_all
  with 2 show ?case by (simp add: Leaves_Cons Let_def node_path_def child_prefix_def)
qed simp

lemma Compute_paths: "map fst (Leaves (ComputeRequiredChain nodes topHeld) pre) = map fst (Leaves nodes pre)"
proof -
  have e: "annotateChain cs h = [] \<longleftrightarrow> cs = []" for cs h by (cases cs) simp_all
  show ?thesis
    by (induction nodes) (simp_all add: ComputeRequiredChain_def Leaves_Cons e node_path_def child_prefix_def)
qed

text \<open>C36: After \<open>ComputeRequiredChain\<close> a node is marked exactly when it and all its ancestors are
  required, the outermost one excepted under the native policy, and the addressed paths are
  those of the tree before.\<close>

theorem ComputeRequiredChain_decides:
  assumes "lineage (ComputeRequiredChain nodes topHeld) ns"
  shows "(n_chain (last ns) \<longleftrightarrow> (\<forall>n \<in> set (if topHeld \<and> tl ns \<noteq> [] then tl ns else ns). n_required n)) \<and>
    map fst (Leaves (ComputeRequiredChain nodes topHeld) pre) = map fst (Leaves nodes pre)"
proof -
  from assms obtain n ms where n: "n \<in> set nodes" and ns: "ns = set_children (annotateChain (n_children n)
        (n_required n \<or> topHeld)) (set_chain (n_required n) n) # ms"
      and ms: "ms = [] \<or> lineage (annotateChain (n_children n) (n_required n \<or> topHeld)) ms"
    by (cases ns) (auto simp: ComputeRequiredChain_def)
  have "n_chain (last ns) \<longleftrightarrow> (\<forall>n \<in> set (if topHeld \<and> tl ns \<noteq> [] then tl ns else ns). n_required n)"
    using ns ms annotateChain_lineage [of "n_children n" "n_required n \<or> topHeld" ms] by (cases "ms = []") auto
  with Compute_paths show ?thesis by blast
qed

section \<open>What building gives\<close>

fun jval_ok :: "jval \<Rightarrow> bool" where
  \<comment> \<open>objects have no key twice\<close>
  "jval_ok (JObj m) \<longleftrightarrow> gomap_ok m \<and> (\<forall>(k, v) \<in> set m. jval_ok v)"
| "jval_ok (JList vs) \<longleftrightarrow> (\<forall>v \<in> set vs. jval_ok v)"
| "jval_ok _ \<longleftrightarrow> True"

inductive tree_ok :: "node list \<Rightarrow> bool" where
  "sorted_wrt (<) (map n_name nodes) \<Longrightarrow>
   (\<And>n. n \<in> set nodes \<Longrightarrow> n_children n \<noteq> [] \<Longrightarrow> n_type n \<in> {''object'', ''array''}) \<Longrightarrow>
   (\<And>n. n \<in> set nodes \<Longrightarrow> tree_ok (n_children n)) \<Longrightarrow> tree_ok nodes"

lemma tree_ok_iff:
  "tree_ok nodes \<longleftrightarrow> sorted_wrt (<) (map n_name nodes) \<and>
     (\<forall>n \<in> set nodes. (n_children n \<noteq> [] \<longrightarrow> n_type n \<in> {''object'', ''array''}) \<and> tree_ok (n_children n))"
  by (subst tree_ok.simps) blast

lemma tree_ok_Cons:
  assumes "tree_ok (n # nodes)"
  shows "tree_ok nodes" "tree_ok (n_children n)" "\<forall>m \<in> set nodes. n_name n \<noteq> n_name m"
  using assms unfolding tree_ok_iff [of "n # nodes"] tree_ok_iff [of nodes] by auto

lemma jval_ok_obj: "jval_ok (JObj m) \<Longrightarrow> as_obj (map_of m k) = Some raw \<Longrightarrow> jval_ok (JObj raw)"
proof -
  assume ok: "jval_ok (JObj m)" and "as_obj (map_of m k) = Some raw"
  then have "(k, JObj raw) \<in> set m" by (auto simp: as_obj_def split: option.splits jval.splits dest: map_of_SomeD)
  with ok have "case (k, JObj raw) of (k, v) \<Rightarrow> jval_ok v" unfolding jval_ok.simps by blast
  then show ?thesis by simp
qed

lemma jval_ok_nil: "jval_ok (JObj m) \<Longrightarrow> jval_ok (JObj (obj_or_nil (map_of m k)))"
  using jval_ok_obj [of m k] by (cases "as_obj (map_of m k)") (auto simp: obj_or_nil_def gomap_ok_def)

lemma name_build [simp]: "n_name (buildNode name raw required) = name"
  by (simp add: buildNode.simps Let_def leaf_node_def split: option.splits)

lemma names_build: "map n_name (BuildTree props required) = sorted_keys props"
  by (simp add: BuildTree.simps comp_def)

lemma tree_ok_Nil: "tree_ok []"
  by (rule tree_ok.intros) simp_all

lemma sorted_keys_strict: "gomap_ok m \<Longrightarrow> sorted_wrt (<) (sorted_keys m)"
  by (simp add: strict_sorted_iff)

lemma BuildTree_ok:
  "jval_ok (JObj props) \<Longrightarrow> tree_ok (BuildTree props required)"
  "jval_ok (JObj raw) \<Longrightarrow> tree_ok (n_children (buildNode name raw req)) \<and>
     (n_children (buildNode name raw req) \<noteq> [] \<longrightarrow> n_type (buildNode name raw req) \<in> {''object'', ''array''})"
proof (induction props required and name raw req rule: BuildTree_buildNode.induct)
  case (1 props required)
  show ?case
  proof (rule tree_ok.intros)
    show "sorted_wrt (<) (map n_name (BuildTree props required))"
      using "1.prems" by (simp add: names_build sorted_keys_strict)
    fix n assume "n \<in> set (BuildTree props required)"
    then obtain name where name: "name \<in> set (sorted_keys props)"
        "n = buildNode name (obj_or_nil (map_of props name)) (name \<in> set required)"
      by (auto simp: BuildTree.simps)
    from "1.IH" [OF name(1) jval_ok_nil [OF "1.prems"]] name(2)
    show "tree_ok (n_children n)" and "n_children n \<noteq> [] \<Longrightarrow> n_type n \<in> {''object'', ''array''}" by blast+
  qed
next
  case (2 name raw req)
  have leaf: "n_children (leaf_node name raw req) = []" by (simp add: leaf_node_def)
  show ?case
    unfolding buildNode.simps [of name raw req] using "2.IH" leaf jval_ok_obj [OF "2.prems"] jval_ok_obj [OF jval_ok_obj [OF "2.prems"]]
    by (auto simp: Let_def tree_ok_Nil simp del: jval_ok.simps split: option.split)
qed


text \<open>C39: The tree built from a properties map has its siblings in strictly increasing name order
  at every level, so no path is ambiguous among siblings, and only nodes typed object or array
  have children: every other node, a map included, is a leaf.\<close>

theorem BuildTree_wf:
  assumes "jval_ok (JObj props)"
  shows "tree_ok (BuildTree props required)"
  using assms by (rule BuildTree_ok(1))

text \<open>The tree depends on the properties map and the required list only as map and set: no
  iteration order of the map or of \<open>required\<close> shows in the result.\<close>

theorem BuildTree_deterministic:
  assumes "gomap_ok props" "gomap_ok props'" "map_of props = map_of props'" "set required = set required'"
  shows "BuildTree props required = BuildTree props' required'"
  using sorted_keys_cong [OF assms(1-3)] assms(3,4) by (simp add: BuildTree.simps)

section \<open>Paths are unambiguous\<close>

definition plain_name :: "string \<Rightarrow> bool" where
  "plain_name s \<longleftrightarrow> s \<noteq> [] \<and> CHR ''.'' \<notin> set s \<and> CHR ''['' \<notin> set s"

inductive plain_tree :: "node list \<Rightarrow> bool" where
  "(\<And>n. n \<in> set nodes \<Longrightarrow> plain_name (n_name n)) \<Longrightarrow>
   (\<And>n. n \<in> set nodes \<Longrightarrow> plain_tree (n_children n)) \<Longrightarrow> plain_tree nodes"

lemma plain_tree_iff:
  "plain_tree nodes \<longleftrightarrow> (\<forall>n \<in> set nodes. plain_name (n_name n) \<and> plain_tree (n_children n))"
  by (subst plain_tree.simps) blast

lemma plain_tree_Cons [simp]:
  "plain_tree []"
  "plain_tree (n # nodes) \<longleftrightarrow> plain_name (n_name n) \<and> plain_tree (n_children n) \<and> plain_tree nodes"
  using plain_tree_iff [of "[]"] plain_tree_iff [of "n # nodes"] plain_tree_iff [of nodes] by simp_all

lemma plain_lineage: "(\<forall>ns. lineage nodes ns \<longrightarrow> plain_name (n_name (last ns))) \<Longrightarrow> plain_tree nodes"
proof (induction "size_list size nodes" arbitrary: nodes rule: less_induct)
  case less
  show ?case
  proof (rule plain_tree.intros)
    fix n assume n: "n \<in> set nodes"
    then have "lineage nodes [n]" by simp
    with less.prems show "plain_name (n_name n)" by fastforce
    have "size n < size_list size nodes + 1" using n by (induction nodes) auto
    with size_children [of n] have "size_list size (n_children n) < size_list size nodes" 
      using n by (induction nodes) auto
    moreover have "plain_name (n_name (last ms))" if "lineage (n_children n) ms" for ms
      using less.prems [rule_format, of "n # ms"] n that by (auto dest: lineage_ne)
    ultimately show "plain_tree (n_children n)" using less.hyps by blast
  qed
qed

definition cont :: "string \<Rightarrow> bool" where
  \<comment> \<open>how a path goes on after a name\<close>
  "cont s \<longleftrightarrow> s = [] \<or> hd s \<in> {CHR ''.'', CHR ''[''}"

lemma takeWhile_cont:
  assumes "plain_name a" "cont u"
  shows "takeWhile (\<lambda>c. c \<notin> {CHR ''.'', CHR ''[''}) (a @ u) = a"
proof -
  have "\<forall>c \<in> set a. c \<notin> {CHR ''.'', CHR ''[''}" using assms(1) by (auto simp: plain_name_def)
  with assms(2) show ?thesis by (cases u) (auto simp: cont_def takeWhile_append2)
qed

lemma name_split:
  assumes "plain_name a" "plain_name b" "cont u" "cont v" "a @ u = b @ v"
  shows "a = b"
  using takeWhile_cont [OF assms(1,3)] takeWhile_cont [OF assms(2,4)] assms(5) by metis

lemma Leaves_shape:
  assumes "plain_tree nodes" "(p, l) \<in> set (Leaves nodes pre)"
  shows "\<exists>n \<in> set nodes. \<exists>u. p = node_path pre n @ u \<and> cont u"
  using assms
proof (induction nodes pre rule: Leaves.induct)
  case (2 n nodes pre)
  from "2.prems"(1) have pl: "plain_tree nodes" "plain_name (n_name n)" "plain_tree (n_children n)"
    by simp_all
  from "2.prems"(2) consider "n_children n = []" "p = node_path pre n"
    | "n_children n \<noteq> []" "(p, l) \<in> set (Leaves (n_children n) (child_prefix pre n))"
    | "(p, l) \<in> set (Leaves nodes pre)"
    by (auto simp: Leaves_Cons split: if_splits)
  then show ?case
  proof cases
    case 1
    then show ?thesis by (auto simp: cont_def)
  next
    case 2
    have "node_path pre n \<noteq> []" using pl(2) by (auto simp: node_path_def plain_name_def)
    then have "\<exists>u. node_path (child_prefix pre n) m = node_path pre n @ u \<and> u \<noteq> [] \<and> cont u" for m
      by (auto simp: node_path_def child_prefix_def cont_def)
    moreover have "\<exists>m \<in> set (n_children n). \<exists>u. p = node_path (child_prefix pre n) m @ u \<and> cont u"
      using 2 "2.IH"(1,2) pl(3) by (auto simp: child_prefix_def split: if_splits)
    ultimately have "\<exists>u v. p = (node_path pre n @ u) @ v \<and> u \<noteq> [] \<and> cont u" by metis
    then show ?thesis by (auto simp: cont_def)
  next
    case 3
    with "2.IH"(3) pl(1) show ?thesis by auto
  qed
qed simp

lemma Leaves_distinct:
  "plain_tree nodes \<Longrightarrow> tree_ok nodes \<Longrightarrow> distinct (map fst (Leaves nodes pre))"
proof (induction nodes pre rule: Leaves.induct)
  case (2 n nodes pre)
  from "2.prems"(1) have pl: "plain_tree nodes" "plain_tree [n]" "plain_name (n_name n)" "plain_tree (n_children n)"
      "\<forall>m \<in> set nodes. plain_name (n_name m)"
    using plain_tree_iff [of nodes] by simp_all
  note ok = tree_ok_Cons [OF "2.prems"(2)]
  let ?own = "Leaves [n] pre"
  have "distinct (map fst ?own)"
  proof (cases "n_children n = []")
    case False
    then have own: "?own = Leaves (n_children n) (child_prefix pre n)" by (simp add: Leaves_Cons)
    show ?thesis
      using "2.IH"(1,2) pl(4) ok(2) False unfolding own by (cases "n_type n = ''array''") (simp_all add: child_prefix_def)
  qed (simp add: Leaves_Cons)
  moreover have "distinct (map fst (Leaves nodes pre))" using "2.IH"(3) pl(1) ok(1) by blast
  moreover have "p \<notin> fst ` set (Leaves nodes pre)" if own: "p \<in> fst ` set ?own" for p
  proof
    assume "p \<in> fst ` set (Leaves nodes pre)"
    then obtain m v where m: "m \<in> set nodes" "p = node_path pre m @ v" "cont v"
      using Leaves_shape [OF pl(1)] by force
    obtain u where u: "p = node_path pre n @ u" "cont u" using own Leaves_shape [OF pl(2)] by force
    have "n_name n @ u = n_name m @ v" using m(2) u(1) by (auto simp: node_path_def split: if_splits)
    with name_split [OF pl(3) _ u(2) m(3)] pl(5) m(1) ok(3) show False by blast
  qed
  ultimately show ?case
    by (auto simp: Leaves_Cons disjoint_iff)
qed simp

text \<open>C37: Every path the flattening of a built tree hands out addresses one leaf: when property
  names are non-empty and hold neither a dot nor a bracket, no two leaves share a path.\<close>

theorem Leaves_paths_distinct:
  assumes "jval_ok (JObj props)"
    and "\<forall>ns. lineage (BuildTree props required) ns \<longrightarrow> plain_name (n_name (last ns))"
  shows "distinct (map fst (Leaves (ComputeRequiredChain (BuildTree props required) topHeld) []))"
  unfolding Compute_paths using plain_lineage [OF assms(2)] BuildTree_ok(1) [OF assms(1)] by (rule Leaves_distinct)


section \<open>A sample tree\<close>

definition sample_props :: "(string \<times> jval) list" where
  "sample_props =
     [(''tags'', JObj [(''type'', JStr ''object''), (''additionalProperties'', JObj [])]),
      (''policy'', JObj [(''type'', JStr ''object''), (''required'', JList [JStr ''arn'']),
         (''properties'', JObj [(''arn'', JObj [(''type'', JStr ''string'')]),
                                (''count'', JObj [(''type'', JStr ''integer''), (''minimum'', JInt 1)])])]),
      (''rules'', JObj [(''type'', JStr ''array''), (''items'', JObj [(''properties'',
         JObj [(''port'', JObj [(''type'', JStr ''integer'')])])])])]"

definition sample_tree :: "node list" where
  "sample_tree = ComputeRequiredChain (BuildTree sample_props [''policy'']) False"

lemma sample_props_ok: "jval_ok (JObj sample_props)"
  by code_simp

theorem BuildTree_wf_witness: "tree_ok (BuildTree sample_props [''policy''])"
  by (rule BuildTree_wf) (rule sample_props_ok)

theorem BuildTree_deterministic_witness:
  "BuildTree sample_props [''policy'', ''policy''] = BuildTree (rev sample_props) [''policy'']"
proof (rule BuildTree_deterministic)
  show "gomap_ok sample_props" "gomap_ok (rev sample_props)" by code_simp+
  then show "map_of sample_props = map_of (rev sample_props)" by (simp add: map_of_inject_set gomap_ok_def)
qed simp

lemma sample_tree_paths: "map fst (Leaves sample_tree []) = [''policy.arn'', ''policy.count'', ''rules[0].port'', ''tags'']"
  by code_simp
lemma sample_tree_eq: "sample_tree =
  [Node ''policy'' ''object'' [] True
     [Node ''arn'' ''string'' [] True [] True [] JNull None None [],
      Node ''count'' ''integer'' [] False [] False [] JNull (Some 1) None []]
     True [] JNull None None [],
   Node ''rules'' ''array'' [] False
     [Node ''port'' ''integer'' [] False [] False [] JNull None None []] False [] JNull None None [],
   Node ''tags'' ''map'' [] False [] False [] JNull None None []]"
  by code_simp

lemma plain_tree_lineage: "plain_tree nodes \<Longrightarrow> lineage nodes ns \<Longrightarrow> plain_name (n_name (last ns))"
proof (induction nodes ns rule: lineage.induct)
  case (2 nodes n ms)
  then have "plain_name (n_name n)" "plain_tree (n_children n)" by (auto simp: plain_tree_iff [of nodes])
  with 2 show ?case by auto
qed simp

lemma sample_built: "BuildTree sample_props [''policy''] =
  [Node ''policy'' ''object'' [] True
     [Node ''arn'' ''string'' [] True [] False [] JNull None None [],
      Node ''count'' ''integer'' [] False [] False [] JNull (Some 1) None []]
     False [] JNull None None [],
   Node ''rules'' ''array'' [] False
     [Node ''port'' ''integer'' [] False [] False [] JNull None None []] False [] JNull None None [],
   Node ''tags'' ''map'' [] False [] False [] JNull None None []]"
  by code_simp

theorem Leaves_paths_distinct_witness:
  "distinct (map fst (Leaves (ComputeRequiredChain (BuildTree sample_props [''policy'']) True) []))"
proof (rule Leaves_paths_distinct)
  have "plain_tree (BuildTree sample_props [''policy''])"
    unfolding sample_built by (simp add: plain_name_def)
  then show "\<forall>ns. lineage (BuildTree sample_props [''policy'']) ns \<longrightarrow> plain_name (n_name (last ns))"
    using plain_tree_lineage by blast
qed (rule sample_props_ok)

theorem ComputeRequiredChain_decides_witness:
  "\<exists>policy arn. lineage sample_tree [policy, arn] \<and> n_name arn = ''arn'' \<and> n_chain arn \<and> n_required policy"
proof -
  let ?policy = "hd sample_tree"
  have l: "lineage (ComputeRequiredChain (BuildTree sample_props [''policy'']) False)
      [?policy, hd (n_children ?policy)]"
    unfolding sample_tree_def [symmetric] by (simp add: sample_tree_eq)
  from ComputeRequiredChain_decides [OF l] l show ?thesis
    unfolding sample_tree_def [symmetric]
    by (intro exI [of _ ?policy] exI [of _ "hd (n_children ?policy)"]) (simp add: sample_tree_eq)
qed

end
