(* ===== verification/Split.thy ===== *)
theory Split
  imports GoString
begin

text \<open>
  Splitting a multi-document YAML stream (\<open>internal/blueprint/split.go\<close>). Positions are byte
  offsets as in the source; the loop is a recursion on the search position. The documents are
  shown to be the groups of lines between separator lines.
\<close>

section \<open>The program\<close>

abbreviation "newline \<equiv> CHR 0x0A"
abbreviation "creturn \<equiv> CHR 0x0D"
abbreviation "htab \<equiv> CHR 0x09"

fun sep_scan :: "nat \<Rightarrow> bool \<Rightarrow> string \<Rightarrow> bool \<times> nat" where
  \<comment> \<open>the loop of \<open>isSeparator\<close> from offset i, over the rest of the input\<close>
  "sep_scan i isSep [] = (isSep, i)"
| "sep_scan i isSep (b # s) =
     (if b = newline then (isSep, i)
      else sep_scan (i + 1) (if b \<noteq> CHR '' '' \<and> b \<noteq> htab \<and> b \<noteq> creturn then False else isSep) s)"

definition isSeparator :: "string \<Rightarrow> nat \<Rightarrow> bool \<times> nat" where
  "isSeparator inp sepStart =
     (if length inp < sepStart + 3 \<or> inp ! sepStart \<noteq> CHR ''-'' \<or> inp ! (sepStart + 1) \<noteq> CHR ''-'' \<or>
         inp ! (sepStart + 2) \<noteq> CHR ''-''
      then (False, 0)
      else sep_scan (sepStart + 3) True (drop (sepStart + 3) inp))"

definition clean_doc :: "string \<Rightarrow> string" where
  \<comment> \<open>the trimming of one document\<close>
  "clean_doc rawDoc =
     (let docBytes = trim_space rawDoc in
      if creturn \<in> set docBytes
      then trim_right_set (replace_all docBytes [creturn, newline] [newline]) [creturn]
      else docBytes)"

definition add_doc :: "string list \<Rightarrow> string \<Rightarrow> string list" where
  "add_doc docs docBytes = (if 0 < length docBytes then docs @ [docBytes] else docs)"

definition slice :: "string \<Rightarrow> nat \<Rightarrow> nat \<Rightarrow> string" where
  \<comment> \<open>\<open>in[i:j]\<close>\<close>
  "slice s i j = take (j - i) (drop i s)"

lemma sep_scan_ge: "sep_scan i b s = (ok, e) \<Longrightarrow> i \<le> e"
  by (induction i b s rule: sep_scan.induct) (force split: if_splits)+

lemma isSeparator_end: "isSeparator inp p = (True, e) \<Longrightarrow> p < e"
  by (auto simp: isSeparator_def split: if_splits dest: sep_scan_ge)

function split_loop :: "string \<Rightarrow> nat \<Rightarrow> nat \<Rightarrow> string list \<Rightarrow> nat \<times> string list" where
  \<comment> \<open>document start and documents when the search ends\<close>
  "split_loop inp docStart searchPos docs =
     (if length inp \<le> searchPos then (docStart, docs)
      else case go_index (drop searchPos inp) (newline # ''---'') of
        None \<Rightarrow> (docStart, docs)
      | Some idx \<Rightarrow>
          let newlinePos = searchPos + idx; sepStart = newlinePos + 1 in
          (case isSeparator inp sepStart of
             (False, _) \<Rightarrow> split_loop inp docStart sepStart docs
           | (True, lineEnd) \<Rightarrow>
               let docs = add_doc docs (clean_doc (slice inp docStart sepStart)) in
               if lineEnd < length inp then split_loop inp (lineEnd + 1) lineEnd docs
               else split_loop inp (length inp) (length inp) docs))"
  by pat_completeness auto
termination
  by (relation "measure (\<lambda>(inp, d, p, docs). length inp - p)") (auto dest!: isSeparator_end [OF sym])

declare split_loop.simps [simp del]

definition SplitDocs :: "string \<Rightarrow> string list" where
  "SplitDocs inp =
     (let (docStart, searchPos) =
            (case isSeparator inp 0 of
               (True, lineEnd) \<Rightarrow> if lineEnd < length inp then (lineEnd + 1, lineEnd) else (length inp, length inp)
             | (False, _) \<Rightarrow> (0, 0));
          (docStart, docs) = split_loop inp docStart searchPos []
      in if docStart < length inp then add_doc docs (clean_doc (drop docStart inp)) else docs)"

section \<open>The documents as groups of lines\<close>

function lines_of :: "string \<Rightarrow> string list" where
  \<comment> \<open>the lines of a text, each with the newline that ends it\<close>
  "lines_of s =
     (case dropWhile (\<lambda>c. c \<noteq> newline) s of
        [] \<Rightarrow> [s]
      | _ # rest \<Rightarrow> (takeWhile (\<lambda>c. c \<noteq> newline) s @ [newline]) # lines_of rest)"
  by pat_completeness auto
termination
proof (relation "measure length")
  fix s c rest assume "dropWhile (\<lambda>c. c \<noteq> newline) s = c # rest"
  then have "length (c # rest) \<le> length s" by (metis length_dropWhile_le)
  then show "(rest, s) \<in> measure length" by simp
qed simp

declare lines_of.simps [simp del]

definition separator_line :: "string \<Rightarrow> bool" where
  "separator_line l \<longleftrightarrow> (\<exists>ws. set ws \<subseteq> {CHR '' '', htab, creturn} \<and> l \<in> {''---'' @ ws, ''---'' @ ws @ [newline]})"

fun doc_groups :: "string \<Rightarrow> string list \<Rightarrow> string list" where
  \<comment> \<open>the texts between separator lines, the first continuing \<open>acc\<close>\<close>
  "doc_groups acc [] = [acc]"
| "doc_groups acc (l # ls) =
     (if separator_line l then acc # doc_groups [] ls else doc_groups (acc @ l) ls)"

definition documents :: "string \<Rightarrow> string list" where
  "documents s = filter (\<lambda>d. d \<noteq> []) (map clean_doc (doc_groups [] (lines_of s)))"


section \<open>Lines and separators\<close>

lemma lines_last: "newline \<notin> set s \<Longrightarrow> lines_of s = [s]"
proof -
  assume "newline \<notin> set s"
  then have "dropWhile (\<lambda>c. c \<noteq> newline) s = []" by (auto simp: dropWhile_eq_Nil_conv)
  then show ?thesis by (subst lines_of.simps) (simp only: list.case)
qed

lemma lines_first: "newline \<notin> set l \<Longrightarrow> lines_of (l @ newline # rest) = (l @ [newline]) # lines_of rest"
  by (subst lines_of.simps) (simp add: takeWhile_append dropWhile_append)

lemma first_line_cases:
  obtains (Last) "newline \<notin> set s" | (First) l rest where "s = l @ newline # rest" "newline \<notin> set l"
  by (metis split_list_first)

lemma sep_scan_end:
  "newline \<notin> set l \<Longrightarrow> sep_scan i b l = (b \<and> set l \<subseteq> {CHR '' '', htab, creturn}, i + length l)"
  "newline \<notin> set l \<Longrightarrow> sep_scan i b (l @ newline # s) = (b \<and> set l \<subseteq> {CHR '' '', htab, creturn}, i + length l)"
  by (induction l arbitrary: i b) auto

lemma dashes_iff:
  "\<not> (length s < p + 3 \<or> s ! p \<noteq> CHR ''-'' \<or> s ! (p + 1) \<noteq> CHR ''-'' \<or> s ! (p + 2) \<noteq> CHR ''-'') \<longleftrightarrow>
     (\<exists>r. drop p s = ''---'' @ r)"
proof (cases "length s < p + 3")
  case True
  then have "length (drop p s) < 3" by simp
  moreover have "3 \<le> length (''---'' @ r)" for r by simp
  ultimately show ?thesis using True by (metis not_le)
next
  case False
  then obtain a b c r where d: "drop p s = a # b # c # r"
    by (metis (no_types) Cons_nth_drop_Suc Suc_le_lessD add_Suc_right add_Suc_shift le_add1
        linorder_not_less numeral_3_eq_3 order_trans plus_1_eq_Suc add.commute add_0 nat_less_le)
  then have "s ! p = a" "s ! (p + 1) = b" "s ! (p + 2) = c"
    using nth_drop [of p s 0] nth_drop [of p s 1] nth_drop [of p s 2] False by auto
  with False d show ?thesis by auto
qed


lemma first_line:
  obtains l where "lines_of s = [l]" "s = l" "newline \<notin> set l"
  | l rest where "lines_of s = (l @ [newline]) # lines_of rest" "s = l @ newline # rest" "newline \<notin> set l"
  using lines_last lines_first first_line_cases [of s] by metis

lemma separator_line_iff:
  assumes "newline \<notin> set l"
  shows "separator_line l \<longleftrightarrow> (\<exists>ws. l = ''---'' @ ws \<and> set ws \<subseteq> {CHR '' '', htab, creturn})"
    and "separator_line (l @ [newline]) \<longleftrightarrow> (\<exists>ws. l = ''---'' @ ws \<and> set ws \<subseteq> {CHR '' '', htab, creturn})"
proof -
  show "separator_line l \<longleftrightarrow> (\<exists>ws. l = ''---'' @ ws \<and> set ws \<subseteq> {CHR '' '', htab, creturn})"
    using assms unfolding separator_line_def by auto
  have "l @ [newline] \<noteq> ''---'' @ ws" if "set ws \<subseteq> {CHR '' '', htab, creturn}" for ws
  proof
    assume "l @ [newline] = ''---'' @ ws"
    then have "newline \<in> set (''---'' @ ws)" by (metis in_set_conv_decomp)
    with that show False by auto
  qed
  then show "separator_line (l @ [newline]) \<longleftrightarrow> (\<exists>ws. l = ''---'' @ ws \<and> set ws \<subseteq> {CHR '' '', htab, creturn})"
    unfolding separator_line_def append_assoc [symmetric] by blast
qed

lemma isSeparator_line:
  assumes "drop p inp = l @ t" "newline \<notin> set l" "t = [] \<or> hd t = newline" "l \<noteq> [] \<or> p \<le> length inp"
  shows "isSeparator inp p = (True, e) \<longleftrightarrow>
    (\<exists>ws. l = ''---'' @ ws \<and> set ws \<subseteq> {CHR '' '', htab, creturn}) \<and> e = p + length l"
proof (cases "\<exists>r. drop p inp = ''---'' @ r")
  case True
  then obtain r where r: "l @ t = ''---'' @ r" using assms(1) by auto
  have "\<exists>ws. l = ''---'' @ ws \<and> r = ws @ t"
    using r assms(2,3) by (auto simp: append_eq_Cons_conv Cons_eq_append_conv)
  then obtain ws where ws: "l = ''---'' @ ws" "r = ws @ t" by blast
  have "drop 3 (drop p inp) = ws @ t" using r ws assms(1) by simp
  then have d: "drop (p + 3) inp = ws @ t" by (simp add: add.commute)
  have "sep_scan (p + 3) True (ws @ t) = (set ws \<subseteq> {CHR '' '', htab, creturn}, p + 3 + length ws)"
    using assms(2,3) ws(1) sep_scan_end [of ws] by (cases t) auto
  with True ws(1) show ?thesis
    unfolding isSeparator_def using dashes_iff [of inp p] d by auto
next
  case False
  then have "isSeparator inp p = (False, 0)" unfolding isSeparator_def using dashes_iff [of inp p] by auto
  with False assms(1) show ?thesis by auto
qed

section \<open>The loop against the groups\<close>

definition groups_from :: "string \<Rightarrow> nat \<Rightarrow> nat \<Rightarrow> string list" where
  \<comment> \<open>the documents that remain: the current one starts at d, the search is at p\<close>
  "groups_from inp d p =
     (case dropWhile (\<lambda>c. c \<noteq> newline) (drop p inp) of
        [] \<Rightarrow> [drop d inp]
      | _ # rest \<Rightarrow> doc_groups (slice inp d (length inp - length rest)) (lines_of rest))"

lemma groups_from_last: "newline \<notin> set (drop p inp) \<Longrightarrow> groups_from inp d p = [drop d inp]"
proof -
  assume "newline \<notin> set (drop p inp)"
  then have "dropWhile (\<lambda>c. c \<noteq> newline) (drop p inp) = []" by (auto simp: dropWhile_eq_Nil_conv)
  then show ?thesis by (simp only: groups_from_def list.case)
qed

lemma groups_from_line:
  "drop p inp = l @ newline # rest \<Longrightarrow> newline \<notin> set l \<Longrightarrow>
     groups_from inp d p = doc_groups (slice inp d (length inp - length rest)) (lines_of rest)"
  by (simp add: groups_from_def dropWhile_append)

lemma slice_extend:
  assumes "d \<le> k" "drop k inp = u @ v" "k \<le> length inp"
  shows "slice inp d (length inp - length v) = slice inp d k @ u"
proof -
  have "drop d inp = take (k - d) (drop d inp) @ u @ v"
    using assms by (metis append_take_drop_id drop_drop le_add_diff_inverse2)
  moreover have "length (drop d inp) = length inp - d" by simp
  moreover have len: "length (take (k - d) (drop d inp)) = k - d" using assms by simp
  moreover have "length inp - length v - d = (k - d) + length u"
  proof -
    have "length inp - k = length u + length v" using assms(2) by (metis length_append length_drop)
    with assms show ?thesis by simp
  qed
  ultimately show ?thesis
    unfolding slice_def by (metis append.assoc append_eq_conv_conj length_append)
qed

lemma slice_all: "d \<le> k \<Longrightarrow> k \<le> length inp \<Longrightarrow> slice inp d k @ drop k inp = drop d inp"
  by (metis append_take_drop_id drop_drop le_add_diff_inverse2 slice_def)

text \<open>At a newline the next line is looked at.\<close>

lemma groups_from_newline:
  assumes "drop p inp = newline # s" "d \<le> p + 1"
  shows "groups_from inp d p = doc_groups (slice inp d (p + 1)) (lines_of s)"
proof -
  have "length inp - p = Suc (length s)" using assms(1) by (metis length_Cons length_drop)
  then have "length inp - length s = p + 1" by simp
  with groups_from_line [of p inp "[]" s d] assms(1) show ?thesis by simp
qed

lemma groups_from_skip:
  assumes "p < length inp" "d \<le> p + 1"
    and "inp ! p = newline \<Longrightarrow> \<not> separator_line (hd (lines_of (drop (p + 1) inp)))"
  shows "groups_from inp d p = groups_from inp d (p + 1)"
proof (cases "inp ! p = newline")
  case False
  then show ?thesis using assms(1) by (simp add: groups_from_def Cons_nth_drop_Suc [symmetric])
next
  case True
  let ?s = "drop (p + 1) inp"
  have p: "drop p inp = newline # ?s" using True assms(1) by (simp add: Cons_nth_drop_Suc [symmetric])
  show ?thesis
  proof (cases ?s rule: first_line)
    case (1 l)
    then show ?thesis
      using groups_from_newline [OF p assms(2)] groups_from_last [of "p + 1" inp d] assms
        slice_all [of d "p + 1" inp] True by simp
  next
    case (2 l rest)
    have "slice inp d (length inp - length rest) = slice inp d (p + 1) @ l @ [newline]"
      using slice_extend [of d "p + 1" inp "l @ [newline]" rest] 2(2) assms by simp
    with 2 show ?thesis
      using groups_from_newline [OF p assms(2)] groups_from_line [of "p + 1" inp l rest d] assms(3) [OF True]
      by simp
  qed
qed


lemma groups_from_gap:
  assumes "p \<le> k" "k \<le> length inp" "d \<le> p + 1"
    and "\<forall>j. p \<le> j \<and> j < k \<longrightarrow> \<not> prefix (newline # ''---'') (drop j inp)"
  shows "groups_from inp d p = groups_from inp d k"
  using assms
proof (induction k rule: dec_induct)
  case base
  then show ?case by simp
next
  case (step j)
  have "\<not> separator_line (hd (lines_of (drop (j + 1) inp)))" if nl: "inp ! j = newline"
  proof
    assume sep: "separator_line (hd (lines_of (drop (j + 1) inp)))"
    have j: "drop j inp = newline # drop (j + 1) inp"
      using nl step.prems step.hyps by (simp add: Cons_nth_drop_Suc [symmetric])
    have "prefix ''---'' (drop (j + 1) inp)"
    proof (cases "drop (j + 1) inp" rule: first_line)
      case (1 l)
      with sep separator_line_iff(1) show ?thesis by auto
    next
      case (2 l rest)
      with sep separator_line_iff(2) show ?thesis by auto
    qed
    with j step.prems step.hyps show False by auto
  qed
  with step groups_from_skip [of j inp d] show ?case by simp
qed

definition kept :: "string list \<Rightarrow> string list" where
  "kept ds = filter (\<lambda>d. d \<noteq> []) (map clean_doc ds)"

lemma add_doc_kept: "add_doc docs (clean_doc d) = docs @ kept [d]"
  by (simp add: add_doc_def kept_def)

lemma clean_empty [simp]: "clean_doc [] = []"
  by (simp add: clean_doc_def trim_space_def)

lemma kept_Cons: "kept (d # ds) = kept [d] @ kept ds"
  by (simp add: kept_def)

lemma drop_line_end: "drop p inp = l @ newline # rest \<Longrightarrow> drop (p + length l) inp = newline # rest"
  by (metis add.commute append_eq_conv_conj drop_drop)

lemma groups_from_separator:
  assumes "drop p inp = newline # s" "d \<le> p + 1" "isSeparator inp (p + 1) = (True, e)"
  shows "groups_from inp d p = slice inp d (p + 1) #
      (if e < length inp then groups_from inp (e + 1) e else [[]])"
    and "e < length inp \<or> e = length inp" "p + 1 \<le> e"
proof -
  have ds: "drop (p + 1) inp = s" using assms(1) by (metis add.commute drop0 drop_Suc_Cons drop_drop plus_1_eq_Suc)
  have p: "p + 1 \<le> length inp" using assms(1) by (metis Suc_eq_plus1 Suc_leI drop_eq_Nil2 list.discI not_le)
  have "groups_from inp d p = slice inp d (p + 1) #
      (if e < length inp then groups_from inp (e + 1) e else [[]]) \<and> e \<le> length inp \<and> p + 1 \<le> e"
  proof (cases s rule: first_line)
    case (1 l)
    have "separator_line l" "e = p + 1 + length l"
      using isSeparator_line [of "p + 1" inp l "[]" e] assms(3) 1 ds p separator_line_iff(1) by auto
    moreover have "length inp = p + 1 + length l" using ds 1(2) p by (metis le_add_diff_inverse length_drop)
    ultimately show ?thesis
      using groups_from_newline [OF assms(1,2)] 1(1) by simp
  next
    case (2 l rest)
    have sep: "separator_line (l @ [newline])" "e = p + 1 + length l"
      using isSeparator_line [of "p + 1" inp l "newline # rest" e] assms(3) 2 ds p separator_line_iff(2) by auto
    have e: "drop e inp = newline # rest" using drop_line_end [of "p + 1" inp l rest] ds 2(2) sep(2) by simp
    then have "e < length inp" by (metis drop_eq_Nil2 list.discI not_le)
    moreover have "groups_from inp (e + 1) e = doc_groups [] (lines_of rest)"
      using groups_from_newline [OF e, of "e + 1"] by (simp add: slice_def)
    ultimately show ?thesis
      using groups_from_newline [OF assms(1,2)] 2(1) sep by simp
  qed
  then show "groups_from inp d p = slice inp d (p + 1) #
      (if e < length inp then groups_from inp (e + 1) e else [[]])"
    "e < length inp \<or> e = length inp" "p + 1 \<le> e" by auto
qed

definition finish :: "string \<Rightarrow> nat \<times> string list \<Rightarrow> string list" where
  \<comment> \<open>what follows the loop\<close>
  "finish inp = (\<lambda>(docStart, docs).
     if docStart < length inp then add_doc docs (clean_doc (drop docStart inp)) else docs)"

lemma finish_kept: "finish inp (d, docs) = docs @ kept [drop d inp]"
  by (auto simp: finish_def add_doc_kept kept_def)

lemma go_index_at: "go_index s sep = Some i \<Longrightarrow> prefix sep (drop i s)"
  by (induction s arbitrary: i) (auto simp: has_prefix_iff split: if_splits)

lemma split_loop_groups:
  assumes "d \<le> p + 1" "p \<le> length inp"
  shows "finish inp (split_loop inp d p docs) = docs @ kept (groups_from inp d p)"
  using assms
proof (induction inp d p docs rule: split_loop.induct)
  case (1 inp d p docs)
  show ?case
  proof (cases "length inp \<le> p")
    case True
    with groups_from_last [of p inp d] show ?thesis by (simp add: split_loop.simps [of inp d p] finish_kept)
  next
    case False
    show ?thesis
    proof (cases "go_index (drop p inp) (newline # ''---'')")
      case None
      have "\<not> prefix (newline # ''---'') (drop j inp)" if "p \<le> j" for j
      proof
        assume "prefix (newline # ''---'') (drop j inp)"
        then obtain v where "drop j inp = (newline # ''---'') @ v" by (rule prefixE)
        then have "drop p inp = take (j - p) (drop p inp) @ (newline # ''---'') @ v"
          using that by (metis append_take_drop_id drop_drop le_add_diff_inverse2)
        with None show False unfolding go_index_None_iff by blast
      qed
      with groups_from_gap [of p "length inp" inp d] groups_from_last [of "length inp" inp d] 1 None False
      show ?thesis by (simp add: split_loop.simps [of inp d p] finish_kept)
    next
      case (Some idx)
      let ?q = "p + idx"
      have q: "prefix (newline # ''---'') (drop ?q inp)"
        using go_index_at [OF Some] by (simp add: add.commute)
      then obtain s where s: "drop ?q inp = newline # s" by (auto simp: prefix_def)
      then have ql: "?q < length inp" by (metis drop_eq_Nil2 list.discI not_le)
      have "\<not> prefix (newline # ''---'') (drop j inp)" if "p \<le> j \<and> j < ?q" for j
        using go_index_first [OF Some, of "j - p"] that by (simp add: less_diff_conv2 add.commute)
      then have gap: "groups_from inp d p = groups_from inp d ?q"
        using groups_from_gap [of p ?q inp d] ql 1(4) by simp
      obtain ok e where sep: "isSeparator inp (?q + 1) = (ok, e)" by force
      show ?thesis
      proof (cases ok)
        case True
        with sep have sepT: "isSeparator inp (?q + 1) = (True, e)" by simp
        note g = groups_from_separator [OF s _ sepT, of d]
        have "d \<le> ?q + 1" using 1(4) by simp
        with g(1) have g1: "kept (groups_from inp d ?q) = kept [slice inp d (?q + 1)] @
            (if e < length inp then kept (groups_from inp (e + 1) e) else [])"
          using kept_Cons [of "slice inp d (?q + 1)"] by (auto simp: kept_def)
        have e: "e \<le> length inp" using g(2) 1(4) by auto
        show ?thesis
          using 1(1) [OF False Some refl refl sepT [symmetric] refl refl]
            1(2) [OF False Some refl refl sepT [symmetric] refl refl] Some sepT False gap g1 e
            groups_from_last [of "length inp" inp "length inp"]
          by (auto simp: split_loop.simps [of inp d p] Let_def add_doc_kept kept_def)
      next
        case nok: False
        with sep have sepF: "isSeparator inp (?q + 1) = (False, e)" by simp
        have ds: "drop (?q + 1) inp = s" using s by (metis add.commute drop0 drop_Suc_Cons drop_drop plus_1_eq_Suc)
        have "\<not> separator_line (hd (lines_of s))"
        proof (cases s rule: first_line)
          case (1 l)
          then show ?thesis
            using isSeparator_line [of "?q + 1" inp l "[]"] sepF ds ql separator_line_iff(1) [of l] by auto
        next
          case (2 l rest)
          then show ?thesis
            using isSeparator_line [of "?q + 1" inp l "newline # rest"] sepF ds ql separator_line_iff(2) [of l]
            by auto
        qed
        then have "groups_from inp d ?q = groups_from inp d (?q + 1)"
          using groups_from_skip [of ?q inp d] ql 1(4) ds by simp
        with gap show ?thesis
          using 1(3) [OF False Some refl refl sepF [symmetric] refl] Some sepF False ql 1(4)
          by (simp add: split_loop.simps [of inp d p] Let_def)
      qed
    qed
  qed
qed


section \<open>Properties\<close>

lemma SplitDocs_finish:
  "SplitDocs inp = finish inp (case isSeparator inp 0 of
     (True, lineEnd) \<Rightarrow> if lineEnd < length inp then split_loop inp (lineEnd + 1) lineEnd []
       else split_loop inp (length inp) (length inp) []
   | (False, _) \<Rightarrow> split_loop inp 0 0 [])"
  by (auto simp: SplitDocs_def finish_def split: prod.splits bool.splits)

lemma documents_kept: "documents inp = kept (doc_groups [] (lines_of inp))"
  by (simp add: documents_def kept_def)

text \<open>C33: \<open>SplitDocs\<close>, which searches for newline-dash sequences by offset, returns the cleaned,
  non-empty groups of lines between the separator lines of the stream, in order.\<close>

theorem SplitDocs_documents: "SplitDocs inp = documents inp"
proof (cases inp rule: first_line)
  case (1 l)
  have sep: "isSeparator inp 0 = (True, e) \<longleftrightarrow> separator_line l \<and> e = length l" for e
    using isSeparator_line [of 0 inp l "[]" e] 1 separator_line_iff(1) by auto
  obtain ok e where r: "isSeparator inp 0 = (ok, e)" by force
  show ?thesis
  proof (cases ok)
    case True
    with r sep have "separator_line l" "e = length inp" using 1 by auto
    with r True 1 split_loop_groups [of "length inp" "length inp" inp "[]"] groups_from_last [of "length inp" inp "length inp"]
    show ?thesis by (simp add: SplitDocs_finish documents_kept kept_def)
  next
    case False
    with r sep have "\<not> separator_line l" by auto
    with r False 1 split_loop_groups [of 0 0 inp "[]"] groups_from_last [of 0 inp 0]
    show ?thesis by (simp add: SplitDocs_finish documents_kept)
  qed
next
  case (2 l rest)
  have sep: "isSeparator inp 0 = (True, e) \<longleftrightarrow> separator_line (l @ [newline]) \<and> e = length l" for e
    using isSeparator_line [of 0 inp l "newline # rest" e] 2 separator_line_iff(2) by auto
  obtain ok e where r: "isSeparator inp 0 = (ok, e)" by force
  show ?thesis
  proof (cases ok)
    case True
    with r sep have e: "separator_line (l @ [newline])" "e = length l" by auto
    have "groups_from inp (e + 1) e = doc_groups [] (lines_of rest)"
      using groups_from_newline [of e inp rest "e + 1"] 2(2) e(2) by (simp add: slice_def)
    moreover have "e < length inp" using 2(2) e(2) by simp
    ultimately show ?thesis
      using r True e(1) 2(1) split_loop_groups [of "e + 1" e inp "[]"]
      by (simp add: SplitDocs_finish documents_kept kept_def)
  next
    case False
    with r sep have "\<not> separator_line (l @ [newline])" by auto
    moreover have "groups_from inp 0 0 = doc_groups (l @ [newline]) (lines_of rest)"
      using groups_from_line [of 0 inp l rest 0] 2 by (simp add: slice_def)
    ultimately show ?thesis
      using r False 2(1) split_loop_groups [of 0 0 inp "[]"] by (simp add: SplitDocs_finish documents_kept)
  qed
qed

lemma decode_snoc:
  assumes "code_of x < 0x80"
  shows "decode_rune (c # s @ [x]) = decode_rune (c # s)"
proof (cases s)
  case Nil
  then show ?thesis using assms
    by (auto simp: decode_rune.simps(2) dec2_def is_cont_def split: if_splits)
next
  case (Cons c1 s1)
  show ?thesis
  proof (cases s1)
    case Nil
    with Cons assms show ?thesis
      by (auto simp: decode_rune.simps(2) dec3_def is_cont_def split: option.split)
  next
    case (Cons c2 s2)
    with \<open>s = c1 # s1\<close> assms show ?thesis
      by (cases s2) (auto simp: decode_rune.simps(2) dec4_def is_cont_def split: option.split)
  qed
qed

lemma segs_snoc: "code_of x < 0x80 \<Longrightarrow> segs (s @ [x]) = segs s @ [(code_of x, [x])]"
proof (induction s rule: segs.induct)
  case (2 c s)
  obtain r w where dec: "decode_rune (c # s) = (r, w)" by force
  then have "w \<le> length (c # s)" using decode_width_le by blast
  with 2 dec decode_snoc [of x c s] show ?case by (auto simp: Let_def)
qed simp

lemma trim_both_snoc:
  "P y \<Longrightarrow> rev (dropWhile P (rev (dropWhile P (xs @ [y])))) = rev (dropWhile P (rev (dropWhile P xs)))"
  by (induction xs) auto

lemma clean_newline: "clean_doc (s @ [newline]) = clean_doc s"
proof -
  have "is_space (code_of newline)" by (simp add: is_space_def)
  then have "trim_space (s @ [newline]) = trim_space s"
    unfolding trim_space_def by (subst segs_snoc) (simp_all add: trim_both_snoc del: dropWhile_append)
  then show ?thesis by (simp add: clean_doc_def)
qed

definition doc_ok :: "string \<Rightarrow> bool" where
  \<comment> \<open>a document that splitting leaves as it is\<close>
  "doc_ok d \<longleftrightarrow> d \<noteq> [] \<and> creturn \<notin> set d \<and> trim_space d = d \<and> list_all (\<lambda>l. \<not> separator_line l) (lines_of d)"

lemma clean_ok: "doc_ok d \<Longrightarrow> clean_doc d = d"
  by (simp add: doc_ok_def clean_doc_def)

lemma doc_groups_text:
  assumes "list_all (\<lambda>l. \<not> separator_line l) (lines_of d)"
  shows "doc_groups acc (lines_of (d @ newline # s)) = doc_groups (acc @ d @ [newline]) (lines_of s)"
    and "doc_groups acc (lines_of d) = [acc @ d]"
  using assms
proof (induction d arbitrary: acc rule: lines_of.induct)
  case (1 d)
  {
    case 1
    show ?case
    proof (cases d rule: first_line)
      case (1 l)
      then have "separator_line (l @ [newline]) = separator_line l"
        using separator_line_iff [of l] by blast
      with 1 \<open>list_all _ (lines_of d)\<close> lines_first [of l s] show ?thesis by simp
    next
      case (2 l rest)
      with 1 "1.IH"(1) [of newline rest "acc @ l @ [newline]"] lines_first [of l "rest @ newline # s"]
      show ?thesis by (simp add: dropWhile_append)
    qed
  next
    case 2
    show ?case
    proof (cases d rule: first_line)
      case (1 l)
      with 2 show ?thesis by simp
    next
      case (2 l rest)
      with \<open>list_all _ (lines_of d)\<close> "1.IH"(2) [of newline rest "acc @ l @ [newline]"]
      show ?thesis by (simp add: dropWhile_append)
    qed
  }
qed

text \<open>Joining documents with separator lines and splitting the stream gives the documents
  back, whatever their number, when each is trimmed, non-empty and has no separator line of
  its own.\<close>

theorem SplitDocs_join:
  assumes "\<forall>d \<in> set ds. doc_ok d" "ds \<noteq> []"
  shows "SplitDocs (go_join ([newline] @ ''---'' @ [newline]) ds) = ds"
proof -
  have sep: "lines_of (''---'' @ newline # s) = (''---'' @ [newline]) # lines_of s" for s
    by (rule lines_first) simp
  have sepl: "separator_line (''---'' @ [newline])" by (auto simp: separator_line_def intro!: exI [of _ "[]"])
  have "kept (doc_groups [] (lines_of (go_join ([newline] @ ''---'' @ [newline]) ds))) = ds"
    using assms
  proof (induction ds)
    case (Cons d ds)
    show ?case
    proof (cases ds)
      case Nil
      with Cons.prems doc_groups_text(2) [of d "[]"] show ?thesis
        by (simp add: doc_ok_def kept_def clean_doc_def)
    next
      case (Cons e es)
      then have "go_join ([newline] @ ''---'' @ [newline]) (d # ds) =
          d @ newline # ''---'' @ newline # go_join ([newline] @ ''---'' @ [newline]) ds" by simp
      moreover have "doc_groups [] (lines_of (d @ newline # ''---'' @ newline # s)) =
          (d @ [newline]) # doc_groups [] (lines_of s)" for s
        using doc_groups_text(1) [of d "[]" "''---'' @ newline # s"] Cons.prems sepl
        by (simp only: sep doc_groups.simps) (simp add: doc_ok_def)
      ultimately have "kept (doc_groups [] (lines_of (go_join ([newline] @ ''---'' @ [newline]) (d # ds)))) =
          kept [d @ [newline]] @ kept (doc_groups [] (lines_of (go_join ([newline] @ ''---'' @ [newline]) ds)))"
        using kept_Cons by metis
      moreover have "kept [d @ [newline]] = [d]"
        using Cons.prems clean_ok by (auto simp: kept_def clean_newline doc_ok_def)
      ultimately show ?thesis using Cons.IH Cons.prems Cons by simp
    qed
  qed simp
  then show ?thesis by (simp add: SplitDocs_documents documents_kept)
qed


theorem SplitDocs_join_witness:
  "SplitDocs (''a: 1'' @ [newline] @ ''---'' @ [newline] @ ''b: 2'') = [''a: 1'', ''b: 2'']"
proof -
  have "\<forall>d \<in> set [''a: 1'', ''b: 2'']. doc_ok d"
  proof -
    have "lines_of ''a: 1'' = [''a: 1'']" "lines_of ''b: 2'' = [''b: 2'']"
      by (rule lines_last, simp)+
    moreover have "trim_space ''a: 1'' = ''a: 1''" "trim_space ''b: 2'' = ''b: 2''" by code_simp+
    ultimately show ?thesis by (auto simp: doc_ok_def separator_line_def)
  qed
  from SplitDocs_join [OF this] show ?thesis by simp
qed

end
