(* ===== verification/Crd.thy ===== *)
theory Crd
  imports SchemaTree Split
begin

text \<open>
  CustomResourceDefinitions as kinds (\<open>internal/schema/crd.go\<close> and the methods of \<open>tree.go\<close>):
  decoding, the preferred version, and the memoised trees. A memo lives behind a pointer that
  copies of a CRD share, so it is an address into a list of memos, the heap, which the methods
  thread; the mutex makes each call one step. The YAML decoder is a parameter.
\<close>

section \<open>Kinds\<close>

record version =
  v_name :: string
  v_served :: bool
  v_storage :: bool
  v_deprecated :: bool
  v_properties :: "(string \<times> jval) list"

record crd =
  crd_group :: string
  crd_kind :: string
  crd_plural :: string
  crd_scope :: string
  crd_categories :: "string list"
  crd_versions :: "version list"
  crd_native :: bool
  crd_function :: bool
  crd_cache :: "nat option"

record crd_doc =
  doc_kind :: string
  doc_group :: string
  doc_scope :: string
  doc_names_kind :: string
  doc_plural :: string
  doc_categories :: "string list"
  doc_versions :: "version list"

type_synonym memo = "node list gomap"
type_synonym heap = "memo list"
type_synonym decode_crd = "string \<Rightarrow> msg + crd_doc"

definition Cached :: "heap \<Rightarrow> crd \<Rightarrow> crd \<times> heap" where
  "Cached h c = (if crd_cache c = None then (c\<lparr>crd_cache := Some (length h)\<rparr>, h @ [[]]) else (c, h))"

definition function_group :: "string \<Rightarrow> bool" where
  "function_group g \<longleftrightarrow> has_suffix g ''.fn.crossplane.io'' \<or> contains g ''.fn.''"

function (sequential) ParseCRDs_from :: "decode_crd \<Rightarrow> nat \<Rightarrow> heap \<Rightarrow> crd list \<Rightarrow> string list \<Rightarrow> (msg + crd list) \<times> heap" where
  "ParseCRDs_from decode i h out [] = (Inr out, h)"
| "ParseCRDs_from decode i h out (d # docs) =
     (case decode d of
        Inl err \<Rightarrow> (Inl (Msg ''document %d: %w'' [Num i, Ctx err]), h)
      | Inr doc \<Rightarrow>
          if doc_kind doc \<noteq> ''CustomResourceDefinition'' then ParseCRDs_from decode (i + 1) h out docs
          else let c = \<lparr>crd_group = doc_group doc, crd_kind = doc_names_kind doc, crd_plural = doc_plural doc,
                 crd_scope = doc_scope doc, crd_categories = doc_categories doc,
                 crd_versions = map (\<lambda>v. \<lparr>v_name = v_name v, v_served = v_served v, v_storage = v_storage v,
                   v_deprecated = v_deprecated v, v_properties = v_properties v\<rparr>) (doc_versions doc),
                 crd_native = False, crd_function = function_group (doc_group doc),
                 crd_cache = Some (length h)\<rparr>
               in ParseCRDs_from decode (i + 1) (h @ [[]]) (out @ [c]) docs)"
  by pat_completeness auto
termination
  by (relation "measure (\<lambda>(_, _, _, _, docs). length docs)") auto

definition ParseCRDs :: "decode_crd \<Rightarrow> heap \<Rightarrow> string list \<Rightarrow> (msg + crd list) \<times> heap" where
  "ParseCRDs decode h docs = ParseCRDs_from decode 0 h [] docs"

definition ParseCRDManifest :: "decode_crd \<Rightarrow> heap \<Rightarrow> string \<Rightarrow> (msg + crd list) \<times> heap" where
  "ParseCRDManifest decode h data =
     (case ParseCRDs decode h (SplitDocs data) of
        (Inl err, h) \<Rightarrow> (Inl err, h)
      | (Inr crds, h) \<Rightarrow>
          if length crds = 0 then (Inl (Msg ''no CustomResourceDefinition documents found'' []), h)
          else (Inr (map (\<lambda>c. c\<lparr>crd_native := True\<rparr>) crds), h))"

definition Preferred :: "crd \<Rightarrow> msg + version" where
  "Preferred c =
     (case find v_storage (crd_versions c) of
        Some v \<Rightarrow> Inr v
      | None \<Rightarrow>
          (case find (\<lambda>v. v_served v \<and> \<not> v_deprecated v) (crd_versions c) of
             Some v \<Rightarrow> Inr v
           | None \<Rightarrow> Inl (Msg ''%s.%s: no storage or served non-deprecated version''
               [Str (crd_plural c), Str (crd_group c)])))"

definition IsManaged :: "crd \<Rightarrow> bool" where
  "IsManaged c = list_ex (\<lambda>cat. cat = ''managed'') (crd_categories c)"

definition IsFunctionInput :: "crd \<Rightarrow> bool" where
  "IsFunctionInput c = (if crd_function c then True else function_group (crd_group c))"

definition Namespaced :: "crd \<Rightarrow> bool" where
  "Namespaced c \<longleftrightarrow> crd_scope c = ''Namespaced''"

definition CRD_APIVersion :: "crd \<Rightarrow> msg + string" where
  "CRD_APIVersion c =
     (case Preferred c of
        Inl err \<Rightarrow> Inl (Msg ''%s: %w'' [Str (crd_kind c), Ctx err])
      | Inr v \<Rightarrow> Inr (if crd_group c = [] then v_name v else crd_group c @ ''/'' @ v_name v))"

section \<open>Trees\<close>

definition specProperties :: "crd \<Rightarrow> msg + ((string \<times> jval) list \<times> string list)" where
  "specProperties c =
     (case Preferred c of
        Inl err \<Rightarrow> Inl err
      | Inr v \<Rightarrow>
          (case as_obj (map_of (v_properties v) ''spec'') of
             None \<Rightarrow> Inl (Msg ''%s: no spec in openAPIV3Schema'' [Str (crd_kind c)])
           | Some spec \<Rightarrow>
               (case as_obj (map_of spec ''properties'') of
                  None \<Rightarrow> Inl (Msg ''%s: no spec.properties'' [Str (crd_kind c)])
                | Some props \<Rightarrow> Inr (props, stringSlice (map_of spec ''required'')))))"

definition getCachedTree :: "heap \<Rightarrow> crd \<Rightarrow> string \<Rightarrow> msg + node list \<Rightarrow> (msg + node list) \<times> heap" where
  \<comment> \<open>the last argument is what \<open>compute\<close> returns\<close>
  "getCachedTree h c treeType computed =
     (case crd_cache c of
        None \<Rightarrow> (computed, h)
      | Some a \<Rightarrow>
          (case map_of (h ! a) treeType of
             Some nodes \<Rightarrow> (Inr nodes, h)
           | None \<Rightarrow>
               (case computed of
                  Inl err \<Rightarrow> (Inl err, h)
                | Inr nodes \<Rightarrow> (Inr nodes, h[a := AList.update treeType nodes (h ! a)]))))"

definition forProvider_tree :: "crd \<Rightarrow> msg + node list" where
  "forProvider_tree c =
     (case specProperties c of
        Inl err \<Rightarrow> Inl err
      | Inr (props, _) \<Rightarrow>
          (case as_obj (map_of props ''forProvider'') of
             None \<Rightarrow> Inr []
           | Some fp \<Rightarrow>
               Inr (ComputeRequiredChain
                 (BuildTree (obj_or_nil (map_of fp ''properties'')) (stringSlice (map_of fp ''required''))) False)))"

definition ForProvider :: "heap \<Rightarrow> crd \<Rightarrow> (msg + node list) \<times> heap" where
  "ForProvider h c = getCachedTree h c ''forProvider'' (forProvider_tree c)"

definition serverOwnedMetadataFields :: "string list" where
  "serverOwnedMetadataFields = [''creationTimestamp'', ''deletionGracePeriodSeconds'', ''deletionTimestamp'',
     ''generation'', ''managedFields'', ''ownerReferences'', ''resourceVersion'', ''selfLink'', ''uid'']"

definition sanitizeNativeMetadata :: "jval \<Rightarrow> jval" where
  "sanitizeNativeMetadata val =
     (case as_obj (Some val) of
        None \<Rightarrow> val
      | Some raw \<Rightarrow>
          (case as_obj (map_of raw ''properties'') of
             None \<Rightarrow> val
           | Some props \<Rightarrow>
               JObj (AList.update ''properties''
                 (JObj (filter (\<lambda>(k, v). k \<notin> set serverOwnedMetadataFields) props)) raw)))"

definition settable_property :: "crd \<Rightarrow> string \<times> jval \<Rightarrow> (string \<times> jval) option" where
  \<comment> \<open>the body of \<open>FieldTree\<close>'s loop, None for continue\<close>
  "settable_property c = (\<lambda>(k, val).
     if k \<in> {''apiVersion'', ''kind'', ''status''} then None
     else if k = ''metadata''
     then (if IsFunctionInput c then None
           else Some (k, if crd_native c then sanitizeNativeMetadata val else val))
     else Some (k, val))"

definition fieldTree_tree :: "crd \<Rightarrow> msg + node list" where
  "fieldTree_tree c =
     (case Preferred c of
        Inl err \<Rightarrow> Inl err
      | Inr v \<Rightarrow>
          Inr (ComputeRequiredChain (BuildTree (List.map_filter (settable_property c) (v_properties v)) []) True))"

definition FieldTree :: "heap \<Rightarrow> crd \<Rightarrow> (msg + node list) \<times> heap" where
  "FieldTree h c =
     (if \<not> crd_native c \<and> \<not> IsFunctionInput c then ForProvider h c
      else getCachedTree h c ''fieldTree'' (fieldTree_tree c))"

definition status_tree :: "crd \<Rightarrow> msg + node list" where
  "status_tree c =
     (case Preferred c of
        Inl err \<Rightarrow> Inl err
      | Inr v \<Rightarrow>
          (case as_obj (map_of (v_properties v) ''status'') of
             None \<Rightarrow> Inr []
           | Some st \<Rightarrow>
               (case as_obj (map_of st ''properties'') of
                  None \<Rightarrow> Inr []
                | Some inner \<Rightarrow>
                    Inr (ComputeRequiredChain (BuildTree inner (stringSlice (map_of st ''required''))) False))))"

definition Status :: "heap \<Rightarrow> crd \<Rightarrow> (msg + node list) \<times> heap" where
  "Status h c = getCachedTree h c ''status'' (status_tree c)"

definition envelope_tree :: "crd \<Rightarrow> msg + node list" where
  "envelope_tree c =
     (case specProperties c of
        Inl err \<Rightarrow> Inl err
      | Inr (props, required) \<Rightarrow>
          Inr (ComputeRequiredChain
            (BuildTree (filter (\<lambda>(k, val). k \<noteq> ''forProvider'' \<and> k \<noteq> ''initProvider'') props) required) False))"

definition Envelope :: "heap \<Rightarrow> crd \<Rightarrow> (msg + node list) \<times> heap" where
  "Envelope h c = (if crd_native c then (Inr [], h) else getCachedTree h c ''envelope'' (envelope_tree c))"

end
