(* ===== verification/KindIndex.thy ===== *)
theory KindIndex
  imports Crd
begin

text \<open>
  The kind index (\<open>internal/index/index.go\<close>) and its field listings (\<open>internal/index/fields.go\<close>).
  \<open>strings.ToLower\<close>, whose table past ASCII is the Go release's, is the parameter \<open>lower\<close>.
  \<open>Build\<close> threads the heap of memos through the tree calls it makes.
\<close>

section \<open>The index\<close>

record kind =
  kd_kind :: string
  kd_group :: string
  kd_version :: string
  kd_apiVersion :: string
  kd_plural :: string
  kd_scope :: string
  kd_provider :: string
  kd_namespaced :: bool
  kd_function :: bool
  kd_required :: nat
  kd_fields :: nat

record kind_index =
  ix_kinds :: "kind list"
  ix_crds :: "crd gomap"
  ix_kindsByKey :: "kind gomap"
  ix_counts :: "nat gomap"

record build =
  \<comment> \<open>the variables of \<open>Build\<close>'s loops\<close>
  bd_kinds :: "kind list"
  bd_crds :: "crd gomap"
  bd_kindsByKey :: "kind gomap"
  bd_attempted :: nat
  bd_failed :: nat
  bd_lastErr :: "msg option"

definition composable :: "crd \<Rightarrow> bool" where
  "composable c \<longleftrightarrow> \<not> (\<not> IsManaged c \<and> \<not> crd_native c \<and> \<not> IsFunctionInput c \<and> \<not> crd_function c)"

definition tree_counts :: "node list \<Rightarrow> nat \<times> nat" where
  \<comment> \<open>required and all settable fields\<close>
  "tree_counts nodes =
     (let leaves = Leaves nodes [];
          required = length (filter (\<lambda>(_, n). n_chain n) leaves) + length (RequiredBranches nodes [])
      in (required, length leaves))"

definition kind_of :: "string \<Rightarrow> crd \<Rightarrow> version \<Rightarrow> string \<Rightarrow> node list \<Rightarrow> kind" where
  "kind_of provider c v apiVersion nodes = (case tree_counts nodes of (required, leaves) \<Rightarrow>
     \<lparr>kd_kind = crd_kind c, kd_group = crd_group c, kd_version = v_name v, kd_apiVersion = apiVersion,
      kd_plural = crd_plural c, kd_scope = crd_scope c, kd_provider = provider,
      kd_namespaced = Namespaced c, kd_function = (crd_function c \<or> IsFunctionInput c),
      kd_required = required, kd_fields = leaves\<rparr>)"

definition index_crd :: "string \<Rightarrow> crd \<Rightarrow> heap \<times> build \<Rightarrow> heap \<times> build" where
  \<comment> \<open>the body of the inner loop\<close>
  "index_crd provider c = (\<lambda>(h, b).
     if \<not> composable c then (h, b)
     else let b = b\<lparr>bd_attempted := bd_attempted b + 1\<rparr> in
       case Preferred c of
         Inl err \<Rightarrow> (h, b\<lparr>bd_failed := bd_failed b + 1, bd_lastErr := Some err\<rparr>)
       | Inr v \<Rightarrow>
           (case CRD_APIVersion c of
              Inl err \<Rightarrow> (h, b\<lparr>bd_failed := bd_failed b + 1, bd_lastErr := Some err\<rparr>)
            | Inr apiVersion \<Rightarrow>
                (case FieldTree h c of (tree, h) \<Rightarrow>
                   let nodes = (case tree of Inl _ \<Rightarrow> [] | Inr nodes \<Rightarrow> nodes);
                       kind = kind_of provider c v apiVersion nodes;
                       key = apiVersion @ ''/'' @ crd_kind c
                   in (h, b\<lparr>bd_kinds := bd_kinds b @ [kind], bd_crds := AList.update key c (bd_crds b),
                        bd_kindsByKey := AList.update key kind (bd_kindsByKey b)\<rparr>))))"

definition index_provider :: "crd list gomap \<Rightarrow> string \<Rightarrow> heap \<times> build \<Rightarrow> heap \<times> build" where
  "index_provider byProvider provider =
     fold (index_crd provider) (case map_of byProvider provider of Some cs \<Rightarrow> cs | None \<Rightarrow> [])"

definition kind_less :: "kind \<Rightarrow> kind \<Rightarrow> bool" where
  "kind_less x y =
     (if kd_apiVersion x \<noteq> kd_apiVersion y then kd_apiVersion x < kd_apiVersion y
      else if kd_kind x \<noteq> kd_kind y then kd_kind x < kd_kind y
      else kd_provider x < kd_provider y)"

fun insert_stable :: "('a \<Rightarrow> 'a \<Rightarrow> bool) \<Rightarrow> 'a \<Rightarrow> 'a list \<Rightarrow> 'a list" where
  "insert_stable lt x [] = [x]"
| "insert_stable lt x (y # ys) = (if lt y x then y # insert_stable lt x ys else x # y # ys)"

definition sort_stable :: "('a \<Rightarrow> 'a \<Rightarrow> bool) \<Rightarrow> 'a list \<Rightarrow> 'a list" where
  \<comment> \<open>\<open>sort.SliceStable\<close>\<close>
  "sort_stable lt xs = foldr (insert_stable lt) xs []"

definition count_provider :: "kind \<Rightarrow> nat gomap \<Rightarrow> nat gomap" where
  \<comment> \<open>\<open>countsByProvider[k.Provider]++\<close>\<close>
  "count_provider k m = AList.update (kd_provider k)
     ((case map_of m (kd_provider k) of Some n \<Rightarrow> n | None \<Rightarrow> 0) + 1) m"

definition Build :: "heap \<Rightarrow> crd list gomap \<Rightarrow> (msg + kind_index) \<times> heap" where
  "Build h byProvider =
     (case fold (index_provider byProvider) (sorted_keys byProvider)
        (h, \<lparr>bd_kinds = [], bd_crds = [], bd_kindsByKey = [], bd_attempted = 0, bd_failed = 0, bd_lastErr = None\<rparr>) of
        (h, b) \<Rightarrow>
          if 0 < bd_attempted b \<and> bd_failed b = bd_attempted b
          then (Inl (Msg ''index: all %d managed CRD(s) failed to index: %w''
                 (Num (bd_attempted b) # (case bd_lastErr b of Some err \<Rightarrow> [Ctx err] | None \<Rightarrow> []))), h)
          else let kinds = sort_stable kind_less (bd_kinds b)
               in (Inr \<lparr>ix_kinds = kinds, ix_crds = bd_crds b, ix_kindsByKey = bd_kindsByKey b,
                     ix_counts = fold count_provider kinds []\<rparr>, h))"

definition CountsByProvider :: "kind_index option \<Rightarrow> nat gomap" where
  \<comment> \<open>None is a nil index\<close>
  "CountsByProvider i = (case i of None \<Rightarrow> [] | Some i \<Rightarrow> map (\<lambda>(k, v). (k, v)) (ix_counts i))"

definition All :: "kind_index \<Rightarrow> kind list" where
  "All i = map (\<lambda>k. k) (ix_kinds i)"

fun search_loop :: "(string \<Rightarrow> string) \<Rightarrow> string \<Rightarrow> int \<Rightarrow> kind list \<Rightarrow> kind list \<Rightarrow> kind list" where
  "search_loop lower q limit out [] = out"
| "search_loop lower q limit out (k # ks) =
     (if contains (lower (kd_kind k)) q \<or> contains (lower (kd_group k)) q
      then let out = out @ [k] in
        if 0 < limit \<and> int (length out) = limit then out else search_loop lower q limit out ks
      else search_loop lower q limit out ks)"

definition Search :: "(string \<Rightarrow> string) \<Rightarrow> kind_index \<Rightarrow> string \<Rightarrow> int \<Rightarrow> kind list" where
  "Search lower i q limit = search_loop lower (lower q) limit [] (ix_kinds i)"

definition Lookup :: "kind_index \<Rightarrow> string \<Rightarrow> string \<Rightarrow> crd option" where
  "Lookup i apiVersion kind = map_of (ix_crds i) (apiVersion @ ''/'' @ kind)"

definition LookupKind :: "kind_index \<Rightarrow> string \<Rightarrow> string \<Rightarrow> (kind \<times> crd option) option" where
  \<comment> \<open>None is \<open>ok = false\<close>; the CRD is None where the source reads a missing key\<close>
  "LookupKind i apiVersion kind =
     (let key = apiVersion @ ''/'' @ kind in
      case map_of (ix_kindsByKey i) key of
        None \<Rightarrow> None
      | Some k \<Rightarrow> Some (k, map_of (ix_crds i) key))"

section \<open>Field listings\<close>

record index_field =
  if_path :: string
  if_type :: string
  if_description :: string
  if_required :: bool
  if_chain :: bool
  if_depth :: nat
  if_enum :: "string list"
  if_default :: jval
  if_minimum :: "rat option"
  if_maximum :: "rat option"
  if_format :: string

record field_query =
  q_requiredOnly :: bool
  q_maxDepth :: int
  q_prefix :: string
  q_search :: string
  q_limit :: int

definition field_of :: "string \<times> node \<Rightarrow> index_field" where
  "field_of = (\<lambda>(p, n). \<lparr>if_path = p, if_type = n_type n, if_description = n_description n,
     if_required = n_required n, if_chain = n_chain n, if_depth = count_char CHR ''.'' p,
     if_enum = n_enum n, if_default = n_default n, if_minimum = n_minimum n, if_maximum = n_maximum n,
     if_format = n_format n\<rparr>)"

definition filterPrefix :: "index_field list \<Rightarrow> string \<Rightarrow> index_field list" where
  "filterPrefix fs pre = filter (\<lambda>f. if_path f = pre \<or> has_prefix (if_path f) (pre @ ''.'')) fs"

definition filterMaxDepth :: "index_field list \<Rightarrow> int \<Rightarrow> index_field list" where
  "filterMaxDepth fs maxDepth = filter (\<lambda>f. int (if_depth f) \<le> maxDepth) fs"

definition filterRequiredOnly :: "index_field list \<Rightarrow> index_field list" where
  "filterRequiredOnly fs = filter if_chain fs"

definition filterSearch :: "(string \<Rightarrow> string) \<Rightarrow> index_field list \<Rightarrow> string \<Rightarrow> index_field list" where
  "filterSearch lower fs search = (let q = lower search in
     filter (\<lambda>f. contains (lower (if_path f)) q \<or> contains (lower (if_description f)) q) fs)"

definition Fields :: "(string \<Rightarrow> string) \<Rightarrow> node list \<Rightarrow> field_query \<Rightarrow> index_field list" where
  "Fields lower nodes q =
     (let fs = map field_of (Leaves nodes []);
          fs = (if q_prefix q \<noteq> [] then filterPrefix fs (q_prefix q) else fs);
          fs = (if 0 < q_maxDepth q then filterMaxDepth fs (q_maxDepth q) else fs);
          fs = (if q_requiredOnly q then filterRequiredOnly fs else fs);
          fs = (if q_search q \<noteq> [] then filterSearch lower fs (q_search q) else fs)
      in if 0 < q_limit q \<and> q_limit q < int (length fs) then take (nat (q_limit q)) fs else fs)"

definition RequiredBranchFields :: "node list \<Rightarrow> index_field list" where
  "RequiredBranchFields nodes = map field_of (RequiredBranches nodes [])"

end
