(* ===== verification/Crd_Props.thy ===== *)
theory Crd_Props
  imports Crd
begin

text \<open>
  What the schema layer promises: memoising the trees of a CRD is invisible, decoding keeps
  order and never makes a kind native, the preferred version, and what a field tree leaves out.
\<close>

section \<open>Memoised trees\<close>

datatype accessor = AForProvider | AFieldTree | AStatus | AEnvelope

definition access :: "heap \<Rightarrow> crd \<times> accessor \<Rightarrow> (msg + node list) \<times> heap" where
  "access h = (\<lambda>(c, a). case a of AForProvider \<Rightarrow> ForProvider h c | AFieldTree \<Rightarrow> FieldTree h c
     | AStatus \<Rightarrow> Status h c | AEnvelope \<Rightarrow> Envelope h c)"

fun run_calls :: "heap \<Rightarrow> (crd \<times> accessor) list \<Rightarrow> (msg + node list) list" where
  \<comment> \<open>the results of a sequence of calls on CRDs sharing the heap\<close>
  "run_calls h [] = []"
| "run_calls h (call # calls) = (case access h call of (r, h') \<Rightarrow> r # run_calls h' calls)"

definition unmemoised :: "crd \<times> accessor \<Rightarrow> msg + node list" where
  \<comment> \<open>the same call on a CRD without a memo\<close>
  "unmemoised = (\<lambda>(c, a). fst (access [] (c\<lparr>crd_cache := None\<rparr>, a)))"

definition tree_for :: "crd \<Rightarrow> string \<Rightarrow> msg + node list" where
  \<comment> \<open>what a memo entry stands for\<close>
  "tree_for c key = (if key = ''forProvider'' then forProvider_tree c else if key = ''fieldTree'' then fieldTree_tree c
     else if key = ''status'' then status_tree c else envelope_tree c)"

definition memo_ok :: "heap \<Rightarrow> crd \<Rightarrow> bool" where
  "memo_ok h c \<longleftrightarrow> (\<forall>a. crd_cache c = Some a \<longrightarrow> a < length h \<and>
     (\<forall>key nodes. map_of (h ! a) key = Some nodes \<longrightarrow> tree_for c key = Inr nodes))"

lemma getCachedTree_memo:
  assumes "memo_ok h c" "tree_for c key = computed"
  shows "fst (getCachedTree h c key computed) = computed"
    and "length (snd (getCachedTree h c key computed)) = length h"
    and "memo_ok h d \<Longrightarrow> crd_cache d \<noteq> crd_cache c \<or> d = c \<Longrightarrow> memo_ok (snd (getCachedTree h c key computed)) d"
  using assms
  by (auto simp: getCachedTree_def memo_ok_def nth_list_update update_conv' split: option.split sum.split if_splits)

lemma Preferred_cache [simp]: "Preferred (c\<lparr>crd_cache := x\<rparr>) = Preferred c"
  by (simp add: Preferred_def cong: option.case_cong)

lemma specProperties_cache [simp]: "specProperties (c\<lparr>crd_cache := x\<rparr>) = specProperties c"
  by (simp add: specProperties_def cong: option.case_cong sum.case_cong)

lemma settable_cache [simp]: "settable_property (c\<lparr>crd_cache := x\<rparr>) = settable_property c"
  by (simp add: settable_property_def IsFunctionInput_def cong: if_cong)

lemma computed_cache [simp]:
  "forProvider_tree (c\<lparr>crd_cache := x\<rparr>) = forProvider_tree c" "status_tree (c\<lparr>crd_cache := x\<rparr>) = status_tree c"
  "envelope_tree (c\<lparr>crd_cache := x\<rparr>) = envelope_tree c" "fieldTree_tree (c\<lparr>crd_cache := x\<rparr>) = fieldTree_tree c"
  "IsFunctionInput (c\<lparr>crd_cache := x\<rparr>) = IsFunctionInput c"
  by (simp_all add: forProvider_tree_def status_tree_def envelope_tree_def fieldTree_tree_def
      IsFunctionInput_def cong: option.case_cong sum.case_cong)

lemma access_memo:
  assumes "memo_ok h c"
  shows "fst (access h (c, a)) = unmemoised (c, a)"
    and "memo_ok h d \<Longrightarrow> crd_cache d \<noteq> crd_cache c \<or> d = c \<Longrightarrow> memo_ok (snd (access h (c, a))) d"
proof -
  note [simp] = access_def unmemoised_def ForProvider_def FieldTree_def Status_def Envelope_def
  have u: "getCachedTree [] (c\<lparr>crd_cache := None\<rparr>) key x = (x, [])" for key x by (simp add: getCachedTree_def)
  have t: "tree_for c ''forProvider'' = forProvider_tree c" "tree_for c ''fieldTree'' = fieldTree_tree c"
    "tree_for c ''status'' = status_tree c" "tree_for c ''envelope'' = envelope_tree c"
    by (simp_all add: tree_for_def)
  note g = getCachedTree_memo [OF assms t(1)] getCachedTree_memo [OF assms t(2)]
    getCachedTree_memo [OF assms t(3)] getCachedTree_memo [OF assms t(4)]
  show "fst (access h (c, a)) = unmemoised (c, a)" using g u by (cases a) simp_all
  show "memo_ok h d \<Longrightarrow> crd_cache d \<noteq> crd_cache c \<or> d = c \<Longrightarrow> memo_ok (snd (access h (c, a))) d"
    using g by (cases a) simp_all
qed

lemma run_calls_memo:
  assumes "\<forall>(c, a) \<in> set calls. c \<in> C" "\<forall>c \<in> C. memo_ok h c" "\<forall>c \<in> C. \<forall>d \<in> C. crd_cache c = crd_cache d \<longrightarrow> c = d"
  shows "run_calls h calls = map unmemoised calls"
  using assms(1,2)
proof (induction calls arbitrary: h)
  case (Cons call calls)
  obtain c a where call: "call = (c, a)" by (cases call)
  obtain r h' where acc: "access h (c, a) = (r, h')" by force
  have c: "c \<in> C" using Cons.prems(1) call by simp
  then have "memo_ok h c" using Cons.prems(2) by blast
  from access_memo [OF this, where a = a] acc
  have "r = unmemoised (c, a)" "\<forall>d \<in> C. memo_ok h' d" using Cons.prems(2) assms(3) c by auto
  with Cons acc call show ?case by simp
qed simp

section \<open>Decoding\<close>

definition crd_of_doc :: "nat \<Rightarrow> crd_doc \<Rightarrow> crd" where
  "crd_of_doc a doc = \<lparr>crd_group = doc_group doc, crd_kind = doc_names_kind doc, crd_plural = doc_plural doc,
     crd_scope = doc_scope doc, crd_categories = doc_categories doc, crd_versions = doc_versions doc,
     crd_native = False, crd_function = function_group (doc_group doc), crd_cache = Some a\<rparr>"

definition crd_docs :: "decode_crd \<Rightarrow> string list \<Rightarrow> crd_doc list" where
  \<comment> \<open>the documents that are CRDs\<close>
  "crd_docs decode docs = filter (\<lambda>d. doc_kind d = ''CustomResourceDefinition'')
     (List.map_filter (\<lambda>d. case decode d of Inr doc \<Rightarrow> Some doc | Inl _ \<Rightarrow> None) docs)"

lemma ParseCRDs_from_Inr:
  "ParseCRDs_from decode i h out docs = (Inr crds, h') \<longleftrightarrow>
     (\<forall>d \<in> set docs. \<exists>doc. decode d = Inr doc) \<and>
     h' = h @ replicate (length (crd_docs decode docs)) [] \<and>
     crds = out @ map2 crd_of_doc [length h ..< length h + length (crd_docs decode docs)] (crd_docs decode docs)"
proof (induction decode i h out docs arbitrary: crds rule: ParseCRDs_from.induct)
  case (1 decode i h out)
  then show ?case by (auto simp: crd_docs_def List.map_filter_def)
next
  case (2 decode i h out d docs)
  show ?case
  proof (cases "decode d")
    case (Inl err)
    then show ?thesis by simp
  next
    case (Inr doc)
    have v: "map (\<lambda>v. \<lparr>v_name = v_name v, v_served = v_served v, v_storage = v_storage v,
        v_deprecated = v_deprecated v, v_properties = v_properties v\<rparr>) vs = vs" for vs
      by (induction vs) simp_all
    show ?thesis
    proof (cases "doc_kind doc = ''CustomResourceDefinition''")
      case False
      with 2(1) [OF Inr False] Inr show ?thesis by (simp add: crd_docs_def map_filter_simps)
    next
      case True
      have e: "crd_docs decode (d # docs) = doc # crd_docs decode docs"
        using Inr True by (simp add: crd_docs_def map_filter_simps)
      show ?thesis
        using 2(2) [OF Inr] Inr True unfolding e
        by (auto simp: v crd_of_doc_def upt_conv_Cons simp del: upt_Suc)
    qed
  qed
qed

lemma caches_map2:
  "length ms = length docs \<Longrightarrow> map crd_cache (map2 crd_of_doc ms docs) = map Some ms"
  by (induction ms docs rule: list_induct2) (simp_all add: crd_of_doc_def)

lemma forget_caches:
  "length ms = length docs \<Longrightarrow> map (\<lambda>c. c\<lparr>crd_cache := None\<rparr>) (map2 crd_of_doc ms docs) =
     map (\<lambda>d. (crd_of_doc 0 d)\<lparr>crd_cache := None\<rparr>) docs"
  by (induction ms docs rule: list_induct2) (simp_all add: crd_of_doc_def)

lemma parsed_caches: "map crd_cache (map2 crd_of_doc [m ..< m + length docs] docs) = map Some [m ..< m + length docs]"
  by (rule caches_map2) simp

lemma memo_fresh: "memo_ok (h @ replicate n []) c" if "crd_cache c = Some a" "length h \<le> a" "a < length h + n"
  using that by (simp add: memo_ok_def nth_append)

lemma parsed_memo:
  assumes "map crd_cache crds = map Some [length h ..< length h + n]"
  shows "\<forall>c \<in> set crds. memo_ok (h @ replicate n []) c"
    and "\<forall>c \<in> set crds. \<forall>d \<in> set crds. crd_cache c = crd_cache d \<longrightarrow> c = d"
proof -
  have "crd_cache ` set crds = Some ` {length h ..< length h + n}"
    using arg_cong [OF assms, of set] by simp
  then show "\<forall>c \<in> set crds. memo_ok (h @ replicate n []) c"
  proof (intro ballI)
    fix c assume "c \<in> set crds"
    then have "crd_cache c \<in> Some ` {length h ..< length h + n}"
      using \<open>crd_cache ` set crds = _\<close> by blast
    then show "memo_ok (h @ replicate n []) c" using memo_fresh by (auto simp only: image_iff atLeastLessThan_iff)
  qed
  have "distinct (map crd_cache crds)" unfolding assms by (simp add: distinct_map)
  then show "\<forall>c \<in> set crds. \<forall>d \<in> set crds. crd_cache c = crd_cache d \<longrightarrow> c = d"
    by (auto simp: distinct_map inj_on_def)
qed

section \<open>Properties\<close>

text \<open>C35: Memoising is invisible: on the CRDs of a package or of a scanned manifest, copies
  sharing their memos included, any sequence of tree calls returns what each call computes
  without a memo.\<close>

theorem memo_transparent:
  assumes "ParseCRDs decode h docs = (Inr crds, h') \<or> ParseCRDManifest decode h data = (Inr crds, h')"
    and "\<forall>(c, a) \<in> set calls. c \<in> set crds"
  shows "run_calls h' calls = map unmemoised calls"
proof -
  have "\<exists>n. h' = h @ replicate n [] \<and> map crd_cache crds = map Some [length h ..< length h + n]"
    using assms(1)
  proof
    assume "ParseCRDs decode h docs = (Inr crds, h')"
    then show ?thesis unfolding ParseCRDs_def ParseCRDs_from_Inr using parsed_caches by auto
  next
    assume "ParseCRDManifest decode h data = (Inr crds, h')"
    then obtain crds0 where p: "ParseCRDs decode h (SplitDocs data) = (Inr crds0, h')"
        "crds = map (\<lambda>c. c\<lparr>crd_native := True\<rparr>) crds0"
      by (auto simp: ParseCRDManifest_def split: prod.splits sum.splits if_splits)
    then have "map crd_cache crds = map crd_cache crds0" by simp
    with p(1) show ?thesis unfolding ParseCRDs_def ParseCRDs_from_Inr using parsed_caches by auto
  qed
  then obtain n where n: "h' = h @ replicate n []" "map crd_cache crds = map Some [length h ..< length h + n]" by blast
  show ?thesis
    using run_calls_memo [OF _ parsed_memo [OF n(2)], of calls] assms(2) n(1) by blast
qed

text \<open>\<open>ParseCRDs\<close> fails exactly when a document does not decode; otherwise it returns the
  CRD documents in order and nothing else, and none of them is native: only
  \<open>ParseCRDManifest\<close>, which refuses a manifest without CRDs, marks kinds native.\<close>

theorem ParseCRDs_decides:
  "((\<exists>crds. fst (ParseCRDs decode h docs) = Inr crds) \<longleftrightarrow> (\<forall>d \<in> set docs. \<exists>doc. decode d = Inr doc)) \<and>
   (fst (ParseCRDs decode h docs) = Inr crds \<longrightarrow>
     map (\<lambda>c. c\<lparr>crd_cache := None\<rparr>) crds = map (\<lambda>d. (crd_of_doc 0 d)\<lparr>crd_cache := None\<rparr>) (crd_docs decode docs) \<and>
     (\<forall>c \<in> set crds. \<not> crd_native c)) \<and>
   (fst (ParseCRDManifest decode h data) = Inr crds \<longrightarrow> crds \<noteq> [] \<and> (\<forall>c \<in> set crds. crd_native c))"
proof (intro conjI impI)
  have ex: "fst x = Inr crds \<longleftrightarrow> (\<exists>h'. x = (Inr crds, h'))" for x :: "(msg + crd list) \<times> heap" and crds
    by (cases x) simp
  show "(\<exists>crds. fst (ParseCRDs decode h docs) = Inr crds) \<longleftrightarrow> (\<forall>d \<in> set docs. \<exists>doc. decode d = Inr doc)"
    unfolding ex ParseCRDs_def ParseCRDs_from_Inr by simp
  {
    assume "fst (ParseCRDs decode h docs) = Inr crds"
    then have crds: "crds = map2 crd_of_doc [length h ..< length h + length (crd_docs decode docs)] (crd_docs decode docs)"
      unfolding ex ParseCRDs_def ParseCRDs_from_Inr by simp
    show "map (\<lambda>c. c\<lparr>crd_cache := None\<rparr>) crds =
        map (\<lambda>d. (crd_of_doc 0 d)\<lparr>crd_cache := None\<rparr>) (crd_docs decode docs)"
      unfolding crds by (rule forget_caches) simp
    show "\<forall>c \<in> set crds. \<not> crd_native c" unfolding crds by (auto simp: crd_of_doc_def)
  }
  assume "fst (ParseCRDManifest decode h data) = Inr crds"
  then show "crds \<noteq> []" "\<forall>c \<in> set crds. crd_native c"
    by (auto simp: ParseCRDManifest_def split: prod.splits sum.splits if_splits)
qed

text \<open>\<open>Preferred\<close> returns the first storage version, or, when there is none, the first
  served version that is not deprecated, and it fails exactly when there is neither.\<close>

theorem Preferred_decides:
  "Preferred c = Inr v \<longleftrightarrow> (\<exists>before after. crd_versions c = before @ v # after \<and>
     (v_storage v \<and> (\<forall>w \<in> set before. \<not> v_storage w) \<or>
      (\<forall>w \<in> set (crd_versions c). \<not> v_storage w) \<and> v_served v \<and> \<not> v_deprecated v \<and>
        (\<forall>w \<in> set before. \<not> (v_served w \<and> \<not> v_deprecated w))))"
proof -
  have first: "find P vs = Some v \<longleftrightarrow> (\<exists>before after. vs = before @ v # after \<and> P v \<and> (\<forall>w \<in> set before. \<not> P w))"
    for P :: "version \<Rightarrow> bool" and vs
  proof
    show "find P vs = Some v \<Longrightarrow> \<exists>before after. vs = before @ v # after \<and> P v \<and> (\<forall>w \<in> set before. \<not> P w)"
    proof (induction vs)
      case (Cons w vs)
      show ?case
      proof (cases "P w")
        case True
        with Cons.prems have "w = v" by simp
        with True show ?thesis by (intro exI [of _ "[]"] exI [of _ vs]) simp
      next
        case False
        with Cons obtain before after where "vs = before @ v # after" "P v" "\<forall>w \<in> set before. \<not> P w" by auto
        with False show ?thesis by (intro exI [of _ "w # before"] exI [of _ after]) simp
      qed
    qed simp
    have "\<forall>w \<in> set before. \<not> P w \<Longrightarrow> P v \<Longrightarrow> find P (before @ v # after) = Some v" for before after
      by (induction before) auto
    then show "\<exists>before after. vs = before @ v # after \<and> P v \<and> (\<forall>w \<in> set before. \<not> P w) \<Longrightarrow> find P vs = Some v"
      by blast
  qed
  show ?thesis
  proof (cases "find v_storage (crd_versions c)")
    case (Some w)
    then have "\<not> (\<forall>w \<in> set (crd_versions c). \<not> v_storage w)" by (metis find_None_iff option.distinct(1))
    with Some first [of v_storage "crd_versions c"] show ?thesis by (auto simp: Preferred_def)
  next
    case None
    then have no: "\<forall>w \<in> set (crd_versions c). \<not> v_storage w" by (simp add: find_None_iff)
    have "Preferred c = Inr v \<longleftrightarrow> find (\<lambda>v. v_served v \<and> \<not> v_deprecated v) (crd_versions c) = Some v"
      by (auto simp: Preferred_def None split: option.splits)
    with first [of "\<lambda>v. v_served v \<and> \<not> v_deprecated v" "crd_versions c"] no show ?thesis by auto
  qed
qed

lemma BuildTree_child:
  assumes "n \<in> set (BuildTree props required)"
  shows "n_name n \<in> fst ` set props" "n = buildNode (n_name n) (obj_or_nil (map_of props (n_name n))) (n_name n \<in> set required)"
proof -
  obtain a where "a \<in> set (sorted_keys props)" "n = buildNode a (obj_or_nil (map_of props a)) (a \<in> set required)"
    using assms by (force simp only: BuildTree.simps set_map image_iff)
  then show "n_name n \<in> fst ` set props"
    "n = buildNode (n_name n) (obj_or_nil (map_of props (n_name n))) (n_name n \<in> set required)"
    by simp_all
qed

lemma buildNode_children:
  assumes "m \<in> set (n_children (buildNode name raw required))" "n_type (buildNode name raw required) = ''object''"
  shows "\<exists>props. as_obj (map_of raw ''properties'') = Some props \<and> n_name m \<in> fst ` set props"
proof -
  have leaf: "n_children (leaf_node name raw required) = []" by (simp add: leaf_node_def)
  have "\<exists>props req. as_obj (map_of raw ''properties'') = Some props \<and> m \<in> set (BuildTree props req)"
    using assms unfolding buildNode.simps [of name raw] Let_def
    by (cases "n_type (leaf_node name raw required) = ''object''";
        cases "n_type (leaf_node name raw required) = ''array''")
      (auto simp: leaf split: option.splits if_splits)
  then show ?thesis using BuildTree_child(1) by blast
qed

lemma Compute_lineage:
  assumes "lineage (ComputeRequiredChain nodes topHeld) ns"
  shows "\<exists>ms. lineage nodes ms \<and> map n_name ms = map n_name ns \<and> n_type (hd ms) = n_type (hd ns)"
proof -
  have ann: "lineage (annotateChain nodes held) ns \<Longrightarrow> \<exists>ms. lineage nodes ms \<and> map n_name ms = map n_name ns" for nodes held ns
  proof (induction nodes held arbitrary: ns rule: annotateChain.induct)
    case (2 n nodes held)
    from "2.prems" consider ms where "ns = set_children (annotateChain (n_children n) (held \<and> n_required n))
          (set_chain (held \<and> n_required n) n) # ms"
        "ms = [] \<or> lineage (annotateChain (n_children n) (held \<and> n_required n)) ms"
      | "lineage (annotateChain nodes held) ns"
      by (auto simp: lineage_Cons Let_def)
    then show ?case
    proof cases
      case (1 ms)
      then show ?thesis
      proof (cases "ms = []")
        case True
        with 1 show ?thesis by (intro exI [of _ "[n]"]) simp
      next
        case False
        with 1 "2.IH"(1) [OF refl, of ms] obtain ks where "lineage (n_children n) ks" "map n_name ks = map n_name ms" by blast
        with 1 show ?thesis by (intro exI [of _ "n # ks"]) simp
      qed
    next
      case 2
      with "2.IH"(2) obtain ks where "lineage nodes ks" "map n_name ks = map n_name ns" by blast
      then show ?thesis by (intro exI [of _ ks]) (simp add: lineage_Cons)
    qed
  qed (simp add: lineage_Nil)
  from assms obtain n ms where n: "n \<in> set nodes" and ns: "ns = set_children (annotateChain (n_children n)
        (n_required n \<or> topHeld)) (set_chain (n_required n) n) # ms"
      and ms: "ms = [] \<or> lineage (annotateChain (n_children n) (n_required n \<or> topHeld)) ms"
    by (cases ns) (auto simp: ComputeRequiredChain_def)
  show ?thesis
  proof (cases "ms = []")
    case True
    with n ns show ?thesis by (intro exI [of _ "[n]"]) simp
  next
    case False
    with ms ann obtain ks where "lineage (n_children n) ks" "map n_name ks = map n_name ms" by blast
    with n ns show ?thesis by (intro exI [of _ "n # ks"]) simp
  qed
qed

lemma sanitized_names:
  assumes "as_obj (map_of (obj_or_nil (Some (sanitizeNativeMetadata w))) ''properties'') = Some props"
    and "k \<in> fst ` set props"
  shows "k \<notin> set serverOwnedMetadataFields"
proof (cases "as_obj (Some w)")
  case None
  with assms(1) show ?thesis by (simp add: sanitizeNativeMetadata_def obj_or_nil_def as_obj_def)
next
  case (Some raw)
  then have w: "w = JObj raw" by (simp add: as_obj_def split: jval.splits)
  show ?thesis
  proof (cases "as_obj (map_of raw ''properties'')")
    case None
    with assms(1) w show ?thesis by (simp add: sanitizeNativeMetadata_def obj_or_nil_def as_obj_def)
  next
    case (Some ps)
    then have "sanitizeNativeMetadata w = JObj (AList.update ''properties''
        (JObj (filter (\<lambda>(k, v). k \<notin> set serverOwnedMetadataFields) ps)) raw)"
      unfolding sanitizeNativeMetadata_def \<open>as_obj (Some w) = Some raw\<close> by simp
    with assms(1) have "props = filter (\<lambda>(k, v). k \<notin> set serverOwnedMetadataFields) ps"
      by (simp add: obj_or_nil_def as_obj_def update_conv')
    with assms(2) show ?thesis by auto
  qed
qed

text \<open>A native kind's field tree offers nothing the author must not set: no top-level
  \<open>apiVersion\<close>, \<open>kind\<close> or \<open>status\<close>, and under the metadata object none of the fields the
  server owns; a function input's tree has no metadata at all.\<close>

theorem FieldTree_settable:
  assumes "fst (FieldTree h c) = Inr nodes" "crd_native c \<or> IsFunctionInput c" "crd_cache c = None"
    and "lineage nodes ns"
  shows "n_name (hd ns) \<notin> {''apiVersion'', ''kind'', ''status''} \<and>
    (IsFunctionInput c \<longrightarrow> n_name (hd ns) \<noteq> ''metadata'') \<and>
    (n_name (hd ns) = ''metadata'' \<and> n_type (hd ns) = ''object'' \<and> tl ns \<noteq> [] \<longrightarrow>
      n_name (hd (tl ns)) \<notin> set serverOwnedMetadataFields)"
proof -
  obtain v where "Preferred c = Inr v"
    using assms(1-3) by (cases "Preferred c") (auto simp: FieldTree_def getCachedTree_def fieldTree_tree_def)
  with assms(1-3) have nodes: "nodes = ComputeRequiredChain
      (BuildTree (List.map_filter (settable_property c) (v_properties v)) []) True"
    by (auto simp: FieldTree_def getCachedTree_def fieldTree_tree_def split: sum.splits)
  let ?rest = "List.map_filter (settable_property c) (v_properties v)"
  obtain ms where ms: "lineage (BuildTree ?rest []) ms" "map n_name ms = map n_name ns" "n_type (hd ms) = n_type (hd ns)"
    using Compute_lineage assms(4) unfolding nodes by blast
  then obtain n ks where n: "ms = n # ks" "n \<in> set (BuildTree ?rest [])" "ks = [] \<or> lineage (n_children n) ks"
    by (cases ms) auto
  obtain n' ks' where ns: "ns = n' # ks'" "n_name n' = n_name n" "map n_name ks' = map n_name ks"
    using ms(2) n(1) by (cases ns) auto
  have entry: "n_name n \<in> fst ` set ?rest" "n = buildNode (n_name n) (obj_or_nil (map_of ?rest (n_name n))) (n_name n \<in> set [])"
    using BuildTree_child [OF n(2)] by blast+
  have rest: "(k, val) \<in> set ?rest \<Longrightarrow> k \<notin> {''apiVersion'', ''kind'', ''status''} \<and>
      (k = ''metadata'' \<longrightarrow> \<not> IsFunctionInput c \<and> (crd_native c \<longrightarrow> (\<exists>w. val = sanitizeNativeMetadata w)))" for k val
    by (auto simp: List.map_filter_def settable_property_def split: if_splits)
  have top: "n_name n \<notin> {''apiVersion'', ''kind'', ''status''}" "IsFunctionInput c \<Longrightarrow> n_name n \<noteq> ''metadata''"
    using entry(1) rest by fastforce+
  have "n_name (hd ks) \<notin> set serverOwnedMetadataFields"
    if md: "n_name n = ''metadata''" "n_type n = ''object''" "ks \<noteq> []"
  proof -
    have native: "crd_native c" using top(2) md(1) assms(2) by blast
    obtain val where "map_of ?rest ''metadata'' = Some val"
      using entry(1) md(1) by (metis map_of_eq_None_iff not_None_eq)
    with rest [OF map_of_SomeD] native obtain w where w: "map_of ?rest ''metadata'' = Some (sanitizeNativeMetadata w)"
      by blast
    have "hd ks \<in> set (n_children n)" using n(3) md(3) by (cases ks) auto
    with buildNode_children [of "hd ks" "n_name n" "obj_or_nil (map_of ?rest (n_name n))"] entry(2) md
    obtain props where props: "as_obj (map_of (obj_or_nil (Some (sanitizeNativeMetadata w))) ''properties'') = Some props"
        "n_name (hd ks) \<in> fst ` set props"
      using w by (metis list.set(1) empty_iff)
    then show ?thesis
      using sanitized_names by blast
  qed
  with top ns ms(3) n(1) show ?thesis by (cases ks; cases ks') auto
qed


section \<open>A sample kind\<close>

definition sample_version :: version where
  "sample_version = \<lparr>v_name = ''v1'', v_served = True, v_storage = True, v_deprecated = False,
     v_properties = [(''kind'', JObj [(''type'', JStr ''string'')]),
       (''metadata'', JObj [(''type'', JStr ''object''), (''properties'',
          JObj [(''name'', JObj [(''type'', JStr ''string'')]), (''uid'', JObj [(''type'', JStr ''string'')])])]),
       (''spec'', JObj [(''type'', JStr ''object''), (''properties'', JObj sample_props)])]\<rparr>"

definition sample_doc :: crd_doc where
  "sample_doc = \<lparr>doc_kind = ''CustomResourceDefinition'', doc_group = ''argoproj.io'', doc_scope = ''Namespaced'',
     doc_names_kind = ''Workflow'', doc_plural = ''workflows'', doc_categories = [], doc_versions = [sample_version]\<rparr>"

definition sample_decode :: decode_crd where
  "sample_decode d = Inr sample_doc"

definition sample_crd :: crd where
  "sample_crd = (crd_of_doc 0 sample_doc)\<lparr>crd_native := True\<rparr>"

lemma sample_manifest: "ParseCRDManifest sample_decode [] ''kind: CustomResourceDefinition'' = (Inr [sample_crd], [[]])"
proof -
  have "SplitDocs ''kind: CustomResourceDefinition'' = [''kind: CustomResourceDefinition'']"
    by code_simp
  then show ?thesis
    by (simp add: ParseCRDManifest_def ParseCRDs_def sample_decode_def sample_doc_def sample_crd_def crd_of_doc_def sample_version_def)
qed

theorem memo_transparent_witness:
  "run_calls [[]] [(sample_crd, AFieldTree), (sample_crd, AStatus), (sample_crd, AFieldTree)] =
     map unmemoised [(sample_crd, AFieldTree), (sample_crd, AStatus), (sample_crd, AFieldTree)]"
  by (rule memo_transparent [OF disjI2 [OF sample_manifest]]) simp

theorem ParseCRDs_decides_witness:
  "crd_native sample_crd"
proof -
  have "fst (ParseCRDManifest sample_decode [] ''kind: CustomResourceDefinition'') = Inr [sample_crd]"
    by (simp add: sample_manifest)
  from ParseCRDs_decides [THEN conjunct2, THEN conjunct2, rule_format, OF this] show ?thesis by simp
qed

theorem Preferred_decides_witness: "Preferred sample_crd = Inr sample_version"
proof -
  have "crd_versions sample_crd = [] @ sample_version # []" "v_storage sample_version"
    by (simp_all add: sample_crd_def crd_of_doc_def sample_doc_def sample_version_def)
  then show ?thesis unfolding Preferred_decides by (intro exI [of _ "[]"]) simp
qed

definition sample_unmemoised :: crd where
  "sample_unmemoised = sample_crd\<lparr>crd_cache := None\<rparr>"

definition sample_fields :: "node list" where
  "sample_fields = projr (fst (FieldTree [] sample_unmemoised))"

lemma sample_field_tree: "fst (FieldTree [] sample_unmemoised) = Inr sample_fields"
proof -
  have "\<not> isl (fst (FieldTree [] sample_unmemoised))" by code_simp
  then show ?thesis by (simp add: sample_fields_def)
qed

theorem FieldTree_settable_witness:
  "n_name (hd (n_children (hd sample_fields))) \<notin> set serverOwnedMetadataFields"
proof -
  let ?n = "hd sample_fields"
  have l: "lineage sample_fields [?n, hd (n_children ?n)]" by code_simp
  have n: "n_name ?n = ''metadata''" "n_type ?n = ''object''" by code_simp+
  have c: "crd_native sample_unmemoised \<or> IsFunctionInput sample_unmemoised" "crd_cache sample_unmemoised = None"
    by (simp_all add: sample_unmemoised_def sample_crd_def)
  from FieldTree_settable [OF sample_field_tree c l] n show ?thesis by simp
qed

end
