(* ===== verification/Index_Props.thy ===== *)
theory Index_Props
  imports KindIndex Crd_Props "HOL-Library.Product_Lexorder"
begin

text \<open>
  What the kind index promises: a sorted, complete and consistently resolved index, whatever
  the order of the provider map, failure only when nothing can be indexed, and searches and
  field listings that are plain filters.
\<close>


section \<open>Stable sorting\<close>

lemma set_insert_stable [simp]: "set (insert_stable lt x ys) = insert x (set ys)"
  by (induction ys) auto

lemma mset_insert_stable [simp]: "mset (insert_stable lt x ys) = add_mset x (mset ys)"
  by (induction ys) auto

lemma mset_sort_stable [simp]: "mset (sort_stable lt xs) = mset xs"
  by (induction xs) (auto simp: sort_stable_def)

lemma set_sort_stable [simp]: "set (sort_stable lt xs) = set xs"
  by (metis mset_sort_stable set_mset_mset)

text \<open>What \<open>sort.SliceStable\<close> asks of its comparison, and what it then gives.\<close>

locale weak_order =
  fixes lt :: "'a \<Rightarrow> 'a \<Rightarrow> bool"
  assumes asym: "lt x y \<Longrightarrow> \<not> lt y x"
    and not_lt_trans: "\<not> lt y x \<Longrightarrow> \<not> lt z y \<Longrightarrow> \<not> lt z x"
begin

lemma sorted_insert:
  "sorted_wrt (\<lambda>x y. \<not> lt y x) ys \<Longrightarrow> sorted_wrt (\<lambda>x y. \<not> lt y x) (insert_stable lt x ys)"
proof (induction ys)
  case (Cons y ys)
  show ?case
  proof (cases "lt y x")
    case True
    with Cons asym [OF True] show ?thesis by simp
  next
    case False
    moreover have "\<not> lt z x" if "z \<in> set ys" for z
      using not_lt_trans [OF False] Cons.prems that by simp
    ultimately show ?thesis using Cons.prems by simp
  qed
qed simp

lemma sorted_sort: "sorted_wrt (\<lambda>x y. \<not> lt y x) (sort_stable lt xs)"
  by (induction xs) (simp_all add: sort_stable_def sorted_insert)

end

lemma kind_less_key:
  "kind_less x y \<longleftrightarrow> (kd_apiVersion x, kd_kind x, kd_provider x) < (kd_apiVersion y, kd_kind y, kd_provider y)"
  by (auto simp: kind_less_def less_prod_def)


interpretation kinds: weak_order kind_less
proof
  show "\<not> kind_less y x" if "kind_less x y" for x y
    using that unfolding kind_less_key by (rule less_not_sym)
  show "\<not> kind_less z x" if "\<not> kind_less y x" "\<not> kind_less z y" for x y z
    using that unfolding kind_less_key not_less by (rule order_trans)
qed

section \<open>The loops of \<open>Build\<close>\<close>

definition indexable :: "crd \<Rightarrow> bool" where
  "indexable c \<longleftrightarrow> composable c \<and> \<not> isl (Preferred c)"

definition loop_pairs :: "crd list gomap \<Rightarrow> (string \<times> crd) list" where
  \<comment> \<open>what the two loops visit, in order\<close>
  "loop_pairs byProvider = concat (map (\<lambda>p. map (Pair p)
     (case map_of byProvider p of Some cs \<Rightarrow> cs | None \<Rightarrow> [])) (sorted_keys byProvider))"

definition describes :: "kind \<Rightarrow> string \<Rightarrow> crd \<Rightarrow> bool" where
  \<comment> \<open>the kind is the summary of the CRD, from the trees of some moment\<close>
  "describes kd p c \<longleftrightarrow> (\<exists>v nodes av. Preferred c = Inr v \<and> CRD_APIVersion c = Inr av \<and> kd = kind_of p c v av nodes)"

abbreviation kd_key :: "kind \<Rightarrow> string" where
  "kd_key kd \<equiv> kd_apiVersion kd @ ''/'' @ kd_kind kd"

definition recorded :: "(string \<times> crd) list \<Rightarrow> (kind \<times> crd) list \<Rightarrow> build \<Rightarrow> bool" where
  \<comment> \<open>the loop variables after visiting a list of pairs\<close>
  "recorded L E b \<longleftrightarrow> bd_kinds b = map fst E \<and>
     bd_crds b = fold (\<lambda>(kd, c). AList.update (kd_key kd) c) E [] \<and>
     bd_kindsByKey b = fold (\<lambda>(kd, c). AList.update (kd_key kd) kd) E [] \<and>
     map (\<lambda>(kd, c). (kd_provider kd, c)) E = filter (\<lambda>(p, c). indexable c) L \<and>
     (\<forall>(kd, c) \<in> set E. describes kd (kd_provider kd) c) \<and>
     bd_attempted b = length (filter (\<lambda>(p, c). composable c) L) \<and>
     bd_attempted b = bd_failed b + length E"

lemma kind_of_sel [simp]: "kd_provider (kind_of p c v av nodes) = p" "kd_kind (kind_of p c v av nodes) = crd_kind c"
  "kd_apiVersion (kind_of p c v av nodes) = av"
  by (simp_all add: kind_of_def split: prod.split)

lemma APIVersion_Preferred: "Preferred c = Inr v \<Longrightarrow> \<exists>av. CRD_APIVersion c = Inr av"
  by (simp add: CRD_APIVersion_def)

lemma index_crd_recorded:
  assumes "recorded L E b"
  shows "\<exists>h' b' E'. index_crd p c (h, b) = (h', b') \<and> recorded (L @ [(p, c)]) E' b'"
proof (cases "composable c")
  case False
  with assms show ?thesis
    by (intro exI [of _ h] exI [of _ b] exI [of _ E]) (simp add: index_crd_def recorded_def indexable_def)
next
  case comp: True
  show ?thesis
  proof (cases "Preferred c")
    case (Inl err)
    with assms comp show ?thesis
      by (intro exI [of _ h] exI [of _ E] exI) (auto simp: index_crd_def recorded_def indexable_def)
  next
    case (Inr v)
    then obtain av where av: "CRD_APIVersion c = Inr av" using APIVersion_Preferred by blast
    obtain tree h' where tree: "FieldTree h c = (tree, h')" by force
    let ?kd = "kind_of p c v av (case tree of Inl _ \<Rightarrow> [] | Inr nodes \<Rightarrow> nodes)"
    have "describes ?kd p c" using Inr av by (auto simp: describes_def)
    with assms comp Inr av tree show ?thesis
      by (intro exI [of _ h'] exI [of _ "E @ [(?kd, c)]"] exI)
        (auto simp: index_crd_def recorded_def indexable_def Let_def)
  qed
qed

lemma index_pairs_recorded:
  "recorded L E b \<Longrightarrow> \<exists>h' b' E'. fold (\<lambda>(p, c). index_crd p c) M (h, b) = (h', b') \<and> recorded (L @ M) E' b'"
proof (induction M arbitrary: L E b h)
  case Nil
  then show ?case by auto
next
  case (Cons x M)
  obtain p c where x: "x = (p, c)" by (cases x)
  from index_crd_recorded [OF Cons.prems, of p c h] obtain h1 b1 E1
    where 1: "index_crd p c (h, b) = (h1, b1)" "recorded (L @ [(p, c)]) E1 b1" by blast
  from Cons.IH [OF 1(2), of h1] 1(1) x show ?case by simp
qed

lemma fold_pairs: "fold (index_provider byProvider) ps s =
  fold (\<lambda>(p, c). index_crd p c) (concat (map (\<lambda>p. map (Pair p)
     (case map_of byProvider p of Some cs \<Rightarrow> cs | None \<Rightarrow> [])) ps)) s"
  by (induction ps arbitrary: s) (simp_all add: index_provider_def fold_map comp_def)

lemma Build_recorded:
  "\<exists>h' b E. recorded (loop_pairs byProvider) E b \<and> Build h byProvider =
     (if 0 < bd_attempted b \<and> bd_failed b = bd_attempted b
      then (Inl (Msg ''index: all %d managed CRD(s) failed to index: %w''
         (Num (bd_attempted b) # (case bd_lastErr b of Some err \<Rightarrow> [Ctx err] | None \<Rightarrow> []))), h')
      else (Inr \<lparr>ix_kinds = sort_stable kind_less (bd_kinds b), ix_crds = bd_crds b,
         ix_kindsByKey = bd_kindsByKey b, ix_counts = fold count_provider (sort_stable kind_less (bd_kinds b)) []\<rparr>, h'))"
proof -
  let ?b = "\<lparr>bd_kinds = [], bd_crds = [], bd_kindsByKey = [], bd_attempted = 0, bd_failed = 0, bd_lastErr = None\<rparr>"
  have "recorded [] [] ?b" by (simp add: recorded_def)
  from index_pairs_recorded [OF this, of "loop_pairs byProvider" h] obtain h' b E
    where "fold (\<lambda>(p, c). index_crd p c) (loop_pairs byProvider) (h, ?b) = (h', b)"
      "recorded (loop_pairs byProvider) E b" by auto
  then show ?thesis
    by (intro exI [of _ h'] exI [of _ b] exI [of _ E]) (simp add: Build_def fold_pairs loop_pairs_def [symmetric] Let_def)
qed

lemma Build_Inr:
  assumes "fst (Build h byProvider) = Inr ix"
  shows "\<exists>E. map (\<lambda>(kd, c). (kd_provider kd, c)) E = filter (\<lambda>(p, c). indexable c) (loop_pairs byProvider) \<and>
    (\<forall>(kd, c) \<in> set E. describes kd (kd_provider kd) c) \<and> ix_kinds ix = sort_stable kind_less (map fst E) \<and>
    ix_crds ix = fold (\<lambda>(kd, c). AList.update (kd_key kd) c) E [] \<and>
    ix_kindsByKey ix = fold (\<lambda>(kd, c). AList.update (kd_key kd) kd) E [] \<and>
    ix_counts ix = fold count_provider (ix_kinds ix) []"
proof -
  obtain h' b E where b: "recorded (loop_pairs byProvider) E b" "Build h byProvider =
     (if 0 < bd_attempted b \<and> bd_failed b = bd_attempted b
      then (Inl (Msg ''index: all %d managed CRD(s) failed to index: %w''
         (Num (bd_attempted b) # (case bd_lastErr b of Some err \<Rightarrow> [Ctx err] | None \<Rightarrow> []))), h')
      else (Inr \<lparr>ix_kinds = sort_stable kind_less (bd_kinds b), ix_crds = bd_crds b,
         ix_kindsByKey = bd_kindsByKey b, ix_counts = fold count_provider (sort_stable kind_less (bd_kinds b)) []\<rparr>, h'))"
    using Build_recorded by blast
  from assms b(2) have "ix = \<lparr>ix_kinds = sort_stable kind_less (bd_kinds b), ix_crds = bd_crds b,
      ix_kindsByKey = bd_kindsByKey b, ix_counts = fold count_provider (sort_stable kind_less (bd_kinds b)) []\<rparr>"
    by (simp split: if_splits)
  with b(1) show ?thesis by (intro exI [of _ E]) (simp add: recorded_def)
qed


section \<open>Last write wins\<close>

lemma fold_update_None:
  "\<forall>x \<in> set xs. f x \<noteq> k \<Longrightarrow> map_of (fold (\<lambda>x. AList.update (f x) (g x)) xs m) k = map_of m k"
  by (induction xs arbitrary: m) (auto simp: update_conv')

lemma fold_update_last:
  assumes "xs = ys @ x # zs" "f x = k" "\<forall>z \<in> set zs. f z \<noteq> k"
  shows "map_of (fold (\<lambda>x. AList.update (f x) (g x)) xs m) k = Some (g x)"
  using assms by (simp add: fold_update_None update_conv')

lemma last_with:
  assumes "\<exists>x \<in> set xs. f x = k"
  obtains ys x zs where "xs = ys @ x # zs" "f x = k" "\<forall>z \<in> set zs. f z \<noteq> k"
  using split_list_last_prop [OF assms] by blast

lemma sorted_pairs: "sorted (map fst (loop_pairs byProvider))"
proof -
  have "sorted (map fst (concat (map (\<lambda>p. map (Pair p) (F p)) ps)))" if "sorted ps" for F :: "string \<Rightarrow> crd list" and ps
    using that
  proof (induction ps)
    case (Cons a ps)
    have "map fst (map (Pair a) xs) = replicate (length xs) a" for xs :: "crd list"
      by (simp add: comp_def map_replicate_const)
    with Cons show ?case by (auto simp: sorted_append)
  qed simp
  then show ?thesis by (simp add: loop_pairs_def)
qed

lemma mem_pairs: "(p, c) \<in> set (loop_pairs byProvider) \<longleftrightarrow> (\<exists>cs. map_of byProvider p = Some cs \<and> c \<in> set cs)"
proof -
  have "(p, c) \<in> set (loop_pairs byProvider) \<longleftrightarrow> p \<in> fst ` set byProvider \<and>
      c \<in> set (case map_of byProvider p of Some cs \<Rightarrow> cs | None \<Rightarrow> [])"
    unfolding loop_pairs_def set_concat set_map set_sorted_keys by auto
  then show ?thesis
    using map_of_eq_None_iff [of byProvider p] by (cases "map_of byProvider p") auto
qed

lemma ex_pairs: "(\<exists>(p, c) \<in> set (loop_pairs byProvider). Q c) \<longleftrightarrow>
    (\<exists>p cs c. map_of byProvider p = Some cs \<and> c \<in> set cs \<and> Q c)"
  unfolding Bex_def case_prod_unfold using mem_pairs by (metis prod.collapse fst_conv snd_conv)

lemma sorted_filter_fst: "sorted (map fst L) \<Longrightarrow> sorted (map fst (filter P L))"
  by (rule sorted_filter)

lemma keyed_folds:
  "fold (\<lambda>(kd, c). AList.update (kd_key kd) c) E [] = fold (\<lambda>x. AList.update (kd_key (fst x)) (snd x)) E []"
  "fold (\<lambda>(kd, c). AList.update (kd_key kd) kd) E [] = fold (\<lambda>x. AList.update (kd_key (fst x)) (fst x)) E []"
  by (simp_all add: case_prod_unfold)

text \<open>C34: A key of the index resolves to one consistent choice: the kind and the CRD returned
  together describe each other, come from a provider that ships the CRD, and of all indexed
  kinds under that key theirs is the greatest provider reference.\<close>

theorem LookupKind_consistent:
  assumes "fst (Build h byProvider) = Inr ix" "LookupKind ix apiVersion kind = Some (kd, found)"
  shows "\<exists>c cs. found = Some c \<and> Lookup ix apiVersion kind = Some c \<and> describes kd (kd_provider kd) c \<and>
    map_of byProvider (kd_provider kd) = Some cs \<and> c \<in> set cs \<and> kd_key kd = apiVersion @ ''/'' @ kind \<and>
    kd \<in> set (All ix) \<and>
    (\<forall>kd' \<in> set (All ix). kd_key kd' = apiVersion @ ''/'' @ kind \<longrightarrow> kd_provider kd' \<le> kd_provider kd)"
proof -
  obtain E where E: "map (\<lambda>(kd, c). (kd_provider kd, c)) E = filter (\<lambda>(p, c). indexable c) (loop_pairs byProvider)"
      "\<forall>(kd, c) \<in> set E. describes kd (kd_provider kd) c" "ix_kinds ix = sort_stable kind_less (map fst E)"
      "ix_crds ix = fold (\<lambda>x. AList.update (kd_key (fst x)) (snd x)) E []"
      "ix_kindsByKey ix = fold (\<lambda>x. AList.update (kd_key (fst x)) (fst x)) E []"
    using Build_Inr [OF assms(1)] unfolding keyed_folds by blast
  let ?key = "apiVersion @ ''/'' @ kind"
  have found: "map_of (ix_kindsByKey ix) ?key = Some kd" "found = map_of (ix_crds ix) ?key"
    using assms(2) by (auto simp: LookupKind_def Let_def split: option.splits)
  then have "\<exists>x \<in> set E. kd_key (fst x) = ?key"
    unfolding E(5) using fold_update_None [of E "\<lambda>x. kd_key (fst x)" ?key fst "[]"] by fastforce
  then obtain ys x zs where x: "E = ys @ x # zs" "kd_key (fst x) = ?key" "\<forall>z \<in> set zs. kd_key (fst z) \<noteq> ?key"
    by (rule last_with)
  have kd: "kd = fst x" "found = Some (snd x)"
    using found unfolding E(4,5) fold_update_last [of E ys x zs "\<lambda>x. kd_key (fst x)", OF x] by simp_all
  have lk: "Lookup ix apiVersion kind = Some (snd x)" using found(2) kd(2) by (simp add: Lookup_def)
  have "(kd_provider (fst x), snd x) \<in> set (map (\<lambda>(kd, c). (kd_provider kd, c)) E)"
    using x(1) by (simp add: case_prod_unfold)
  then have "(kd_provider (fst x), snd x) \<in> set (loop_pairs byProvider)" unfolding E(1) by auto
  then obtain cs where cs: "map_of byProvider (kd_provider kd) = Some cs" "snd x \<in> set cs"
    unfolding mem_pairs kd by blast
  have "map (\<lambda>x. kd_provider (fst x)) E = map fst (map (\<lambda>(kd, c). (kd_provider kd, c)) E)"
    by (simp add: case_prod_unfold comp_def)
  then have "sorted (map (\<lambda>x. kd_provider (fst x)) E)"
    unfolding E(1) using sorted_filter_fst [OF sorted_pairs] by simp
  then have le: "kd_provider (fst y) \<le> kd_provider (fst x)" if "y \<in> set ys" for y
    using that unfolding x(1) by (simp add: sorted_append)
  have "kd_provider kd' \<le> kd_provider kd" if kd': "kd' \<in> set (All ix)" "kd_key kd' = ?key" for kd'
  proof -
    obtain y where "y \<in> set E" "kd' = fst y" using kd'(1) by (auto simp: All_def E(3))
    then have "y \<in> set ys \<or> y = x" using kd'(2) x(1,3) by auto
    with le \<open>kd' = fst y\<close> kd(1) show ?thesis by blast
  qed
  moreover have "kd \<in> set (All ix)" using x(1) kd(1) by (simp add: All_def E(3))
  moreover have "describes kd (kd_provider kd) (snd x)" using E(2) x(1) kd(1) by auto
  ultimately show ?thesis using kd lk cs x(2) by blast
qed

text \<open>C38: \<open>All\<close> is sorted by apiVersion, kind and provider and holds one entry for every CRD
  that can be indexed; each entry is found under its own key, and the count of a provider is
  the number of its entries.\<close>

theorem All_sorted_complete:
  assumes "fst (Build h byProvider) = Inr ix"
  shows "sorted_wrt (\<lambda>x y. (kd_apiVersion x, kd_kind x, kd_provider x) \<le> (kd_apiVersion y, kd_kind y, kd_provider y)) (All ix) \<and>
    length (All ix) = length (filter (\<lambda>(p, c). indexable c) (loop_pairs byProvider)) \<and>
    (\<forall>kd \<in> set (All ix). LookupKind ix (kd_apiVersion kd) (kd_kind kd) \<noteq> None) \<and>
    map_of (CountsByProvider (Some ix)) p =
      (let n = length (filter (\<lambda>k. kd_provider k = p) (All ix)) in if n = 0 then None else Some n)"
proof -
  obtain E where E: "map (\<lambda>(kd, c). (kd_provider kd, c)) E = filter (\<lambda>(p, c). indexable c) (loop_pairs byProvider)"
      "ix_kinds ix = sort_stable kind_less (map fst E)"
      "ix_kindsByKey ix = fold (\<lambda>x. AList.update (kd_key (fst x)) (fst x)) E []"
      "ix_counts ix = fold count_provider (ix_kinds ix) []"
    using Build_Inr [OF assms(1)] unfolding keyed_folds by blast
  have "length (All ix) = length E" by (metis All_def E(2) length_map mset_sort_stable size_mset map_ident)
  moreover have "length E = length (filter (\<lambda>(p, c). indexable c) (loop_pairs byProvider))"
    unfolding E(1) [symmetric] by simp
  moreover have "LookupKind ix (kd_apiVersion kd) (kd_kind kd) \<noteq> None" if "kd \<in> set (All ix)" for kd
  proof -
    have "\<exists>x \<in> set E. kd_key (fst x) = kd_key kd" using that by (auto simp: All_def E(2))
    then obtain ys x zs where x: "E = ys @ x # zs" "kd_key (fst x) = kd_key kd" "\<forall>z \<in> set zs. kd_key (fst z) \<noteq> kd_key kd"
      by (rule last_with)
    from fold_update_last [of E ys x zs "\<lambda>x. kd_key (fst x)" _ fst "[]", OF x]
    have "map_of (ix_kindsByKey ix) (kd_key kd) = Some (fst x)" unfolding E(3) .
    then show ?thesis by (simp add: LookupKind_def Let_def)
  qed
  moreover have "sorted_wrt (\<lambda>x y. (kd_apiVersion x, kd_kind x, kd_provider x) \<le> (kd_apiVersion y, kd_kind y, kd_provider y)) (All ix)"
    using kinds.sorted_sort [of "map fst E"] unfolding All_def E(2) kind_less_key not_less map_ident .
  moreover have "map_of (fold count_provider ks m) p =
      (let n = length (filter (\<lambda>k. kd_provider k = p) ks) in
       if n = 0 then map_of m p else Some ((case map_of m p of Some j \<Rightarrow> j | None \<Rightarrow> 0) + n))" for ks m
    by (induction ks arbitrary: m) (auto simp: count_provider_def update_conv' Let_def split: option.split)
  then have "map_of (CountsByProvider (Some ix)) p =
      (let n = length (filter (\<lambda>k. kd_provider k = p) (All ix)) in if n = 0 then None else Some n)"
    by (simp add: CountsByProvider_def E(4) All_def Let_def)
  ultimately show ?thesis by simp
qed

text \<open>\<open>Build\<close> fails exactly when there is something to index and nothing of it can be: one
  bad CRD never takes the others down, and no input without kinds is an error.\<close>

theorem Build_fails_iff:
  "(\<exists>err. fst (Build h byProvider) = Inl err) \<longleftrightarrow>
     (\<exists>p cs c. map_of byProvider p = Some cs \<and> c \<in> set cs \<and> composable c) \<and>
     \<not> (\<exists>p cs c v. map_of byProvider p = Some cs \<and> c \<in> set cs \<and> composable c \<and> Preferred c = Inr v)"
proof -
  obtain h' b E where b: "recorded (loop_pairs byProvider) E b" "Build h byProvider =
     (if 0 < bd_attempted b \<and> bd_failed b = bd_attempted b
      then (Inl (Msg ''index: all %d managed CRD(s) failed to index: %w''
         (Num (bd_attempted b) # (case bd_lastErr b of Some err \<Rightarrow> [Ctx err] | None \<Rightarrow> []))), h')
      else (Inr \<lparr>ix_kinds = sort_stable kind_less (bd_kinds b), ix_crds = bd_crds b,
         ix_kindsByKey = bd_kindsByKey b, ix_counts = fold count_provider (sort_stable kind_less (bd_kinds b)) []\<rparr>, h'))"
    using Build_recorded by blast
  have n: "length E = length (filter (\<lambda>(p, c). indexable c) (loop_pairs byProvider))"
  proof -
    have "map (\<lambda>(kd, c). (kd_provider kd, c)) E = filter (\<lambda>(p, c). indexable c) (loop_pairs byProvider)"
      using b(1) unfolding recorded_def by blast
    from arg_cong [OF this, of length] show ?thesis by simp
  qed
  have e: "bd_attempted b = bd_failed b + length E" using b(1) unfolding recorded_def by blast
  have "(\<exists>err. fst (if A then (Inl m, h') else (Inr ix, h')) = Inl err) = A"
    for A m and ix :: kind_index by simp
  then have "(\<exists>err. fst (Build h byProvider) = Inl err) \<longleftrightarrow>
      0 < bd_attempted b \<and> bd_failed b = bd_attempted b" unfolding b(2) .
  also have "\<dots> \<longleftrightarrow> 0 < bd_attempted b \<and> E = []" unfolding e by simp
  also have "\<dots> \<longleftrightarrow> (\<exists>(p, c) \<in> set (loop_pairs byProvider). composable c) \<and>
      \<not> (\<exists>(p, c) \<in> set (loop_pairs byProvider). indexable c)"
  proof -
    have "0 < bd_attempted b \<longleftrightarrow> (\<exists>(p, c) \<in> set (loop_pairs byProvider). composable c)"
      using b(1) by (simp add: recorded_def filter_empty_conv case_prod_unfold)
    moreover have "E = [] \<longleftrightarrow> \<not> (\<exists>(p, c) \<in> set (loop_pairs byProvider). indexable c)"
      using n length_0_conv [of E] by (simp add: filter_empty_conv case_prod_unfold)
    ultimately show ?thesis by blast
  qed
  also have "\<dots> \<longleftrightarrow> (\<exists>p cs c. map_of byProvider p = Some cs \<and> c \<in> set cs \<and> composable c) \<and>
     \<not> (\<exists>p cs c v. map_of byProvider p = Some cs \<and> c \<in> set cs \<and> composable c \<and> Preferred c = Inr v)"
  proof -
    have "indexable c \<longleftrightarrow> composable c \<and> (\<exists>v. Preferred c = Inr v)" for c
      by (cases "Preferred c") (simp_all add: indexable_def)
    then show ?thesis by (simp only: ex_pairs) blast
  qed
  finally show ?thesis .
qed

text \<open>\<open>Search\<close> is the filter of \<open>All\<close> by the folded query, cut at the limit: the early exit
  of its loop drops nothing else, and a limit of zero or less is none.\<close>

theorem Search_filter:
  "Search lower ix q limit =
     (let hits = filter (\<lambda>k. contains (lower (kd_kind k)) (lower q) \<or> contains (lower (kd_group k)) (lower q)) (All ix)
      in if 0 < limit then take (nat limit) hits else hits)"
proof -
  let ?P = "\<lambda>k. contains (lower (kd_kind k)) (lower q) \<or> contains (lower (kd_group k)) (lower q)"
  have "search_loop lower (lower q) limit out ks = out @ (if 0 < limit then take (nat limit - length out) (filter ?P ks) else filter ?P ks)"
    if "limit \<le> 0 \<or> int (length out) < limit" for out ks
    using that
  proof (induction ks arbitrary: out)
    case (Cons k ks)
    show ?case
    proof (cases "?P k")
      case False
      with Cons show ?thesis by simp
    next
      case True
      show ?thesis
      proof (cases "0 < limit \<and> int (length (out @ [k])) = limit")
        case t: True
        then have "nat limit - length out = 1" by (simp add: nat_eq_iff2) linarith
        with True t show ?thesis by simp
      next
        case False
        with Cons.prems have "limit \<le> 0 \<or> int (length (out @ [k])) < limit" by auto
        moreover have "0 < limit \<Longrightarrow> nat limit - length out = Suc (nat limit - length (out @ [k]))"
          using Cons.prems by auto
        ultimately show ?thesis using Cons.IH [of "out @ [k]"] True False by (auto simp: Let_def)
      qed
    qed
  qed simp
  from this [of "[]"] show ?thesis by (auto simp: Search_def All_def Let_def)
qed

text \<open>\<open>Fields\<close> lists the leaves of the tree in order that pass every set filter, cut at the
  limit.\<close>

theorem Fields_filter:
  "Fields lower nodes q =
     (let hits = filter (\<lambda>f. (q_prefix q = [] \<or> if_path f = q_prefix q \<or> prefix (q_prefix q @ ''.'') (if_path f)) \<and>
          (q_maxDepth q \<le> 0 \<or> int (if_depth f) \<le> q_maxDepth q) \<and>
          (if q_requiredOnly q then if_chain f else True) \<and>
          (q_search q = [] \<or> contains (lower (if_path f)) (lower (q_search q)) \<or>
            contains (lower (if_description f)) (lower (q_search q)))) (map field_of (Leaves nodes []))
      in if 0 < q_limit q then take (nat (q_limit q)) hits else hits)"
  unfolding Fields_def filterPrefix_def filterMaxDepth_def filterRequiredOnly_def filterSearch_def Let_def has_prefix_iff
  by (auto simp: conj_ac)


section \<open>A sample index\<close>

definition sample_index :: kind_index where
  "sample_index = projr (fst (Build [[]] [(''k8s'', [sample_crd])]))"

lemma sample_build: "fst (Build [[]] [(''k8s'', [sample_crd])]) = Inr sample_index"
proof -
  have "\<not> isl (fst (Build [[]] [(''k8s'', [sample_crd])]))" by code_simp
  then show ?thesis by (simp add: sample_index_def)
qed

definition sample_kind :: kind where
  "sample_kind = hd (ix_kinds sample_index)"

lemma sample_lookup: "LookupKind sample_index ''argoproj.io/v1'' ''Workflow'' = Some (sample_kind, Some sample_crd)"
  by code_simp

theorem LookupKind_consistent_witness:
  "describes sample_kind (kd_provider sample_kind) sample_crd \<and> sample_kind \<in> set (All sample_index)"
  using LookupKind_consistent [OF sample_build sample_lookup] by auto

theorem All_sorted_complete_witness:
  "length (All sample_index) = length (filter (\<lambda>(p, c). indexable c) (loop_pairs [(''k8s'', [sample_crd])]))"
  using All_sorted_complete [OF sample_build] by blast

end
