(* ===== verification/Lockfile.thy ===== *)
theory Lockfile
  imports GoString
begin

text \<open>
  The lockfile's operations (\<open>internal/cache/store.go\<close>): setting, removing and finding the pin of
  a provider or function reference. The method receiver is the lock's value, returned updated.
  \<open>strings.ToLower\<close> past ASCII is the parameter \<open>lower\<close>.
\<close>

section \<open>The program\<close>

record lock_entry =
  le_ref :: string
  le_digest :: string

record lock =
  lk_providers :: "lock_entry list"
  lk_functions :: "lock_entry list"

definition isFunctionRef :: "string \<Rightarrow> bool" where
  "isFunctionRef ref \<longleftrightarrow> contains ref ''/function-'' \<or> has_prefix ref ''function-''"

fun remove_entry :: "string \<Rightarrow> lock_entry list \<Rightarrow> lock_entry list \<times> bool" where
  \<comment> \<open>one loop of \<open>Remove\<close>: cut the first match and stop\<close>
  "remove_entry ref [] = ([], False)"
| "remove_entry ref (e # es) =
     (if le_ref e = ref then (es, True) else (case remove_entry ref es of (es', b) \<Rightarrow> (e # es', b)))"

definition lock_remove :: "string \<Rightarrow> lock \<Rightarrow> bool \<times> lock" where
  "lock_remove ref l =
     (case remove_entry ref (lk_providers l) of (ps, b1) \<Rightarrow>
        case remove_entry ref (lk_functions l) of (fs, b2) \<Rightarrow>
          (b1 \<or> b2, l\<lparr>lk_providers := ps, lk_functions := fs\<rparr>))"

fun replace_digest :: "string \<Rightarrow> string \<Rightarrow> lock_entry list \<Rightarrow> lock_entry list option" where
  \<comment> \<open>the loop that updates in place; None when it runs to its end\<close>
  "replace_digest ref digest [] = None"
| "replace_digest ref digest (e # es) =
     (if le_ref e = ref then Some (e\<lparr>le_digest := digest\<rparr> # es)
      else map_option ((#) e) (replace_digest ref digest es))"

definition sort_entries :: "lock_entry list \<Rightarrow> lock_entry list" where
  \<comment> \<open>\<open>sort.Slice\<close> by reference; entries of equal reference keep their order\<close>
  "sort_entries es = sort_key le_ref es"

definition set_entry :: "string \<Rightarrow> string \<Rightarrow> lock_entry list \<Rightarrow> lock_entry list" where
  "set_entry ref digest es =
     (case replace_digest ref digest es of
        Some es' \<Rightarrow> es'
      | None \<Rightarrow> sort_entries (es @ [\<lparr>le_ref = ref, le_digest = digest\<rparr>]))"

definition SetProvider :: "string \<Rightarrow> string \<Rightarrow> lock \<Rightarrow> lock" where
  "SetProvider ref digest l = l\<lparr>lk_providers := set_entry ref digest (lk_providers l)\<rparr>"

definition SetFunction :: "string \<Rightarrow> string \<Rightarrow> lock \<Rightarrow> lock" where
  "SetFunction ref digest l = l\<lparr>lk_functions := set_entry ref digest (lk_functions l)\<rparr>"

definition lock_set :: "string \<Rightarrow> string \<Rightarrow> lock \<Rightarrow> lock" where
  "lock_set ref digest l = (if isFunctionRef ref then SetFunction ref digest l else SetProvider ref digest l)"

definition cleanRefSegment :: "string \<Rightarrow> string" where
  "cleanRefSegment ref =
     (let s = ref;
          s = (case go_index s ''@'' of Some i \<Rightarrow> take i s | None \<Rightarrow> s);
          s = (case last_index CHR '':'' s of Some i \<Rightarrow> take i s | None \<Rightarrow> s);
          s = (case last_index CHR ''/'' s of Some i \<Rightarrow> drop (i + 1) s | None \<Rightarrow> s)
      in s)"

definition cleanFunctionRef :: "(string \<Rightarrow> string) \<Rightarrow> string \<Rightarrow> string" where
  "cleanFunctionRef lower ref =
     trim_prefix (trim_prefix (lower (cleanRefSegment ref)) ''function-'') ''fn-''"

definition find_in :: "(string \<Rightarrow> string) \<Rightarrow> lock_entry list \<Rightarrow> string \<Rightarrow> lock_entry option" where
  \<comment> \<open>the three passes over a list, the last comparing cleaned names\<close>
  "find_in clean es want =
     (case find (\<lambda>e. le_ref e = want) es of
        Some e \<Rightarrow> Some e
      | None \<Rightarrow>
          (case find (\<lambda>e. has_prefix (le_ref e) (want @ '':'') \<or> has_prefix (le_ref e) (want @ ''@'')) es of
             Some e \<Rightarrow> Some e
           | None \<Rightarrow>
               if \<not> contains want ''/'' \<and> clean want \<noteq> []
               then find (\<lambda>e. clean (le_ref e) = clean want) es else None))"

definition FindFunction :: "(string \<Rightarrow> string) \<Rightarrow> lock option \<Rightarrow> string \<Rightarrow> lock_entry option" where
  "FindFunction lower l nameOrRef =
     (case l of
        None \<Rightarrow> None
      | Some l \<Rightarrow> if nameOrRef = [] then None else find_in (cleanFunctionRef lower) (lk_functions l) nameOrRef)"

definition FindProvider :: "lock option \<Rightarrow> string \<Rightarrow> lock_entry option" where
  "FindProvider l providerRef =
     (case l of
        None \<Rightarrow> None
      | Some l \<Rightarrow> if providerRef = [] then None else find_in cleanRefSegment (lk_providers l) providerRef)"

definition lock_sorted :: "lock \<Rightarrow> lock" where
  \<comment> \<open>what \<open>Write\<close> does to the lock before encoding it\<close>
  "lock_sorted l = l\<lparr>lk_providers := sort_entries (lk_providers l), lk_functions := sort_entries (lk_functions l)\<rparr>"

section \<open>A keyed store\<close>

text \<open>What the rest of the program expects of anything it keeps under a reference. A history is a
  sequence of events; \<open>latest\<close> is the last thing it says of a key, \<open>view\<close> what of a value a
  reader can see.\<close>

datatype ('v, 'q) event = Put string 'v | Del string | Quiet 'q

fun latest :: "('v \<Rightarrow> 'a) \<Rightarrow> string \<Rightarrow> ('v, 'q) event list \<Rightarrow> 'a option \<Rightarrow> 'a option" where
  "latest view k [] x = x"
| "latest view k (Put j v # es) x = latest view k es (if j = k then Some (view v) else x)"
| "latest view k (Del j # es) x = latest view k es (if j = k then None else x)"
| "latest view k (Quiet q # es) x = latest view k es x"

fun run_event :: "(string \<Rightarrow> 'v \<Rightarrow> 's \<Rightarrow> 's) \<Rightarrow> (string \<Rightarrow> 's \<Rightarrow> 's) \<Rightarrow> ('q \<Rightarrow> 's \<Rightarrow> 's) \<Rightarrow> ('v, 'q) event \<Rightarrow> 's \<Rightarrow> 's" where
  "run_event put del quiet (Put k v) s = put k v s"
| "run_event put del quiet (Del k) s = del k s"
| "run_event put del quiet (Quiet q) s = quiet q s"

fun event_ok :: "(string \<Rightarrow> bool) \<Rightarrow> (string \<Rightarrow> 'v \<Rightarrow> bool) \<Rightarrow> ('q \<Rightarrow> bool) \<Rightarrow> ('v, 'q) event \<Rightarrow> bool" where
  "event_ok key can may (Put k v) \<longleftrightarrow> key k \<and> can k v"
| "event_ok key can may (Del k) \<longleftrightarrow> key k"
| "event_ok key can may (Quiet q) \<longleftrightarrow> may q"

lemma event_ok_all [simp]: "event_ok (\<lambda>_. True) (\<lambda>_ _. True) (\<lambda>_. True) e"
  by (cases e) simp_all

locale keyed_store =
  fixes inv :: "'s \<Rightarrow> bool"
    and key :: "string \<Rightarrow> bool"
    and can :: "string \<Rightarrow> 'v \<Rightarrow> bool"
    and may :: "'q \<Rightarrow> bool"
    and view :: "'v \<Rightarrow> 'a"
    and get :: "'s \<Rightarrow> string \<Rightarrow> 'a option"
    and put :: "string \<Rightarrow> 'v \<Rightarrow> 's \<Rightarrow> 's"
    and del :: "string \<Rightarrow> 's \<Rightarrow> 's"
    and quiet :: "'q \<Rightarrow> 's \<Rightarrow> 's"
  assumes inv_put: "inv s \<Longrightarrow> key k \<Longrightarrow> can k v \<Longrightarrow> inv (put k v s)"
    and inv_del: "inv s \<Longrightarrow> key k \<Longrightarrow> inv (del k s)"
    and inv_quiet: "inv s \<Longrightarrow> may q \<Longrightarrow> inv (quiet q s)"
    and get_put: "inv s \<Longrightarrow> key k \<Longrightarrow> key j \<Longrightarrow> can k v \<Longrightarrow>
      get (put k v s) j = (if j = k then Some (view v) else get s j)"
    and get_del: "inv s \<Longrightarrow> key k \<Longrightarrow> key j \<Longrightarrow> get (del k s) j = (if j = k then None else get s j)"
    and get_quiet: "inv s \<Longrightarrow> may q \<Longrightarrow> key j \<Longrightarrow> get (quiet q s) j = get s j"
begin

lemma inv_event: "inv s \<Longrightarrow> event_ok key can may e \<Longrightarrow> inv (run_event put del quiet e s)"
  by (cases e) (simp_all add: inv_put inv_del inv_quiet)

lemma inv_history: "inv s \<Longrightarrow> list_all (event_ok key can may) es \<Longrightarrow> inv (fold (run_event put del quiet) es s)"
  by (induction es arbitrary: s) (simp_all add: inv_event)

lemma get_event:
  "inv s \<Longrightarrow> event_ok key can may e \<Longrightarrow> key k \<Longrightarrow> get (run_event put del quiet e s) k = latest view k [e] (get s k)"
  by (cases e) (auto simp: get_put get_del get_quiet)

lemma latest_Cons: "latest view k (e # es) x = latest view k es (latest view k [e] x)"
  by (cases e) simp_all

lemma get_history:
  "inv s \<Longrightarrow> list_all (event_ok key can may) es \<Longrightarrow> key k \<Longrightarrow>
     get (fold (run_event put del quiet) es s) k = latest view k es (get s k)"
proof (induction es arbitrary: s)
  case (Cons e es)
  then show ?case
    using latest_Cons [of k e es "get s k"] by (simp add: inv_event get_event)
qed simp

end

section \<open>Pins as a keyed store\<close>

definition pins_ok :: "lock_entry list \<Rightarrow> bool" where
  \<comment> \<open>strictly sorted by reference\<close>
  "pins_ok es \<longleftrightarrow> sorted_wrt (<) (map le_ref es)"

definition pin :: "lock_entry list \<Rightarrow> string \<Rightarrow> string option" where
  "pin es ref = map_option le_digest (find (\<lambda>e. le_ref e = ref) es)"

lemma find_ref_None: "find (\<lambda>e. le_ref e = r) es = None \<longleftrightarrow> r \<notin> le_ref ` set es"
  by (auto simp: find_None_iff)

lemma pin_simps [simp]:
  "pin [] r = None"
  "pin (e # es) r = (if le_ref e = r then Some (le_digest e) else pin es r)"
  by (simp_all add: pin_def)

lemma replace_digest_None: "replace_digest r d es = None \<longleftrightarrow> r \<notin> le_ref ` set es"
  by (induction es) auto

lemma replace_digest_Some:
  "replace_digest r d es = Some es' \<Longrightarrow> map le_ref es' = map le_ref es \<and>
     pin es' j = (if j = r then Some d else pin es j)"
proof (induction es arbitrary: es')
  case (Cons e es)
  show ?case
  proof (cases "le_ref e = r")
    case True
    with Cons.prems show ?thesis by auto
  next
    case False
    with Cons.prems obtain fs where fs: "replace_digest r d es = Some fs" "es' = e # fs" by auto
    from Cons.IH [OF fs(1)] False show ?thesis by (auto simp: fs(2))
  qed
qed simp

lemma pin_None: "pin es r = None \<longleftrightarrow> r \<notin> le_ref ` set es"
  by (simp add: pin_def find_ref_None)

lemma pin_Some: "distinct (map le_ref es) \<Longrightarrow> pin es r = Some d \<longleftrightarrow> \<lparr>le_ref = r, le_digest = d\<rparr> \<in> set es"
proof (induction es)
  case (Cons e es)
  obtain a b where e: "e = \<lparr>le_ref = a, le_digest = b\<rparr>" by (cases e)
  from Cons show ?case unfolding e by (cases "a = r") (force simp: image_iff)+
qed simp

lemma pin_cong: "distinct (map le_ref es) \<Longrightarrow> distinct (map le_ref fs) \<Longrightarrow> set es = set fs \<Longrightarrow> pin es = pin fs"
  using pin_Some [of es] pin_Some [of fs] by (intro ext) (metis not_None_eq)

lemma pins_ok_iff: "pins_ok es \<longleftrightarrow> sorted (map le_ref es) \<and> distinct (map le_ref es)"
  by (simp add: pins_ok_def strict_sorted_iff)

lemma set_entry_pins:
  assumes "pins_ok es"
  shows "pins_ok (set_entry r d es)" "pin (set_entry r d es) j = (if j = r then Some d else pin es j)"
proof -
  have "pins_ok (set_entry r d es) \<and> pin (set_entry r d es) j = (if j = r then Some d else pin es j)"
  proof (cases "replace_digest r d es")
    case (Some es')
    from replace_digest_Some [OF this] assms Some show ?thesis by (simp add: set_entry_def pins_ok_def)
  next
    case None
    let ?new = "es @ [\<lparr>le_ref = r, le_digest = d\<rparr>]"
    have r: "r \<notin> le_ref ` set es" using None by (simp add: replace_digest_None)
    with assms have dist: "distinct (map le_ref ?new)" by (simp add: pins_ok_iff)
    moreover have ds: "distinct (map le_ref (sort_entries ?new))"
    proof -
      have "mset (map le_ref (sort_entries ?new)) = mset (map le_ref ?new)" by (simp add: sort_entries_def)
      from mset_eq_imp_distinct_iff [OF this] dist show ?thesis by blast
    qed
    moreover have "pin (sort_entries ?new) = pin ?new"
      using pin_cong [OF ds dist] by (simp add: sort_entries_def)
    moreover have "pin (es @ fs) j = (case pin es j of Some d \<Rightarrow> Some d | None \<Rightarrow> pin fs j)" for fs
      by (induction es) auto
    ultimately show ?thesis
      using None r pin_None [of es r]
      by (auto simp: set_entry_def pins_ok_iff sort_entries_def split: option.split)
  qed
  then show "pins_ok (set_entry r d es)" "pin (set_entry r d es) j = (if j = r then Some d else pin es j)" by blast+
qed

lemma remove_entry_set: "set (fst (remove_entry r es)) \<subseteq> set es"
  by (induction es) (auto split: prod.splits)

lemma remove_entry_pins:
  assumes "pins_ok es"
  shows "pins_ok (fst (remove_entry r es))" "pin (fst (remove_entry r es)) j = (if j = r then None else pin es j)"
    "snd (remove_entry r es) \<longleftrightarrow> pin es r \<noteq> None"
  using assms
proof (induction es)
  case (Cons e es)
  {
    case 1
    with Cons(1) remove_entry_set [of r es] show ?case by (fastforce simp: pins_ok_def split: prod.splits)
  next
    case 2
    with Cons(2) pin_None [of es "le_ref e"] show ?case by (auto simp: pins_ok_def split: prod.splits)
  next
    case 3
    with Cons(3) show ?case by (auto simp: pins_ok_def split: prod.splits)
  }
qed (simp_all add: pins_ok_def)

lemma sort_entries_sorted: "pins_ok es \<Longrightarrow> sort_entries es = es"
  by (simp add: sort_entries_def pins_ok_iff sorted_sort_id sort_key_id_if_sorted)

text \<open>A lock as its methods keep it: each list strictly sorted, holding references of its kind.\<close>

definition lock_ok :: "lock \<Rightarrow> bool" where
  "lock_ok l \<longleftrightarrow> pins_ok (lk_providers l) \<and> pins_ok (lk_functions l) \<and>
     list_all (\<lambda>e. \<not> isFunctionRef (le_ref e)) (lk_providers l) \<and> list_all (\<lambda>e. isFunctionRef (le_ref e)) (lk_functions l)"

definition lock_pin :: "lock \<Rightarrow> string \<Rightarrow> string option" where
  "lock_pin l ref = pin (if isFunctionRef ref then lk_functions l else lk_providers l) ref"

lemma replace_digest_refs: "replace_digest r d es = Some es' \<Longrightarrow> map le_ref es' = map le_ref es"
  by (induction es arbitrary: es') (auto split: if_splits)

lemma set_entry_refs: "le_ref ` set (set_entry r d es) = insert r (le_ref ` set es)"
proof (cases "replace_digest r d es")
  case None
  then show ?thesis by (simp add: set_entry_def sort_entries_def)
next
  case (Some es')
  with replace_digest_refs [OF Some] have "le_ref ` set es' = le_ref ` set es" by (metis set_map)
  with Some replace_digest_None [of r d es] show ?thesis by (auto simp: set_entry_def)
qed

lemma set_entry_all: "list_all (\<lambda>e. P (le_ref e)) (set_entry r d es) \<longleftrightarrow> P r \<and> list_all (\<lambda>e. P (le_ref e)) es"
  using set_entry_refs [of r d es] ball_simps(9) [of le_ref "set (set_entry r d es)" P] ball_simps(9) [of le_ref "set es" P]
  by (simp add: list_all_iff)

lemma lock_set_ok: "lock_ok l \<Longrightarrow> lock_ok (lock_set r d l)"
  by (simp add: lock_ok_def lock_set_def SetProvider_def SetFunction_def set_entry_pins
      set_entry_all [where P = isFunctionRef] set_entry_all [where P = "\<lambda>r. \<not> isFunctionRef r"])

lemma lock_set_pin: "lock_ok l \<Longrightarrow> lock_pin (lock_set r d l) j = (if j = r then Some d else lock_pin l j)"
  by (auto simp: lock_ok_def lock_pin_def lock_set_def SetProvider_def SetFunction_def set_entry_pins)

lemma lock_remove_eq:
  "snd (lock_remove r l) = l\<lparr>lk_providers := fst (remove_entry r (lk_providers l)),
     lk_functions := fst (remove_entry r (lk_functions l))\<rparr>"
  "fst (lock_remove r l) \<longleftrightarrow> snd (remove_entry r (lk_providers l)) \<or> snd (remove_entry r (lk_functions l))"
  by (simp_all add: lock_remove_def split: prod.split)

lemma lock_remove_ok: "lock_ok l \<Longrightarrow> lock_ok (snd (lock_remove r l))"
  using remove_entry_set [of r "lk_providers l"] remove_entry_set [of r "lk_functions l"]
  by (auto simp: lock_ok_def lock_remove_eq remove_entry_pins list_all_iff)

lemma lock_remove_pin: "lock_ok l \<Longrightarrow> lock_pin (snd (lock_remove r l)) j = (if j = r then None else lock_pin l j)"
  by (simp add: lock_ok_def lock_pin_def lock_remove_eq remove_entry_pins)

lemma lock_sorted_ok: "lock_ok l \<Longrightarrow> lock_sorted l = l"
  by (simp add: lock_ok_def lock_sorted_def sort_entries_sorted)

lemma lock_remove_flag:
  assumes "lock_ok l"
  shows "fst (lock_remove r l) \<longleftrightarrow> lock_pin l r \<noteq> None"
proof -
  have "pin (lk_providers l) r = None" if "isFunctionRef r"
    using assms that by (auto simp: lock_ok_def pin_None list_all_iff)
  moreover have "pin (lk_functions l) r = None" if "\<not> isFunctionRef r"
    using assms that by (auto simp: lock_ok_def pin_None list_all_iff)
  ultimately show ?thesis
    using assms by (auto simp: lock_ok_def lock_remove_eq lock_pin_def remove_entry_pins)
qed

interpretation locks: keyed_store lock_ok "\<lambda>_. True" "\<lambda>_ _. True" "\<lambda>_. True" id lock_pin lock_set
    "\<lambda>r l. snd (lock_remove r l)" "\<lambda>_. lock_sorted"
  by unfold_locales
    (simp_all add: lock_set_ok lock_set_pin lock_remove_ok lock_remove_pin lock_sorted_ok)

section \<open>Finding\<close>

lemma find_Some: "find P es = Some e \<Longrightarrow> e \<in> set es \<and> P e"
  by (induction es) (auto split: if_splits)

definition ref_matches :: "(string \<Rightarrow> string) \<Rightarrow> string \<Rightarrow> string \<Rightarrow> bool" where
  \<comment> \<open>what a reference may be found by: itself, its repository, or its bare name\<close>
  "ref_matches clean want ref \<longleftrightarrow> ref = want \<or> has_prefix ref (want @ '':'') \<or> has_prefix ref (want @ ''@'') \<or>
     (\<not> contains want ''/'' \<and> clean want \<noteq> [] \<and> clean ref = clean want)"

lemma find_in_matches: "find_in clean es want = Some e \<Longrightarrow> e \<in> set es \<and> ref_matches clean want (le_ref e)"
  by (auto simp: find_in_def ref_matches_def split: option.splits if_splits dest: find_Some)

lemma find_in_None: "find_in clean es want = None \<longleftrightarrow> list_all (\<lambda>e. \<not> ref_matches clean want (le_ref e)) es"
  by (auto simp: find_in_def ref_matches_def find_None_iff list_all_iff split: option.splits dest: find_Some)

lemma find_in_exact: "pin es want = Some d \<Longrightarrow> find_in clean es want = Some \<lparr>le_ref = want, le_digest = d\<rparr>"
  using find_Some [of "\<lambda>e. le_ref e = want" es] by (auto simp: pin_def find_in_def intro!: lock_entry.equality)

end
