(* ===== verification/World.thy ===== *)
theory World
  imports Lockfile Crd
begin

text \<open>
  What the provider cache (\<open>internal/cache\<close>) runs on: file paths, a file system whose operations
  may fail or stop half way, and JSON values between the program's structs and the text of a file.

  The failures are a tape: each file operation takes the next entry, and past the end of the tape
  every operation succeeds. A statement for all tapes covers every way the operations can fail.
  The JSON text codec (\<open>encoding/json\<close>) is a parameter; the struct tags are modelled here.
\<close>

section \<open>Paths\<close>

fun clean_elems :: "bool \<Rightarrow> string list \<Rightarrow> string list \<Rightarrow> string list" where
  \<comment> \<open>\<open>path/filepath.Clean\<close> on the elements; the second argument is the output, reversed\<close>
  "clean_elems rooted out [] = rev out"
| "clean_elems rooted out (e # es) =
     (if e = [] \<or> e = ''.'' then clean_elems rooted out es
      else if e = ''..'' then
        (case out of
           [] \<Rightarrow> clean_elems rooted (if rooted then [] else [e]) es
         | t # ts \<Rightarrow> if t = ''..'' then clean_elems rooted (e # out) es else clean_elems rooted ts es)
      else clean_elems rooted (e # out) es)"

definition is_abs :: "string \<Rightarrow> bool" where
  "is_abs p \<longleftrightarrow> has_prefix p ''/''"

definition clean_path :: "string \<Rightarrow> string" where
  "clean_path p =
     (if p = [] then ''.''
      else let q = (if is_abs p then ''/'' else []) @ go_join ''/'' (clean_elems (is_abs p) [] (split_on CHR ''/'' p))
           in if q = [] then ''.'' else q)"

definition path_join :: "string \<Rightarrow> string \<Rightarrow> string" where
  \<comment> \<open>\<open>filepath.Join\<close> of two elements\<close>
  "path_join a b =
     (if a = [] \<and> b = [] then [] else clean_path (if a = [] then b else if b = [] then a else a @ ''/'' @ b))"

lemma path_join_examples:
  "path_join ''bp/'' ''../x.yaml'' = ''x.yaml'' \<and> path_join [] ''.cf.lock'' = ''.cf.lock''
    \<and> path_join ''/a/b'' ''../../../c'' = ''/c'' \<and> path_join ''.'' ''../c'' = ''../c''"
  by code_simp

section \<open>The world\<close>

record entry =
  e_ref :: string
  e_digest :: string
  e_crds :: "crd list"

datatype fault = Fine | Fault msg | Torn nat msg
datatype dirent = File | Dir "string option"  \<comment> \<open>a directory and the body of its \<open>crds.json\<close>\<close>
datatype io_error = NotExist | Io msg

record world =
  w_tape :: "fault list"
  w_root :: "dirent gomap option"  \<comment> \<open>what \<open>Store.Root\<close> lists, None when it is missing\<close>
  w_files :: "string gomap"        \<comment> \<open>the files outside it, by path\<close>
  w_memo :: "entry gomap"          \<comment> \<open>\<open>Store.memo\<close>\<close>
  w_heap :: heap                   \<comment> \<open>the tree memos\<close>

definition next_fault :: "world \<Rightarrow> fault \<times> world" where
  "next_fault w = (case w_tape w of [] \<Rightarrow> (Fine, w) | f # fs \<Rightarrow> (f, w\<lparr>w_tape := fs\<rparr>))"

definition root_entries :: "world \<Rightarrow> dirent gomap" where
  "root_entries w = (case w_root w of None \<Rightarrow> [] | Some es \<Rightarrow> es)"

definition entry_body :: "world \<Rightarrow> string \<Rightarrow> string option" where
  \<comment> \<open>the body of \<open>crds.json\<close> in a directory of the cache\<close>
  "entry_body w d = (case map_of (root_entries w) d of Some (Dir body) \<Rightarrow> body | _ \<Rightarrow> None)"

definition read_entry :: "string \<Rightarrow> world \<Rightarrow> (io_error + string) \<times> world" where
  "read_entry d w =
     (case next_fault w of
        (Fine, w) \<Rightarrow> (case entry_body w d of None \<Rightarrow> Inl NotExist | Some body \<Rightarrow> Inr body, w)
      | (Fault e, w) \<Rightarrow> (Inl (Io e), w)
      | (Torn n e, w) \<Rightarrow> (Inl (Io e), w))"

definition set_dirent :: "string \<Rightarrow> dirent \<Rightarrow> world \<Rightarrow> world" where
  "set_dirent d x w = w\<lparr>w_root := Some (AList.update d x (root_entries w))\<rparr>"

definition make_dir :: "string \<Rightarrow> world \<Rightarrow> msg option \<times> world" where
  \<comment> \<open>\<open>os.MkdirAll\<close>; interrupted, it leaves \<open>Root\<close> without the directory\<close>
  "make_dir d w =
     (case next_fault w of
        (Fault e, w) \<Rightarrow> (Some e, w)
      | (Torn n e, w) \<Rightarrow> (Some e, w\<lparr>w_root := Some (root_entries w)\<rparr>)
      | (Fine, w) \<Rightarrow>
          (case map_of (root_entries w) d of
             Some File \<Rightarrow> (Some (Msg ''mkdir %s: not a directory'' [Str d]), w)
           | Some (Dir _) \<Rightarrow> (None, w)
           | None \<Rightarrow> (None, set_dirent d (Dir None) w)))"

definition write_entry :: "string \<Rightarrow> string \<Rightarrow> world \<Rightarrow> msg option \<times> world" where
  \<comment> \<open>\<open>os.WriteFile\<close> of \<open>crds.json\<close>; interrupted, it leaves the first bytes of the body\<close>
  "write_entry d body w =
     (case next_fault w of
        (Fault e, w) \<Rightarrow> (Some e, w)
      | (Torn n e, w) \<Rightarrow> (Some e, set_dirent d (Dir (Some (take n body))) w)
      | (Fine, w) \<Rightarrow> (None, set_dirent d (Dir (Some body)) w))"

definition remove_dir :: "string \<Rightarrow> world \<Rightarrow> msg option \<times> world" where
  \<comment> \<open>\<open>os.RemoveAll\<close>; interrupted, the file is gone and the directory is not\<close>
  "remove_dir d w =
     (case next_fault w of
        (Fault e, w) \<Rightarrow> (Some e, w)
      | (Torn n e, w) \<Rightarrow> (Some e, if map_of (root_entries w) d = None then w else set_dirent d (Dir None) w)
      | (Fine, w) \<Rightarrow> (None, w\<lparr>w_root := map_option (AList.delete d) (w_root w)\<rparr>))"

definition read_file :: "string \<Rightarrow> world \<Rightarrow> (io_error + string) \<times> world" where
  "read_file p w =
     (case next_fault w of
        (Fine, w) \<Rightarrow> (case map_of (w_files w) p of None \<Rightarrow> Inl NotExist | Some body \<Rightarrow> Inr body, w)
      | (Fault e, w) \<Rightarrow> (Inl (Io e), w)
      | (Torn n e, w) \<Rightarrow> (Inl (Io e), w))"

definition write_file :: "string \<Rightarrow> string \<Rightarrow> world \<Rightarrow> msg option \<times> world" where
  "write_file p body w =
     (case next_fault w of
        (Fault e, w) \<Rightarrow> (Some e, w)
      | (Torn n e, w) \<Rightarrow> (Some e, w\<lparr>w_files := AList.update p (take n body) (w_files w)\<rparr>)
      | (Fine, w) \<Rightarrow> (None, w\<lparr>w_files := AList.update p body (w_files w)\<rparr>))"

section \<open>Structs as JSON\<close>

text \<open>Fields without a tag use their Go name; the decoder matches a member's name regardless of
  case, leaves a field alone for \<open>null\<close>, and refuses a value of another type. A map is written in
  key order. A member that is repeated counts by its last value.\<close>

primrec json_sorted :: "jval \<Rightarrow> jval" where
  "json_sorted JNull = JNull"
| "json_sorted (JBool b) = JBool b"
| "json_sorted (JFloat q) = JFloat q"
| "json_sorted (JInt i) = JInt i"
| "json_sorted (JStr s) = JStr s"
| "json_sorted (JList vs) = JList (map json_sorted vs)"
| "json_sorted (JObj m) = JObj (sort_key fst (map (map_prod id json_sorted) m))"

definition json_list :: "('a \<Rightarrow> jval) \<Rightarrow> 'a list \<Rightarrow> jval" where
  \<comment> \<open>a slice; the empty one of this model is the nil slice of the program\<close>
  "json_list f xs = (if xs = [] then JNull else JList (map f xs))"

definition json_map :: "jval gomap \<Rightarrow> jval" where
  "json_map m = (if m = [] then JNull else json_sorted (JObj m))"

definition version_json :: "version \<Rightarrow> jval" where
  "version_json v = JObj [(''Name'', JStr (v_name v)), (''Served'', JBool (v_served v)),
     (''Storage'', JBool (v_storage v)), (''Deprecated'', JBool (v_deprecated v)),
     (''Properties'', json_map (v_properties v))]"

definition crd_json :: "crd \<Rightarrow> jval" where
  \<comment> \<open>the memo is an unexported field\<close>
  "crd_json c = JObj ([(''Group'', JStr (crd_group c)), (''Kind'', JStr (crd_kind c)),
     (''Plural'', JStr (crd_plural c)), (''Scope'', JStr (crd_scope c)),
     (''Categories'', json_list JStr (crd_categories c)),
     (''Versions'', json_list version_json (crd_versions c))]
     @ (if crd_native c then [(''native'', JBool True)] else [])
     @ (if crd_function c then [(''function'', JBool True)] else []))"

definition entry_json :: "entry \<Rightarrow> jval" where
  "entry_json e = JObj [(''ref'', JStr (e_ref e)), (''digest'', JStr (e_digest e)),
     (''crds'', json_list crd_json (e_crds e))]"

definition lock_entry_json :: "lock_entry \<Rightarrow> jval" where
  "lock_entry_json e = JObj [(''ref'', JStr (le_ref e)), (''digest'', JStr (le_digest e))]"

definition lock_json :: "lock \<Rightarrow> jval" where
  "lock_json l = JObj ((''providers'', json_list lock_entry_json (lk_providers l))
     # (if lk_functions l = [] then [] else [(''functions'', json_list lock_entry_json (lk_functions l))]))"

definition ebind :: "'e + 'a \<Rightarrow> ('a \<Rightarrow> 'e + 'b) \<Rightarrow> 'e + 'b" where
  "ebind x f = (case x of Inl e \<Rightarrow> Inl e | Inr v \<Rightarrow> f v)"

lemma ebind_simps [simp]: "ebind (Inl e) f = Inl e" "ebind (Inr v) f = f v"
  by (simp_all add: ebind_def)

fun map_all :: "('a \<Rightarrow> 'e + 'b) \<Rightarrow> 'a list \<Rightarrow> 'e + 'b list" where
  "map_all f [] = Inr []"
| "map_all f (x # xs) = ebind (f x) (\<lambda>y. ebind (map_all f xs) (\<lambda>ys. Inr (y # ys)))"

definition type_error :: "string \<Rightarrow> msg" where
  "type_error name = Msg ''json: cannot unmarshal into Go struct field %s'' [Str name]"

definition member :: "string \<Rightarrow> jval gomap \<Rightarrow> jval option" where
  "member name m =
     (case filter (\<lambda>(k, v). equal_fold k name \<and> v \<noteq> JNull) m of [] \<Rightarrow> None | ms \<Rightarrow> Some (snd (last ms)))"

definition str_member :: "string \<Rightarrow> jval gomap \<Rightarrow> msg + string" where
  "str_member name m =
     (case member name m of None \<Rightarrow> Inr [] | Some (JStr s) \<Rightarrow> Inr s | Some _ \<Rightarrow> Inl (type_error name))"

definition bool_member :: "string \<Rightarrow> jval gomap \<Rightarrow> msg + bool" where
  "bool_member name m =
     (case member name m of None \<Rightarrow> Inr False | Some (JBool b) \<Rightarrow> Inr b | Some _ \<Rightarrow> Inl (type_error name))"

definition map_member :: "string \<Rightarrow> jval gomap \<Rightarrow> msg + jval gomap" where
  "map_member name m =
     (case member name m of None \<Rightarrow> Inr [] | Some (JObj ms) \<Rightarrow> Inr ms | Some _ \<Rightarrow> Inl (type_error name))"

definition list_member :: "(jval \<Rightarrow> msg + 'a) \<Rightarrow> string \<Rightarrow> jval gomap \<Rightarrow> msg + 'a list" where
  "list_member f name m =
     (case member name m of None \<Rightarrow> Inr [] | Some (JList vs) \<Rightarrow> map_all f vs | Some _ \<Rightarrow> Inl (type_error name))"

definition struct_of :: "(jval gomap \<Rightarrow> msg + 'a) \<Rightarrow> jval \<Rightarrow> msg + 'a" where
  "struct_of f v = (case v of JNull \<Rightarrow> f [] | JObj m \<Rightarrow> f m | _ \<Rightarrow> Inl (type_error []))"

definition str_of :: "jval \<Rightarrow> msg + string" where
  "str_of v = (case v of JNull \<Rightarrow> Inr [] | JStr s \<Rightarrow> Inr s | _ \<Rightarrow> Inl (type_error []))"

definition version_of_json :: "jval \<Rightarrow> msg + version" where
  "version_of_json = struct_of (\<lambda>m.
     ebind (str_member ''Name'' m) (\<lambda>n. ebind (bool_member ''Served'' m) (\<lambda>sv.
     ebind (bool_member ''Storage'' m) (\<lambda>st. ebind (bool_member ''Deprecated'' m) (\<lambda>d.
     ebind (map_member ''Properties'' m) (\<lambda>ps.
       Inr \<lparr>v_name = n, v_served = sv, v_storage = st, v_deprecated = d, v_properties = ps\<rparr>))))))"

definition crd_of_json :: "jval \<Rightarrow> msg + crd" where
  "crd_of_json = struct_of (\<lambda>m.
     ebind (str_member ''Group'' m) (\<lambda>g. ebind (str_member ''Kind'' m) (\<lambda>k.
     ebind (str_member ''Plural'' m) (\<lambda>p. ebind (str_member ''Scope'' m) (\<lambda>s.
     ebind (list_member str_of ''Categories'' m) (\<lambda>cs. ebind (list_member version_of_json ''Versions'' m) (\<lambda>vs.
     ebind (bool_member ''native'' m) (\<lambda>n. ebind (bool_member ''function'' m) (\<lambda>f.
       Inr \<lparr>crd_group = g, crd_kind = k, crd_plural = p, crd_scope = s, crd_categories = cs, crd_versions = vs,
         crd_native = n, crd_function = f, crd_cache = None\<rparr>)))))))))"

definition entry_of_json :: "jval \<Rightarrow> msg + entry" where
  "entry_of_json = struct_of (\<lambda>m.
     ebind (str_member ''ref'' m) (\<lambda>r. ebind (str_member ''digest'' m) (\<lambda>d.
     ebind (list_member crd_of_json ''crds'' m) (\<lambda>cs. Inr \<lparr>e_ref = r, e_digest = d, e_crds = cs\<rparr>))))"

definition lock_entry_of_json :: "jval \<Rightarrow> msg + lock_entry" where
  "lock_entry_of_json = struct_of (\<lambda>m.
     ebind (str_member ''ref'' m) (\<lambda>r. ebind (str_member ''digest'' m) (\<lambda>d. Inr \<lparr>le_ref = r, le_digest = d\<rparr>)))"

definition lock_of_json :: "jval \<Rightarrow> msg + lock" where
  "lock_of_json = struct_of (\<lambda>m.
     ebind (list_member lock_entry_of_json ''providers'' m) (\<lambda>ps.
     ebind (list_member lock_entry_of_json ''functions'' m) (\<lambda>fs. Inr \<lparr>lk_providers = ps, lk_functions = fs\<rparr>)))"

section \<open>Round trips\<close>

text \<open>What a struct is after it was written and read: the memo is gone, maps are in key order.\<close>

definition stored_props :: "jval gomap \<Rightarrow> jval gomap" where
  "stored_props m = sort_key fst (map (map_prod id json_sorted) m)"

definition stored_crd :: "crd \<Rightarrow> crd" where
  "stored_crd c = c\<lparr>crd_cache := None,
     crd_versions := map (\<lambda>v. v\<lparr>v_properties := stored_props (v_properties v)\<rparr>) (crd_versions c)\<rparr>"

definition stored_entry :: "entry \<Rightarrow> entry" where
  "stored_entry e = e\<lparr>e_crds := map stored_crd (e_crds e)\<rparr>"

named_theorems json_simps \<open>evaluating the struct decoders\<close>

lemma fold_version [json_simps]:
  "equal_fold ''Name'' ''Name'' \<longleftrightarrow> True"
  "equal_fold ''Name'' ''Served'' \<longleftrightarrow> False"
  "equal_fold ''Name'' ''Storage'' \<longleftrightarrow> False"
  "equal_fold ''Name'' ''Deprecated'' \<longleftrightarrow> False"
  "equal_fold ''Name'' ''Properties'' \<longleftrightarrow> False"
  "equal_fold ''Served'' ''Name'' \<longleftrightarrow> False"
  "equal_fold ''Served'' ''Served'' \<longleftrightarrow> True"
  "equal_fold ''Served'' ''Storage'' \<longleftrightarrow> False"
  "equal_fold ''Served'' ''Deprecated'' \<longleftrightarrow> False"
  "equal_fold ''Served'' ''Properties'' \<longleftrightarrow> False"
  "equal_fold ''Storage'' ''Name'' \<longleftrightarrow> False"
  "equal_fold ''Storage'' ''Served'' \<longleftrightarrow> False"
  "equal_fold ''Storage'' ''Storage'' \<longleftrightarrow> True"
  "equal_fold ''Storage'' ''Deprecated'' \<longleftrightarrow> False"
  "equal_fold ''Storage'' ''Properties'' \<longleftrightarrow> False"
  "equal_fold ''Deprecated'' ''Name'' \<longleftrightarrow> False"
  "equal_fold ''Deprecated'' ''Served'' \<longleftrightarrow> False"
  "equal_fold ''Deprecated'' ''Storage'' \<longleftrightarrow> False"
  "equal_fold ''Deprecated'' ''Deprecated'' \<longleftrightarrow> True"
  "equal_fold ''Deprecated'' ''Properties'' \<longleftrightarrow> False"
  "equal_fold ''Properties'' ''Name'' \<longleftrightarrow> False"
  "equal_fold ''Properties'' ''Served'' \<longleftrightarrow> False"
  "equal_fold ''Properties'' ''Storage'' \<longleftrightarrow> False"
  "equal_fold ''Properties'' ''Deprecated'' \<longleftrightarrow> False"
  "equal_fold ''Properties'' ''Properties'' \<longleftrightarrow> True"
  by code_simp+

lemma fold_crd [json_simps]:
  "equal_fold ''Group'' ''Group'' \<longleftrightarrow> True"
  "equal_fold ''Group'' ''Kind'' \<longleftrightarrow> False"
  "equal_fold ''Group'' ''Plural'' \<longleftrightarrow> False"
  "equal_fold ''Group'' ''Scope'' \<longleftrightarrow> False"
  "equal_fold ''Group'' ''Categories'' \<longleftrightarrow> False"
  "equal_fold ''Group'' ''Versions'' \<longleftrightarrow> False"
  "equal_fold ''Group'' ''native'' \<longleftrightarrow> False"
  "equal_fold ''Group'' ''function'' \<longleftrightarrow> False"
  "equal_fold ''Kind'' ''Group'' \<longleftrightarrow> False"
  "equal_fold ''Kind'' ''Kind'' \<longleftrightarrow> True"
  "equal_fold ''Kind'' ''Plural'' \<longleftrightarrow> False"
  "equal_fold ''Kind'' ''Scope'' \<longleftrightarrow> False"
  "equal_fold ''Kind'' ''Categories'' \<longleftrightarrow> False"
  "equal_fold ''Kind'' ''Versions'' \<longleftrightarrow> False"
  "equal_fold ''Kind'' ''native'' \<longleftrightarrow> False"
  "equal_fold ''Kind'' ''function'' \<longleftrightarrow> False"
  "equal_fold ''Plural'' ''Group'' \<longleftrightarrow> False"
  "equal_fold ''Plural'' ''Kind'' \<longleftrightarrow> False"
  "equal_fold ''Plural'' ''Plural'' \<longleftrightarrow> True"
  "equal_fold ''Plural'' ''Scope'' \<longleftrightarrow> False"
  "equal_fold ''Plural'' ''Categories'' \<longleftrightarrow> False"
  "equal_fold ''Plural'' ''Versions'' \<longleftrightarrow> False"
  "equal_fold ''Plural'' ''native'' \<longleftrightarrow> False"
  "equal_fold ''Plural'' ''function'' \<longleftrightarrow> False"
  "equal_fold ''Scope'' ''Group'' \<longleftrightarrow> False"
  "equal_fold ''Scope'' ''Kind'' \<longleftrightarrow> False"
  "equal_fold ''Scope'' ''Plural'' \<longleftrightarrow> False"
  "equal_fold ''Scope'' ''Scope'' \<longleftrightarrow> True"
  "equal_fold ''Scope'' ''Categories'' \<longleftrightarrow> False"
  "equal_fold ''Scope'' ''Versions'' \<longleftrightarrow> False"
  "equal_fold ''Scope'' ''native'' \<longleftrightarrow> False"
  "equal_fold ''Scope'' ''function'' \<longleftrightarrow> False"
  "equal_fold ''Categories'' ''Group'' \<longleftrightarrow> False"
  "equal_fold ''Categories'' ''Kind'' \<longleftrightarrow> False"
  "equal_fold ''Categories'' ''Plural'' \<longleftrightarrow> False"
  "equal_fold ''Categories'' ''Scope'' \<longleftrightarrow> False"
  "equal_fold ''Categories'' ''Categories'' \<longleftrightarrow> True"
  "equal_fold ''Categories'' ''Versions'' \<longleftrightarrow> False"
  "equal_fold ''Categories'' ''native'' \<longleftrightarrow> False"
  "equal_fold ''Categories'' ''function'' \<longleftrightarrow> False"
  "equal_fold ''Versions'' ''Group'' \<longleftrightarrow> False"
  "equal_fold ''Versions'' ''Kind'' \<longleftrightarrow> False"
  "equal_fold ''Versions'' ''Plural'' \<longleftrightarrow> False"
  "equal_fold ''Versions'' ''Scope'' \<longleftrightarrow> False"
  "equal_fold ''Versions'' ''Categories'' \<longleftrightarrow> False"
  "equal_fold ''Versions'' ''Versions'' \<longleftrightarrow> True"
  "equal_fold ''Versions'' ''native'' \<longleftrightarrow> False"
  "equal_fold ''Versions'' ''function'' \<longleftrightarrow> False"
  "equal_fold ''native'' ''Group'' \<longleftrightarrow> False"
  "equal_fold ''native'' ''Kind'' \<longleftrightarrow> False"
  "equal_fold ''native'' ''Plural'' \<longleftrightarrow> False"
  "equal_fold ''native'' ''Scope'' \<longleftrightarrow> False"
  "equal_fold ''native'' ''Categories'' \<longleftrightarrow> False"
  "equal_fold ''native'' ''Versions'' \<longleftrightarrow> False"
  "equal_fold ''native'' ''native'' \<longleftrightarrow> True"
  "equal_fold ''native'' ''function'' \<longleftrightarrow> False"
  "equal_fold ''function'' ''Group'' \<longleftrightarrow> False"
  "equal_fold ''function'' ''Kind'' \<longleftrightarrow> False"
  "equal_fold ''function'' ''Plural'' \<longleftrightarrow> False"
  "equal_fold ''function'' ''Scope'' \<longleftrightarrow> False"
  "equal_fold ''function'' ''Categories'' \<longleftrightarrow> False"
  "equal_fold ''function'' ''Versions'' \<longleftrightarrow> False"
  "equal_fold ''function'' ''native'' \<longleftrightarrow> False"
  "equal_fold ''function'' ''function'' \<longleftrightarrow> True"
  by code_simp+

lemma fold_entry [json_simps]:
  "equal_fold ''ref'' ''ref'' \<longleftrightarrow> True"
  "equal_fold ''ref'' ''digest'' \<longleftrightarrow> False"
  "equal_fold ''ref'' ''crds'' \<longleftrightarrow> False"
  "equal_fold ''digest'' ''ref'' \<longleftrightarrow> False"
  "equal_fold ''digest'' ''digest'' \<longleftrightarrow> True"
  "equal_fold ''digest'' ''crds'' \<longleftrightarrow> False"
  "equal_fold ''crds'' ''ref'' \<longleftrightarrow> False"
  "equal_fold ''crds'' ''digest'' \<longleftrightarrow> False"
  "equal_fold ''crds'' ''crds'' \<longleftrightarrow> True"
  by code_simp+

lemma fold_lock [json_simps]:
  "equal_fold ''providers'' ''providers'' \<longleftrightarrow> True"
  "equal_fold ''providers'' ''functions'' \<longleftrightarrow> False"
  "equal_fold ''functions'' ''providers'' \<longleftrightarrow> False"
  "equal_fold ''functions'' ''functions'' \<longleftrightarrow> True"
  by code_simp+

lemma map_all_Inr: "(\<And>x. x \<in> set xs \<Longrightarrow> f (g x) = Inr (h x)) \<Longrightarrow> map_all f (map g xs) = Inr (map h xs)"
  by (induction xs) auto

lemma member_Cons [json_simps]:
  "member n ((k, v) # m) =
     (case member n m of Some x \<Rightarrow> Some x | None \<Rightarrow> if equal_fold k n \<and> v \<noteq> JNull then Some v else None)"
  "member n [] = None"
  by (auto simp: member_def split: list.split)

lemma version_roundtrip: "version_of_json (version_json v) = Inr (v\<lparr>v_properties := stored_props (v_properties v)\<rparr>)"
  by (simp add: version_of_json_def version_json_def struct_of_def str_member_def bool_member_def map_member_def
      json_simps json_map_def stored_props_def)

lemma crd_roundtrip: "crd_of_json (crd_json c) = Inr (stored_crd c)"
  by (simp add: crd_of_json_def crd_json_def struct_of_def str_member_def bool_member_def list_member_def
      json_simps json_list_def stored_crd_def map_all_Inr [where h = id] str_of_def
      map_all_Inr [where f = version_of_json, OF version_roundtrip])

lemma entry_roundtrip: "entry_of_json (entry_json e) = Inr (stored_entry e)"
  by (simp add: entry_of_json_def entry_json_def struct_of_def str_member_def list_member_def
      json_simps json_list_def stored_entry_def map_all_Inr [where f = crd_of_json, OF crd_roundtrip])

lemma lock_entry_roundtrip: "lock_entry_of_json (lock_entry_json e) = Inr e"
  by (simp add: lock_entry_of_json_def lock_entry_json_def struct_of_def str_member_def json_simps)

lemma lock_roundtrip: "lock_of_json (lock_json l) = Inr l"
  by (simp add: lock_of_json_def lock_json_def struct_of_def list_member_def
      json_simps json_list_def map_all_Inr [where h = id] lock_entry_roundtrip)

end
