(* ===== verification/Store.thy ===== *)
theory Store
  imports World
begin

text \<open>
  The cache of provider schemas and its lockfile (\<open>internal/cache/store.go\<close>). Every method of
  \<open>Store\<close> is a function from the world to its results and the world afterwards; the mutex
  makes the accesses to the memo atomic, and the methods are run one after another. A path below
  \<open>Root\<close> is the name of its directory there.
\<close>

section \<open>Parameters and errors\<close>

datatype token = TDelim char | TStr string | TNum rat | TBool bool | TNull | TErr msg
  \<comment> \<open>what \<open>json.Decoder.Token\<close> returns, up to the end of the input or its first error\<close>

record codec =
  c_enc :: "jval \<Rightarrow> msg + string"       \<comment> \<open>\<open>json.MarshalIndent\<close>\<close>
  c_dec :: "string \<Rightarrow> msg + jval"       \<comment> \<open>\<open>json.Unmarshal\<close>, up to the types\<close>
  c_tokens :: "string \<Rightarrow> token list"    \<comment> \<open>\<open>json.NewDecoder\<close>\<close>
  c_crd :: decode_crd                   \<comment> \<open>the YAML decoder\<close>
  c_hash :: "string \<Rightarrow> string"          \<comment> \<open>the hex digits of \<open>sha256.Sum256\<close>\<close>
  c_lower :: "string \<Rightarrow> string"

record package =
  pk_ref :: string
  pk_digest :: string
  pk_docs :: "string list"

datatype store_error = Plain msg | LockError msg | FetchError msg

definition IsLockError :: "store_error \<Rightarrow> bool" where
  "IsLockError err = (case err of LockError _ \<Rightarrow> True | _ \<Rightarrow> False)"

definition IsFetchError :: "store_error \<Rightarrow> bool" where
  "IsFetchError err = (case err of FetchError _ \<Rightarrow> True | _ \<Rightarrow> False)"

definition io_msg :: "io_error \<Rightarrow> msg" where
  "io_msg err = (case err of NotExist \<Rightarrow> Msg ''file does not exist'' [] | Io m \<Rightarrow> m)"

section \<open>Entries\<close>

definition slug_rune :: "nat \<Rightarrow> char" where
  "slug_rune r =
     (if (0x61 \<le> r \<and> r \<le> 0x7A) \<or> (0x41 \<le> r \<and> r \<le> 0x5A) \<or> (0x30 \<le> r \<and> r \<le> 0x39) \<or> r = 0x2E \<or> r = 0x5F \<or> r = 0x2D
      then char_of r else CHR ''_'')"

definition sanitizeSlugSegment :: "string \<Rightarrow> string" where
  "sanitizeSlugSegment s = map slug_rune (runes s)"

definition slug :: "codec \<Rightarrow> string \<Rightarrow> string" where
  "slug C ref =
     (let hash = take 12 (c_hash C ref);
          last = ref;
          last = (case last_index CHR ''/'' last of Some i \<Rightarrow> drop (i + 1) last | None \<Rightarrow> last);
          last = (case go_index last ''@'' of Some i \<Rightarrow> take i last
                  | None \<Rightarrow> (case last_index CHR '':'' last of Some i \<Rightarrow> take i last | None \<Rightarrow> last));
          last = sanitizeSlugSegment last;
          last = (if last = [] then ''ref'' else last)
      in last @ ''-'' @ hash)"

definition SaveCRDs :: "codec \<Rightarrow> string \<Rightarrow> string \<Rightarrow> crd list \<Rightarrow> world \<Rightarrow> msg option \<times> world" where
  "SaveCRDs C ref digest crds w =
     (case make_dir (slug C ref) w of
        (Some err, w) \<Rightarrow> (Some (Msg ''create cache dir: %w'' [Ctx err]), w)
      | (None, w) \<Rightarrow>
          (let entry = \<lparr>e_ref = ref, e_digest = digest, e_crds = crds\<rparr> in
           case c_enc C (entry_json entry) of
             Inl err \<Rightarrow> (Some (Msg ''encode cache entry: %w'' [Ctx err]), w)
           | Inr body \<Rightarrow>
               (case write_entry (slug C ref) body w of
                  (Some err, w) \<Rightarrow> (Some err, w)
                | (None, w) \<Rightarrow> (None, w\<lparr>w_memo := AList.update ref entry (w_memo w)\<rparr>))))"

definition Save :: "codec \<Rightarrow> package \<Rightarrow> crd list \<Rightarrow> world \<Rightarrow> msg option \<times> world" where
  "Save C pkg crds w = SaveCRDs C (pk_ref pkg) (pk_digest pkg) crds w"

fun cache_all :: "heap \<Rightarrow> crd list \<Rightarrow> crd list \<times> heap" where
  \<comment> \<open>the loop that attaches the tree memos\<close>
  "cache_all h [] = ([], h)"
| "cache_all h (c # cs) =
     (case Cached h c of (c', h) \<Rightarrow> case cache_all h cs of (cs', h) \<Rightarrow> (c' # cs', h))"

definition loadEntry :: "codec \<Rightarrow> string \<Rightarrow> world \<Rightarrow> (msg + entry) \<times> world" where
  "loadEntry C ref w =
     (case map_of (w_memo w) ref of
        Some e \<Rightarrow> (Inr e, w)
      | None \<Rightarrow>
          (case read_entry (slug C ref) w of
             (Inl _, w) \<Rightarrow>
               (Inl (Msg (if isFunctionRef ref then ''function %q is not in the cache; run: cf function add %s''
                          else ''provider %q is not in the cache; run: cf provider add %s'') [Str ref, Str ref]), w)
           | (Inr body, w) \<Rightarrow>
               (case ebind (c_dec C body) entry_of_json of
                  Inl err \<Rightarrow> (Inl (Msg ''decode cached entry for %q: %w'' [Str ref, Ctx err]), w)
                | Inr entry \<Rightarrow>
                    (case cache_all (w_heap w) (e_crds entry) of
                       (crds, h) \<Rightarrow>
                         (let entry = entry\<lparr>e_crds := crds\<rparr>
                          in (Inr entry, w\<lparr>w_heap := h, w_memo := AList.update ref entry (w_memo w)\<rparr>))))))"

definition Load :: "codec \<Rightarrow> string \<Rightarrow> world \<Rightarrow> (msg + crd list) \<times> world" where
  "Load C ref w = (case loadEntry C ref w of (Inl err, w) \<Rightarrow> (Inl err, w) | (Inr e, w) \<Rightarrow> (Inr (e_crds e), w))"

definition LoadDigest :: "codec \<Rightarrow> string \<Rightarrow> world \<Rightarrow> (msg + string) \<times> world" where
  "LoadDigest C ref w = (case loadEntry C ref w of (Inl err, w) \<Rightarrow> (Inl err, w) | (Inr e, w) \<Rightarrow> (Inr (e_digest e), w))"

definition Delete :: "codec \<Rightarrow> string \<Rightarrow> world \<Rightarrow> msg option \<times> world" where
  "Delete C ref w =
     (case remove_dir (slug C ref) w of
        (Some err, w) \<Rightarrow> (Some (Msg ''delete cached entry for %q: %w'' [Str ref, Ctx err]), w)
      | (None, w) \<Rightarrow> (None, w\<lparr>w_memo := AList.delete ref (w_memo w)\<rparr>))"

definition Clear :: "world \<Rightarrow> world" where
  "Clear w = w\<lparr>w_memo := []\<rparr>"

section \<open>The lockfile\<close>

definition ReadLock :: "codec \<Rightarrow> string \<Rightarrow> world \<Rightarrow> (msg + lock) \<times> world" where
  "ReadLock C path w =
     (case read_file path w of
        (Inl NotExist, w) \<Rightarrow> (Inr \<lparr>lk_providers = [], lk_functions = []\<rparr>, w)
      | (Inl (Io err), w) \<Rightarrow> (Inl (Msg ''read %s: %w'' [Str path, Ctx err]), w)
      | (Inr body, w) \<Rightarrow>
          (case ebind (c_dec C body) lock_of_json of
             Inl err \<Rightarrow> (Inl (Msg ''parse %s: %w'' [Str path, Ctx err]), w)
           | Inr l \<Rightarrow> (Inr l, w)))"

definition lock_write :: "codec \<Rightarrow> string \<Rightarrow> lock \<Rightarrow> world \<Rightarrow> msg option \<times> world" where
  "lock_write C path l w =
     (case c_enc C (lock_json (lock_sorted l)) of
        Inl err \<Rightarrow> (Some (Msg ''encode lock: %w'' [Ctx err]), w)
      | Inr body \<Rightarrow> write_file path (body @ [CHR 0x0A]) w)"

definition PinLock :: "codec \<Rightarrow> string \<Rightarrow> string \<Rightarrow> string \<Rightarrow> world \<Rightarrow> store_error option \<times> world" where
  "PinLock C lockPath ref digest w =
     (if lockPath = [] then (None, w)
      else
        (case ReadLock C lockPath w of
           (Inl err, w) \<Rightarrow> (Some (LockError (Msg ''read lock: %w'' [Ctx err])), w)
         | (Inr l, w) \<Rightarrow>
             (case lock_write C lockPath (lock_set ref digest l) w of
                (Some err, w) \<Rightarrow> (Some (LockError (Msg ''write lock: %w'' [Ctx err])), w)
              | (None, w) \<Rightarrow> (None, w))))"

section \<open>Fetching\<close>

definition FetchAndSave :: "codec \<Rightarrow> string \<Rightarrow> string \<Rightarrow> (string \<Rightarrow> msg + package) \<Rightarrow> world
    \<Rightarrow> (store_error + package \<times> crd list) \<times> world" where
  "FetchAndSave C lockPath ref fetch w =
     (case loadEntry C ref w of
        (Inr entry, w) \<Rightarrow>
          (case PinLock C lockPath ref (e_digest entry) w of
             (Some err, w) \<Rightarrow> (Inl err, w)
           | (None, w) \<Rightarrow>
               (let pkgRef = (if e_ref entry = [] then ref else e_ref entry)
                in (Inr (\<lparr>pk_ref = pkgRef, pk_digest = e_digest entry, pk_docs = []\<rparr>, e_crds entry), w)))
      | (Inl _, w) \<Rightarrow>
          (case fetch ref of
             Inl err \<Rightarrow> (Inl (FetchError err), w)
           | Inr pkg \<Rightarrow>
               (case ParseCRDs (c_crd C) (w_heap w) (pk_docs pkg) of
                  (Inl err, h) \<Rightarrow> (Inl (Plain (Msg ''%s: %w'' [Str ref, Ctx err])), w\<lparr>w_heap := h\<rparr>)
                | (Inr crds, h) \<Rightarrow>
                    (case PinLock C lockPath ref (pk_digest pkg) (w\<lparr>w_heap := h\<rparr>) of
                       (Some err, w) \<Rightarrow> (Inl err, w)
                     | (None, w) \<Rightarrow>
                         (case Save C pkg crds w of
                            (Some err, w) \<Rightarrow> (Inl (Plain err), w)
                          | (None, w) \<Rightarrow> (Inr (pkg, crds), w))))))"

section \<open>Listing\<close>

abbreviation eof :: msg where "eof \<equiv> Msg ''EOF'' []"

fun skip_depth :: "nat \<Rightarrow> token list \<Rightarrow> msg + token list" where
  "skip_depth 0 ts = Inr ts"
| "skip_depth (Suc d) [] = Inl eof"
| "skip_depth (Suc d) (t # ts) =
     (case t of
        TErr err \<Rightarrow> Inl err
      | TDelim c \<Rightarrow> if c = CHR ''{'' \<or> c = CHR ''['' then skip_depth (Suc (Suc d)) ts else skip_depth d ts
      | _ \<Rightarrow> skip_depth (Suc d) ts)"

definition skipJSONTokenValue :: "token list \<Rightarrow> msg + token list" where
  "skipJSONTokenValue ts =
     (case ts of
        [] \<Rightarrow> Inl eof
      | TErr err # _ \<Rightarrow> Inl err
      | TDelim c # ts \<Rightarrow>
          if c \<noteq> CHR ''{'' \<and> c \<noteq> CHR ''['' then Inl (Msg ''unexpected delimiter %v'' [Str [c]]) else skip_depth 1 ts
      | _ # ts \<Rightarrow> Inr ts)"

lemma skip_depth_length: "skip_depth d ts = Inr us \<Longrightarrow> length us \<le> length ts"
  by (induction d ts rule: skip_depth.induct) (auto split: token.splits if_splits)

lemma skip_value_length: "skipJSONTokenValue ts = Inr us \<Longrightarrow> length us < length ts"
  by (auto simp: skipJSONTokenValue_def split: list.splits token.splits if_splits dest: skip_depth_length)

function provider_members :: "token list \<Rightarrow> msg + string" where
  \<comment> \<open>the loop over the members; \<open>More\<close> is false at the end of the input and at a closing delimiter\<close>
  "provider_members ts =
     (case ts of
        [] \<Rightarrow> Inr []
      | TDelim c # _ \<Rightarrow> if c = CHR ''}'' \<or> c = CHR '']'' then Inr [] else Inl (Msg ''expected string key, got %v'' [Str [c]])
      | TErr err # _ \<Rightarrow> Inl err
      | TStr key # ts \<Rightarrow>
          if key = ''ref'' then
            (case ts of
               [] \<Rightarrow> Inl eof
             | TErr err # _ \<Rightarrow> Inl err
             | TStr ref # _ \<Rightarrow> Inr ref
             | _ # _ \<Rightarrow> Inl (Msg ''expected string value for ref, got %v'' []))
          else (case skipJSONTokenValue ts of Inl err \<Rightarrow> Inl err | Inr ts \<Rightarrow> provider_members ts)
      | _ # _ \<Rightarrow> Inl (Msg ''expected string key, got %v'' []))"
  by pat_completeness auto
termination
  by (relation "measure length") (auto dest: skip_value_length)

declare provider_members.simps [simp del]

definition readProviderRef :: "codec \<Rightarrow> string \<Rightarrow> msg + string" where
  "readProviderRef C body =
     (case c_tokens C body of
        [] \<Rightarrow> Inl eof
      | TErr err # _ \<Rightarrow> Inl err
      | TDelim c # ts \<Rightarrow> if c = CHR ''{'' then provider_members ts else Inl (Msg ''expected opening delimiter, got %v'' [Str [c]])
      | _ # _ \<Rightarrow> Inl (Msg ''expected opening delimiter, got %v'' []))"

fun list_refs :: "codec \<Rightarrow> string list \<Rightarrow> world \<Rightarrow> string list \<times> world" where
  "list_refs C [] w = ([], w)"
| "list_refs C (d # ds) w =
     (case map_of (root_entries w) d of
        Some (Dir _) \<Rightarrow>
          (case read_entry d w of
             (Inl _, w) \<Rightarrow> list_refs C ds w
           | (Inr body, w) \<Rightarrow>
               (case list_refs C ds w of
                  (refs, w) \<Rightarrow>
                    (case readProviderRef C body of
                       Inl _ \<Rightarrow> (refs, w)
                     | Inr ref \<Rightarrow> (if ref \<noteq> [] then ref # refs else refs, w))))
      | _ \<Rightarrow> list_refs C ds w)"

definition List_refs :: "codec \<Rightarrow> world \<Rightarrow> (msg + string list) \<times> world" where
  \<comment> \<open>\<open>List\<close>; \<open>os.ReadDir\<close> returns the names in order\<close>
  "List_refs C w =
     (case next_fault w of
        (Fault e, w) \<Rightarrow> (Inl (Msg ''read cache dir: %w'' [Ctx e]), w)
      | (Torn n e, w) \<Rightarrow> (Inl (Msg ''read cache dir: %w'' [Ctx e]), w)
      | (Fine, w) \<Rightarrow>
          (case w_root w of
             None \<Rightarrow> (Inr [], w)
           | Some es \<Rightarrow> (case list_refs C (sorted_keys es) w of (refs, w) \<Rightarrow> (Inr (sort refs), w))))"

end
