(* ===== verification/Store_Props.thy ===== *)
theory Store_Props
  imports Store
begin

text \<open>
  What the cache guarantees: a package is pinned before it is cached whatever fails, the cache
  behaves as a map from references to schemas across any sequence of its operations, and the
  streaming reader of references agrees with the decoder.
\<close>

section \<open>What each operation leaves alone\<close>

lemma next_fault_frame:
  "next_fault w = (x, w') \<Longrightarrow> w_root w' = w_root w \<and> w_files w' = w_files w \<and> w_memo w' = w_memo w \<and> w_heap w' = w_heap w"
  by (auto simp: next_fault_def split: list.splits)

lemma read_entry_frame:
  "read_entry d w = (x, w') \<Longrightarrow> w_root w' = w_root w \<and> w_files w' = w_files w \<and> w_memo w' = w_memo w \<and> w_heap w' = w_heap w"
  by (auto simp: read_entry_def split: prod.splits fault.splits dest!: next_fault_frame)

lemma read_file_frame:
  "read_file p w = (x, w') \<Longrightarrow> w_root w' = w_root w \<and> w_files w' = w_files w \<and> w_memo w' = w_memo w \<and> w_heap w' = w_heap w"
  by (auto simp: read_file_def split: prod.splits fault.splits dest!: next_fault_frame)

lemma write_file_frame:
  "write_file p body w = (x, w') \<Longrightarrow> w_root w' = w_root w \<and> w_memo w' = w_memo w \<and> w_heap w' = w_heap w"
  by (auto simp: write_file_def split: prod.splits fault.splits dest!: next_fault_frame)

lemma make_dir_frame:
  "make_dir d w = (x, w') \<Longrightarrow> w_files w' = w_files w \<and> w_memo w' = w_memo w \<and> w_heap w' = w_heap w"
  by (auto simp: make_dir_def set_dirent_def split: prod.splits fault.splits option.splits dirent.splits dest!: next_fault_frame)

lemma write_entry_frame:
  "write_entry d body w = (x, w') \<Longrightarrow> w_files w' = w_files w \<and> w_memo w' = w_memo w \<and> w_heap w' = w_heap w"
  by (auto simp: write_entry_def set_dirent_def split: prod.splits fault.splits dest!: next_fault_frame)

lemmas io_frames = read_entry_frame read_file_frame write_file_frame make_dir_frame write_entry_frame

lemma loadEntry_frame: "loadEntry C ref w = (x, w') \<Longrightarrow> w_root w' = w_root w \<and> w_files w' = w_files w"
  by (auto simp: loadEntry_def Let_def split: option.splits sum.splits prod.splits dest!: io_frames)

lemma ReadLock_frame: "ReadLock C p w = (x, w') \<Longrightarrow> w_root w' = w_root w \<and> w_memo w' = w_memo w"
  by (auto simp: ReadLock_def split: sum.splits prod.splits io_error.splits dest!: io_frames)

lemma PinLock_frame: "PinLock C p ref d w = (x, w') \<Longrightarrow> w_root w' = w_root w \<and> w_memo w' = w_memo w"
  by (auto simp: PinLock_def lock_write_def split: if_splits sum.splits prod.splits option.splits
      dest!: ReadLock_frame io_frames)

lemma Save_frame: "Save C pkg crds w = (x, w') \<Longrightarrow> w_files w' = w_files w"
  by (auto simp: Save_def SaveCRDs_def Let_def split: option.splits sum.splits prod.splits dest!: io_frames)

section \<open>Pinning comes first\<close>

definition pinned :: "codec \<Rightarrow> string \<Rightarrow> string \<Rightarrow> string \<Rightarrow> world \<Rightarrow> bool" where
  \<comment> \<open>the lockfile holds a lock with this entry\<close>
  "pinned C lockPath ref digest w \<longleftrightarrow>
     (\<exists>l body. map_of (w_files w) lockPath = Some (body @ [CHR 0x0A]) \<and> c_enc C (lock_json l) = Inr body \<and>
        \<lparr>le_ref = ref, le_digest = digest\<rparr> \<in> set (lk_providers l) \<union> set (lk_functions l))"

lemma set_entry_mem: "\<lparr>le_ref = r, le_digest = d\<rparr> \<in> set (set_entry r d es)"
proof (cases "replace_digest r d es")
  case (Some es')
  have "\<lparr>le_ref = r, le_digest = d\<rparr> \<in> set es'" if "replace_digest r d es = Some es'" for es es'
    using that
  proof (induction es arbitrary: es')
    case (Cons e es)
    show ?case
    proof (cases "le_ref e = r")
      case True
      then have "\<lparr>le_ref = r, le_digest = d\<rparr> = e\<lparr>le_digest := d\<rparr>" by simp
      with True Cons.prems show ?thesis by auto
    next
      case False
      with Cons show ?thesis by auto
    qed
  qed simp
  from this [OF Some] Some show ?thesis by (simp add: set_entry_def)
qed (simp add: set_entry_def sort_entries_def)

lemma lock_set_mem:
  "\<lparr>le_ref = r, le_digest = d\<rparr> \<in> set (lk_providers (lock_sorted (lock_set r d l))) \<union>
     set (lk_functions (lock_sorted (lock_set r d l)))"
  using set_entry_mem [of r d]
  by (simp add: lock_sorted_def lock_set_def SetProvider_def SetFunction_def sort_entries_def)

lemma PinLock_pins:
  assumes "PinLock C lockPath ref digest w = (None, w')" "lockPath \<noteq> []"
  shows "pinned C lockPath ref digest w'"
proof -
  from assms obtain l w1 where l: "lock_write C lockPath (lock_set ref digest l) w1 = (None, w')"
    by (auto simp: PinLock_def split: prod.splits sum.splits option.splits)
  then obtain body where body: "c_enc C (lock_json (lock_sorted (lock_set ref digest l))) = Inr body"
    and w: "write_file lockPath (body @ [CHR 0x0A]) w1 = (None, w')"
    by (auto simp: lock_write_def split: sum.splits)
  from w have "map_of (w_files w') lockPath = Some (body @ [CHR 0x0A])"
    by (auto simp: write_file_def update_conv split: prod.splits fault.splits)
  with body lock_set_mem show ?thesis unfolding pinned_def by blast
qed

text \<open>The only call that reaches the cache directory.\<close>

lemma FetchAndSave_saves:
  assumes "FetchAndSave C lockPath ref fetch w = (res, w')" "w_root w' \<noteq> w_root w"
  shows "\<exists>err w1 pkg crds w2 v y. loadEntry C ref w = (Inl err, w1) \<and> fetch ref = Inr pkg \<and>
    PinLock C lockPath ref (pk_digest pkg) v = (None, w2) \<and> Save C pkg crds w2 = (y, w')"
proof (cases "loadEntry C ref w")
  case (Pair r w1)
  have w1: "w_root w1 = w_root w" using loadEntry_frame [OF Pair] by simp
  show ?thesis
  proof (cases r)
    case (Inl err)
    with assms Pair w1 show ?thesis
      by (auto simp: FetchAndSave_def split: sum.splits prod.splits option.splits dest: PinLock_frame)
  next
    case (Inr e)
    with assms Pair w1 show ?thesis
      by (auto simp: FetchAndSave_def Let_def split: prod.splits option.splits dest!: PinLock_frame)
  qed
qed

lemma FetchAndSave_pins_first:
  assumes "FetchAndSave C lockPath ref fetch w = (res, w')" "w_root w' \<noteq> w_root w" "lockPath \<noteq> []"
  shows "\<exists>err pkg. fst (loadEntry C ref w) = Inl err \<and> fetch ref = Inr pkg \<and> pinned C lockPath ref (pk_digest pkg) w'"
proof -
  from FetchAndSave_saves [OF assms(1,2)] obtain err w1 pkg crds w2 v y where
    st: "loadEntry C ref w = (Inl err, w1)" "fetch ref = Inr pkg"
    and pin: "PinLock C lockPath ref (pk_digest pkg) v = (None, w2)" and sv: "Save C pkg crds w2 = (y, w')" by blast
  from PinLock_pins [OF pin assms(3)] Save_frame [OF sv]
  have "pinned C lockPath ref (pk_digest pkg) w'" by (simp add: pinned_def)
  with st show ?thesis by simp
qed

section \<open>Reading references off the token stream\<close>

primrec tokens_of :: "jval \<Rightarrow> token list" where
  \<comment> \<open>the tokens of a value\<close>
  "tokens_of JNull = [TNull]"
| "tokens_of (JBool b) = [TBool b]"
| "tokens_of (JFloat q) = [TNum q]"
| "tokens_of (JInt i) = [TNum (of_int i)]"
| "tokens_of (JStr s) = [TStr s]"
| "tokens_of (JList vs) = TDelim CHR ''['' # concat (map tokens_of vs) @ [TDelim CHR '']'']"
| "tokens_of (JObj m) = TDelim CHR ''{'' # concat (map (\<lambda>kv. TStr (fst kv) # snd kv) (map (map_prod id tokens_of) m))
     @ [TDelim CHR ''}'']"

lemma skip_concat:
  "(\<And>x ts d. x \<in> set xs \<Longrightarrow> skip_depth (Suc d) (f x @ ts) = skip_depth (Suc d) ts) \<Longrightarrow>
     skip_depth (Suc d) (concat (map f xs) @ ts) = skip_depth (Suc d) ts"
  by (induction xs) simp_all

lemma skip_tokens: "skip_depth (Suc d) (tokens_of v @ ts) = skip_depth (Suc d) ts"
proof (induction v arbitrary: d ts)
  case (JList vs)
  then show ?case by (simp add: skip_concat)
next
  case (JObj m)
  have "skip_depth (Suc d) ((\<lambda>kv. TStr (fst kv) # snd kv) (map_prod id tokens_of kv) @ ts) = skip_depth (Suc d) ts"
    if "kv \<in> set m" for kv d ts
    using JObj [OF that, of "snd kv"] by (cases kv) (simp add: snds.simps)
  from skip_concat [where f = "\<lambda>kv. TStr (fst kv) # snd kv" and xs = "map (map_prod id tokens_of) m", of "Suc d"] this
  show ?case by (force simp: comp_def)
qed simp_all

lemma skip_value: "skipJSONTokenValue (tokens_of v @ ts) = Inr ts"
proof (cases v)
  case (JList vs)
  from skip_concat [where f = tokens_of, OF skip_tokens, where d = 0] show ?thesis
    by (simp add: JList skipJSONTokenValue_def)
next
  case (JObj m)
  from skip_concat [where f = "\<lambda>kv. TStr (fst kv) # tokens_of (snd kv)" and d = 0 and xs = m] show ?thesis
    by (simp add: JObj skipJSONTokenValue_def comp_def skip_tokens)
qed (simp_all add: skipJSONTokenValue_def)

definition members_tokens :: "jval gomap \<Rightarrow> token list" where
  "members_tokens m = concat (map (\<lambda>kv. TStr (fst kv) # tokens_of (snd kv)) m)"

lemma provider_members_object:
  "provider_members (members_tokens m @ TDelim CHR ''}'' # ts) =
     (case map_of m ''ref'' of
        None \<Rightarrow> Inr []
      | Some (JStr r) \<Rightarrow> Inr r
      | Some _ \<Rightarrow> Inl (Msg ''expected string value for ref, got %v'' []))"
proof (induction m)
  case Nil
  then show ?case by (simp add: members_tokens_def provider_members.simps)
next
  case (Cons kv m)
  obtain k v where kv: "kv = (k, v)" by force
  show ?case
  proof (cases "k = ''ref''")
    case True
    then show ?thesis
      by (cases v) (simp_all add: members_tokens_def kv provider_members.simps)
  next
    case False
    with Cons skip_value [of v "members_tokens m @ TDelim CHR ''}'' # ts"] show ?thesis
      by (simp add: members_tokens_def kv provider_members.simps)
  qed
qed

lemma readProviderRef_object:
  assumes "c_tokens C body = tokens_of (JObj m)"
  shows "readProviderRef C body =
     (case map_of m ''ref'' of
        None \<Rightarrow> Inr []
      | Some (JStr r) \<Rightarrow> Inr r
      | Some _ \<Rightarrow> Inl (Msg ''expected string value for ref, got %v'' []))"
  using provider_members_object [of m "[]"]
  by (simp add: readProviderRef_def assms members_tokens_def comp_def)

text \<open>A member is decoded by name regardless of case; without a second spelling of it, that is the
  member of the name itself.\<close>

lemma member_exact:
  assumes "distinct (map fst m)" "filter (\<lambda>kv. equal_fold (fst kv) n \<and> fst kv \<noteq> n) m = []" "equal_fold n n"
  shows "member n m = (case map_of m n of None \<Rightarrow> None | Some v \<Rightarrow> if v = JNull then None else Some v)"
  using assms
proof (induction m)
  case (Cons kv m)
  obtain k v where kv: "kv = (k, v)" by force
  from Cons.prems have "k = n \<Longrightarrow> map_of m n = None" by (auto simp: kv map_of_eq_None_iff)
  with Cons show ?case by (auto simp: kv json_simps split: if_splits option.split)
qed (simp add: json_simps)

section \<open>The cache as a map\<close>

lemma json_sorted_idem [simp]: "json_sorted (json_sorted v) = json_sorted v"
proof (induction v)
  case (JObj m)
  have "map (map_prod id json_sorted) (map (map_prod id json_sorted) m) = map (map_prod id json_sorted) m"
    using JObj by (auto simp: snds.simps)
  then show ?case by (simp add: map_sort_key sort_key_idem del: map_map)
qed simp_all

lemma stored_props_idem [simp]: "stored_props (stored_props m) = stored_props m"
proof -
  have "map_prod id json_sorted \<circ> map_prod id json_sorted = (map_prod id json_sorted :: string \<times> jval \<Rightarrow> _)"
    by (auto simp: fun_eq_iff)
  then show ?thesis by (simp add: stored_props_def map_sort_key sort_key_idem)
qed

lemma stored_crd_idem [simp]: "stored_crd (stored_crd c) = stored_crd c"
  by (simp add: stored_crd_def comp_def)

lemma stored_cached [simp]: "stored_crd (fst (Cached h c)) = stored_crd c"
  by (simp add: Cached_def stored_crd_def)

lemma stored_cache_all [simp]: "map stored_crd (fst (cache_all h cs)) = map stored_crd cs"
proof (induction cs arbitrary: h)
  case (Cons c cs)
  obtain c' h' where c: "Cached h c = (c', h')" by force
  from stored_cached [of h c] have "stored_crd c' = stored_crd c" by (simp add: c)
  with Cons [of h'] show ?case by (cases "cache_all h' cs") (simp add: c)
qed simp

definition view_value :: "string \<times> crd list \<Rightarrow> string \<times> crd list" where
  \<comment> \<open>what a reader sees of a digest and its kinds: everything but the memos and the order of maps\<close>
  "view_value v = (fst v, map stored_crd (snd v))"

abbreviation view_entry :: "entry \<Rightarrow> string \<times> crd list" where
  "view_entry e \<equiv> view_value (e_digest e, e_crds e)"

definition disk_get :: "codec \<Rightarrow> world \<Rightarrow> string \<Rightarrow> (string \<times> crd list) option" where
  "disk_get C w ref =
     (case entry_body w (slug C ref) of
        None \<Rightarrow> None
      | Some body \<Rightarrow> (case ebind (c_dec C body) entry_of_json of Inl _ \<Rightarrow> None | Inr e \<Rightarrow> Some (view_entry e)))"

definition store_get :: "codec \<Rightarrow> world \<Rightarrow> string \<Rightarrow> (string \<times> crd list) option" where
  "store_get C w ref = (case map_of (w_memo w) ref of Some e \<Rightarrow> Some (view_entry e) | None \<Rightarrow> disk_get C w ref)"

definition store_inv :: "codec \<Rightarrow> string set \<Rightarrow> world \<Rightarrow> bool" where
  \<comment> \<open>no operation fails, distinct references have distinct directories, the memo is what the disk says\<close>
  "store_inv C R w \<longleftrightarrow> inj_on (slug C) R \<and> w_tape w = [] \<and>
     (\<forall>r \<in> R. map_of (root_entries w) (slug C r) \<noteq> Some File \<and>
        (\<forall>e. map_of (w_memo w) r = Some e \<longrightarrow> disk_get C w r = Some (view_entry e)))"

definition encodable :: "codec \<Rightarrow> string \<Rightarrow> string \<times> crd list \<Rightarrow> bool" where
  \<comment> \<open>the entry is text the decoder reads back\<close>
  "encodable C ref v \<longleftrightarrow>
     (let j = entry_json \<lparr>e_ref = ref, e_digest = fst v, e_crds = snd v\<rparr>
      in case c_enc C j of Inl _ \<Rightarrow> False | Inr body \<Rightarrow> c_dec C body = Inr j)"

datatype quiet = QLoad string | QDigest string | QClear

fun run_quiet :: "codec \<Rightarrow> quiet \<Rightarrow> world \<Rightarrow> world" where
  "run_quiet C (QLoad r) w = snd (Load C r w)"
| "run_quiet C (QDigest r) w = snd (LoadDigest C r w)"
| "run_quiet C QClear w = Clear w"

definition run_save :: "codec \<Rightarrow> string \<Rightarrow> string \<times> crd list \<Rightarrow> world \<Rightarrow> world" where
  "run_save C r v w = snd (SaveCRDs C r (fst v) (snd v) w)"

definition run_delete :: "codec \<Rightarrow> string \<Rightarrow> world \<Rightarrow> world" where
  "run_delete C r w = snd (Delete C r w)"

text \<open>Each operation, with no failure ahead.\<close>

lemma no_fault: "w_tape w = [] \<Longrightarrow> next_fault w = (Fine, w)"
  by (simp add: next_fault_def)

lemma save_world:
  assumes "w_tape w = []" "map_of (root_entries w) (slug C r) \<noteq> Some File" "c_enc C (entry_json \<lparr>e_ref = r, e_digest = d, e_crds = cs\<rparr>) = Inr body"
  obtains es where "SaveCRDs C r d cs w = (None, w\<lparr>w_root := Some es, w_memo := AList.update r \<lparr>e_ref = r, e_digest = d, e_crds = cs\<rparr> (w_memo w)\<rparr>)"
    "map_of es = (map_of (root_entries w))(slug C r \<mapsto> Dir (Some body))"
proof -
  show thesis
  proof (cases "map_of (root_entries w) (slug C r)")
    case None
    with assms show thesis
      by (intro that) (auto simp: SaveCRDs_def make_dir_def write_entry_def no_fault set_dirent_def root_entries_def update_conv'
          split: prod.split)
  next
    case (Some x)
    with assms(2) obtain b where "x = Dir b" by (cases x) auto
    with Some assms show thesis
      by (intro that) (auto simp: SaveCRDs_def make_dir_def write_entry_def no_fault set_dirent_def update_conv' split: prod.split)
  qed
qed

lemma disk_get_update:
  assumes "inj_on (slug C) R" "r \<in> R" "j \<in> R" "map_of (root_entries w') = (map_of (root_entries w))(slug C r := x)" "j \<noteq> r"
  shows "disk_get C w' j = disk_get C w j"
proof -
  from assms have "slug C j \<noteq> slug C r" by (auto dest: inj_onD)
  with assms(4) show ?thesis by (simp add: disk_get_def entry_body_def)
qed

lemma save_effect:
  assumes "store_inv C R w" "r \<in> R" "encodable C r v"
  shows "\<exists>es body. run_save C r v w = w\<lparr>w_root := Some es, w_memo := AList.update r \<lparr>e_ref = r, e_digest = fst v, e_crds = snd v\<rparr> (w_memo w)\<rparr> \<and>
    map_of es = (map_of (root_entries w))(slug C r \<mapsto> Dir (Some body)) \<and>
    ebind (c_dec C body) entry_of_json = Inr (stored_entry \<lparr>e_ref = r, e_digest = fst v, e_crds = snd v\<rparr>)"
proof -
  from assms(3) obtain body where body: "c_enc C (entry_json \<lparr>e_ref = r, e_digest = fst v, e_crds = snd v\<rparr>) = Inr body"
    "c_dec C body = Inr (entry_json \<lparr>e_ref = r, e_digest = fst v, e_crds = snd v\<rparr>)"
    by (auto simp: encodable_def Let_def split: sum.splits)
  from assms(1,2) have "w_tape w = []" "map_of (root_entries w) (slug C r) \<noteq> Some File"
    by (auto simp: store_inv_def)
  from save_world [OF this body(1)] body(2) show ?thesis
    by (metis run_save_def snd_conv ebind_simps(2) entry_roundtrip)
qed

lemma save_inv_get:
  assumes "store_inv C R w" "r \<in> R" "encodable C r v"
  shows "store_inv C R (run_save C r v w)"
    and "j \<in> R \<Longrightarrow> store_get C (run_save C r v w) j = (if j = r then Some (view_value v) else store_get C w j)"
proof -
  from save_effect [OF assms] obtain es body where
    eff: "run_save C r v w = w\<lparr>w_root := Some es, w_memo := AList.update r \<lparr>e_ref = r, e_digest = fst v, e_crds = snd v\<rparr> (w_memo w)\<rparr>" (is "_ = ?w")
    and es: "map_of es = (map_of (root_entries w))(slug C r \<mapsto> Dir (Some body))"
    and dec: "ebind (c_dec C body) entry_of_json = Inr (stored_entry \<lparr>e_ref = r, e_digest = fst v, e_crds = snd v\<rparr>)" by blast
  have inj: "inj_on (slug C) R" using assms(1) by (simp add: store_inv_def)
  have root: "map_of (root_entries ?w) = (map_of (root_entries w))(slug C r \<mapsto> Dir (Some body))"
    by (simp add: root_entries_def es)
  have other: "disk_get C ?w j = disk_get C w j" if "j \<in> R" "j \<noteq> r" for j
    using disk_get_update [OF inj assms(2) that(1) root that(2)] .
  have same: "disk_get C ?w r = Some (view_value v)"
    by (simp add: disk_get_def entry_body_def root dec stored_entry_def view_value_def)
  have memo: "map_of (w_memo ?w) = (map_of (w_memo w))(r \<mapsto> \<lparr>e_ref = r, e_digest = fst v, e_crds = snd v\<rparr>)"
    by (simp add: update_conv')
  have nofile: "map_of (root_entries ?w) (slug C q) \<noteq> Some File" if "q \<in> R" for q
    using assms(1) that by (simp add: root store_inv_def)
  have coh: "disk_get C ?w q = Some (view_entry e)" if "q \<in> R" "map_of (w_memo ?w) q = Some e" for q e
    using that assms(1) same other [of q] memo by (cases "q = r") (auto simp: store_inv_def)
  show "store_inv C R (run_save C r v w)"
    using assms(1) nofile coh unfolding eff store_inv_def by auto
  show "store_get C (run_save C r v w) j = (if j = r then Some (view_value v) else store_get C w j)" if "j \<in> R"
    using other [of j] that by (simp add: eff store_get_def update_conv' split: option.split)
qed

lemma delete_effect:
  "w_tape w = [] \<Longrightarrow> run_delete C r w = w\<lparr>w_root := map_option (AList.delete (slug C r)) (w_root w), w_memo := AList.delete r (w_memo w)\<rparr>"
  by (simp add: run_delete_def Delete_def remove_dir_def no_fault)

lemma delete_inv_get:
  assumes "store_inv C R w" "r \<in> R"
  shows "store_inv C R (run_delete C r w)"
    and "j \<in> R \<Longrightarrow> store_get C (run_delete C r w) j = (if j = r then None else store_get C w j)"
proof -
  let ?w = "w\<lparr>w_root := map_option (AList.delete (slug C r)) (w_root w), w_memo := AList.delete r (w_memo w)\<rparr>"
  from assms(1) have eff: "run_delete C r w = ?w" by (simp add: delete_effect store_inv_def)
  have inj: "inj_on (slug C) R" using assms(1) by (simp add: store_inv_def)
  have root: "map_of (root_entries ?w) = (map_of (root_entries w))(slug C r := None)"
    by (simp add: root_entries_def delete_conv' split: option.split)
  have other: "disk_get C ?w j = disk_get C w j" if "j \<in> R" "j \<noteq> r" for j
    using disk_get_update [OF inj assms(2) that(1) root that(2)] .
  have same: "disk_get C ?w r = None" by (simp add: disk_get_def entry_body_def root)
  have coh: "disk_get C ?w q = Some (view_entry e)" if "q \<in> R" "map_of (w_memo ?w) q = Some e" for q e
    using that assms(1) other [of q] by (cases "q = r") (auto simp: store_inv_def delete_conv')
  have nofile: "map_of (root_entries ?w) (slug C q) \<noteq> Some File" if "q \<in> R" for q
    using assms(1) that by (simp add: root store_inv_def)
  show "store_inv C R (run_delete C r w)"
    using assms(1) nofile coh unfolding eff store_inv_def by auto
  show "store_get C (run_delete C r w) j = (if j = r then None else store_get C w j)" if "j \<in> R"
    using other [of j] same that by (simp add: eff store_get_def delete_conv' split: option.split)
qed

lemma loadEntry_effect:
  assumes "w_tape w = []"
  shows "\<exists>h. snd (loadEntry C r w) = w\<lparr>w_heap := h, w_memo := w_memo w\<rparr> \<or>
    (\<exists>e. snd (loadEntry C r w) = w\<lparr>w_heap := h, w_memo := AList.update r e (w_memo w)\<rparr> \<and>
      map_of (w_memo w) r = None \<and> disk_get C w r = Some (view_entry e))"
proof (cases "map_of (w_memo w) r")
  case (Some e)
  then show ?thesis by (intro exI [of _ "w_heap w"]) (simp add: loadEntry_def)
next
  case None
  show ?thesis
  proof (cases "entry_body w (slug C r)")
    case None
    with \<open>map_of (w_memo w) r = None\<close> assms show ?thesis
      by (intro exI [of _ "w_heap w"]) (simp add: loadEntry_def read_entry_def no_fault)
  next
    case (Some body)
    show ?thesis
    proof (cases "ebind (c_dec C body) entry_of_json")
      case (Inl err)
      with Some None assms show ?thesis
        by (intro exI [of _ "w_heap w"]) (simp add: loadEntry_def read_entry_def no_fault)
    next
      case (Inr e)
      obtain cs h where cs: "cache_all (w_heap w) (e_crds e) = (cs, h)" by force
      from stored_cache_all [of "w_heap w" "e_crds e"] have "map stored_crd cs = map stored_crd (e_crds e)" by (simp add: cs)
      with Inr Some None cs assms show ?thesis
        by (intro exI [of _ h] disjI2 exI [of _ "e\<lparr>e_crds := cs\<rparr>"])
          (simp add: loadEntry_def read_entry_def no_fault Let_def disk_get_def view_value_def)
    qed
  qed
qed

lemma memo_frame [simp]:
  "disk_get C (w\<lparr>w_heap := h\<rparr>) = disk_get C w"
  "disk_get C (w\<lparr>w_memo := m\<rparr>) = disk_get C w"
  "root_entries (w\<lparr>w_heap := h\<rparr>) = root_entries w"
  "root_entries (w\<lparr>w_memo := m\<rparr>) = root_entries w"
  by (simp_all add: disk_get_def entry_body_def root_entries_def fun_eq_iff)

lemma load_inv_get:
  assumes "store_inv C R w"
  shows "store_inv C R (snd (loadEntry C r w))"
    and "store_get C (snd (loadEntry C r w)) j = store_get C w j"
proof -
  from assms have "w_tape w = []" by (simp add: store_inv_def)
  from loadEntry_effect [OF this, of C r] obtain h e where
    "snd (loadEntry C r w) = w\<lparr>w_heap := h, w_memo := w_memo w\<rparr> \<or>
     snd (loadEntry C r w) = w\<lparr>w_heap := h, w_memo := AList.update r e (w_memo w)\<rparr> \<and>
       map_of (w_memo w) r = None \<and> disk_get C w r = Some (view_entry e)" by blast
  then show "store_inv C R (snd (loadEntry C r w))" "store_get C (snd (loadEntry C r w)) j = store_get C w j"
    using assms by (auto simp: store_inv_def store_get_def update_conv' split: option.split if_splits)
qed

lemma clear_inv_get:
  assumes "store_inv C R w"
  shows "store_inv C R (Clear w)" "j \<in> R \<Longrightarrow> store_get C (Clear w) j = store_get C w j"
  using assms by (auto simp: store_inv_def store_get_def Clear_def split: option.split)

lemma quiet_load: "run_quiet C (QLoad r) w = snd (loadEntry C r w)" "run_quiet C (QDigest r) w = snd (loadEntry C r w)"
  by (simp_all add: Load_def LoadDigest_def split: prod.split sum.split)

lemma quiet_inv_get:
  assumes "store_inv C R w"
  shows "store_inv C R (run_quiet C q w)" "j \<in> R \<Longrightarrow> store_get C (run_quiet C q w) j = store_get C w j"
  using load_inv_get [OF assms] clear_inv_get [OF assms]
  by (cases q; simp add: quiet_load del: run_quiet.simps(1,2); fail)+

interpretation cache: keyed_store "store_inv C R" "\<lambda>r. r \<in> R" "encodable C" "\<lambda>_. True" view_value "store_get C"
    "run_save C" "run_delete C" "run_quiet C" for C R
  by unfold_locales
    (simp_all add: save_inv_get delete_inv_get quiet_inv_get del: run_quiet.simps)

lemma loadEntry_get:
  assumes "store_inv C R w"
  shows "store_get C w r = (case fst (loadEntry C r w) of Inl _ \<Rightarrow> None | Inr e \<Rightarrow> Some (view_entry e))"
proof -
  have cs: "map stored_crd (e_crds e) = map stored_crd cs" if "cache_all (w_heap w) (e_crds e) = (cs, h)" for cs e h
    using stored_cache_all [of "w_heap w" "e_crds e"] that by simp
  with assms show ?thesis
    by (auto simp: loadEntry_def store_get_def disk_get_def read_entry_def no_fault store_inv_def Let_def view_value_def
        split: option.split sum.split prod.split dest: cs)
qed

end
