(* ===== verification/Sources.thy ===== *)
theory Sources
  imports Store_Props BlueprintTypes
begin

text \<open>
  The loop over a document's schema sources (\<open>internal/cache/sources.go\<close>): providers from the
  cache, at the version the lockfile pins, manifests from disk, then the input kinds of the
  pipeline's functions. The blueprint and the store are not nil.
\<close>

section \<open>The program\<close>

definition source_path :: "string \<Rightarrow> string \<Rightarrow> string" where
  "source_path dir path = (if \<not> is_abs path then path_join dir path else path)"

definition provider_ref :: "lock option \<Rightarrow> string \<Rightarrow> string" where
  "provider_ref lk provider =
     (case lk of None \<Rightarrow> provider
      | Some l \<Rightarrow> (case FindProvider (Some l) provider of Some e \<Rightarrow> le_ref e | None \<Rightarrow> provider))"

definition load_source :: "codec \<Rightarrow> string \<Rightarrow> lock option \<Rightarrow> source \<Rightarrow> world \<Rightarrow> (msg + crd list) \<times> world" where
  \<comment> \<open>one turn of the loop\<close>
  "load_source C dir lk s w =
     (if s_crds s \<noteq> [] then
        (case read_file (source_path dir (s_crds s)) w of
           (Inl err, w) \<Rightarrow> (Inl (Msg ''crds source %q: %w'' [Str (s_crds s), Ctx (io_msg err)]), w)
         | (Inr data, w) \<Rightarrow>
             (case ParseCRDManifest (c_crd C) (w_heap w) data of
                (Inl err, h) \<Rightarrow> (Inl (Msg ''crds source %q: %w'' [Str (s_crds s), Ctx err]), w\<lparr>w_heap := h\<rparr>)
              | (Inr scanned, h) \<Rightarrow> (Inr scanned, w\<lparr>w_heap := h\<rparr>)))
      else
        (let ref = provider_ref lk (s_provider s)
         in case Load C ref w of
              (Inr got, w) \<Rightarrow> (Inr got, w)
            | (Inl err, w) \<Rightarrow> if ref \<noteq> s_provider s then Load C (s_provider s) w else (Inl err, w)))"

fun load_sources :: "codec \<Rightarrow> string \<Rightarrow> lock option \<Rightarrow> source list \<Rightarrow> crd list \<Rightarrow> world \<Rightarrow> (msg + crd list) \<times> world" where
  "load_sources C dir lk [] crds w = (Inr crds, w)"
| "load_sources C dir lk (s # ss) crds w =
     (case load_source C dir lk s w of
        (Inl err, w) \<Rightarrow> (Inl err, w)
      | (Inr got, w) \<Rightarrow> load_sources C dir lk ss (crds @ got) w)"

definition step_package :: "codec \<Rightarrow> lock option \<Rightarrow> pipeline_step \<Rightarrow> string" where
  "step_package C lk st =
     (if st_package st = [] \<and> lk \<noteq> None
      then (case FindFunction (c_lower C) lk (st_functionRef st) of Some e \<Rightarrow> le_ref e | None \<Rightarrow> [])
      else st_package st)"

definition mark_loaded :: "codec \<Rightarrow> lock option \<Rightarrow> pipeline_step \<Rightarrow> string \<Rightarrow> string list \<Rightarrow> string list" where
  \<comment> \<open>the references counted as loaded with a step's package; \<open>loadedFns\<close> is the list of its keys\<close>
  "mark_loaded C lk st pkgRef loaded =
     (let mark = (\<lambda>x seen. case FindFunction (c_lower C) lk x of Some e \<Rightarrow> le_ref e # seen | None \<Rightarrow> seen);
          loaded = pkgRef # loaded
      in if lk = None then loaded
         else let loaded = mark pkgRef loaded
              in if st_functionRef st \<noteq> [] then mark (st_functionRef st) loaded else loaded)"

fun load_steps :: "codec \<Rightarrow> lock option \<Rightarrow> pipeline_step list \<Rightarrow> crd list \<Rightarrow> string list \<Rightarrow> world
    \<Rightarrow> crd list \<times> string list \<times> world" where
  "load_steps C lk [] crds loaded w = (crds, loaded, w)"
| "load_steps C lk (st # sts) crds loaded w =
     (let pkgRef = step_package C lk st
      in if pkgRef \<noteq> [] \<and> pkgRef \<notin> set loaded then
           (case Load C pkgRef w of
              (Inl _, w) \<Rightarrow> load_steps C lk sts crds loaded w
            | (Inr got, w) \<Rightarrow> load_steps C lk sts (crds @ got) (mark_loaded C lk st pkgRef loaded) w)
         else load_steps C lk sts crds loaded w)"

fun load_functions :: "codec \<Rightarrow> lock_entry list \<Rightarrow> crd list \<Rightarrow> string list \<Rightarrow> world \<Rightarrow> crd list \<times> world" where
  "load_functions C [] crds loaded w = (crds, w)"
| "load_functions C (f # fs) crds loaded w =
     (if le_ref f \<noteq> [] \<and> le_ref f \<notin> set loaded then
        (case Load C (le_ref f) w of
           (Inl _, w) \<Rightarrow> load_functions C fs crds loaded w
         | (Inr got, w) \<Rightarrow> load_functions C fs (crds @ got) (le_ref f # loaded) w)
      else load_functions C fs crds loaded w)"

definition LoadSources :: "codec \<Rightarrow> blueprint \<Rightarrow> string \<Rightarrow> world \<Rightarrow> (msg + crd list) \<times> world" where
  "LoadSources C b blueprintDir w =
     (case (if blueprintDir \<noteq> [] then map_prod (map_sum id Some) id (ReadLock C (path_join blueprintDir ''.cf.lock'') w)
            else (Inr None, w)) of
        (Inl err, w) \<Rightarrow> (Inl err, w)
      | (Inr lk, w) \<Rightarrow>
          (case load_sources C blueprintDir lk (sp_sources (b_spec b)) [] w of
             (Inl err, w) \<Rightarrow> (Inl err, w)
           | (Inr crds, w) \<Rightarrow>
               (case load_steps C lk (sp_pipeline (b_spec b)) crds [] w of
                  (crds, loaded, w) \<Rightarrow>
                    (case lk of
                       None \<Rightarrow> (Inr crds, w)
                     | Some l \<Rightarrow> (case load_functions C (lk_functions l) crds loaded w of (crds, w) \<Rightarrow> (Inr crds, w))))))"

section \<open>What a source stands for\<close>

definition views :: "msg + crd list \<Rightarrow> crd list option" where
  "views r = (case r of Inl _ \<Rightarrow> None | Inr cs \<Rightarrow> Some (map stored_crd cs))"

lemma views_simps [simp]: "views (Inl e) = None" "views (Inr cs) = Some (map stored_crd cs)"
  by (simp_all add: views_def)

definition source_view :: "codec \<Rightarrow> world \<Rightarrow> string \<Rightarrow> lock option \<Rightarrow> source \<Rightarrow> crd list option" where
  \<comment> \<open>the kinds of a source in a world: its manifest's, or those cached for the pinned or the declared reference\<close>
  "source_view C w dir lk s =
     (if s_crds s \<noteq> [] then
        (case map_of (w_files w) (source_path dir (s_crds s)) of
           None \<Rightarrow> None
         | Some data \<Rightarrow> views (fst (ParseCRDManifest (c_crd C) [] data)))
      else
        (case store_get C w (provider_ref lk (s_provider s)) of
           Some v \<Rightarrow> Some (snd v)
         | None \<Rightarrow> map_option snd (store_get C w (s_provider s))))"

lemma ParseCRDs_heap:
  "map stored_crd out = map stored_crd out' \<Longrightarrow>
     views (fst (ParseCRDs_from d i h out docs)) = views (fst (ParseCRDs_from d i h' out' docs))"
proof (induction d i h out docs arbitrary: h' out' rule: ParseCRDs_from.induct)
  case (2 decode i h out d docs)
  show ?case
  proof (cases "decode d")
    case (Inr doc)
    show ?thesis
    proof (cases "doc_kind doc = ''CustomResourceDefinition''")
      case True
      then show ?thesis
        unfolding ParseCRDs_from.simps Inr sum.case Let_def if_not_P [OF iffD2 [OF not_not, OF True]]
        by (intro "2.IH"(2) [OF Inr _ refl]) (simp_all add: "2.prems" True, simp add: stored_crd_def)
    next
      case False
      with Inr "2.IH"(1) [OF Inr False "2.prems"] show ?thesis by simp
    qed
  qed simp
qed simp

lemma Manifest_heap: "views (fst (ParseCRDManifest d h data)) = views (fst (ParseCRDManifest d h' data))"
proof -
  have *: "views (fst (ParseCRDs d h (SplitDocs data))) = views (fst (ParseCRDs d h' (SplitDocs data)))"
    by (simp add: ParseCRDs_def ParseCRDs_heap)
  obtain r1 h1 r2 h2 where eqs: "ParseCRDs d h (SplitDocs data) = (r1, h1)" "ParseCRDs d h' (SplitDocs data) = (r2, h2)" by force
  show ?thesis
  proof (cases r1)
    case (Inl e)
    with * eqs show ?thesis by (cases r2) (simp_all add: ParseCRDManifest_def)
  next
    case (Inr cs1)
    with * eqs obtain cs2 where r2: "r2 = Inr cs2" and v: "map stored_crd cs1 = map stored_crd cs2" by (cases r2) simp_all
    from v have "map (\<lambda>c. stored_crd (c\<lparr>crd_native := True\<rparr>)) cs1 = map (\<lambda>c. stored_crd (c\<lparr>crd_native := True\<rparr>)) cs2"
    proof -
      have "stored_crd (c\<lparr>crd_native := True\<rparr>) = (stored_crd c)\<lparr>crd_native := True\<rparr>" for c by (simp add: stored_crd_def)
      with v show ?thesis by (metis (no_types, lifting) map_eq_conv list.map_comp comp_def)
    qed
    moreover have "cs1 = [] \<longleftrightarrow> cs2 = []" using v by (metis map_is_Nil_conv)
    ultimately show ?thesis using Inr eqs r2 by (simp add: ParseCRDManifest_def comp_def)
  qed
qed

definition calm :: "codec \<Rightarrow> world \<Rightarrow> world \<Rightarrow> bool" where
  \<comment> \<open>no failure ahead, and the same cache and files as before\<close>
  "calm C w w' \<longleftrightarrow> w_tape w' = [] \<and> w_files w' = w_files w \<and> store_get C w' = store_get C w"

lemma calm_trans: "calm C w w' \<Longrightarrow> calm C w' w'' \<Longrightarrow> calm C w w''"
  by (simp add: calm_def)

lemma calm_heap: "w_tape w = [] \<Longrightarrow> calm C w (w\<lparr>w_heap := h\<rparr>)"
  by (simp add: calm_def store_get_def fun_eq_iff split: option.split)

lemma calm_Load:
  assumes "w_tape w = []" "Load C r w = (x, w')"
  shows "calm C w w' \<and> views x = map_option snd (store_get C w r)"
proof -
  have inv: "store_inv C {} w" using assms(1) by (simp add: store_inv_def)
  obtain y where y: "loadEntry C r w = (y, w')" "x = map_sum id e_crds y"
    using assms(2) by (auto simp: Load_def split: prod.splits sum.splits)
  from load_inv_get [OF inv, of r] y(1) have "w_tape w' = []" "store_get C w' = store_get C w"
    by (auto simp: store_inv_def fun_eq_iff)
  moreover from loadEntry_frame [OF y(1)] have "w_files w' = w_files w" by simp
  moreover from loadEntry_get [OF inv, of r] y have "views x = map_option snd (store_get C w r)"
    by (auto simp: view_value_def split: sum.splits)
  ultimately show ?thesis by (simp add: calm_def)
qed

lemma calm_source:
  assumes "w_tape w = []" "load_source C dir lk s w = (x, w')"
  shows "calm C w w' \<and> views x = source_view C w dir lk s"
proof (cases "s_crds s = []")
  case True
  let ?ref = "provider_ref lk (s_provider s)"
  obtain y w1 where l1: "Load C ?ref w = (y, w1)" by force
  from calm_Load [OF assms(1) l1] have c1: "calm C w w1" "views y = map_option snd (store_get C w ?ref)" by auto
  show ?thesis
  proof (cases y)
    case (Inr cs)
    with True l1 c1 assms(2) show ?thesis
      by (auto simp: load_source_def source_view_def Let_def split: option.splits)
  next
    case (Inl err)
    show ?thesis
    proof (cases "?ref = s_provider s")
      case True
      with \<open>s_crds s = []\<close> Inl l1 c1 assms(2) show ?thesis
        by (auto simp: load_source_def source_view_def Let_def split: option.splits)
    next
      case False
      with \<open>s_crds s = []\<close> Inl l1 assms(2) have l2: "Load C (s_provider s) w1 = (x, w')"
        by (simp add: load_source_def Let_def)
      from c1 have "w_tape w1 = []" by (simp add: calm_def)
      from calm_Load [OF this l2] c1 Inl True show ?thesis
        by (auto simp: source_view_def calm_def split: option.splits)
    qed
  qed
next
  case False
  with assms show ?thesis
    using Manifest_heap [of "c_crd C" "[]" _ "w_heap w"] calm_heap [OF assms(1)]
    by (auto simp: load_source_def source_view_def read_file_def no_fault calm_def split: option.splits prod.splits sum.splits)
qed

section \<open>The three loops\<close>

lemma source_view_calm: "calm C w w' \<Longrightarrow> source_view C w' dir lk s = source_view C w dir lk s"
  by (simp add: calm_def source_view_def split: option.split)

lemma calm_sources:
  assumes "w_tape w = []" "load_sources C dir lk ss crds w = (x, w')"
  shows "case x of
      Inl _ \<Rightarrow> list_ex (\<lambda>s. source_view C w dir lk s = None) ss
    | Inr cs \<Rightarrow> list_all (\<lambda>s. source_view C w dir lk s \<noteq> None) ss \<and> calm C w w' \<and>
        map stored_crd cs = map stored_crd crds @ concat (map (\<lambda>s. the (source_view C w dir lk s)) ss)"
  using assms
proof (induction ss arbitrary: crds w)
  case Nil
  then show ?case by (auto simp: calm_def)
next
  case (Cons s ss)
  obtain y w1 where y: "load_source C dir lk s w = (y, w1)" by force
  from calm_source [OF Cons.prems(1) y] have c: "calm C w w1" "source_view C w dir lk s = views y" by auto
  show ?case
  proof (cases y)
    case (Inl err)
    with c Cons.prems(2) y show ?thesis by auto
  next
    case (Inr got)
    with Cons.prems(2) y have "load_sources C dir lk ss (crds @ got) w1 = (x, w')" by simp
    from Cons.IH [OF _ this] c Inr show ?thesis
      by (auto simp: source_view_calm [OF c(1)] calm_def split: sum.splits)
  qed
qed

lemma mark_loaded_mem: "pkgRef \<in> set (mark_loaded C lk st pkgRef loaded)" "set loaded \<subseteq> set (mark_loaded C lk st pkgRef loaded)"
  by (auto simp: mark_loaded_def Let_def split: option.split)

text \<open>What the two loops over functions add is the kinds of distinct cached references.\<close>

definition kinds_of :: "codec \<Rightarrow> world \<Rightarrow> string list \<Rightarrow> crd list" where
  "kinds_of C w fns = concat (map (\<lambda>f. snd (the (store_get C w f))) fns)"

lemma kinds_of_one: "views (Inr got) = map_option snd (store_get C w p) \<Longrightarrow> map stored_crd got = kinds_of C w [p]"
  by (cases "store_get C w p") (simp_all add: kinds_of_def)

lemma calm_steps:
  assumes "w_tape w = []" "load_steps C lk sts crds loaded w = (cs, loaded', w')"
  shows "calm C w w' \<and> set loaded \<subseteq> set loaded' \<and>
    (\<exists>fns. distinct fns \<and> list_all (\<lambda>f. store_get C w f \<noteq> None) fns \<and> set fns \<inter> set loaded = {} \<and> set fns \<subseteq> set loaded' \<and>
      map stored_crd cs = map stored_crd crds @ kinds_of C w fns)"
  using assms
proof (induction sts arbitrary: crds loaded w)
  case Nil
  then show ?case by (auto simp: calm_def kinds_of_def intro!: exI [of _ "[]"])
next
  case (Cons st sts)
  let ?p = "step_package C lk st"
  show ?case
  proof (cases "?p \<noteq> [] \<and> ?p \<notin> set loaded")
    case True
    obtain y w1 where y: "Load C ?p w = (y, w1)" by force
    from calm_Load [OF Cons.prems(1) y] have c: "calm C w w1" and v: "views y = map_option snd (store_get C w ?p)" by auto
    have tape: "w_tape w1 = []" and get: "kinds_of C w1 = kinds_of C w" "store_get C w1 = store_get C w"
      using c by (auto simp: calm_def kinds_of_def fun_eq_iff)
    show ?thesis
    proof (cases y)
      case (Inl err)
      with True y Cons.prems(2) have "load_steps C lk sts crds loaded w1 = (cs, loaded', w')" by (auto simp: Let_def)
      from Cons.IH [OF tape this] calm_trans [OF c] get show ?thesis by auto
    next
      case (Inr got)
      let ?l = "mark_loaded C lk st ?p loaded"
      from Inr True y Cons.prems(2) have "load_steps C lk sts (crds @ got) ?l w1 = (cs, loaded', w')" by (auto simp: Let_def)
      from Cons.IH [OF tape this] obtain fns where
        fns: "calm C w1 w'" "set ?l \<subseteq> set loaded'" "distinct fns" "list_all (\<lambda>f. store_get C w1 f \<noteq> None) fns" "set fns \<inter> set ?l = {}" "set fns \<subseteq> set loaded'"
        "map stored_crd cs = map stored_crd (crds @ got) @ kinds_of C w1 fns" by blast
      from kinds_of_one [OF v [unfolded Inr]] have "map stored_crd got = kinds_of C w [?p]" .
      moreover have "store_get C w ?p \<noteq> None" using v Inr by (cases "store_get C w ?p") auto
      ultimately show ?thesis
        using fns mark_loaded_mem [where pkgRef = ?p and C = C and lk = lk and st = st and loaded = loaded] True calm_trans [OF c fns(1)] get
        by (intro conjI exI [of _ "?p # fns"]) (auto simp: kinds_of_def)
    qed
  next
    case False
    with Cons.prems(2) have "load_steps C lk sts crds loaded w = (cs, loaded', w')" by (auto simp: Let_def)
    from Cons.IH [OF Cons.prems(1) this] show ?thesis .
  qed
qed

lemma calm_functions:
  assumes "w_tape w = []" "load_functions C fs crds loaded w = (cs, w')"
  shows "\<exists>fns. distinct fns \<and> list_all (\<lambda>f. store_get C w f \<noteq> None) fns \<and> set fns \<inter> set loaded = {} \<and> map stored_crd cs = map stored_crd crds @ kinds_of C w fns"
  using assms
proof (induction fs arbitrary: crds loaded w)
  case Nil
  then show ?case by (auto simp: kinds_of_def intro!: exI [of _ "[]"])
next
  case (Cons f fs)
  let ?p = "le_ref f"
  show ?case
  proof (cases "?p \<noteq> [] \<and> ?p \<notin> set loaded")
    case True
    obtain y w1 where y: "Load C ?p w = (y, w1)" by force
    from calm_Load [OF Cons.prems(1) y] have c: "calm C w w1" and v: "views y = map_option snd (store_get C w ?p)" by auto
    have tape: "w_tape w1 = []" and get: "kinds_of C w1 = kinds_of C w" "store_get C w1 = store_get C w"
      using c by (auto simp: calm_def kinds_of_def fun_eq_iff)
    show ?thesis
    proof (cases y)
      case (Inl err)
      with True y Cons.prems(2) have "load_functions C fs crds loaded w1 = (cs, w')" by auto
      from Cons.IH [OF tape this] get v Inl show ?thesis by auto
    next
      case (Inr got)
      from Inr True y Cons.prems(2) have "load_functions C fs (crds @ got) (?p # loaded) w1 = (cs, w')" by auto
      from Cons.IH [OF tape this] obtain fns where
        fns: "distinct fns" "list_all (\<lambda>f. store_get C w1 f \<noteq> None) fns" "set fns \<inter> set (?p # loaded) = {}"
        "map stored_crd cs = map stored_crd (crds @ got) @ kinds_of C w1 fns" by blast
      from kinds_of_one [OF v [unfolded Inr]] have "map stored_crd got = kinds_of C w [?p]" .
      moreover have "store_get C w ?p \<noteq> None" using v Inr by (cases "store_get C w ?p") auto
      ultimately show ?thesis
        using fns True get
        by (intro exI [of _ "?p # fns"]) (auto simp: kinds_of_def list_all_iff)
    qed
  next
    case False
    with Cons.prems(2) have "load_functions C fs crds loaded w = (cs, w')" by auto
    from Cons.IH [OF Cons.prems(1) this] False show ?thesis by auto
  qed
qed

section \<open>The whole loop\<close>

definition declared_lock :: "codec \<Rightarrow> string \<Rightarrow> world \<Rightarrow> lock option option" where
  \<comment> \<open>the lock beside the document, if there is a directory to look in; None when it cannot be read\<close>
  "declared_lock C dir w =
     (if dir = [] then Some None
      else (case fst (ReadLock C (path_join dir ''.cf.lock'') w) of Inl _ \<Rightarrow> None | Inr l \<Rightarrow> Some (Some l)))"

lemma calm_ReadLock:
  assumes "w_tape w = []" shows "snd (ReadLock C p w) = w"
  using assms by (auto simp: ReadLock_def read_file_def no_fault split: option.split sum.split)

lemma LoadSources_eq:
  assumes "w_tape w = []" "declared_lock C dir w = Some lk"
  shows "LoadSources C b dir w =
     (case load_sources C dir lk (sp_sources (b_spec b)) [] w of
        (Inl err, w) \<Rightarrow> (Inl err, w)
      | (Inr crds, w) \<Rightarrow>
          (case load_steps C lk (sp_pipeline (b_spec b)) crds [] w of
             (crds, loaded, w) \<Rightarrow>
               (case lk of
                  None \<Rightarrow> (Inr crds, w)
                | Some l \<Rightarrow> (case load_functions C (lk_functions l) crds loaded w of (crds, w) \<Rightarrow> (Inr crds, w)))))"
proof (cases "dir = []")
  case True
  with assms(2) have lk: "lk = None" by (simp add: declared_lock_def)
  from True show ?thesis unfolding lk by (simp add: LoadSources_def)
next
  case False
  obtain r w1 where r: "ReadLock C (path_join dir ''.cf.lock'') w = (r, w1)" by force
  from calm_ReadLock [OF assms(1), of C "path_join dir ''.cf.lock''"] r have "w1 = w" by simp
  with False r assms(2) show ?thesis
    by (cases r) (simp_all add: LoadSources_def declared_lock_def)
qed

lemma LoadSources_views:
  assumes "w_tape w = []" "declared_lock C dir w = Some lk"
  shows "case fst (LoadSources C b dir w) of
      Inl _ \<Rightarrow> list_ex (\<lambda>s. source_view C w dir lk s = None) (sp_sources (b_spec b))
    | Inr crds \<Rightarrow> list_all (\<lambda>s. source_view C w dir lk s \<noteq> None) (sp_sources (b_spec b)) \<and>
        (\<exists>fns. distinct fns \<and> list_all (\<lambda>f. store_get C w f \<noteq> None) fns \<and>
           map stored_crd crds = concat (map (\<lambda>s. the (source_view C w dir lk s)) (sp_sources (b_spec b))) @ kinds_of C w fns)"
proof -
  let ?ss = "sp_sources (b_spec b)"
  obtain x w1 where x: "load_sources C dir lk ?ss [] w = (x, w1)" by force
  note src = calm_sources [OF assms(1) x]
  show ?thesis
  proof (cases x)
    case (Inl err)
    with src x show ?thesis by (simp add: LoadSources_eq [OF assms])
  next
    case (Inr cs)
    obtain cs2 loaded w2 where st: "load_steps C lk (sp_pipeline (b_spec b)) cs [] w1 = (cs2, loaded, w2)" by (metis prod_cases3)
    from src Inr have c1: "calm C w w1" "w_tape w1 = []" and ok: "list_all (\<lambda>s. source_view C w dir lk s \<noteq> None) ?ss"
      "map stored_crd cs = concat (map (\<lambda>s. the (source_view C w dir lk s)) ?ss)" by (auto simp: calm_def)
    from calm_steps [OF c1(2) st] obtain fns where c2: "calm C w1 w2" and fns: "distinct fns"
      "list_all (\<lambda>f. store_get C w1 f \<noteq> None) fns" "set fns \<subseteq> set loaded" "map stored_crd cs2 = map stored_crd cs @ kinds_of C w1 fns"
      by blast
    have get: "store_get C w1 = store_get C w" "store_get C w2 = store_get C w" "kinds_of C w1 = kinds_of C w" "kinds_of C w2 = kinds_of C w"
      using c1 c2 by (auto simp: calm_def kinds_of_def fun_eq_iff)
    show ?thesis
    proof (cases lk)
      case None
      with Inr x st ok fns get show ?thesis by (auto simp: LoadSources_eq [OF assms])
    next
      case (Some l)
      obtain cs3 w3 where fn: "load_functions C (lk_functions l) cs2 loaded w2 = (cs3, w3)" by force
      from c2 have "w_tape w2 = []" by (simp add: calm_def)
      from calm_functions [OF this fn] obtain gns where gns: "distinct gns" "list_all (\<lambda>f. store_get C w2 f \<noteq> None) gns"
        "set gns \<inter> set loaded = {}" "map stored_crd cs3 = map stored_crd cs2 @ kinds_of C w2 gns" by blast
      have "distinct (fns @ gns)" using fns gns by auto
      with Some Inr x st fn ok fns gns get show ?thesis
        by (auto simp: LoadSources_eq [OF assms] kinds_of_def intro!: exI [of _ "fns @ gns"])
    qed
  qed
qed

end
