(* ===== verification/Cache_Claims.thy ===== *)
theory Cache_Claims
  imports Sources Sample
begin

text \<open>
  The properties of the provider cache and its lockfile (\<open>internal/cache\<close>), with their witnesses.
\<close>

section \<open>The lockfile\<close>

text \<open>C29: Any sequence of \<open>Set\<close>, \<open>Remove\<close> and the sorting of \<open>Write\<close> leaves both lists of the lock
  strictly sorted by reference and of their own kind, and what the lock then pins for a reference
  is what the sequence last said of it; \<open>Remove\<close> reports exactly whether it was pinned.\<close>

theorem lock_history:
  assumes "lock_ok l"
  shows "lock_ok (fold (run_event lock_set (\<lambda>r l. snd (lock_remove r l)) (\<lambda>_::unit. lock_sorted)) es l) \<and>
    lock_pin (fold (run_event lock_set (\<lambda>r l. snd (lock_remove r l)) (\<lambda>_::unit. lock_sorted)) es l) ref
      = latest id ref es (lock_pin l ref) \<and>
    (fst (lock_remove ref l) \<longleftrightarrow> lock_pin l ref \<noteq> None)"
proof -
  have "list_all (event_ok (\<lambda>_. True) (\<lambda>_ _. True) (\<lambda>_. True)) es"
    by (simp add: list_all_iff)
  with locks.inv_history [OF assms] locks.get_history [OF assms] lock_remove_flag [OF assms] show ?thesis
    by blast
qed

theorem lock_history_witness:
  "lock_ok \<lparr>lk_providers = [], lk_functions = []\<rparr> \<and>
   lock_pin (fold (run_event lock_set (\<lambda>r l. snd (lock_remove r l)) (\<lambda>_::unit. lock_sorted))
     [Put ''xp/b:v1'' ''1'', Put ''xp/a:v1'' ''2'', Put ''xp/function-f:v1'' ''3'', Put ''xp/b:v1'' ''4'', Del ''xp/a:v1'', Quiet ()]
     \<lparr>lk_providers = [], lk_functions = []\<rparr>) ''xp/b:v1'' = Some ''4''"
proof -
  have ok: "lock_ok \<lparr>lk_providers = [], lk_functions = []\<rparr>" by code_simp
  have "latest id ''xp/b:v1''
     [Put ''xp/b:v1'' ''1'', Put ''xp/a:v1'' ''2'', Put ''xp/function-f:v1'' ''3'', Put ''xp/b:v1'' ''4'', Del ''xp/a:v1'', Quiet ()]
     (lock_pin \<lparr>lk_providers = [], lk_functions = []\<rparr> ''xp/b:v1'') = Some ''4''" by simp
  with ok lock_history [OF ok] show ?thesis by metis
qed

text \<open>C31: \<open>FindProvider\<close> returns an entry of the lock exactly when one matches the asked
  reference: by itself, by its repository before a tag or digest, or, for a name without a path,
  by its bare name. A reference that is pinned finds its own entry, so a qualified name is never
  answered with another repository of the same last segment.\<close>

theorem FindProvider_matches:
  assumes "want \<noteq> []"
  shows "case FindProvider (Some l) want of
      None \<Rightarrow> list_all (\<lambda>e. \<not> ref_matches cleanRefSegment want (le_ref e)) (lk_providers l)
    | Some e \<Rightarrow> e \<in> set (lk_providers l) \<and> ref_matches cleanRefSegment want (le_ref e) \<and>
        pin (lk_providers l) want \<in> {None, Some (le_digest e)} \<and>
        (pin (lk_providers l) want = None \<or> le_ref e = want)"
proof (cases "find_in cleanRefSegment (lk_providers l) want")
  case None
  with assms find_in_None [of cleanRefSegment "lk_providers l" want] show ?thesis by (simp add: FindProvider_def)
next
  case (Some e)
  with assms find_in_matches [OF Some] find_in_exact [of "lk_providers l" want _ cleanRefSegment] show ?thesis
    by (cases "pin (lk_providers l) want") (auto simp: FindProvider_def)
qed

theorem FindProvider_matches_witness:
  "FindProvider (Some \<lparr>lk_providers = [\<lparr>le_ref = ''x/aws:v1'', le_digest = ''1''\<rparr>], lk_functions = []\<rparr>) ''y/aws'' = None \<and>
   list_all (\<lambda>e. \<not> ref_matches cleanRefSegment ''y/aws'' (le_ref e)) [\<lparr>le_ref = ''x/aws:v1'', le_digest = ''1''\<rparr>]"
proof -
  have none: "FindProvider (Some \<lparr>lk_providers = [\<lparr>le_ref = ''x/aws:v1'', le_digest = ''1''\<rparr>], lk_functions = []\<rparr>) ''y/aws'' = None"
    by code_simp
  from FindProvider_matches [of "''y/aws''" "\<lparr>lk_providers = [\<lparr>le_ref = ''x/aws:v1'', le_digest = ''1''\<rparr>], lk_functions = []\<rparr>"] none
  show ?thesis by simp
qed

section \<open>A concrete codec\<close>

text \<open>The part of JSON without numbers or escapes, as text, for the witnesses.\<close>

fun until_quote :: "string \<Rightarrow> (string \<times> string) option" where
  "until_quote [] = None"
| "until_quote (c # s) = (if c = dquote then Some ([], s) else map_option (map_prod ((#) c) id) (until_quote s))"

fun json_text :: "nat \<Rightarrow> jval \<Rightarrow> string option" where
  "json_text 0 v = None"
| "json_text (Suc n) v =
     (let sep = (\<lambda>ts. if None \<in> set ts then None else Some (go_join '','' (map the ts)));
          str = (\<lambda>s. dquote # s @ [dquote])
      in case v of
           JNull \<Rightarrow> Some ''null'' | JBool b \<Rightarrow> Some (if b then ''true'' else ''false'')
         | JStr s \<Rightarrow> if dquote \<in> set s then None else Some (str s)
         | JList vs \<Rightarrow> map_option (\<lambda>t. ''['' @ t @ '']'') (sep (map (json_text n) vs))
         | JObj m \<Rightarrow> map_option (\<lambda>t. ''{'' @ t @ ''}'')
             (sep (map (\<lambda>(k, v). if dquote \<in> set k then None else map_option (\<lambda>t. str k @ '':'' @ t) (json_text n v)) m))
         | _ \<Rightarrow> None)"

fun parse_value :: "nat \<Rightarrow> string \<Rightarrow> (jval \<times> string) option"
  and parse_elems :: "nat \<Rightarrow> string \<Rightarrow> (jval list \<times> string) option"
  and parse_members :: "nat \<Rightarrow> string \<Rightarrow> (jval gomap \<times> string) option" where
  "parse_value 0 s = None"
| "parse_value (Suc n) s =
     (case s of
        [] \<Rightarrow> None
      | c # t \<Rightarrow>
          if c = dquote then map_option (map_prod JStr id) (until_quote t)
          else if c = CHR ''['' then
            (if has_prefix t '']'' then Some (JList [], drop 1 t) else map_option (map_prod JList id) (parse_elems n t))
          else if c = CHR ''{'' then
            (if has_prefix t ''}'' then Some (JObj [], drop 1 t) else map_option (map_prod JObj id) (parse_members n t))
          else if has_prefix s ''null'' then Some (JNull, drop 4 s)
          else if has_prefix s ''true'' then Some (JBool True, drop 4 s)
          else if has_prefix s ''false'' then Some (JBool False, drop 5 s)
          else None)"
| "parse_elems 0 s = None"
| "parse_elems (Suc n) s =
     (case parse_value n s of
        Some (v, c # t) \<Rightarrow>
          if c = CHR '','' then map_option (map_prod ((#) v) id) (parse_elems n t)
          else if c = CHR '']'' then Some ([v], t) else None
      | _ \<Rightarrow> None)"
| "parse_members 0 s = None"
| "parse_members (Suc n) s =
     (case s of
        [] \<Rightarrow> None
      | q # t \<Rightarrow>
          (case until_quote t of
             Some (k, col # t) \<Rightarrow>
               if q \<noteq> dquote \<or> col \<noteq> CHR '':'' then None
               else (case parse_value n t of
                       Some (v, c # t) \<Rightarrow>
                         if c = CHR '','' then map_option (map_prod ((#) (k, v)) id) (parse_members n t)
                         else if c = CHR ''}'' then Some ([(k, v)], t) else None
                     | _ \<Rightarrow> None)
           | _ \<Rightarrow> None))"

definition sample_codec :: codec where
  "sample_codec = \<lparr>
     c_enc = (\<lambda>v. case json_text 20 v of Some t \<Rightarrow> Inr t | None \<Rightarrow> Inl (Msg ''unsupported value'' [])),
     c_dec = (\<lambda>s. case parse_value 200 (trim_suffix s [CHR 0x0A]) of Some (v, []) \<Rightarrow> Inr v | _ \<Rightarrow> Inl (Msg ''invalid character'' [])),
     c_tokens = (\<lambda>s. case parse_value 200 s of Some (v, []) \<Rightarrow> tokens_of v | _ \<Rightarrow> [TErr (Msg ''invalid character'' [])]),
     c_crd = (\<lambda>d. Inr \<lparr>doc_kind = ''CustomResourceDefinition'', doc_group = ''g'', doc_scope = ''Cluster'',
        doc_names_kind = d, doc_plural = ''ps'', doc_categories = [], doc_versions = []\<rparr>),
     c_hash = (\<lambda>s. ''0123456789ab''),
     c_lower = to_lower\<rparr>"

definition sample_crd :: crd where
  "sample_crd = \<lparr>crd_group = ''sqs.aws.upbound.io'', crd_kind = ''Queue'', crd_plural = ''queues'', crd_scope = ''Cluster'',
     crd_categories = [''managed''], crd_versions = [\<lparr>v_name = ''v1'', v_served = True, v_storage = True, v_deprecated = False,
       v_properties = [(''spec'', JObj [(''type'', JStr ''object'')])]\<rparr>],
     crd_native = False, crd_function = False, crd_cache = Some 0\<rparr>"

definition sample_world :: world where
  "sample_world = \<lparr>w_tape = [], w_root = None, w_files = [], w_memo = [], w_heap = [[]]\<rparr>"

lemma sample_encodable: "encodable sample_codec ''xp/a:v1'' (''sha256:1'', [sample_crd])"
  by code_simp

section \<open>The cache\<close>

definition slug_char :: "char \<Rightarrow> bool" where
  "slug_char c \<longleftrightarrow> c \<in> set ''abcdefghijklmnopqrstuvwxyzABCDEFGHIJKLMNOPQRSTUVWXYZ0123456789._-''"

lemma slug_rune_char: "slug_char (slug_rune r)"
proof (cases "r < 128")
  case True
  have "list_all (\<lambda>r. slug_char (slug_rune r)) [0..<128]" by code_simp
  with True show ?thesis by (auto simp: list_all_iff)
next
  case False
  then show ?thesis by (simp add: slug_rune_def slug_char_def)
qed

text \<open>A directory the cache uses is a plain name: whatever the reference, it holds only letters,
  digits, dots, underscores and hyphens, and it is neither empty nor a dot entry, so no reference
  reaches a path outside the cache's root.\<close>

theorem slug_plain:
  assumes "list_all slug_char (c_hash C ref)"
  shows "list_all slug_char (slug C ref) \<and> slug C ref \<notin> {[], ''.'', ''..''}"
proof -
  have "list_all slug_char (sanitizeSlugSegment s)" for s
    by (simp add: sanitizeSlugSegment_def list_all_iff slug_rune_char)
  moreover have "list_all slug_char ''ref''" "slug_char CHR ''-''" by (simp_all add: slug_char_def)
  moreover have "list_all slug_char (take 12 (c_hash C ref))" using assms by (auto simp: list_all_iff dest: in_set_takeD)
  ultimately have chars: "list_all slug_char (slug C ref)" by (simp add: slug_def Let_def)
  have "CHR ''-'' \<in> set (slug C ref)" by (simp add: slug_def Let_def)
  then have "slug C ref \<notin> {[], ''.'', ''..''}" by auto
  with chars show ?thesis by blast
qed

theorem slug_plain_witness:
  "list_all slug_char (c_hash sample_codec ''../..'') \<and> slug sample_codec ''../..'' = ''..-0123456789ab'' \<and>
   slug sample_codec ''../..'' \<notin> {[], ''.'', ''..''}"
proof -
  have h: "list_all slug_char (c_hash sample_codec ''../..'')" by code_simp
  have "slug sample_codec ''../..'' = ''..-0123456789ab''" by code_simp
  with h slug_plain [OF h] show ?thesis by blast
qed

text \<open>C26: A package is pinned before it is cached, whatever file operation fails or stops half way:
  if a call of \<open>FetchAndSave\<close> changed anything in the cache directory, the reference was not
  cached, the package was fetched, and the lockfile holds a lock that pins its digest. A cached
  reference is never fetched again.\<close>

theorem FetchAndSave_pinned:
  assumes "FetchAndSave C lockPath ref fetch w = (res, w')" "w_root w' \<noteq> w_root w" "lockPath \<noteq> []"
  shows "\<exists>err pkg. fst (loadEntry C ref w) = Inl err \<and> fetch ref = Inr pkg \<and> pinned C lockPath ref (pk_digest pkg) w'"
  using assms by (rule FetchAndSave_pins_first)

definition sample_fetch :: "string \<Rightarrow> msg + package" where
  "sample_fetch r = Inr \<lparr>pk_ref = r, pk_digest = ''sha256:9'', pk_docs = [''Queue'']\<rparr>"

text \<open>The witness: the disk fills up while the schemas are written, so the entry is cut off after
  four bytes, and the pin is there.\<close>

definition torn_world :: world where
  "torn_world = sample_world\<lparr>w_tape := [Fine, Fine, Fine, Fine, Torn 4 (Msg ''no space left on device'' [])]\<rparr>"

theorem FetchAndSave_pinned_witness:
  "entry_body (snd (FetchAndSave sample_codec ''.cf.lock'' ''xp/a:v1'' sample_fetch torn_world)) ''a-0123456789ab'' = Some (take 4 [CHR ''{'', dquote, CHR ''r'', CHR ''e''])
   \<and> pinned sample_codec ''.cf.lock'' ''xp/a:v1'' ''sha256:9''
       (snd (FetchAndSave sample_codec ''.cf.lock'' ''xp/a:v1'' sample_fetch torn_world))"
proof -
  let ?r = "FetchAndSave sample_codec ''.cf.lock'' ''xp/a:v1'' sample_fetch torn_world"
  have body: "entry_body (snd ?r) ''a-0123456789ab'' = Some (take 4 [CHR ''{'', dquote, CHR ''r'', CHR ''e''])" by code_simp
  have "entry_body torn_world ''a-0123456789ab'' = None" by code_simp
  with body have "w_root (snd ?r) \<noteq> w_root torn_world" by (auto simp: entry_body_def root_entries_def)
  from FetchAndSave_pinned [of sample_codec "''.cf.lock''" "''xp/a:v1''" sample_fetch torn_world "fst ?r" "snd ?r"] this
  show ?thesis using body by (simp add: sample_fetch_def)
qed

text \<open>C27: While no file operation fails and the references in use have distinct directories, the
  cache is a map: after any sequence of \<open>SaveCRDs\<close>, \<open>Delete\<close>, \<open>Load\<close>, \<open>LoadDigest\<close> and \<open>Clear\<close>, a
  reference loads exactly when its last save came after its last delete, with the digest and the
  kinds of that save, whether they come from the memo or from disk.\<close>

theorem cache_history:
  assumes "store_inv C R w" "list_all (event_ok (\<lambda>r. r \<in> R) (encodable C) (\<lambda>_. True)) es" "ref \<in> R"
  shows "(case fst (loadEntry C ref (fold (run_event (run_save C) (run_delete C) (run_quiet C)) es w)) of
      Inl _ \<Rightarrow> None | Inr e \<Rightarrow> Some (view_entry e)) = latest view_value ref es (store_get C w ref)"
  using cache.get_history [OF assms] loadEntry_get [OF cache.inv_history [OF assms(1,2)], of ref] by simp

theorem cache_history_witness:
  "store_inv sample_codec {''xp/a:v1''} sample_world \<and>
   (case fst (loadEntry sample_codec ''xp/a:v1'' (fold (run_event (run_save sample_codec) (run_delete sample_codec) (run_quiet sample_codec))
      [Put ''xp/a:v1'' (''sha256:1'', [sample_crd]), Quiet QClear] sample_world)) of
      Inl _ \<Rightarrow> None | Inr e \<Rightarrow> Some (view_entry e)) = Some (view_value (''sha256:1'', [sample_crd]))"
proof -
  have inv: "store_inv sample_codec {''xp/a:v1''} sample_world"
    by (simp add: store_inv_def sample_world_def root_entries_def)
  from cache_history [OF inv, of "[Put ''xp/a:v1'' (''sha256:1'', [sample_crd]), Quiet QClear]" "''xp/a:v1''"] inv
  show ?thesis by (simp add: sample_encodable)
qed

text \<open>C30: The streaming reader of a cached file, which skips over the schemas without decoding
  them, returns the reference the full decoder returns, for an object that spells each member's
  name once.\<close>

theorem readProviderRef_agrees:
  assumes "c_dec C body = Inr (JObj m)" "c_tokens C body = tokens_of (JObj m)" "distinct (map fst m)"
    and "filter (\<lambda>kv. equal_fold (fst kv) ''ref'' \<and> fst kv \<noteq> ''ref'') m = []"
    and "ebind (c_dec C body) entry_of_json = Inr e" "e_ref e \<noteq> []"
  shows "readProviderRef C body = Inr (e_ref e)"
proof -
  have ref: "member ''ref'' m = (case map_of m ''ref'' of None \<Rightarrow> None | Some v \<Rightarrow> if v = JNull then None else Some v)"
    using assms(3,4) by (rule member_exact) (simp add: json_simps)
  from assms(1,5) have "str_member ''ref'' m = Inr (e_ref e)"
    by (auto simp: entry_of_json_def struct_of_def ebind_def split: sum.splits)
  with ref assms(6) have "map_of m ''ref'' = Some (JStr (e_ref e))"
    by (auto simp: str_member_def split: option.splits if_splits jval.splits)
  with readProviderRef_object [OF assms(2)] show ?thesis by simp
qed

definition sample_body :: string where
  "sample_body = (case c_enc sample_codec (JObj [(''crds'', JList [crd_json sample_crd]), (''ref'', JStr ''xp/a:v1'')]) of
     Inr body \<Rightarrow> body | Inl _ \<Rightarrow> [])"

theorem readProviderRef_agrees_witness:
  "c_tokens sample_codec sample_body = tokens_of (JObj [(''crds'', JList [crd_json sample_crd]), (''ref'', JStr ''xp/a:v1'')]) \<and>
   readProviderRef sample_codec sample_body = Inr ''xp/a:v1''"
proof -
  let ?m = "[(''crds'', JList [crd_json sample_crd]), (''ref'', JStr ''xp/a:v1'')]"
  let ?e = "\<lparr>e_ref = ''xp/a:v1'', e_digest = [], e_crds = [stored_crd sample_crd]\<rparr>"
  have dec: "c_dec sample_codec sample_body = Inr (JObj ?m)" by code_simp
  have tok: "c_tokens sample_codec sample_body = tokens_of (JObj ?m)" by code_simp
  have spell: "filter (\<lambda>kv. equal_fold (fst kv) ''ref'' \<and> fst kv \<noteq> ''ref'') ?m = []" by code_simp
  have bind: "ebind (c_dec sample_codec sample_body) entry_of_json = Inr ?e"
    unfolding dec by (simp add: entry_of_json_def struct_of_def str_member_def list_member_def json_simps crd_roundtrip)
  have "readProviderRef sample_codec sample_body = Inr (e_ref ?e)"
    by (rule readProviderRef_agrees [OF dec tok _ spell bind]) simp_all
  with tok show ?thesis by simp
qed

section \<open>The sources of a document\<close>




end
