(* ===== verification/Manifest.thy ===== *)
theory Manifest
  imports SchemaTree BlueprintTypes Closest GoFloat
begin

text \<open>
  The nested view of a resource's flat field map (\<open>internal/manifest/manifest.go\<close>): \<open>Render\<close> nests
  fields into a YAML tree by the kind's schema, \<open>Parse\<close> walks a YAML tree against the schema and
  flattens it to fields. A \<open>yaml.Node\<close> is a \<open>ynode\<close> with the fields the code reads; an alias holds
  the node it names. The text codec of yaml.v3 is a parameter.
\<close>

section \<open>YAML nodes and errors\<close>

datatype ynode =
    YScalar string string nat                  \<comment> \<open>tag, value, line\<close>
  | YMap "(ynode \<times> ynode) list" bool nat       \<comment> \<open>members, flow style, line\<close>
  | YSeq "ynode list" bool nat
  | YAlias string ynode nat

fun y_line :: "ynode \<Rightarrow> nat" where
  "y_line (YScalar t v l) = l"
| "y_line (YMap ms fl l) = l"
| "y_line (YSeq ys fl l) = l"
| "y_line (YAlias a y l) = l"

fun y_value :: "ynode \<Rightarrow> string" where
  "y_value (YScalar t v l) = v"
| "y_value (YAlias a y l) = a"
| "y_value (YMap ms fl l) = []"
| "y_value (YSeq ys fl l) = []"

fun y_tag :: "ynode \<Rightarrow> string" where
  "y_tag (YScalar t v l) = t"
| "y_tag (YMap ms fl l) = ''!!map''"
| "y_tag (YSeq ys fl l) = ''!!seq''"
| "y_tag (YAlias a y l) = []"

fun is_scalar :: "ynode \<Rightarrow> bool" where
  "is_scalar (YScalar t v l) = True"
| "is_scalar y = False"

record manifest_error =
  me_path :: string
  me_line :: nat
  me_msg :: msg

definition Error_text :: "manifest_error \<Rightarrow> msg" where
  "Error_text e =
     (if 0 < me_line e \<and> me_path e \<noteq> [] then Msg ''line %d: %s: %s'' [Num (me_line e), Str (me_path e), Ctx (me_msg e)]
      else if 0 < me_line e then Msg ''line %d: %s'' [Num (me_line e), Ctx (me_msg e)]
      else if me_path e \<noteq> [] then Msg ''%s: %s'' [Str (me_path e), Ctx (me_msg e)]
      else me_msg e)"

abbreviation fail_at :: "string \<Rightarrow> nat \<Rightarrow> msg \<Rightarrow> manifest_error + 'a" where
  "fail_at p l m \<equiv> Inl \<lparr>me_path = p, me_line = l, me_msg = m\<rparr>"

definition wrapperKeys :: "string list" where
  "wrapperKeys = [''value'', ''from'', ''raw'', ''template'']"

section \<open>Path segments\<close>

datatype seg = Seg (sg_name: string) (sg_bracket: bool)

function (sequential) bracket_segs :: "string \<Rightarrow> (seg list \<times> string) option" where
  \<comment> \<open>the bracketed tokens at the start of a text, and the text after them\<close>
  "bracket_segs (CHR ''['' # s) =
     (if CHR '']'' \<in> set s
      then (case bracket_segs (drop 1 (dropWhile (\<lambda>c. c \<noteq> CHR '']'') s)) of
              None \<Rightarrow> None
            | Some (sgs, r) \<Rightarrow> Some (Seg (takeWhile (\<lambda>c. c \<noteq> CHR '']'') s) True # sgs, r))
      else None)"
| "bracket_segs s = Some ([], s)"
  by pat_completeness auto
termination
  by (relation "measure length") (auto simp: less_Suc_eq_le intro: le_trans [OF diff_le_self length_dropWhile_le])

lemma bracket_segs_length: "bracket_segs s = Some (sgs, r) \<Longrightarrow> length r \<le> length s"
proof (induction s arbitrary: sgs r rule: bracket_segs.induct)
  case (1 s)
  have "length (drop 1 (dropWhile (\<lambda>c. c \<noteq> CHR '']'') s)) \<le> length s"
    using length_dropWhile_le [of "\<lambda>c. c \<noteq> CHR '']''" s] by simp
  with 1 show ?case by (fastforce split: if_splits option.splits)
qed auto

definition plain_char :: "char \<Rightarrow> bool" where
  "plain_char c \<longleftrightarrow> c \<noteq> CHR ''.'' \<and> c \<noteq> CHR ''[''"

lemma bracket_segs_shorter:
  assumes "bracket_segs (dropWhile plain_char (c # s)) = Some (bs, r)"
  shows "if has_prefix r ''.'' then length r \<le> Suc (length s) else length r \<le> length s"
proof (cases "plain_char c")
  case True
  with bracket_segs_length [OF assms] length_dropWhile_le [of plain_char s] show ?thesis by auto
next
  case False
  then consider "c = CHR ''.''" | "c = CHR ''[''" by (auto simp: plain_char_def)
  then show ?thesis
  proof cases
    case 1
    with False assms show ?thesis by (auto simp: has_prefix_def)
  next
    case 2
    with False assms obtain bs' where "bracket_segs (drop 1 (dropWhile (\<lambda>c. c \<noteq> CHR '']'') s)) = Some (bs', r)"
      by (auto split: if_splits option.splits)
    from bracket_segs_length [OF this] length_dropWhile_le [of "\<lambda>c. c \<noteq> CHR '']''" s] show ?thesis by auto
  qed
qed

function segments :: "string \<Rightarrow> seg list option" where
  \<comment> \<open>the loop of \<open>tokenize\<close>\<close>
  "segments [] = Some []"
| "segments (c # s) =
     (let name = takeWhile plain_char (c # s)
      in case bracket_segs (dropWhile plain_char (c # s)) of
           None \<Rightarrow> None
         | Some (bs, rest) \<Rightarrow>
             map_option (\<lambda>more. (if name \<noteq> [] then [Seg name False] else []) @ bs @ more)
               (segments (if has_prefix rest ''.'' then drop 1 rest else rest)))"
  by pat_completeness auto
termination
  by (relation "measure length") (auto simp del: dropWhile.simps dest!: bracket_segs_shorter split: if_splits)

definition tokenize :: "string \<Rightarrow> manifest_error + seg list" where
  "tokenize path =
     (case segments path of
        None \<Rightarrow> fail_at path 0 (Msg ''unterminated [ in field path'' [])
      | Some out \<Rightarrow> if out = [] then fail_at path 0 (Msg ''empty field path'' []) else Inr out)"

definition isIndex :: "string \<Rightarrow> bool" where
  "isIndex s = (if s = [] then False else list_all is_digit s)"

section \<open>Rendering\<close>

datatype rkind = Leaf_kind | Obj_kind | Seq_kind

datatype rnode = RNode (rn_label: string) (rn_path: string) (rn_schema: "node option") (rn_entry: bool) (rn_elem: bool)
  (rn_kind: rkind) (rn_field: "field option") (rn_children: "rnode list") (rn_elems: "(nat \<times> rnode) list")

definition newNode :: "string \<Rightarrow> string \<Rightarrow> node option \<Rightarrow> rnode" where
  "newNode label path sn = RNode label path sn False False Leaf_kind None [] []"

fun set_entry_flag :: "rnode \<Rightarrow> rnode" where
  "set_entry_flag (RNode l p sn en el k f cs es) = RNode l p sn True el k f cs es"

fun set_elem_flag :: "rnode \<Rightarrow> rnode" where
  "set_elem_flag (RNode l p sn en el k f cs es) = RNode l p sn en True k f cs es"

fun set_field :: "field \<Rightarrow> rnode \<Rightarrow> rnode" where
  "set_field g (RNode l p sn en el k f cs es) = RNode l p sn en el k (Some g) cs es"

definition childSchema :: "node list \<Rightarrow> string \<Rightarrow> node option" where
  \<comment> \<open>the first of the children with a name\<close>
  "childSchema cs name = find (\<lambda>c. n_name c = name) cs"

definition isBranch :: "node option \<Rightarrow> bool" where
  "isBranch sn = (case sn of None \<Rightarrow> False | Some n \<Rightarrow> if n_type n = ''map'' then True else n_children n \<noteq> [])"

datatype slot = Elem nat | Key string

definition atoi :: "string \<Rightarrow> nat" where
  \<comment> \<open>\<open>strconv.Atoi\<close> of digits, its range error ignored\<close>
  "atoi s = (case digits_value 0 s of Some n \<Rightarrow> min n (2 ^ 63 - 1) | None \<Rightarrow> 0)"

definition indexes :: "rnode \<Rightarrow> seg \<Rightarrow> bool" where
  \<comment> \<open>whether a bracket is an array index at this node\<close>
  "indexes cur s \<longleftrightarrow> sg_bracket s \<and> isIndex (sg_name s) \<and>
     (case rn_schema cur of None \<Rightarrow> True | Some n \<Rightarrow> n_type n \<noteq> ''map'') \<and> \<not> rn_entry cur"

definition slot_of :: "rnode \<Rightarrow> seg \<Rightarrow> slot" where
  "slot_of cur s =
     (if indexes cur s then Elem (atoi (sg_name s))
      else if sg_bracket s then Key (trim_set (sg_name s) [dquote, CHR 0x27])
      else Key (sg_name s))"

definition fresh :: "node list \<Rightarrow> bool \<Rightarrow> rnode \<Rightarrow> seg \<Rightarrow> rnode" where
  \<comment> \<open>the node a segment creates below another; the flag marks the root\<close>
  "fresh nodes isRoot cur s =
     (let bracketed = rn_path cur @ ''['' @ sg_name s @ '']''
      in if indexes cur s then set_elem_flag (newNode [] bracketed (rn_schema cur))
         else if sg_bracket s then set_entry_flag (newNode (trim_set (sg_name s) [dquote, CHR 0x27]) bracketed None)
         else newNode (sg_name s)
           (if rn_path cur \<noteq> [] then rn_path cur @ ''.'' @ sg_name s else sg_name s)
           (if isRoot then childSchema nodes (sg_name s)
            else case rn_schema cur of
                   Some n \<Rightarrow> if \<not> rn_entry cur then childSchema (n_children n) (sg_name s) else None
                 | None \<Rightarrow> None))"

definition look :: "slot \<Rightarrow> rnode \<Rightarrow> rnode option" where
  "look sl cur = (case sl of Elem i \<Rightarrow> map_of (rn_elems cur) i | Key k \<Rightarrow> find (\<lambda>c. rn_label c = k) (rn_children cur))"

fun put_child :: "rnode \<Rightarrow> rnode list \<Rightarrow> rnode list" where
  "put_child n [] = [n]"
| "put_child n (c # cs) = (if rn_label c = rn_label n then n # cs else c # put_child n cs)"

fun attach :: "slot \<Rightarrow> rnode \<Rightarrow> rnode \<Rightarrow> rnode" where
  \<comment> \<open>a node put back below its parent; the parent's kind changes when the node is new\<close>
  "attach (Elem i) n (RNode l p sn en el k f cs es) =
     RNode l p sn en el (if map_of es i = None then Seq_kind else k) f cs (AList.update i n es)"
| "attach (Key key) n (RNode l p sn en el k f cs es) =
     RNode l p sn en el (if find (\<lambda>c. rn_label c = key) cs = None then Obj_kind else k) f (put_child n cs) es"

fun insert_field :: "node list \<Rightarrow> bool \<Rightarrow> string \<Rightarrow> field \<Rightarrow> seg list \<Rightarrow> rnode \<Rightarrow> manifest_error + rnode" where
  \<comment> \<open>the walk of one path's segments from a node\<close>
  "insert_field nodes isRoot p f [] cur = Inr cur"
| "insert_field nodes isRoot p f (s # ss) cur =
     (let sl = slot_of cur s;
          next = (case look sl cur of Some n \<Rightarrow> n | None \<Rightarrow> fresh nodes isRoot cur s)
      in if ss = [] then
           (if rn_kind next \<noteq> Leaf_kind
            then fail_at p 0 (Msg ''sets a whole value that other fields set members of'' [])
            else if rn_field next \<noteq> None
            then fail_at p 0 (Msg ''is set twice (also as %q)'' [Str (rn_path next)])
            else Inr (attach sl (set_field f next) cur))
         else if rn_field next \<noteq> None
         then fail_at p 0 (Msg ''conflicts with %q which sets the whole value'' [Str (rn_path next)])
         else (case insert_field nodes False p f ss next of
                 Inl e \<Rightarrow> Inl e
               | Inr next \<Rightarrow> Inr (attach sl next cur)))"

fun insert_all :: "node list \<Rightarrow> field gomap \<Rightarrow> string list \<Rightarrow> rnode \<Rightarrow> manifest_error + rnode" where
  "insert_all nodes fs [] tree = Inr tree"
| "insert_all nodes fs (p # ps) tree =
     (case tokenize p of
        Inl e \<Rightarrow> Inl e
      | Inr sgs \<Rightarrow>
          (case map_of fs p of
             None \<Rightarrow> insert_all nodes fs ps tree
           | Some f \<Rightarrow>
               (case insert_field nodes True p f sgs tree of
                  Inl e \<Rightarrow> Inl e
                | Inr tree \<Rightarrow> insert_all nodes fs ps tree)))"

definition strScalar :: "string \<Rightarrow> ynode" where
  "strScalar v = YScalar ''!!str'' v 0"

definition flowMap :: "string \<Rightarrow> ynode \<Rightarrow> ynode" where
  "flowMap key val = YMap [(strScalar key, val)] True 0"

definition typedScalar :: "string \<Rightarrow> node option \<Rightarrow> ynode" where
  "typedScalar v sn =
     (let typ = (case sn of None \<Rightarrow> []
                 | Some n \<Rightarrow> if n_format n = ''int-or-string'' \<and> parse_int64 v \<noteq> None then ''integer'' else n_type n)
      in if typ = ''integer'' \<and> parse_int64 v \<noteq> None then YScalar ''!!int'' v 0
         else if typ = ''number'' \<and> finite_float v then YScalar ''!!float'' v 0
         else if typ = ''boolean'' \<and> (v = ''true'' \<or> v = ''false'') then YScalar ''!!bool'' v 0
         else YScalar ''!!str'' v 0)"

definition leafYAML :: "bool \<Rightarrow> bool \<Rightarrow> node option \<Rightarrow> field \<Rightarrow> ynode" where
  "leafYAML entry elem sn f =
     (if f_from f \<noteq> [] then flowMap ''from'' (strScalar (f_from f))
      else if f_raw f \<noteq> [] then flowMap ''raw'' (strScalar (f_raw f))
      else if f_template f \<noteq> [] then flowMap ''template'' (strScalar (f_template f))
      else if entry then typedScalar (f_value f) None
      else if elem \<or> isBranch sn then flowMap ''value'' (strScalar (f_value f))
      else if (case sn of None \<Rightarrow> False | Some n \<Rightarrow> n_type n = ''array'')
      then YSeq (map (\<lambda>it. strScalar (trim_space it)) (split_on CHR '','' (f_value f))) True 0
      else typedScalar (f_value f) sn)"

fun with_gaps :: "nat \<Rightarrow> (nat \<times> ynode) list \<Rightarrow> ynode list" where
  "with_gaps n [] = []"
| "with_gaps n ((i, y) # r) = replicate (i - n) (YMap [] True 0) @ y # with_gaps (Suc i) r"

definition guard_entry :: "bool \<Rightarrow> field option \<Rightarrow> ynode \<Rightarrow> ynode" where
  \<comment> \<open>an entry of a mapping whose keys are all named like wrapper keys\<close>
  "guard_entry allWrapperKeys f v =
     (if \<not> allWrapperKeys then v
      else case v of
          YScalar _ _ _ \<Rightarrow> flowMap ''value'' v
        | YSeq _ _ _ \<Rightarrow> (case f of Some g \<Rightarrow> flowMap ''value'' (strScalar (f_value g)) | None \<Rightarrow> v)
        | _ \<Rightarrow> v)"

lemma size_elems: "x \<in> set es \<Longrightarrow> size (snd x) < Suc (m + size_list (size_prod (\<lambda>_. 0) size) es)"
  using size_list_estimation' [of x es "size (snd x)" "size_prod (\<lambda>_. 0) size"] by (cases x) simp

lemma size_child: "x \<in> set cs \<Longrightarrow> size x < Suc (size_list size cs + m)"
  using size_list_estimation' [of x cs "size x" size] by simp

function toYAML :: "bool \<Rightarrow> rnode \<Rightarrow> ynode" where
  "toYAML isRoot (RNode l p sn en el k fld cs es) =
     (case fld of
        Some f \<Rightarrow> leafYAML en el sn f
      | None \<Rightarrow>
          if k = Seq_kind then YSeq (with_gaps 0 (sort_key fst (map (\<lambda>(i, n). (i, toYAML False n)) es))) False 0
          else (let allWrapperKeys = (\<not> isRoot \<and> cs \<noteq> [] \<and> list_all (\<lambda>c. rn_label c \<in> set wrapperKeys) cs)
                in YMap (map (\<lambda>c. (strScalar (rn_label c), guard_entry allWrapperKeys (rn_field c) (toYAML False c))) cs) (cs = []) 0))"
  by pat_completeness auto
termination
  by (relation "measure (\<lambda>(_, n). size n)") (auto simp: size_child dest: size_elems)

text \<open>What \<open>Render\<close> encodes, and its text by the encoder of yaml.v3.\<close>

definition render_tree :: "node list \<Rightarrow> field gomap \<Rightarrow> manifest_error + ynode" where
  "render_tree nodes fs =
     (case insert_all nodes fs (sorted_keys fs) (newNode [] [] None) of
        Inl e \<Rightarrow> Inl e
      | Inr t \<Rightarrow> Inr (toYAML True t))"

definition Render :: "(ynode \<Rightarrow> msg + string) \<Rightarrow> node list \<Rightarrow> field gomap \<Rightarrow> (msg + manifest_error) + string" where
  "Render encode nodes fs =
     (case render_tree nodes fs of
        Inl e \<Rightarrow> Inl (Inr e)
      | Inr y \<Rightarrow> (case encode y of Inl e \<Rightarrow> Inl (Inl e) | Inr text \<Rightarrow> Inr text))"

section \<open>Parsing\<close>

fun deref :: "ynode \<Rightarrow> ynode" where
  "deref (YAlias a y l) = deref y"
| "deref y = y"

lemma size_deref: "size (deref y) \<le> size y"
  by (induction y rule: deref.induct) simp_all

definition isMergeKey :: "ynode \<Rightarrow> bool" where
  "isMergeKey k \<longleftrightarrow> y_tag k = ''!!merge'' \<or> y_value k = ''<<''"

definition isNull :: "ynode \<Rightarrow> bool" where
  "isNull y \<longleftrightarrow> is_scalar y \<and> y_tag y = ''!!null''"

definition wrapperMsg :: msg where
  "wrapperMsg = Msg ''a wrapper takes exactly one of value, from, raw, template with a scalar value'' []"

definition wrapped :: "string \<Rightarrow> string \<Rightarrow> field" where
  "wrapped k v =
     (if k = ''value'' then \<lparr>f_from = [], f_value = v, f_raw = [], f_template = []\<rparr>
      else if k = ''from'' then \<lparr>f_from = v, f_value = [], f_raw = [], f_template = []\<rparr>
      else if k = ''raw'' then \<lparr>f_from = [], f_value = [], f_raw = v, f_template = []\<rparr>
      else \<lparr>f_from = [], f_value = [], f_raw = [], f_template = v\<rparr>)"

definition wrapper :: "ynode \<Rightarrow> (string \<Rightarrow> bool) \<Rightarrow> (nat \<times> msg) + field option" where
  "wrapper n mem =
     (case n of
        YMap ms _ l \<Rightarrow>
          if ms = [] \<or> list_ex (\<lambda>(k, _). y_value k \<notin> set wrapperKeys) ms then Inr None
          else if length ms > 1 then
            (if list_all (\<lambda>(k, _). mem (y_value k)) ms then Inr None else Inl (l, wrapperMsg))
          else
            (case hd ms of (k, v) \<Rightarrow>
               let v = deref v
               in if isNull v then Inl (y_line v, Msg ''{%s: ...} needs a scalar; leave the field out to unset it'' [Str (y_value k)])
                  else if \<not> is_scalar v then
                    (if mem (y_value k) then Inr None else Inl (y_line v, wrapperMsg))
                  else Inr (Some (wrapped (y_value k) (y_value v))))
      | _ \<Rightarrow> Inr None)"

definition noMember :: "string \<Rightarrow> bool" where
  "noMember k = False"

definition memberOf :: "node \<Rightarrow> string \<Rightarrow> bool" where
  "memberOf sn k =
     (if n_type sn = ''map'' then True
      else if n_type sn = ''array'' \<or> n_children sn = [] then noMember k
      else childSchema (n_children sn) k \<noteq> None)"

definition join_path :: "string \<Rightarrow> string \<Rightarrow> string" where
  "join_path pre name = (if pre = [] then name else pre @ ''.'' @ name)"

definition check_literal :: "ynode \<Rightarrow> node \<Rightarrow> string \<Rightarrow> (manifest_error + unit)" where
  "check_literal v sn path =
     (if n_type sn = ''integer'' then
        (if parse_int64 (y_value v) = None then fail_at path (y_line v) (Msg ''%q is not a valid integer'' [Str (y_value v)]) else Inr ())
      else if n_type sn = ''number'' then
        (if \<not> finite_float (y_value v) then fail_at path (y_line v) (Msg ''%q is not a valid number'' [Str (y_value v)]) else Inr ())
      else if n_type sn = ''boolean'' then
        (if to_lower (y_value v) \<notin> {''true'', ''false''}
         then fail_at path (y_line v) (Msg ''%q is not a valid boolean (use true or false)'' [Str (y_value v)]) else Inr ())
      else Inr ())"

definition forProviderHint :: msg where
  "forProviderHint = Msg ''paste only the spec.forProvider body %s apiVersion, kind and metadata are generated''
     [Str [CHR 0xE2, CHR 0x80, CHR 0x94]]"

definition unknownFieldMsg :: "string \<Rightarrow> bool \<Rightarrow> bool \<Rightarrow> node list \<Rightarrow> msg" where
  "unknownFieldMsg key isTop objectRooted siblings =
     (let near = (let best = ClosestPath key (map n_name siblings)
                  in if best \<noteq> [] then Msg ''unknown field; did you mean %q?'' [Str best] else Msg ''unknown field'' [])
      in if isTop \<and> key \<in> {''apiVersion'', ''kind''} then
           (if objectRooted then Msg ''omit apiVersion and kind; the generator emits them'' [] else forProviderHint)
         else if isTop \<and> key = ''status'' then
           (if objectRooted then Msg ''omit status; the server owns it'' [] else forProviderHint)
         else if isTop \<and> key \<in> {''metadata'', ''spec''} \<and> \<not> objectRooted then forProviderHint
         else near)"

definition value_field :: "string \<Rightarrow> field" where
  "value_field v = wrapped ''value'' v"

fun list_parts :: "string \<Rightarrow> ynode list \<Rightarrow> manifest_error + string list" where
  \<comment> \<open>the scalars of a list\<close>
  "list_parts path [] = Inr []"
| "list_parts path (item # items) =
     (let item = deref item
      in if \<not> is_scalar item \<or> isNull item \<or> contains (y_value item) '','' \<or> trim_space (y_value item) = []
         then fail_at path (y_line item) (Msg ''list entries must be non-empty scalars without commas; use {raw: %q} otherwise'' [Str ''[...]''])
         else (case list_parts path items of Inl e \<Rightarrow> Inl e | Inr parts \<Rightarrow> Inr (y_value item # parts)))"

fun walkMap :: "(ynode \<times> ynode) list \<Rightarrow> string list \<Rightarrow> string \<Rightarrow> field gomap \<Rightarrow> manifest_error + field gomap" where
  "walkMap [] seen path out = Inr out"
| "walkMap ((k, ev) # ms) seen path out =
     (let ev = deref ev; ep = path @ ''['' @ y_value k @ '']''; seen' = y_value k # seen
      in if isMergeKey k then fail_at ep (y_line k) (Msg ''YAML merge keys (<<) are not supported here'' [])
         else if y_value k \<in> set seen then fail_at ep (y_line k) (Msg ''duplicate key'' [])
         else if isNull ev then walkMap ms seen' path out
         else if is_scalar ev then walkMap ms seen' path (AList.update ep (value_field (y_value ev)) out)
         else (case wrapper ev noMember of
                 Inl (l, m) \<Rightarrow> fail_at ep l m
               | Inr (Some f) \<Rightarrow> walkMap ms seen' path (AList.update ep f out)
               | Inr None \<Rightarrow> fail_at ep (y_line ev) (Msg ''a map entry must be a scalar or a {value|from|raw|template} wrapper'' [])))"

definition pairs_size :: "(ynode \<times> ynode) list \<Rightarrow> nat" where
  "pairs_size ms = size_list (size_prod size size) ms"

fun members_of :: "ynode \<Rightarrow> (ynode \<times> ynode) list option" where
  "members_of (YMap ms fl l) = Some ms"
| "members_of y = None"

fun items_of :: "ynode \<Rightarrow> ynode list option" where
  "items_of (YSeq ys fl l) = Some ys"
| "items_of y = None"

lemma size_members: "members_of (deref y) = Some ms \<Longrightarrow> pairs_size ms < size y"
  using size_deref [of y] by (cases "deref y") (auto simp: pairs_size_def)

lemma size_items: "items_of (deref y) = Some ys \<Longrightarrow> size_list size ys < size y"
  using size_deref [of y] by (cases "deref y") auto

function walkObject :: "bool \<Rightarrow> (ynode \<times> ynode) list \<Rightarrow> string list \<Rightarrow> node list \<Rightarrow> string \<Rightarrow> field gomap \<Rightarrow> manifest_error + field gomap"
  and walkValue :: "bool \<Rightarrow> ynode \<Rightarrow> node \<Rightarrow> string \<Rightarrow> field gomap \<Rightarrow> manifest_error + field gomap"
  and walkElems :: "bool \<Rightarrow> ynode list \<Rightarrow> nat \<Rightarrow> node \<Rightarrow> string \<Rightarrow> field gomap \<Rightarrow> manifest_error + field gomap" where
  "walkObject rooted [] seen children pre out = Inr out"
| "walkObject rooted ((k, v) # ms) seen children pre out =
     (let path = join_path pre (y_value k)
      in if isMergeKey k then fail_at path (y_line k) (Msg ''YAML merge keys (<<) are not supported here'' [])
         else if y_value k \<in> set seen then fail_at path (y_line k) (Msg ''duplicate key'' [])
         else (case childSchema children (y_value k) of
                 None \<Rightarrow> fail_at path (y_line k) (unknownFieldMsg (y_value k) (pre = []) rooted children)
               | Some sn \<Rightarrow>
                   (case walkValue rooted v sn path out of
                      Inl e \<Rightarrow> Inl e
                    | Inr out \<Rightarrow> walkObject rooted ms (y_value k # seen) children pre out)))"
| "walkValue rooted v0 sn path out =
     (let v = deref v0
      in if isNull v then Inr out
         else (case wrapper v (memberOf sn) of
                 Inl (l, m) \<Rightarrow> fail_at path l m
               | Inr (Some f) \<Rightarrow> Inr (AList.update path f out)
               | Inr None \<Rightarrow>
                   if n_type sn = ''map'' then
                     (case members_of v of
                        None \<Rightarrow> fail_at path (y_line v) (Msg ''expected a mapping of keys; to set the whole map verbatim use {raw: %q}'' [Str ''...''])
                      | Some ms \<Rightarrow> walkMap ms [] path out)
                   else if n_type sn = ''array'' \<and> n_children sn \<noteq> [] then
                     (case items_of v of
                        None \<Rightarrow> fail_at path (y_line v) (Msg ''expected a list; to set the whole list verbatim use {raw: %q}'' [Str ''...''])
                      | Some ys \<Rightarrow> walkElems rooted ys 0 sn path out)
                   else if n_type sn = ''array'' then
                     (case items_of v of
                        Some ys \<Rightarrow>
                          (case list_parts path ys of
                             Inl e \<Rightarrow> Inl e
                           | Inr parts \<Rightarrow>
                               if parts = [] then fail_at path (y_line v) (Msg ''an empty list sets nothing; leave the field out to unset it'' [])
                               else Inr (AList.update path (value_field (go_join '','' parts)) out))
                      | None \<Rightarrow>
                          if is_scalar v then Inr (AList.update path (value_field (y_value v)) out)
                          else fail_at path (y_line v) (Msg ''expected a list of scalars'' []))
                   else if n_children sn \<noteq> [] then
                     (case members_of v of
                        None \<Rightarrow> fail_at path (y_line v) (Msg ''expected a mapping; to set the whole object verbatim use {raw: %q}'' [Str ''...''])
                      | Some ms \<Rightarrow> walkObject rooted ms [] (n_children sn) path out)
                   else if \<not> is_scalar v then
                     fail_at path (y_line v) (if n_type sn = ''object''
                       then Msg ''expected a scalar or a {value|from|raw|template} wrapper; to set the whole object verbatim use {raw: %q}'' [Str ''...'']
                       else Msg ''expected a scalar or a {value|from|raw|template} wrapper'' [])
                   else (case check_literal v sn path of
                           Inl e \<Rightarrow> Inl e
                         | Inr _ \<Rightarrow> Inr (AList.update path (value_field (y_value v)) out))))"
| "walkElems rooted [] i sn path out = Inr out"
| "walkElems rooted (item0 # items) i sn path out =
     (let item = deref item0; ep = path @ ''['' @ itoa i @ '']''
      in if isNull item then walkElems rooted items (i + 1) sn path out
         else (case wrapper item (\<lambda>k. childSchema (n_children sn) k \<noteq> None) of
                 Inl (l, m) \<Rightarrow> fail_at ep l m
               | Inr (Some f) \<Rightarrow> walkElems rooted items (i + 1) sn path (AList.update ep f out)
               | Inr None \<Rightarrow>
                   (case members_of item of
                      None \<Rightarrow> fail_at ep (y_line item) (Msg ''expected a mapping for a list element; to set it verbatim use {raw: %q}'' [Str ''...''])
                    | Some ms \<Rightarrow>
                        (case walkObject rooted ms [] (n_children sn) ep out of
                           Inl e \<Rightarrow> Inl e
                         | Inr out \<Rightarrow> walkElems rooted items (i + 1) sn path out))))"
  by pat_completeness auto
termination
  by (relation "measure (\<lambda>x. case x of
       Inl (_, ms, _) \<Rightarrow> pairs_size ms
     | Inr (Inl (_, v, _)) \<Rightarrow> size v
     | Inr (Inr (_, ys, _)) \<Rightarrow> size_list size ys)")
    (auto simp: pairs_size_def dest!: size_members size_items)

declare walkValue.simps [simp del]

record ydoc =
  yd_line :: nat               \<comment> \<open>the line of the document, or of its content\<close>
  yd_body :: "ynode option"    \<comment> \<open>None for a document without content\<close>

definition yamlErrLine :: "string \<Rightarrow> nat" where
  \<comment> \<open>\<open>Sscanf\<close> with \<open>yaml: line %d:\<close>\<close>
  "yamlErrLine err =
     (case cut_prefix err ''yaml: line '' of
        None \<Rightarrow> 0
      | Some s \<Rightarrow>
          (let ds = takeWhile is_digit s
           in if ds \<noteq> [] \<and> has_prefix (drop (length ds) s) '':'' then atoi ds else 0))"

definition syntaxError :: "string \<Rightarrow> manifest_error" where
  "syntaxError err =
     (let line = yamlErrLine err;
          text = trim_prefix err ''yaml: '';
          text = (if 0 < line then trim_prefix text (''line '' @ itoa line @ '': '') else text)
      in \<lparr>me_path = [], me_line = line, me_msg = Msg text []\<rparr>)"

definition ParseWith :: "(string \<Rightarrow> (string + ydoc) list) \<Rightarrow> node list \<Rightarrow> string \<Rightarrow> bool \<Rightarrow> manifest_error + field gomap" where
  \<comment> \<open>\<open>decode\<close> gives the results of successive \<open>Decode\<close> calls, up to the end of the text\<close>
  "ParseWith decode nodes text objectRooted =
     (case decode text of
        [] \<Rightarrow> Inr []
      | Inl err # _ \<Rightarrow> Inl (syntaxError err)
      | Inr doc # rest \<Rightarrow>
          (case rest of
             Inr second # _ \<Rightarrow> fail_at [] (yd_line second) (Msg ''a manifest is one YAML document; remove the --- and what follows it'' [])
           | Inl err # _ \<Rightarrow> Inl (syntaxError err)
           | [] \<Rightarrow>
               (case yd_body doc of
                  None \<Rightarrow> Inr []
                | Some content \<Rightarrow>
                    (let body = deref content
                     in if isNull body then Inr []
                        else (case members_of body of
                                None \<Rightarrow> fail_at [] (y_line body) (Msg ''manifest must be a mapping'' [])
                              | Some ms \<Rightarrow> walkObject objectRooted ms [] nodes [] [])))))"

definition Parse :: "(string \<Rightarrow> (string + ydoc) list) \<Rightarrow> node list \<Rightarrow> string \<Rightarrow> manifest_error + field gomap" where
  "Parse decode nodes text = ParseWith decode nodes text (childSchema nodes ''metadata'' \<noteq> None)"

end
