(* ===== verification/Manifest_Props.thy ===== *)
theory Manifest_Props
  imports Manifest
begin

text \<open>
  Parsing what was rendered gives back the fields. A position of the schema is a \<open>place\<close>; the
  trees \<open>Render\<close> builds hold a field, or members that fit, at every place (\<open>fits\<close>); inserting a
  path keeps that and adds one field, and walking the YAML of such a tree gives its fields.
\<close>

section \<open>Positions\<close>

datatype place = Top "node list" | At node | Entry | Item node

definition members_at :: "place \<Rightarrow> node list option" where
  \<comment> \<open>the declared members of a place that holds an object\<close>
  "members_at pl =
     (case pl of
        Top nodes \<Rightarrow> Some nodes
      | At sn \<Rightarrow> if n_type sn \<noteq> ''map'' \<and> n_type sn \<noteq> ''array'' \<and> n_children sn \<noteq> [] then Some (n_children sn) else None
      | Item sn \<Rightarrow> Some (n_children sn)
      | Entry \<Rightarrow> None)"

definition list_place :: "node \<Rightarrow> bool" where
  "list_place sn \<longleftrightarrow> n_type sn = ''array'' \<and> n_children sn \<noteq> []"

definition go :: "place \<Rightarrow> seg \<Rightarrow> place option" where
  \<comment> \<open>the place one segment leads to, for segments in their canonical spelling\<close>
  "go pl s =
     (case pl of
        At sn \<Rightarrow>
          if n_type sn = ''map'' then
            (if sg_bracket s \<and> trim_set (sg_name s) [dquote, CHR 0x27] = sg_name s \<and> sg_name s \<noteq> ''<<'' then Some Entry else None)
          else if list_place sn then
            (if sg_bracket s \<and> isIndex (sg_name s) \<and> itoa (atoi (sg_name s)) = sg_name s then Some (Item sn) else None)
          else if sg_bracket s \<or> sg_name s = ''<<'' then None
          else (case members_at pl of None \<Rightarrow> None | Some cs \<Rightarrow> map_option At (childSchema cs (sg_name s)))
      | _ \<Rightarrow>
          if sg_bracket s \<or> sg_name s = ''<<'' then None
          else (case members_at pl of None \<Rightarrow> None | Some cs \<Rightarrow> map_option At (childSchema cs (sg_name s))))"

fun reach :: "place \<Rightarrow> seg list \<Rightarrow> place option" where
  "reach pl [] = Some pl"
| "reach pl (s # ss) = (case go pl s of None \<Rightarrow> None | Some q \<Rightarrow> reach q ss)"

definition below :: "string \<Rightarrow> seg \<Rightarrow> string" where
  "below pre s = (if sg_bracket s then pre @ ''['' @ sg_name s @ '']'' else join_path pre (sg_name s))"

definition seg_path :: "string \<Rightarrow> seg list \<Rightarrow> string" where
  "seg_path = foldl below"

definition literal_fits :: "place \<Rightarrow> string \<Rightarrow> bool" where
  \<comment> \<open>a literal its position can hold\<close>
  "literal_fits pl v =
     (case pl of
        At sn \<Rightarrow>
          if n_type sn = ''map'' \<or> n_children sn \<noteq> [] then True
          else if n_type sn = ''array'' then list_all (\<lambda>it. it \<noteq> [] \<and> trim_space it = it) (split_on CHR '','' v)
          else check_literal (strScalar v) sn [] = Inr ()
      | Top _ \<Rightarrow> False
      | _ \<Rightarrow> True)"

definition field_fits :: "place \<Rightarrow> field \<Rightarrow> bool" where
  \<comment> \<open>one wrapper or one literal\<close>
  "field_fits pl f \<longleftrightarrow>
     (f = wrapped ''from'' (f_from f) \<and> f_from f \<noteq> []) \<or> (f = wrapped ''raw'' (f_raw f) \<and> f_raw f \<noteq> []) \<or>
     (f = wrapped ''template'' (f_template f) \<and> f_template f \<noteq> []) \<or> (f = value_field (f_value f) \<and> literal_fits pl (f_value f))"

definition settable :: "node list \<Rightarrow> string \<Rightarrow> field \<Rightarrow> bool" where
  "settable nodes p f =
     (case tokenize p of
        Inl _ \<Rightarrow> False
      | Inr sgs \<Rightarrow>
          (case reach (Top nodes) sgs of
             None \<Rightarrow> False
           | Some pl \<Rightarrow> seg_path [] sgs = p \<and> field_fits pl f))"

section \<open>Trees that fit\<close>

definition placed :: "place \<Rightarrow> rnode \<Rightarrow> bool" where
  "placed pl n =
     (case pl of
        Top _ \<Rightarrow> rn_schema n = None \<and> \<not> rn_entry n \<and> \<not> rn_elem n \<and> rn_path n = []
      | At sn \<Rightarrow> rn_schema n = Some sn \<and> \<not> rn_entry n \<and> \<not> rn_elem n
      | Entry \<Rightarrow> rn_schema n = None \<and> rn_entry n \<and> \<not> rn_elem n
      | Item sn \<Rightarrow> rn_schema n = Some sn \<and> \<not> rn_entry n \<and> rn_elem n)"

definition blank :: "rnode \<Rightarrow> bool" where
  "blank n \<longleftrightarrow> rn_field n = None \<and> rn_kind n = Leaf_kind \<and> rn_children n = [] \<and> rn_elems n = []"

definition elem_path :: "string \<Rightarrow> nat \<Rightarrow> string" where
  "elem_path pre i = pre @ ''['' @ itoa i @ '']''"

definition entry_path :: "string \<Rightarrow> string \<Rightarrow> string" where
  "entry_path pre key = pre @ ''['' @ key @ '']''"

inductive fits :: "place \<Rightarrow> rnode \<Rightarrow> bool" where
  leaf: "placed pl n \<Longrightarrow> rn_field n = Some f \<Longrightarrow> rn_kind n = Leaf_kind \<Longrightarrow> rn_children n = [] \<Longrightarrow> rn_elems n = [] \<Longrightarrow>
    field_fits pl f \<Longrightarrow> \<not> (\<exists>nodes. pl = Top nodes) \<Longrightarrow> fits pl n"
| obj: "placed pl n \<Longrightarrow> rn_field n = None \<Longrightarrow> rn_kind n = Obj_kind \<Longrightarrow> rn_elems n = [] \<Longrightarrow> rn_children n \<noteq> [] \<Longrightarrow>
    members_at pl = Some ms \<Longrightarrow> distinct (map rn_label (rn_children n)) \<Longrightarrow>
    (\<And>c. c \<in> set (rn_children n) \<Longrightarrow> rn_label c \<noteq> ''<<'' \<and> rn_path c = join_path (rn_path n) (rn_label c) \<and>
       (\<exists>sn. childSchema ms (rn_label c) = Some sn \<and> fits (At sn) c)) \<Longrightarrow> fits pl n"
| entries: "placed (At sn) n \<Longrightarrow> rn_field n = None \<Longrightarrow> rn_kind n = Obj_kind \<Longrightarrow> rn_elems n = [] \<Longrightarrow> rn_children n \<noteq> [] \<Longrightarrow>
    n_type sn = ''map'' \<Longrightarrow> distinct (map rn_label (rn_children n)) \<Longrightarrow>
    (\<And>c. c \<in> set (rn_children n) \<Longrightarrow> rn_label c \<noteq> ''<<'' \<and> rn_path c = entry_path (rn_path n) (rn_label c) \<and> fits Entry c) \<Longrightarrow>
    fits (At sn) n"
| items: "placed (At sn) n \<Longrightarrow> rn_field n = None \<Longrightarrow> rn_kind n = Seq_kind \<Longrightarrow> rn_children n = [] \<Longrightarrow> rn_elems n \<noteq> [] \<Longrightarrow> list_place sn \<Longrightarrow>
    n_type sn \<noteq> ''map'' \<Longrightarrow> distinct (map fst (rn_elems n)) \<Longrightarrow>
    (\<And>i c. (i, c) \<in> set (rn_elems n) \<Longrightarrow> rn_path c = elem_path (rn_path n) i \<and> fits (Item sn) c) \<Longrightarrow> fits (At sn) n"

inductive_cases fits_cases: "fits pl n"

function flat :: "rnode \<Rightarrow> (string \<times> field) list" where
  \<comment> \<open>the fields of a tree, in the order they are written\<close>
  "flat (RNode l p sn en el k fld cs es) =
     (case fld of
        Some f \<Rightarrow> [(p, f)]
      | None \<Rightarrow> if k = Seq_kind then concat (map (\<lambda>x. flat (snd x)) (sort_key fst es)) else concat (map flat cs))"
  by pat_completeness auto
termination
  by (relation "measure size") (auto simp: size_child dest: size_elems)

lemma flat_eq:
  "flat n =
     (case rn_field n of
        Some f \<Rightarrow> [(rn_path n, f)]
      | None \<Rightarrow> if rn_kind n = Seq_kind then concat (map (\<lambda>x. flat (snd x)) (sort_key fst (rn_elems n)))
                else concat (map flat (rn_children n)))"
  by (cases n) (simp cong: option.case_cong)

lemma toYAML_eq:
  "toYAML isRoot n =
     (case rn_field n of
        Some f \<Rightarrow> leafYAML (rn_entry n) (rn_elem n) (rn_schema n) f
      | None \<Rightarrow>
          if rn_kind n = Seq_kind then YSeq (with_gaps 0 (map (\<lambda>x. (fst x, toYAML False (snd x))) (sort_key fst (rn_elems n)))) False 0
          else (let allWrapperKeys = (\<not> isRoot \<and> rn_children n \<noteq> [] \<and> list_all (\<lambda>c. rn_label c \<in> set wrapperKeys) (rn_children n))
                in YMap (map (\<lambda>c. (strScalar (rn_label c), guard_entry allWrapperKeys (rn_field c) (toYAML False c))) (rn_children n))
                     (rn_children n = []) 0))"
proof -
  have "(\<lambda>(i :: nat, n). (i, toYAML False n)) = (\<lambda>x. (fst x, toYAML False (snd x)))" by (simp add: fun_eq_iff)
  then show ?thesis by (cases n) (simp add: map_sort_key_any [where k = fst] split: option.split)
qed

declare flat.simps [simp del] toYAML.simps [simp del]

section \<open>Walking what was rendered\<close>

definition puts :: "(string \<times> 'a) list \<Rightarrow> 'a gomap \<Rightarrow> 'a gomap" where
  "puts fs out = fold (\<lambda>(p, f). AList.update p f) fs out"

lemma puts_simps [simp]: "puts [] out = out" "puts ((p, f) # fs) out = puts fs (AList.update p f out)"
  "puts (fs @ gs) out = puts gs (puts fs out)"
  by (simp_all add: puts_def)

lemma strScalar_simps [simp]:
  "y_value (strScalar v) = v" "is_scalar (strScalar v)" "\<not> isNull (strScalar v)" "deref (strScalar v) = strScalar v"
  "isMergeKey (strScalar v) \<longleftrightarrow> v = ''<<''" "members_of (strScalar v) = None" "items_of (strScalar v) = None"
  by (simp_all add: strScalar_def isNull_def isMergeKey_def)

lemma flowMap_simps [simp]:
  "\<not> isNull (flowMap k v)" "\<not> is_scalar (flowMap k v)" "deref (flowMap k v) = flowMap k v"
  by (simp_all add: flowMap_def isNull_def)

lemma wrapper_flowMap:
  "k \<in> set wrapperKeys \<Longrightarrow> is_scalar v \<Longrightarrow> \<not> isNull v \<Longrightarrow> wrapper (flowMap k v) mem = Inr (Some (wrapped k (y_value v)))"
  by (cases v) (auto simp: wrapper_def flowMap_def)

lemma wrapper_scalar [simp]: "is_scalar v \<Longrightarrow> wrapper v mem = Inr None"
  by (cases v) (simp_all add: wrapper_def)

lemma typedScalar_simps [simp]:
  "is_scalar (typedScalar v sn)" "y_value (typedScalar v sn) = v" "\<not> isNull (typedScalar v sn)"
  "deref (typedScalar v sn) = typedScalar v sn"
  "members_of (typedScalar v sn) = None" "items_of (typedScalar v sn) = None"
  by (simp_all add: typedScalar_def isNull_def Let_def)

lemma guard_simps [simp]:
  "guard_entry aw f (flowMap k v) = flowMap k v"
  "guard_entry False f v = v"
  "is_scalar v \<Longrightarrow> guard_entry True f v = flowMap ''value'' v"
  by (auto simp: guard_entry_def flowMap_def) (cases v; simp add: flowMap_def)

lemma contains_char: "contains s [c] \<longleftrightarrow> c \<in> set s"
  by (auto simp: contains_iff in_set_conv_decomp)

lemma wrapper_keys [simp]: "set wrapperKeys = {''value'', ''from'', ''raw'', ''template''}"
  by (simp add: wrapperKeys_def)

lemmas wrapper_value = wrapper_flowMap [where k = "''value''", folded value_field_def]

text \<open>A leaf is written so that its place reads it back.\<close>

lemma leaf_wrapper:
  assumes "f = wrapped k v" "k \<in> {''from'', ''raw'', ''template''}" "v \<noteq> []"
  shows "leafYAML en el sn f = flowMap k (strScalar v)"
  using assms by (auto simp: leafYAML_def wrapped_def)

lemma value_field_simps [simp]:
  "f_from (value_field v) = []" "f_raw (value_field v) = []" "f_template (value_field v) = []" "f_value (value_field v) = v"
  by (simp_all add: value_field_def wrapped_def)

lemma check_literal_value:
  assumes "check_literal (strScalar (y_value v)) sn [] = Inr ()"
  shows "check_literal v sn path = Inr ()"
  using assms by (auto simp: check_literal_def split: if_splits)

lemma list_parts_scalars:
  "list_all (\<lambda>it. it \<noteq> [] \<and> trim_space it = it \<and> CHR '','' \<notin> set it) its \<Longrightarrow>
     list_parts path (map (\<lambda>it. strScalar (trim_space it)) its) = Inr its"
  by (induction its) (auto simp: contains_char)

lemma field_fits_cases:
  assumes "field_fits pl f"
  obtains (wrap) k v where "f = wrapped k v" "k \<in> {''from'', ''raw'', ''template''}" "v \<noteq> []"
    | (literal) v where "f = value_field v" "literal_fits pl v"
  using assms unfolding field_fits_def by blast

text \<open>One turn of the walk, by the shape of the node and of its place.\<close>

lemma walkValue_wrapped:
  "deref v = v \<Longrightarrow> \<not> isNull v \<Longrightarrow> wrapper v (memberOf sn) = Inr (Some f) \<Longrightarrow>
     walkValue rooted v sn path out = Inr (AList.update path f out)"
  by (simp add: walkValue.simps)

lemma walkValue_scalar:
  assumes "deref v = v" "\<not> isNull v" "is_scalar v" "n_type sn \<noteq> ''map''" "n_type sn \<noteq> ''array''" "n_children sn = []"
    "check_literal v sn path = Inr ()"
  shows "walkValue rooted v sn path out = Inr (AList.update path (value_field (y_value v)) out)"
  unfolding walkValue.simps using assms by (simp add: Let_def)

lemma walkValue_scalars:
  assumes "n_type sn = ''array''" "n_children sn = []" "list_parts path ys = Inr parts" "parts \<noteq> []"
  shows "walkValue rooted (YSeq ys fl l) sn path out = Inr (AList.update path (value_field (go_join '','' parts)) out)"
  unfolding walkValue.simps using assms by (simp add: Let_def isNull_def wrapper_def)

lemma walkValue_members:
  assumes "wrapper (YMap ms fl l) (memberOf sn) = Inr None" "n_type sn \<noteq> ''map''" "n_type sn \<noteq> ''array''" "n_children sn \<noteq> []"
  shows "walkValue rooted (YMap ms fl l) sn path out = walkObject rooted ms [] (n_children sn) path out"
  unfolding walkValue.simps using assms by (simp add: Let_def isNull_def)

lemma walkValue_entries:
  assumes "wrapper (YMap ms fl l) (memberOf sn) = Inr None" "n_type sn = ''map''"
  shows "walkValue rooted (YMap ms fl l) sn path out = walkMap ms [] path out"
  unfolding walkValue.simps using assms by (simp add: Let_def isNull_def)

lemma walkValue_items:
  assumes "n_type sn = ''array''" "n_children sn \<noteq> []"
  shows "walkValue rooted (YSeq ys fl l) sn path out = walkElems rooted ys 0 sn path out"
  unfolding walkValue.simps using assms by (simp add: Let_def isNull_def wrapper_def)

lemma leaf_At:
  assumes "field_fits (At sn) f"
  shows "walkValue rooted (guard_entry aw (Some f) (leafYAML False False (Some sn) f)) sn path out = Inr (AList.update path f out)"
  using assms
proof (cases rule: field_fits_cases)
  case (wrap k v)
  then show ?thesis
    using wrapper_flowMap [of k "strScalar v"] by (auto simp: leaf_wrapper intro!: walkValue_wrapped)
next
  case (literal v)
  have bare: "guard_entry aw (Some f) (flowMap ''value'' (strScalar v)) = flowMap ''value'' (strScalar v)" by simp
  show ?thesis
  proof (cases "isBranch (Some sn)")
    case True
    with literal(1) show ?thesis
      by (auto simp: leafYAML_def wrapper_value intro!: walkValue_wrapped)
  next
    case False
    then have leaf: "n_type sn \<noteq> ''map''" "n_children sn = []" by (auto simp: isBranch_def split: if_splits)
    show ?thesis
    proof (cases "n_type sn = ''array''")
      case True
      let ?ys = "map (\<lambda>it. strScalar (trim_space it)) (split_on CHR '','' v)"
      have y: "leafYAML False False (Some sn) f = YSeq ?ys True 0"
        using literal(1) True False by (simp add: leafYAML_def)
      show ?thesis
      proof (cases aw)
        case True
        with literal(1) y show ?thesis
          by (auto simp: guard_entry_def wrapper_value intro!: walkValue_wrapped)
      next
        case aw: False
        have "list_parts path ?ys = Inr (split_on CHR '','' v)"
          using literal(2) leaf True split_on_no_sep [of _ "CHR '',''" v]
          by (intro list_parts_scalars) (auto simp: literal_fits_def list_all_iff)
        from walkValue_scalars [OF True leaf(2) this split_on_nonempty] literal(1) y aw go_join_split_on [of "CHR '',''" v]
        show ?thesis by simp
      qed
    next
      case scalar: False
      have y: "leafYAML False False (Some sn) f = typedScalar v (Some sn)"
        using literal(1) scalar False by (simp add: leafYAML_def)
      show ?thesis
      proof (cases aw)
        case True
        with literal(1) y show ?thesis by (auto simp: wrapper_value intro!: walkValue_wrapped)
      next
        case aw: False
        have "check_literal (typedScalar v (Some sn)) sn path = Inr ()"
          using literal(2) leaf scalar by - (rule check_literal_value, simp add: literal_fits_def)
        then have "walkValue rooted (typedScalar v (Some sn)) sn path out = Inr (AList.update path (value_field v) out)"
          using walkValue_scalar [of "typedScalar v (Some sn)" sn path rooted out] leaf scalar by simp
        with literal(1) y aw show ?thesis by simp
      qed
    qed
  qed
qed

text \<open>Nothing written is an alias, and a guarded entry is never a scalar.\<close>

lemma deref_leaf [simp]: "deref (leafYAML en el sn f) = leafYAML en el sn f"
  by (simp add: leafYAML_def)

lemma deref_toYAML [simp]: "deref (toYAML isRoot n) = toYAML isRoot n"
  by (simp add: toYAML_eq Let_def split: option.split)

lemma guarded:
  "deref y = y \<Longrightarrow> deref (guard_entry aw f y) = guard_entry aw f y"
  "deref y = y \<Longrightarrow> items_of y = None \<or> f \<noteq> None \<Longrightarrow> \<not> is_scalar (guard_entry True f y)"
  by (cases y; auto simp: guard_entry_def split: option.split)+

abbreviation entry_of :: "bool \<Rightarrow> rnode \<Rightarrow> ynode \<times> ynode" where
  "entry_of aw c \<equiv> (strScalar (rn_label c), guard_entry aw (rn_field c) (toYAML False c))"

lemma guarded_scalar: "deref y = y \<Longrightarrow> \<not> is_scalar (guard_entry True f y) \<and> \<not> isNull (guard_entry True f y)"
  by (cases y) (auto simp: guard_entry_def isNull_def flowMap_def split: option.split)

lemma members_not_wrapper:
  assumes "cs \<noteq> []" "\<And>c. c \<in> set cs \<Longrightarrow> mem (rn_label c)"
  shows "wrapper (YMap (map (entry_of (list_all (\<lambda>c. rn_label c \<in> set wrapperKeys) cs)) cs) fl l) mem = Inr None"
proof (cases "list_all (\<lambda>c. rn_label c \<in> set wrapperKeys) cs")
  case False
  then have "list_ex (\<lambda>(k, _). y_value k \<notin> set wrapperKeys) (map (entry_of aw) cs)" for aw
    by (auto simp: list_ex_iff list_all_iff)
  then show ?thesis by (simp add: wrapper_def)
next
  case True
  obtain c ds where cs: "cs = c # ds" using assms(1) by (cases cs) auto
  have mem: "list_all (\<lambda>(k, _). mem (y_value k)) (map (entry_of aw) cs)" for aw
    using assms(2) by (simp add: list_all_iff)
  show ?thesis
  proof (cases ds)
    case Nil
    with True cs assms(2) [of c] guarded_scalar [of "toYAML False c" "rn_field c"] guarded(1) [of "toYAML False c" True "rn_field c"]
    show ?thesis by (simp add: wrapper_def)
  next
    case (Cons d es)
    with mem [of True] True cs show ?thesis by (simp add: wrapper_def list_ex_iff list_all_iff del: wrapper_keys)
  qed
qed

text \<open>The loops over members, entries and elements.\<close>

lemma walk_members:
  assumes "\<And>c. c \<in> set cs \<Longrightarrow> rn_label c \<noteq> ''<<'' \<and> rn_path c = join_path pre (rn_label c) \<and>
      (\<exists>sn. childSchema nodes (rn_label c) = Some sn \<and>
        (\<forall>out. walkValue rooted (guard_entry aw (rn_field c) (toYAML False c)) sn (rn_path c) out = Inr (puts (flat c) out)))"
    and "distinct (map rn_label cs)" "set (map rn_label cs) \<inter> set seen = {}"
  shows "walkObject rooted (map (entry_of aw) cs) seen nodes pre out = Inr (puts (concat (map flat cs)) out)"
  using assms
proof (induction cs arbitrary: seen out)
  case (Cons c cs)
  from Cons.prems(1) [of c] obtain sn where c: "rn_label c \<noteq> ''<<''" "rn_path c = join_path pre (rn_label c)"
    "childSchema nodes (rn_label c) = Some sn"
    "\<And>out. walkValue rooted (guard_entry aw (rn_field c) (toYAML False c)) sn (rn_path c) out = Inr (puts (flat c) out)" by auto
  have "walkObject rooted (map (entry_of aw) cs) (rn_label c # seen) nodes pre (puts (flat c) out) = Inr (puts (concat (map flat cs)) (puts (flat c) out))"
    by (intro Cons.IH Cons.prems(1)) (use Cons.prems in auto)
  with c Cons.prems(3) show ?case by (auto simp: Let_def)
qed simp

definition entry_reads :: "ynode \<Rightarrow> rnode \<Rightarrow> bool" where
  "entry_reads ev n \<longleftrightarrow> deref ev = ev \<and> \<not> isNull ev \<and>
     (\<exists>f. flat n = [(rn_path n, f)] \<and>
        (if is_scalar ev then value_field (y_value ev) = f else wrapper ev noMember = Inr (Some f)))"

lemma walk_entries:
  assumes "\<And>c. c \<in> set cs \<Longrightarrow> rn_label c \<noteq> ''<<'' \<and> rn_path c = entry_path pre (rn_label c) \<and>
      entry_reads (guard_entry aw (rn_field c) (toYAML False c)) c"
    and "distinct (map rn_label cs)" "set (map rn_label cs) \<inter> set seen = {}"
  shows "walkMap (map (entry_of aw) cs) seen pre out = Inr (puts (concat (map flat cs)) out)"
  using assms
proof (induction cs arbitrary: seen out)
  case (Cons c cs)
  let ?ev = "guard_entry aw (rn_field c) (toYAML False c)"
  from Cons.prems(1) [of c] obtain f where c: "rn_label c \<noteq> ''<<''" "rn_path c = entry_path pre (rn_label c)"
    "deref ?ev = ?ev" "\<not> isNull ?ev" "flat c = [(rn_path c, f)]"
    "if is_scalar ?ev then value_field (y_value ?ev) = f else wrapper ?ev noMember = Inr (Some f)"
    unfolding entry_reads_def by auto
  have "walkMap (map (entry_of aw) cs) (rn_label c # seen) pre (puts (flat c) out) = Inr (puts (concat (map flat cs)) (puts (flat c) out))"
    by (intro Cons.IH Cons.prems(1)) (use Cons.prems in auto)
  with c Cons.prems(3) show ?case by (auto simp: Let_def entry_path_def split: if_splits)
qed simp

lemma walk_gaps:
  "walkElems rooted (replicate k (YMap [] True 0) @ ys) i sn path out = walkElems rooted ys (i + k) sn path out"
proof (induction k arbitrary: i)
  case (Suc k)
  from Suc [of "Suc i"] show ?case by (simp add: isNull_def wrapper_def)
qed simp

definition item_reads :: "bool \<Rightarrow> node \<Rightarrow> rnode \<Rightarrow> bool" where
  "item_reads rooted sn n \<longleftrightarrow>
     (let y = toYAML False n; mem = (\<lambda>k. childSchema (n_children sn) k \<noteq> None)
      in \<not> isNull y \<and>
         ((\<exists>f. flat n = [(rn_path n, f)] \<and> wrapper y mem = Inr (Some f)) \<or>
          (\<exists>ms. wrapper y mem = Inr None \<and> members_of y = Some ms \<and>
             (\<forall>out. walkObject rooted ms [] (n_children sn) (rn_path n) out = Inr (puts (flat n) out)))))"

lemma walk_items:
  assumes "\<And>j c. (j, c) \<in> set es \<Longrightarrow> i \<le> j \<and> rn_path c = elem_path pre j \<and> item_reads rooted sn c" "sorted_wrt (<) (map fst es)"
  shows "walkElems rooted (with_gaps i (map (\<lambda>x. (fst x, toYAML False (snd x))) es)) i sn pre out = Inr (puts (concat (map (\<lambda>x. flat (snd x)) es)) out)"
  using assms
proof (induction es arbitrary: i out)
  case (Cons e es)
  obtain j c where e: "e = (j, c)" by force
  from Cons.prems(1) [of j c] have j: "i \<le> j" "rn_path c = elem_path pre j" "item_reads rooted sn c" by (simp_all add: e)
  have rest: "walkElems rooted (with_gaps (Suc j) (map (\<lambda>x. (fst x, toYAML False (snd x))) es)) (Suc j) sn pre out
      = Inr (puts (concat (map (\<lambda>x. flat (snd x)) es)) out)" for out
    using Cons.prems by (intro Cons.IH) (force simp: e Suc_le_eq)+
  from j(3) j(1,2) rest show ?case
    by (auto simp: e walk_gaps item_reads_def Let_def elem_path_def)
qed simp

text \<open>Every tree that fits its place is read back from its YAML.\<close>

definition reads :: "place \<Rightarrow> rnode \<Rightarrow> bool" where
  "reads pl n =
     (case pl of
        At sn \<Rightarrow> \<forall>aw rooted out. walkValue rooted (guard_entry aw (rn_field n) (toYAML False n)) sn (rn_path n) out = Inr (puts (flat n) out)
      | Entry \<Rightarrow> \<forall>aw. entry_reads (guard_entry aw (rn_field n) (toYAML False n)) n
      | Item sn \<Rightarrow> \<forall>rooted. item_reads rooted sn n
      | Top nodes \<Rightarrow> \<forall>rooted out. \<exists>ms. members_of (toYAML True n) = Some ms \<and>
          walkObject rooted ms [] nodes [] out = Inr (puts (flat n) out))"

lemma reads_leaf:
  assumes "placed pl n" "rn_field n = Some f" "field_fits pl f" "\<not> (\<exists>nodes. pl = Top nodes)"
  shows "reads pl n"
proof (cases pl)
  case (At sn)
  with assms leaf_At show ?thesis by (simp add: reads_def placed_def toYAML_eq flat_eq)
next
  case Entry
  have n: "flat n = [(rn_path n, f)]" "toYAML False n = leafYAML True False None f"
    using assms Entry by (simp_all add: placed_def toYAML_eq flat_eq)
  show ?thesis
    using assms(3)
  proof (cases rule: field_fits_cases)
    case (wrap k v)
    then have "entry_reads (flowMap k (strScalar v)) n"
      using wrapper_flowMap [of k "strScalar v"] by (auto simp: entry_reads_def n)
    then show ?thesis using wrap Entry n by (auto simp: reads_def assms(2) leaf_wrapper)
  next
    case (literal v)
    then have "leafYAML True False None f = typedScalar v None" by (simp add: leafYAML_def)
    moreover have "entry_reads (guard_entry aw (Some f) (typedScalar v None)) n" for aw
      using literal by (cases aw) (auto simp: entry_reads_def n wrapper_value)
    ultimately show ?thesis using Entry n by (simp add: reads_def assms(2))
  qed
next
  case (Item sn)
  have n: "flat n = [(rn_path n, f)]" "toYAML False n = leafYAML False True (Some sn) f"
    using assms Item by (simp_all add: placed_def toYAML_eq flat_eq)
  show ?thesis
    using assms(3)
  proof (cases rule: field_fits_cases)
    case (wrap k v)
    then show ?thesis
      using Item n wrapper_flowMap [of k "strScalar v"] by (auto simp: reads_def item_reads_def leaf_wrapper Let_def)
  next
    case (literal v)
    then show ?thesis
      using Item n by (simp add: reads_def item_reads_def leafYAML_def wrapper_value Let_def)
  qed
qed (use assms(4) in blast)

lemma toYAML_members:
  assumes "rn_field n = None" "rn_kind n = Obj_kind" "rn_children n \<noteq> []"
  shows "toYAML False n = YMap (map (entry_of (list_all (\<lambda>c. rn_label c \<in> set wrapperKeys) (rn_children n))) (rn_children n)) False 0"
  using assms by (simp add: toYAML_eq)

lemma sorted_elems: "distinct (map fst es) \<Longrightarrow> sorted_wrt (<) (map fst (sort_key fst es))"
proof -
  assume "distinct (map fst es)"
  moreover have "mset (map fst (sort_key fst es)) = mset (map fst es)" by simp
  ultimately have "distinct (map fst (sort_key fst es))" using mset_eq_imp_distinct_iff by blast
  then show ?thesis by (simp add: strict_sorted_iff)
qed

lemma fits_reads: "fits pl n \<Longrightarrow> reads pl n"
proof (induction rule: fits.induct)
  case (leaf pl n f)
  then show ?case by (intro reads_leaf)
next
  case (obj pl n ms)
  let ?cs = "rn_children n"
  have walk: "walkObject rooted (map (entry_of aw) ?cs) [] ms (rn_path n) out = Inr (puts (flat n) out)" for rooted aw out
  proof -
    have "walkObject rooted (map (entry_of aw) ?cs) [] ms (rn_path n) out = Inr (puts (concat (map flat ?cs)) out)"
      by (rule walk_members) (use obj in \<open>force simp: reads_def\<close>)+
    with obj show ?thesis by (simp add: flat_eq)
  qed
  have mem: "childSchema ms (rn_label c) \<noteq> None" if "c \<in> set ?cs" for c using obj that by force
  show ?case
  proof (cases pl)
    case (Top nodes)
    with obj walk [of _ False] show ?thesis by (simp add: reads_def toYAML_eq members_at_def placed_def)
  next
    case (At sn)
    with obj(6) have sn: "n_type sn \<noteq> ''map''" "n_type sn \<noteq> ''array''" "n_children sn \<noteq> []" "ms = n_children sn"
      by (auto simp: members_at_def split: if_splits)
    have "wrapper (toYAML False n) (memberOf sn) = Inr None"
      unfolding toYAML_members [OF obj(2,3,5)]
      by (rule members_not_wrapper) (use obj(5) mem sn in \<open>auto simp: memberOf_def\<close>)
    then show ?thesis
      unfolding At reads_def place.case toYAML_members [OF obj(2,3,5)]
      using sn walk by (simp add: obj(2) guard_entry_def walkValue_members)
  next
    case (Item sn)
    with obj(6) have ms: "ms = n_children sn" by (simp add: members_at_def)
    have "wrapper (toYAML False n) (\<lambda>k. childSchema ms k \<noteq> None) = Inr None"
      unfolding toYAML_members [OF obj(2,3,5)]
      by (rule members_not_wrapper) (use obj(5) mem in auto)
    then show ?thesis
      unfolding Item reads_def place.case item_reads_def toYAML_members [OF obj(2,3,5)] Let_def ms [symmetric]
      using walk by (simp add: isNull_def)
  next
    case Entry
    with obj(6) show ?thesis by (simp add: members_at_def)
  qed
next
  case (entries sn n)
  let ?cs = "rn_children n"
  have walk: "walkMap (map (entry_of aw) ?cs) [] (rn_path n) out = Inr (puts (flat n) out)" for aw out
  proof -
    have "walkMap (map (entry_of aw) ?cs) [] (rn_path n) out = Inr (puts (concat (map flat ?cs)) out)"
      by (rule walk_entries) (use entries in \<open>force simp: reads_def\<close>)+
    with entries show ?thesis by (simp add: flat_eq)
  qed
  have "wrapper (toYAML False n) (memberOf sn) = Inr None"
    unfolding toYAML_members [OF entries(2,3,5)]
    by (rule members_not_wrapper) (use entries in \<open>auto simp: memberOf_def\<close>)
  then show ?case
    unfolding reads_def place.case toYAML_members [OF entries(2,3,5)]
    using walk by (simp add: entries guard_entry_def walkValue_entries)
next
  case (items sn n)
  let ?es = "sort_key fst (rn_elems n)"
  have y: "toYAML False n = YSeq (with_gaps 0 (map (\<lambda>x. (fst x, toYAML False (snd x))) ?es)) False 0"
    using items by (simp add: toYAML_eq)
  have "walkElems rooted (with_gaps 0 (map (\<lambda>x. (fst x, toYAML False (snd x))) ?es)) 0 sn (rn_path n) out
      = Inr (puts (concat (map (\<lambda>x. flat (snd x)) ?es)) out)" for rooted out
    by (rule walk_items [OF _ sorted_elems]) (use items in \<open>force simp: reads_def\<close>)+
  then show ?case
    using items by (simp add: reads_def y guard_entry_def flat_eq walkValue_items list_place_def)
qed

section \<open>Inserting a path\<close>

text \<open>A node on the way: it fits, or it was just made.\<close>

definition open_at :: "place \<Rightarrow> rnode \<Rightarrow> bool" where
  "open_at pl n \<longleftrightarrow> placed pl n \<and> (blank n \<or> fits pl n)"

lemma fits_placed: "fits pl n \<Longrightarrow> placed pl n"
  by (induction rule: fits.induct) simp_all

lemma open_leaf: "open_at pl n \<Longrightarrow> rn_kind n = Leaf_kind \<Longrightarrow> rn_field n = None \<Longrightarrow> blank n"
  by (auto simp: open_at_def elim: fits.cases)

lemma flat_blank: "blank n \<Longrightarrow> flat n = []"
  by (simp add: blank_def flat_eq)

text \<open>The parts of a node that insertion below it leaves alone.\<close>

lemma set_field_sel [simp]:
  "rn_label (set_field f n) = rn_label n" "rn_path (set_field f n) = rn_path n" "rn_schema (set_field f n) = rn_schema n"
  "rn_entry (set_field f n) = rn_entry n" "rn_elem (set_field f n) = rn_elem n" "rn_kind (set_field f n) = rn_kind n"
  "rn_field (set_field f n) = Some f" "rn_children (set_field f n) = rn_children n" "rn_elems (set_field f n) = rn_elems n"
  by (cases n; simp)+

lemma attach_sel [simp]:
  "rn_label (attach sl m n) = rn_label n" "rn_path (attach sl m n) = rn_path n" "rn_schema (attach sl m n) = rn_schema n"
  "rn_entry (attach sl m n) = rn_entry n" "rn_elem (attach sl m n) = rn_elem n" "rn_field (attach sl m n) = rn_field n"
  by (cases sl; cases n; simp)+

lemma attach_Elem [simp]:
  "rn_children (attach (Elem i) m n) = rn_children n" "rn_elems (attach (Elem i) m n) = AList.update i m (rn_elems n)"
  "rn_kind (attach (Elem i) m n) = (if map_of (rn_elems n) i = None then Seq_kind else rn_kind n)"
  by (cases n; simp)+

lemma attach_Key [simp]:
  "rn_children (attach (Key k) m n) = put_child m (rn_children n)" "rn_elems (attach (Key k) m n) = rn_elems n"
  "rn_kind (attach (Key k) m n) = (if find (\<lambda>c. rn_label c = k) (rn_children n) = None then Obj_kind else rn_kind n)"
  by (cases n; simp)+

lemma fresh_sel [simp]:
  "blank (fresh nodes r cur s)"
  "rn_field (fresh nodes r cur s) = None"
  by (simp_all add: fresh_def newNode_def blank_def Let_def)

lemma placed_attach [simp]: "placed pl (attach sl m n) = placed pl n"
  by (simp add: placed_def split: place.split)

lemma placed_field [simp]: "placed pl (set_field f n) = placed pl n"
  by (simp add: placed_def split: place.split)

lemma insert_field_sel:
  "insert_field nodes r p f sgs n = Inr n' \<Longrightarrow> rn_label n' = rn_label n \<and> rn_path n' = rn_path n \<and> rn_schema n' = rn_schema n \<and>
     rn_entry n' = rn_entry n \<and> rn_elem n' = rn_elem n"
  by (induction nodes r p f sgs n arbitrary: n' rule: insert_field.induct)
    (auto simp: Let_def split: if_splits sum.splits)

text \<open>Putting a child back.\<close>

lemma put_child_set: "distinct (map rn_label cs) \<Longrightarrow> set (put_child m cs) = insert m {c \<in> set cs. rn_label c \<noteq> rn_label m}"
  by (induction cs) (auto simp: image_iff)

lemma put_child_labels: "set (map rn_label (put_child m cs)) = insert (rn_label m) (set (map rn_label cs))"
  by (induction cs) auto

lemma put_child_distinct: "distinct (map rn_label cs) \<Longrightarrow> distinct (map rn_label (put_child m cs))"
  using put_child_labels by (induction cs) (auto simp: put_child_labels [unfolded set_map])

lemma put_child_nonempty [simp]: "put_child m cs \<noteq> []"
  by (cases cs) simp_all

lemma update_nonempty [simp]: "AList.update i m es \<noteq> []"
  by (cases es) auto

lemma update_set: "distinct (map fst es) \<Longrightarrow> set (AList.update i m es) = insert (i, m) {x \<in> set es. fst x \<noteq> i}"
  by (induction es) (auto simp: image_iff split: if_splits)

definition kids :: "rnode \<Rightarrow> rnode set" where
  "kids n = (if rn_kind n = Seq_kind then snd ` set (rn_elems n) else set (rn_children n))"

lemma flat_kids: "rn_field n = None \<Longrightarrow> set (flat n) = (\<Union>c \<in> kids n. set (flat c))"
  by (auto simp: flat_eq kids_def)

text \<open>What one segment does: the node it leads to is open at its place, and putting back a tree
  that fits there gives a tree that fits, with the fields added to that tree and no others.\<close>

definition next_of :: "node list \<Rightarrow> bool \<Rightarrow> rnode \<Rightarrow> seg \<Rightarrow> rnode" where
  "next_of nodes r cur s = (case look (slot_of cur s) cur of Some n \<Rightarrow> n | None \<Rightarrow> fresh nodes r cur s)"

definition extends_at :: "place \<Rightarrow> place \<Rightarrow> rnode \<Rightarrow> slot \<Rightarrow> rnode \<Rightarrow> bool" where
  "extends_at pl q cur sl nxt \<longleftrightarrow>
     (\<forall>m F. fits q m \<and> rn_path m = rn_path nxt \<and> rn_label m = rn_label nxt \<and> set (flat m) = F \<union> set (flat nxt) \<longrightarrow>
        fits pl (attach sl m cur) \<and> set (flat (attach sl m cur)) = F \<union> set (flat cur))"

lemma children_extend:
  assumes "rn_field cur = None" "rn_elems cur = []" "rn_kind cur \<noteq> Seq_kind" "distinct (map rn_label (rn_children cur))"
    and "rn_label nxt = k" "find (\<lambda>c. rn_label c = k) (rn_children cur) = Some nxt \<or>
      (find (\<lambda>c. rn_label c = k) (rn_children cur) = None \<and> blank nxt)"
    and "set (flat m) = F \<union> set (flat nxt)" "rn_label m = k"
  shows "set (flat (attach (Key k) m cur)) = F \<union> set (flat cur)"
proof -
  let ?t = "attach (Key k) m cur"
  have kids: "kids ?t = insert m {c \<in> set (rn_children cur). rn_label c \<noteq> k}" "kids cur = set (rn_children cur)"
    using assms(3,4,8) put_child_set [of "rn_children cur" m] by (auto simp: kids_def)
  let ?rest = "{c \<in> set (rn_children cur). rn_label c \<noteq> k}"
  have t: "set (flat ?t) = set (flat m) \<union> (\<Union>c \<in> ?rest. set (flat c))"
    using assms(1) flat_kids [of ?t] kids(1) by simp
  have "(\<Union>c \<in> set (rn_children cur). set (flat c)) = set (flat nxt) \<union> (\<Union>c \<in> ?rest. set (flat c))"
    using assms(6)
  proof
    assume n: "find (\<lambda>c. rn_label c = k) (rn_children cur) = Some nxt"
    then have mem: "nxt \<in> set (rn_children cur)" by (auto simp: find_Some_iff in_set_conv_nth)
    have "c = nxt" if "c \<in> set (rn_children cur)" "rn_label c = k" for c
      using assms(4,5) that mem by (auto simp: distinct_map dest: inj_onD)
    with mem show ?thesis by blast
  next
    assume "find (\<lambda>c. rn_label c = k) (rn_children cur) = None \<and> blank nxt"
    then have "?rest = set (rn_children cur)" "flat nxt = []" by (auto simp: find_None_iff flat_blank)
    then show ?thesis by simp
  qed
  then have c: "set (flat cur) = set (flat nxt) \<union> (\<Union>c \<in> ?rest. set (flat c))"
    using assms(1) flat_kids [of cur] kids(2) by simp
  show ?thesis unfolding t c assms(7) by blast
qed

lemma elems_extend:
  assumes "rn_field cur = None" "rn_children cur = []" "rn_elems cur = [] \<or> rn_kind cur = Seq_kind" "distinct (map fst (rn_elems cur))"
    and "map_of (rn_elems cur) i = Some nxt \<or> (map_of (rn_elems cur) i = None \<and> blank nxt)"
    and "set (flat m) = F \<union> set (flat nxt)"
  shows "set (flat (attach (Elem i) m cur)) = F \<union> set (flat cur)"
proof -
  let ?t = "attach (Elem i) m cur"
  have kind: "rn_kind ?t = Seq_kind" using assms(3) by auto
  have kids: "kids ?t = insert m (snd ` {x \<in> set (rn_elems cur). fst x \<noteq> i})"
    using kind update_set [OF assms(4), of i m] by (simp add: kids_def)
  have cur: "(\<Union>c \<in> kids cur. set (flat c)) = (\<Union>x \<in> set (rn_elems cur). set (flat (snd x)))"
    using assms(2,3) by (auto simp: kids_def)
  have "(\<Union>x \<in> set (rn_elems cur). set (flat (snd x))) = set (flat nxt) \<union> (\<Union>x \<in> {x \<in> set (rn_elems cur). fst x \<noteq> i}. set (flat (snd x)))"
    using assms(5)
  proof
    assume n: "map_of (rn_elems cur) i = Some nxt"
    then have "(i, nxt) \<in> set (rn_elems cur)" by (rule map_of_SomeD)
    moreover have "x = (i, nxt)" if "x \<in> set (rn_elems cur)" "fst x = i" for x
      using map_of_is_SomeI [OF assms(4), of "fst x" "snd x"] that n by (cases x) simp
    ultimately have "set (rn_elems cur) = insert (i, nxt) {x \<in> set (rn_elems cur). fst x \<noteq> i}" by blast
    then have "(\<Union>x \<in> set (rn_elems cur). set (flat (snd x))) = (\<Union>x \<in> insert (i, nxt) {x \<in> set (rn_elems cur). fst x \<noteq> i}. set (flat (snd x)))"
      by (rule arg_cong)
    then show ?thesis by simp
  next
    assume none: "map_of (rn_elems cur) i = None \<and> blank nxt"
    then have "{x \<in> set (rn_elems cur). fst x \<noteq> i} = set (rn_elems cur)" by (auto simp: map_of_eq_None_iff)
    with none show ?thesis by (simp add: flat_blank)
  qed
  then have c: "set (flat cur) = set (flat nxt) \<union> (\<Union>x \<in> {x \<in> set (rn_elems cur). fst x \<noteq> i}. set (flat (snd x)))"
    using assms(1) flat_kids [of cur] cur by simp
  have t: "set (flat ?t) = set (flat m) \<union> (\<Union>x \<in> {x \<in> set (rn_elems cur). fst x \<noteq> i}. set (flat (snd x)))"
    using assms(1) flat_kids [of ?t] kids by simp
  show ?thesis unfolding t c assms(6) by blast
qed

lemma step_member:
  assumes "open_at pl cur" "rn_field cur = None" "members_at pl = Some cs" "\<not> sg_bracket s" "sg_name s \<noteq> ''<<''"
    and "childSchema cs (sg_name s) = Some sn" "pl = Top nodes \<and> r \<or> (\<nexists>ns. pl = Top ns) \<and> \<not> r"
  shows "open_at (At sn) (next_of nodes r cur s) \<and> rn_path (next_of nodes r cur s) = below (rn_path cur) s \<and>
    extends_at pl (At sn) cur (slot_of cur s) (next_of nodes r cur s)"
proof -
  let ?k = "sg_name s" and ?n = "next_of nodes r cur s"
  have sl: "slot_of cur s = Key ?k" using assms(4) by (simp add: slot_of_def indexes_def)
  have placed: "placed pl cur" using assms(1) by (simp add: open_at_def)
  have look: "look (slot_of cur s) cur = find (\<lambda>c. rn_label c = ?k) (rn_children cur)" by (simp add: sl look_def)
  have fresh: "placed (At sn) (fresh nodes r cur s) \<and> rn_path (fresh nodes r cur s) = below (rn_path cur) s \<and> rn_label (fresh nodes r cur s) = ?k"
    using assms(3,4,6,7) placed
    by (auto simp: fresh_def indexes_def newNode_def Let_def below_def join_path_def placed_def members_at_def split: place.splits if_splits)
  consider "blank cur" | "fits pl cur" using assms(1) by (auto simp: open_at_def)
  then show ?thesis
  proof cases
    case 1
    then have n: "?n = fresh nodes r cur s" using look by (simp add: next_of_def blank_def)
    have "fits pl (attach (slot_of cur s) m cur) \<and> set (flat (attach (slot_of cur s) m cur)) = F \<union> set (flat cur)"
      if "fits (At sn) m" "rn_path m = rn_path ?n" "rn_label m = rn_label ?n" "set (flat m) = F \<union> set (flat ?n)" for m F
    proof
      have m: "rn_label m = ?k" "rn_path m = join_path (rn_path cur) ?k"
        using that fresh n assms(4) by (simp_all add: below_def)
      have t: "rn_children (attach (slot_of cur s) m cur) = [m]" "rn_elems (attach (slot_of cur s) m cur) = []"
        "rn_kind (attach (slot_of cur s) m cur) = Obj_kind"
        using 1 sl by (simp_all add: blank_def)
      show "fits pl (attach (slot_of cur s) m cur)"
      proof (rule fits.obj)
        show "placed pl (attach (slot_of cur s) m cur)" using placed by simp
        fix c assume "c \<in> set (rn_children (attach (slot_of cur s) m cur))"
        with t m that(1) assms(5,6) show "rn_label c \<noteq> ''<<'' \<and> rn_path c = join_path (rn_path (attach (slot_of cur s) m cur)) (rn_label c) \<and>
            (\<exists>sn. childSchema cs (rn_label c) = Some sn \<and> fits (At sn) c)" by simp
      qed (simp_all add: t assms(2,3))
      show "set (flat (attach (slot_of cur s) m cur)) = F \<union> set (flat cur)"
        unfolding sl
      proof (rule children_extend [OF assms(2) _ _ _ _ _ that(4) m(1)])
        show "rn_label ?n = ?k" using fresh by (simp add: n)
        show "find (\<lambda>c. rn_label c = ?k) (rn_children cur) = Some ?n \<or> (find (\<lambda>c. rn_label c = ?k) (rn_children cur) = None \<and> blank ?n)"
          using 1 by (simp add: n) (simp add: blank_def)
      qed (use 1 in \<open>simp_all add: blank_def\<close>)
    qed
    with n fresh show ?thesis by (auto simp: open_at_def extends_at_def)
  next
    case 2
    then obtain ms where obj: "rn_kind cur = Obj_kind" "rn_elems cur = []" "rn_children cur \<noteq> []" "members_at pl = Some ms"
      "distinct (map rn_label (rn_children cur))"
      "\<And>c. c \<in> set (rn_children cur) \<Longrightarrow> rn_label c \<noteq> ''<<'' \<and> rn_path c = join_path (rn_path cur) (rn_label c) \<and>
         (\<exists>sn. childSchema ms (rn_label c) = Some sn \<and> fits (At sn) c)"
      using assms(2,3) by (cases rule: fits.cases) (auto simp: members_at_def list_place_def)
    with assms(3) have ms: "ms = cs" by simp
    have n: "(find (\<lambda>c. rn_label c = ?k) (rn_children cur) = Some ?n \<and> fits (At sn) ?n \<and> rn_path ?n = join_path (rn_path cur) ?k \<and> rn_label ?n = ?k)
        \<or> (find (\<lambda>c. rn_label c = ?k) (rn_children cur) = None \<and> ?n = fresh nodes r cur s)"
    proof (cases "find (\<lambda>c. rn_label c = ?k) (rn_children cur)")
      case None
      then show ?thesis by (simp add: next_of_def look)
    next
      case (Some c)
      then have "c \<in> set (rn_children cur)" "rn_label c = ?k" by (auto simp: find_Some_iff in_set_conv_nth)
      with obj(6) [of c] Some assms(6) show ?thesis by (auto simp: next_of_def look ms)
    qed
    have "fits pl (attach (slot_of cur s) m cur) \<and> set (flat (attach (slot_of cur s) m cur)) = F \<union> set (flat cur)"
      if "fits (At sn) m" "rn_path m = rn_path ?n" "rn_label m = rn_label ?n" "set (flat m) = F \<union> set (flat ?n)" for m F
    proof
      have m: "rn_label m = ?k" "rn_path m = join_path (rn_path cur) ?k"
        using that fresh n assms(4) by (auto simp: below_def)
      show "fits pl (attach (slot_of cur s) m cur)"
      proof (rule fits.obj)
        show "placed pl (attach (slot_of cur s) m cur)" using placed by simp
        show "distinct (map rn_label (rn_children (attach (slot_of cur s) m cur)))"
          using obj(5) by (simp add: sl put_child_distinct)
        fix c assume "c \<in> set (rn_children (attach (slot_of cur s) m cur))"
        then consider "c = m" | "c \<in> set (rn_children cur)" by (auto simp: sl put_child_set [OF obj(5)])
        then show "rn_label c \<noteq> ''<<'' \<and> rn_path c = join_path (rn_path (attach (slot_of cur s) m cur)) (rn_label c) \<and>
            (\<exists>sn. childSchema cs (rn_label c) = Some sn \<and> fits (At sn) c)"
          by cases (use obj(6) ms m that(1) assms(5,6) in auto)
      qed (use obj assms(2,3) sl in auto)
      show "set (flat (attach (slot_of cur s) m cur)) = F \<union> set (flat cur)"
        unfolding sl by (rule children_extend [OF assms(2) _ _ _ _ _ that(4) m(1)]) (use obj n fresh in auto)
    qed
    moreover have "open_at (At sn) ?n" "rn_path ?n = below (rn_path cur) s"
      using n fresh assms(4) fits_placed by (auto simp: open_at_def below_def)
    ultimately show ?thesis by (auto simp: extends_at_def)
  qed
qed

lemma step_entry:
  assumes "open_at (At sn) cur" "rn_field cur = None" "n_type sn = ''map''" "sg_bracket s" "sg_name s \<noteq> ''<<''"
    and "trim_set (sg_name s) [dquote, CHR 0x27] = sg_name s"
  shows "open_at Entry (next_of nodes r cur s) \<and> rn_path (next_of nodes r cur s) = below (rn_path cur) s \<and>
    extends_at (At sn) Entry cur (slot_of cur s) (next_of nodes r cur s)"
proof -
  let ?k = "sg_name s" and ?n = "next_of nodes r cur s"
  have placed: "placed (At sn) cur" using assms(1) by (simp add: open_at_def)
  then have idx: "\<not> indexes cur s" using assms(3) by (simp add: indexes_def placed_def)
  then have sl: "slot_of cur s = Key ?k" using assms(4,6) by (simp add: slot_of_def)
  have look: "look (slot_of cur s) cur = find (\<lambda>c. rn_label c = ?k) (rn_children cur)" by (simp add: sl look_def)
  have fresh: "placed Entry (fresh nodes r cur s) \<and> rn_path (fresh nodes r cur s) = below (rn_path cur) s \<and> rn_label (fresh nodes r cur s) = ?k"
    using assms(4,6) idx by (simp add: fresh_def newNode_def below_def placed_def)
  define cs where "cs = rn_children cur"
  have cur: "rn_elems cur = []" "rn_kind cur \<noteq> Seq_kind" "distinct (map rn_label cs)"
    "\<And>c. c \<in> set cs \<Longrightarrow> rn_label c \<noteq> ''<<'' \<and> rn_path c = entry_path (rn_path cur) (rn_label c) \<and> fits Entry c"
    "cs = [] \<or> rn_kind cur = Obj_kind"
  proof -
    have "blank cur \<or> fits (At sn) cur" using assms(1) by (simp add: open_at_def)
    then have "rn_elems cur = [] \<and> rn_kind cur \<noteq> Seq_kind \<and> distinct (map rn_label cs) \<and>
      (\<forall>c \<in> set cs. rn_label c \<noteq> ''<<'' \<and> rn_path c = entry_path (rn_path cur) (rn_label c) \<and> fits Entry c) \<and>
      (cs = [] \<or> rn_kind cur = Obj_kind)"
    proof
      assume "fits (At sn) cur"
      then show ?thesis using assms(2,3)
        by (cases rule: fits.cases) (auto simp: members_at_def cs_def)
    qed (simp add: blank_def cs_def)
    then show "rn_elems cur = []" "rn_kind cur \<noteq> Seq_kind" "distinct (map rn_label cs)"
      "\<And>c. c \<in> set cs \<Longrightarrow> rn_label c \<noteq> ''<<'' \<and> rn_path c = entry_path (rn_path cur) (rn_label c) \<and> fits Entry c"
      "cs = [] \<or> rn_kind cur = Obj_kind" by blast+
  qed
  have n: "(find (\<lambda>c. rn_label c = ?k) (rn_children cur) = Some ?n \<and> fits Entry ?n \<and> rn_path ?n = entry_path (rn_path cur) ?k \<and> rn_label ?n = ?k)
      \<or> (find (\<lambda>c. rn_label c = ?k) (rn_children cur) = None \<and> ?n = fresh nodes r cur s)"
  proof (cases "find (\<lambda>c. rn_label c = ?k) (rn_children cur)")
    case None
    then show ?thesis by (simp add: next_of_def look)
  next
    case (Some c)
    then have "c \<in> set cs" "rn_label c = ?k" by (auto simp: find_Some_iff in_set_conv_nth cs_def)
    with cur(4) [of c] Some show ?thesis by (auto simp: next_of_def look)
  qed
  have "fits (At sn) (attach (slot_of cur s) m cur) \<and> set (flat (attach (slot_of cur s) m cur)) = F \<union> set (flat cur)"
    if "fits Entry m" "rn_path m = rn_path ?n" "rn_label m = rn_label ?n" "set (flat m) = F \<union> set (flat ?n)" for m F
  proof
    have m: "rn_label m = ?k" "rn_path m = entry_path (rn_path cur) ?k"
      using that fresh n assms(4) by (auto simp: below_def entry_path_def)
    show "fits (At sn) (attach (slot_of cur s) m cur)"
    proof (rule fits.entries)
      show "distinct (map rn_label (rn_children (attach (slot_of cur s) m cur)))"
        using cur(3) by (simp add: sl cs_def put_child_distinct)
      show "rn_kind (attach (slot_of cur s) m cur) = Obj_kind" using cur(5) by (auto simp: sl cs_def)
      fix c assume "c \<in> set (rn_children (attach (slot_of cur s) m cur))"
      then consider "c = m" | "c \<in> set cs" using put_child_set [OF cur(3), of m] by (auto simp: sl cs_def)
      then show "rn_label c \<noteq> ''<<'' \<and> rn_path c = entry_path (rn_path (attach (slot_of cur s) m cur)) (rn_label c) \<and> fits Entry c"
        by cases (use cur(4) m that(1) assms(5) in auto)
    qed (use placed cur(1) assms(2,3) sl in simp_all)
    show "set (flat (attach (slot_of cur s) m cur)) = F \<union> set (flat cur)"
      unfolding sl by (rule children_extend [OF assms(2) cur(1,2) _ _ _ that(4) m(1)]) (use cur(3) n fresh in \<open>auto simp: cs_def\<close>)
  qed
  moreover have "open_at Entry ?n" "rn_path ?n = below (rn_path cur) s"
    using n fresh assms(4) fits_placed by (auto simp: open_at_def below_def entry_path_def)
  ultimately show ?thesis by (auto simp: extends_at_def)
qed

lemma step_item:
  assumes "open_at (At sn) cur" "rn_field cur = None" "n_type sn \<noteq> ''map''" "list_place sn" "sg_bracket s"
    and "isIndex (sg_name s)" "itoa (atoi (sg_name s)) = sg_name s"
  shows "open_at (Item sn) (next_of nodes r cur s) \<and> rn_path (next_of nodes r cur s) = below (rn_path cur) s \<and>
    extends_at (At sn) (Item sn) cur (slot_of cur s) (next_of nodes r cur s)"
proof -
  let ?i = "atoi (sg_name s)" and ?n = "next_of nodes r cur s"
  have placed: "placed (At sn) cur" using assms(1) by (simp add: open_at_def)
  then have idx: "indexes cur s" using assms(3,5,6) by (simp add: indexes_def placed_def)
  then have sl: "slot_of cur s = Elem ?i" by (simp add: slot_of_def)
  have look: "look (slot_of cur s) cur = map_of (rn_elems cur) ?i" by (simp add: sl look_def)
  have fresh: "placed (Item sn) (fresh nodes r cur s) \<and> rn_path (fresh nodes r cur s) = elem_path (rn_path cur) ?i"
    using assms(5,7) idx placed by (simp add: fresh_def newNode_def elem_path_def placed_def)
  define es where "es = rn_elems cur"
  have cur: "rn_children cur = []" "es = [] \<or> rn_kind cur = Seq_kind" "distinct (map fst es)"
    "\<And>i c. (i, c) \<in> set es \<Longrightarrow> rn_path c = elem_path (rn_path cur) i \<and> fits (Item sn) c"
  proof -
    have "blank cur \<or> fits (At sn) cur" using assms(1) by (simp add: open_at_def)
    then have "rn_children cur = [] \<and> (es = [] \<or> rn_kind cur = Seq_kind) \<and> distinct (map fst es) \<and>
      (\<forall>i c. (i, c) \<in> set es \<longrightarrow> rn_path c = elem_path (rn_path cur) i \<and> fits (Item sn) c)"
    proof
      assume "fits (At sn) cur"
      then show ?thesis using assms(2,3,4)
        by (cases rule: fits.cases) (auto simp: members_at_def list_place_def es_def)
    qed (simp add: blank_def es_def)
    then show "rn_children cur = []" "es = [] \<or> rn_kind cur = Seq_kind" "distinct (map fst es)"
      "\<And>i c. (i, c) \<in> set es \<Longrightarrow> rn_path c = elem_path (rn_path cur) i \<and> fits (Item sn) c" by blast+
  qed
  have n: "(map_of (rn_elems cur) ?i = Some ?n \<and> fits (Item sn) ?n \<and> rn_path ?n = elem_path (rn_path cur) ?i)
      \<or> (map_of (rn_elems cur) ?i = None \<and> ?n = fresh nodes r cur s)"
  proof (cases "map_of (rn_elems cur) ?i")
    case None
    then show ?thesis by (simp add: next_of_def look)
  next
    case (Some c)
    then have "(?i, c) \<in> set es" by (auto simp: es_def dest: map_of_SomeD)
    with cur(4) [of ?i c] Some show ?thesis by (auto simp: next_of_def look)
  qed
  have "fits (At sn) (attach (slot_of cur s) m cur) \<and> set (flat (attach (slot_of cur s) m cur)) = F \<union> set (flat cur)"
    if "fits (Item sn) m" "rn_path m = rn_path ?n" "set (flat m) = F \<union> set (flat ?n)" for m F
  proof
    have m: "rn_path m = elem_path (rn_path cur) ?i" using that fresh n by auto
    show "fits (At sn) (attach (slot_of cur s) m cur)"
    proof (rule fits.items)
      show "rn_kind (attach (slot_of cur s) m cur) = Seq_kind" using cur(2) by (auto simp: sl es_def)
      show "distinct (map fst (rn_elems (attach (slot_of cur s) m cur)))"
        using cur(3) by (simp add: sl es_def distinct_update)
      fix i c assume "(i, c) \<in> set (rn_elems (attach (slot_of cur s) m cur))"
      then consider "i = ?i" "c = m" | "(i, c) \<in> set es" using update_set [OF cur(3), of ?i m] by (auto simp: sl es_def)
      then show "rn_path c = elem_path (rn_path (attach (slot_of cur s) m cur)) i \<and> fits (Item sn) c"
        by cases (use cur(4) m that(1) in auto)
    qed (use placed cur(1) assms(2,3,4) sl in simp_all)
    show "set (flat (attach (slot_of cur s) m cur)) = F \<union> set (flat cur)"
      unfolding sl by (rule elems_extend [OF assms(2) cur(1) _ _ _ that(3)]) (use cur(2,3) n in \<open>auto simp: es_def\<close>)
  qed
  moreover have "open_at (Item sn) ?n" "rn_path ?n = below (rn_path cur) s"
    using n fresh assms(5,7) fits_placed by (auto simp: open_at_def below_def elem_path_def)
  ultimately show ?thesis by (auto simp: extends_at_def)
qed

lemma step_any:
  assumes "open_at pl cur" "rn_field cur = None" "go pl s = Some q" "pl = Top nodes \<and> r \<or> (\<nexists>ns. pl = Top ns) \<and> \<not> r"
  shows "open_at q (next_of nodes r cur s) \<and> rn_path (next_of nodes r cur s) = below (rn_path cur) s \<and>
    extends_at pl q cur (slot_of cur s) (next_of nodes r cur s) \<and> (\<nexists>ns. q = Top ns)"
proof (cases "\<exists>sn. pl = At sn \<and> (n_type sn = ''map'' \<or> list_place sn)")
  case True
  then obtain sn where sn: "pl = At sn" "n_type sn = ''map'' \<or> list_place sn" by blast
  show ?thesis
  proof (cases "n_type sn = ''map''")
    case True
    with assms sn step_entry [of sn cur s nodes r] show ?thesis by (auto simp: go_def split: if_splits)
  next
    case False
    with assms sn step_item [of sn cur s nodes r] show ?thesis by (auto simp: go_def split: if_splits)
  qed
next
  case False
  with assms(3) obtain cs sn where "members_at pl = Some cs" "\<not> sg_bracket s" "sg_name s \<noteq> ''<<''"
    "childSchema cs (sg_name s) = Some sn" "q = At sn"
    by (cases pl) (auto simp: go_def members_at_def split: if_splits option.splits)
  with step_member [OF assms(1,2) _ _ _ _ assms(4)] show ?thesis by auto
qed

text \<open>A whole path.\<close>

lemma insert_field_next:
  "insert_field nodes r p f (s # ss) cur =
     (let nxt = next_of nodes r cur s
      in if ss = [] then
           (if rn_kind nxt \<noteq> Leaf_kind
            then fail_at p 0 (Msg ''sets a whole value that other fields set members of'' [])
            else if rn_field nxt \<noteq> None then fail_at p 0 (Msg ''is set twice (also as %q)'' [Str (rn_path nxt)])
            else Inr (attach (slot_of cur s) (set_field f nxt) cur))
         else if rn_field nxt \<noteq> None
         then fail_at p 0 (Msg ''conflicts with %q which sets the whole value'' [Str (rn_path nxt)])
         else (case insert_field nodes False p f ss nxt of Inl e \<Rightarrow> Inl e | Inr m \<Rightarrow> Inr (attach (slot_of cur s) m cur)))"
  by (simp add: Let_def next_of_def)

declare insert_field.simps(2) [simp del]

lemma extendsD:
  "extends_at pl q cur sl nxt \<Longrightarrow> fits q m \<Longrightarrow> rn_path m = rn_path nxt \<Longrightarrow> rn_label m = rn_label nxt \<Longrightarrow>
     set (flat m) = F \<union> set (flat nxt) \<Longrightarrow> fits pl (attach sl m cur) \<and> set (flat (attach sl m cur)) = F \<union> set (flat cur)"
  by (auto simp: extends_at_def)

lemma insert_fits:
  assumes "open_at pl cur" "rn_field cur = None" "reach pl sgs = Some q" "sgs \<noteq> []" "field_fits q f"
    and "pl = Top nodes \<and> r \<or> (\<nexists>ns. pl = Top ns) \<and> \<not> r" "insert_field nodes r p f sgs cur = Inr t"
  shows "fits pl t \<and> rn_field t = None \<and> set (flat t) = insert (seg_path (rn_path cur) sgs, f) (set (flat cur))"
  using assms
proof (induction sgs arbitrary: pl cur r t)
  case (Cons s ss)
  let ?n = "next_of nodes r cur s"
  from Cons.prems(3) obtain pl' where pl': "go pl s = Some pl'" "reach pl' ss = Some q" by (auto split: option.splits)
  from step_any [OF Cons.prems(1,2) pl'(1) Cons.prems(6)] have st: "open_at pl' ?n" "rn_path ?n = below (rn_path cur) s"
    "extends_at pl pl' cur (slot_of cur s) ?n" "\<nexists>ns. pl' = Top ns" by auto
  show ?case
  proof (cases "ss = []")
    case True
    with Cons.prems(7) have leaf: "rn_kind ?n = Leaf_kind" "rn_field ?n = None" and t: "t = attach (slot_of cur s) (set_field f ?n) cur"
      by (auto simp: insert_field_next Let_def split: if_splits)
    have b: "blank ?n" using open_leaf [OF st(1) leaf] .
    have "fits pl' (set_field f ?n)"
      using st(1,4) b True pl'(2) Cons.prems(5) by (intro fits.leaf) (auto simp: open_at_def blank_def)
    moreover have "set (flat (set_field f ?n)) = {(rn_path ?n, f)} \<union> set (flat ?n)"
      using b by (simp add: flat_eq [of "set_field f ?n"] flat_blank)
    ultimately show ?thesis
      using extendsD [OF st(3), of "set_field f ?n" "{(rn_path ?n, f)}"] t True st(2) Cons.prems(2) by (simp add: seg_path_def)
  next
    case False
    with Cons.prems(7) obtain m where m: "rn_field ?n = None" "insert_field nodes False p f ss ?n = Inr m"
      and t: "t = attach (slot_of cur s) m cur"
      by (auto simp: insert_field_next Let_def split: if_splits sum.splits)
    from Cons.IH [OF st(1) m(1) pl'(2) False Cons.prems(5) _ m(2)] st(4)
    have "fits pl' m" "set (flat m) = {(seg_path (rn_path ?n) ss, f)} \<union> set (flat ?n)" by auto
    with extendsD [OF st(3), of m "{(seg_path (rn_path ?n) ss, f)}"] insert_field_sel [OF m(2)] t st(2) Cons.prems(2) show ?thesis
      by (simp add: seg_path_def)
  qed
qed simp

text \<open>Where insertion fails, two of the paths are nested.\<close>

definition nested :: "string \<Rightarrow> string \<Rightarrow> bool" where
  \<comment> \<open>the second path lies inside the first\<close>
  "nested p q \<longleftrightarrow> p = [] \<or> has_prefix q (p @ ''.'') \<or> has_prefix q (p @ ''['')"

lemma nested_paths [simp]:
  "nested p (join_path p k)" "nested p (elem_path p i)" "nested p (entry_path p k)"
  by (auto simp: nested_def join_path_def elem_path_def entry_path_def has_prefix_iff)

lemma below_nested [simp]: "nested p (below p s)"
  by (auto simp: nested_def below_def join_path_def has_prefix_iff)

lemma nested_trans: "nested p q \<Longrightarrow> nested q r \<Longrightarrow> nested p r"
  by (auto simp: nested_def has_prefix_iff prefix_def)

lemma seg_path_nested: "sgs \<noteq> [] \<Longrightarrow> nested p (seg_path p sgs)"
proof (induction sgs rule: rev_induct)
  case (snoc s ss)
  then show ?case
    by (cases "ss = []") (auto simp: seg_path_def intro: nested_trans [OF _ below_nested])
qed simp

lemma fits_paths: "fits pl n \<Longrightarrow> flat n \<noteq> [] \<and> (\<forall>x \<in> set (flat n). fst x = rn_path n \<or> nested (rn_path n) (fst x))"
proof (induction rule: fits.induct)
  case (leaf pl n f)
  then show ?case by (simp add: flat_eq)
next
  case (obj pl n ms)
  have "nested (rn_path n) (fst x)" if "c \<in> set (rn_children n)" "x \<in> set (flat c)" for c x
  proof -
    from obj(8) [OF that(1)] that(2) have "rn_path c = join_path (rn_path n) (rn_label c)" "fst x = rn_path c \<or> nested (rn_path c) (fst x)" by auto
    then show ?thesis using nested_trans [of "rn_path n" "rn_path c"] nested_paths(1) [of "rn_path n" "rn_label c"] by auto
  qed
  with obj show ?case by (fastforce simp: flat_eq neq_Nil_conv)
next
  case (entries sn n)
  have "nested (rn_path n) (fst x)" if "c \<in> set (rn_children n)" "x \<in> set (flat c)" for c x
  proof -
    from entries(8) [OF that(1)] that(2) have "rn_path c = entry_path (rn_path n) (rn_label c)" "fst x = rn_path c \<or> nested (rn_path c) (fst x)" by auto
    then show ?thesis using nested_trans [of "rn_path n" "rn_path c"] nested_paths(3) [of "rn_path n" "rn_label c"] by auto
  qed
  with entries show ?case by (fastforce simp: flat_eq neq_Nil_conv)
next
  case (items sn n)
  have "nested (rn_path n) (fst x)" if "(i, c) \<in> set (rn_elems n)" "x \<in> set (flat c)" for i c x
  proof -
    from items(9) [OF that(1)] that(2) have "rn_path c = elem_path (rn_path n) i" "fst x = rn_path c \<or> nested (rn_path c) (fst x)" by auto
    then show ?thesis using nested_trans [of "rn_path n" "rn_path c"] nested_paths(2) [of "rn_path n" i] by auto
  qed
  moreover obtain i c es where es: "rn_elems n = (i, c) # es" using items(5) by (cases "rn_elems n") auto
  then have "flat c \<noteq> []" using items(9) [of i c] by simp
  then have "set (flat n) \<noteq> {}" using flat_kids [OF items(2)] items(3) es by (simp add: kids_def)
  moreover have "x \<in> set (flat n) \<Longrightarrow> \<exists>i c. (i, c) \<in> set (rn_elems n) \<and> x \<in> set (flat c)" for x
    using flat_kids [OF items(2)] items(3) by (simp add: kids_def) (metis prod.collapse)
  ultimately show ?case by fastforce
qed

text \<open>Insertion fails only for a path that is already set, or that is nested with one that is.\<close>

lemma insert_fails:
  assumes "open_at pl cur" "rn_field cur = None" "reach pl sgs = Some q" "sgs \<noteq> []"
    and "pl = Top nodes \<and> r \<or> (\<nexists>ns. pl = Top ns) \<and> \<not> r" "insert_field nodes r p f sgs cur = Inl e"
  shows "\<exists>x \<in> set (flat cur). fst x = seg_path (rn_path cur) sgs \<or> nested (fst x) (seg_path (rn_path cur) sgs) \<or>
    nested (seg_path (rn_path cur) sgs) (fst x)"
  using assms
proof (induction sgs arbitrary: pl cur r)
  case (Cons s ss)
  let ?n = "next_of nodes r cur s"
  from Cons.prems(3) obtain pl' where pl': "go pl s = Some pl'" "reach pl' ss = Some q" by (auto split: option.splits)
  from step_any [OF Cons.prems(1,2) pl'(1) Cons.prems(5)] have st: "open_at pl' ?n" "rn_path ?n = below (rn_path cur) s"
    "extends_at pl pl' cur (slot_of cur s) ?n" "\<nexists>ns. pl' = Top ns" by auto
  have P: "seg_path (rn_path cur) (s # ss) = seg_path (rn_path ?n) ss" by (simp add: seg_path_def st(2))
  have sub: "set (flat ?n) \<subseteq> set (flat cur)"
  proof (cases "look (slot_of cur s) cur")
    case None
    then show ?thesis by (simp add: next_of_def flat_blank)
  next
    case (Some n)
    then have "n \<in> kids cur \<or> rn_kind cur \<noteq> Seq_kind \<and> rn_elems cur \<noteq> [] \<or> rn_kind cur = Seq_kind \<and> rn_children cur \<noteq> []"
      by (cases "slot_of cur s") (auto simp: look_def kids_def find_Some_iff in_set_conv_nth dest!: map_of_SomeD intro: image_eqI [rotated])
    moreover have "\<not> (rn_kind cur \<noteq> Seq_kind \<and> rn_elems cur \<noteq> []) \<and> \<not> (rn_kind cur = Seq_kind \<and> rn_children cur \<noteq> [])"
      using Cons.prems(1) by (auto simp: open_at_def blank_def elim: fits.cases)
    ultimately have "n \<in> kids cur" by blast
    then show ?thesis using flat_kids [OF Cons.prems(2)] Some by (auto simp: next_of_def)
  qed
  show ?case
  proof (cases "ss = []")
    case True
    with Cons.prems(6) have "\<not> blank ?n" by (auto simp: insert_field_next Let_def blank_def split: if_splits)
    with st(1) have "fits pl' ?n" by (simp add: open_at_def)
    from fits_paths [OF this] obtain x where x: "x \<in> set (flat ?n)" "fst x = rn_path ?n \<or> nested (rn_path ?n) (fst x)"
      by (cases "flat ?n") auto
    with sub P True show ?thesis by (auto simp: seg_path_def)
  next
    case False
    show ?thesis
    proof (cases "rn_field ?n")
      case (Some g)
      then have "(rn_path ?n, g) \<in> set (flat cur)" using sub by (auto simp: flat_eq [of ?n])
      with seg_path_nested [OF False, of "rn_path ?n"] P show ?thesis by force
    next
      case None
      with Cons.prems(6) False have "insert_field nodes False p f ss ?n = Inl e"
        by (auto simp: insert_field_next Let_def split: if_splits sum.splits)
      from Cons.IH [OF st(1) None pl'(2) False _ this] st(4) sub P show ?thesis by auto
    qed
  qed
qed simp

text \<open>All paths.\<close>

lemma insert_all_fits:
  assumes "list_all (\<lambda>p. case map_of fs p of None \<Rightarrow> True | Some f \<Rightarrow> settable nodes p f) ps"
    and "open_at (Top nodes) t" "rn_field t = None" "distinct ps" "list_all (\<lambda>p. map_of fs p \<noteq> None) ps"
    and "fst ` set (flat t) \<inter> set ps = {}" "pairwise (\<lambda>p q. \<not> nested p q) (fst ` set (flat t) \<union> set ps)"
  shows "\<exists>t'. insert_all nodes fs ps t = Inr t' \<and> open_at (Top nodes) t' \<and> rn_field t' = None \<and>
    set (flat t') = set (flat t) \<union> {(p, f) | p f. p \<in> set ps \<and> map_of fs p = Some f}"
  using assms
proof (induction ps arbitrary: t)
  case (Cons p ps)
  from Cons.prems(1,5) obtain f where f: "map_of fs p = Some f" "settable nodes p f" by auto
  then obtain sgs q where sg: "tokenize p = Inr sgs" "reach (Top nodes) sgs = Some q" "seg_path [] sgs = p" "field_fits q f"
    by (auto simp: settable_def split: sum.splits option.splits)
  have ne: "sgs \<noteq> []" using sg(1) by (auto simp: tokenize_def split: option.splits if_splits)
  have root: "rn_path t = []" using Cons.prems(2) by (simp add: open_at_def placed_def)
  show ?case
  proof (cases "insert_field nodes True p f sgs t")
    case (Inl e)
    from insert_fails [OF Cons.prems(2,3) sg(2) ne _ Inl] obtain x where
      x: "x \<in> set (flat t)" "fst x = p \<or> nested (fst x) p \<or> nested p (fst x)" by (auto simp: root sg(3))
    with Cons.prems(6,7) show ?thesis by (auto simp: pairwise_def)
  next
    case (Inr t1)
    from insert_fits [OF Cons.prems(2,3) sg(2) ne sg(4) _ Inr] have
      t1: "fits (Top nodes) t1" "rn_field t1 = None" "set (flat t1) = insert (p, f) (set (flat t))"
      by (auto simp: root sg(3))
    have "open_at (Top nodes) t1" using t1(1) fits_placed by (simp add: open_at_def)
    moreover have "fst ` set (flat t1) \<inter> set ps = {}" using Cons.prems(4,6) t1(3) by auto
    moreover have "pairwise (\<lambda>p q. \<not> nested p q) (fst ` set (flat t1) \<union> set ps)"
      using Cons.prems(7) by (rule pairwise_subset) (auto simp: t1(3))
    ultimately obtain t' where "insert_all nodes fs ps t1 = Inr t'" "open_at (Top nodes) t'" "rn_field t' = None"
      "set (flat t') = set (flat t1) \<union> {(p, f) | p f. p \<in> set ps \<and> map_of fs p = Some f}"
      using Cons.IH [of t1] Cons.prems(1,4,5) t1(2) by auto
    with Inr sg(1) f t1(3) show ?thesis by auto
  qed
qed simp

section \<open>The round trip of trees\<close>

lemma puts_map_of: "map_of (puts fs out) p = (case map_of (rev fs) p of Some f \<Rightarrow> Some f | None \<Rightarrow> map_of out p)"
  by (induction fs arbitrary: out) (auto simp: update_conv' map_add_def split: option.split)

lemma puts_functional:
  assumes "set L = set fs" "distinct (map fst fs)"
  shows "map_of (puts L []) = map_of fs"
proof
  fix p
  show "map_of (puts L []) p = map_of fs p"
  proof (cases "map_of (rev L) p")
    case None
    then have "p \<notin> fst ` set fs" using assms(1) by (metis map_of_eq_None_iff set_rev)
    with None show ?thesis by (simp add: puts_map_of map_of_eq_None_iff [THEN iffD2])
  next
    case (Some f)
    then have "(p, f) \<in> set fs" using assms(1) by (metis map_of_SomeD set_rev)
    with Some assms(2) show ?thesis by (simp add: puts_map_of)
  qed
qed

lemma render_walk:
  assumes "gomap_ok fs" "list_all (\<lambda>(p, f). settable nodes p f) fs" "pairwise (\<lambda>p q. \<not> nested p q) (fst ` set fs)"
  shows "\<exists>y ms. render_tree nodes fs = Inr y \<and> deref y = y \<and> members_of y = Some ms \<and>
    (\<forall>rooted. \<exists>out. walkObject rooted ms [] nodes [] [] = Inr out \<and> map_of out = map_of fs)"
proof -
  have blank: "blank (newNode [] [] None)" by (simp add: newNode_def blank_def)
  then have flat0: "flat (newNode [] [] None) = []" by (rule flat_blank)
  have all: "list_all (\<lambda>p. case map_of fs p of None \<Rightarrow> True | Some f \<Rightarrow> settable nodes p f) (sorted_keys fs)"
    using assms(2) by (auto simp: list_all_iff split: option.split dest!: map_of_SomeD)
  have open0: "open_at (Top nodes) (newNode [] [] None)" using blank by (simp add: open_at_def placed_def newNode_def)
  have dom: "list_all (\<lambda>p. map_of fs p \<noteq> None) (sorted_keys fs)" by (force simp: list_all_iff map_of_eq_None_iff)
  obtain t where t: "insert_all nodes fs (sorted_keys fs) (newNode [] [] None) = Inr t" "open_at (Top nodes) t" "rn_field t = None"
    "set (flat t) = {(p, f) | p f. p \<in> set (sorted_keys fs) \<and> map_of fs p = Some f}"
    using insert_all_fits [OF all open0 _ distinct_sorted_keys [OF assms(1)] dom] assms(3) flat0 by (auto simp: newNode_def)
  have set: "set (flat t) = set fs"
    using assms(1) unfolding t(4) by (force simp: gomap_ok_def dest: map_of_SomeD)
  have "\<exists>ms. members_of (toYAML True t) = Some ms \<and> (\<forall>rooted. walkObject rooted ms [] nodes [] [] = Inr (puts (flat t) []))"
  proof (cases "blank t")
    case True
    then show ?thesis by (simp add: toYAML_eq blank_def flat_blank [OF True])
  next
    case False
    with t(2) have "reads (Top nodes) t" using fits_reads by (simp add: open_at_def)
    then show ?thesis unfolding reads_def place.case by (metis option.inject)
  qed
  moreover have "map_of (puts (flat t) []) = map_of fs"
    using set assms(1) by (intro puts_functional) (simp_all add: gomap_ok_def)
  ultimately show ?thesis using t(1) by (auto simp: render_tree_def)
qed

section \<open>Lines and style\<close>

text \<open>Text keeps a tree up to its lines and its style, and these decide nothing but the line an
  error names.\<close>

primrec strip :: "ynode \<Rightarrow> ynode" where
  "strip (YScalar t v l) = YScalar t v 0"
| "strip (YMap ms fl l) = YMap (map (map_prod strip strip) ms) False 0"
| "strip (YSeq ys fl l) = YSeq (map strip ys) False 0"
| "strip (YAlias a y l) = YAlias a (strip y) 0"

abbreviation "strips \<equiv> map (map_prod strip strip)"

definition forget :: "manifest_error + 'a \<Rightarrow> manifest_error + 'a" where
  "forget x = map_sum (\<lambda>e. e\<lparr>me_line := 0\<rparr>) id x"

lemma forget_simps [simp]:
  "forget (Inl e) = Inl (e\<lparr>me_line := 0\<rparr>)" "forget (Inr v) = Inr v" "forget (fail_at p l m) = fail_at p 0 m"
  by (simp_all add: forget_def)

lemma strip_simps [simp]:
  "y_value (strip y) = y_value y" "y_tag (strip y) = y_tag y" "y_line (strip y) = 0" "is_scalar (strip y) = is_scalar y"
  "isNull (strip y) = isNull y" "isMergeKey (strip y) = isMergeKey y"
  "members_of (strip y) = map_option strips (members_of y)" "items_of (strip y) = map_option (map strip) (items_of y)"
  by (cases y; simp add: isNull_def isMergeKey_def)+

lemma strip_deref [simp]: "deref (strip y) = strip (deref y)"
  by (induction y rule: deref.induct) simp_all

lemma strip_wrapper [simp]: "wrapper (strip y) mem = map_sum (\<lambda>(l, m). (0, m)) id (wrapper y mem)"
proof (cases y)
  case (YMap ms fl l)
  have keys: "list_ex (\<lambda>(k, _). P (y_value k)) (strips ms) = list_ex (\<lambda>(k, _). P (y_value k)) ms"
    "list_all (\<lambda>(k, _). P (y_value k)) (strips ms) = list_all (\<lambda>(k, _). P (y_value k)) ms" for P
    by (induction ms) auto
  show ?thesis
  proof (cases ms)
    case (Cons kv ms')
    with keys [of "\<lambda>v. v \<notin> set wrapperKeys"] keys [of mem] YMap show ?thesis
      by (cases kv) (auto simp: wrapper_def Let_def simp del: wrapper_keys)
  qed (simp add: YMap wrapper_def)
qed (simp_all add: wrapper_def)

lemma strip_literal [simp]: "check_literal (strip v) sn path = forget (check_literal v sn path)"
  by (simp add: check_literal_def)

lemma strip_parts [simp]: "list_parts path (map strip ys) = forget (list_parts path ys)"
  by (induction ys) (auto simp: Let_def split: sum.splits)

lemma strip_walkMap [simp]: "walkMap (strips ms) seen path out = forget (walkMap ms seen path out)"
proof (induction ms seen path out rule: walkMap.induct)
  case (2 k ev ms seen path out)
  then show ?case
    by (cases "wrapper (deref ev) noMember") (auto simp: Let_def split: option.splits)
qed simp

lemma strip_walk:
  "walkObject rooted (strips ms) seen children pre out = forget (walkObject rooted ms seen children pre out)"
  "walkValue rooted (strip v) sn path out = forget (walkValue rooted v sn path out)"
  "walkElems rooted (map strip ys) i sn path out = forget (walkElems rooted ys i sn path out)"
proof (induction rooted ms seen children pre out and rooted v sn path out and rooted ys i sn path out
    rule: walkObject_walkValue_walkElems.induct)
  case (2 rooted k v ms seen children pre out)
  then show ?case
    by (auto simp: Let_def split: option.split sum.split)
next
  case (3 rooted v0 sn path out)
  let ?v = "deref v0"
  show ?case
  proof (cases "wrapper ?v (memberOf sn)")
    case (Inl lm)
    then show ?thesis by (cases lm) (simp add: walkValue.simps Let_def)
  next
    case (Inr o1)
    show ?thesis
    proof (cases o1)
      case (Some f)
      with Inr show ?thesis by (simp add: walkValue.simps Let_def)
    next
      case None
      with Inr 3 show ?thesis
        by (auto simp: walkValue.simps [of rooted "strip v0"] walkValue.simps [of rooted v0] Let_def split: option.split sum.split)
    qed
  qed
next
  case (5 rooted item0 items i sn path out)
  show ?case
  proof (cases "wrapper (deref item0) (\<lambda>k. childSchema (n_children sn) k \<noteq> None)")
    case (Inl lm)
    with 5 show ?thesis by (cases lm) (auto simp: Let_def)
  next
    case (Inr o1)
    with 5 show ?thesis
      by (cases o1) (auto simp: Let_def split: option.split sum.split)
  qed
qed simp_all

end
