(* ===== verification/Manifest_Claims.thy ===== *)
theory Manifest_Claims
  imports Manifest_Props
begin

text \<open>
  The property of the manifest view (\<open>internal/manifest/manifest.go\<close>): the text shown for a field
  map parses back to it.
\<close>

definition yaml_keeps :: "(ynode \<Rightarrow> msg + string) \<Rightarrow> (string \<Rightarrow> (string + ydoc) list) \<Rightarrow> ynode \<Rightarrow> bool" where
  \<comment> \<open>the codec writes a tree as one document and reads it back, up to lines and style\<close>
  "yaml_keeps encode decode y \<longleftrightarrow>
     (case encode y of
        Inl _ \<Rightarrow> False
      | Inr text \<Rightarrow>
          (case decode text of
             [Inr doc] \<Rightarrow> (case yd_body doc of Some y' \<Rightarrow> strip y' = strip y | None \<Rightarrow> False)
           | _ \<Rightarrow> False))"

lemma yaml_keepsE:
  assumes "yaml_keeps encode decode y"
  obtains tx doc y' where "encode y = Inr tx" "decode tx = [Inr doc]" "yd_body doc = Some y'" "strip y' = strip y"
proof -
  from assms obtain tx where e: "encode y = Inr tx" by (cases "encode y") (auto simp: yaml_keeps_def)
  with assms obtain r rs where d: "decode tx = r # rs" by (cases "decode tx") (auto simp: yaml_keeps_def)
  with e assms have rs: "rs = []" by (cases r; cases rs) (auto simp: yaml_keeps_def)
  with e d assms obtain doc where r: "r = Inr doc" by (cases r) (auto simp: yaml_keeps_def)
  with e d rs assms obtain y' where "yd_body doc = Some y'" "strip y' = strip y"
    by (cases "yd_body doc") (auto simp: yaml_keeps_def)
  with e d rs r show ?thesis by (blast intro: that)
qed

definition unnested :: "string list \<Rightarrow> bool" where
  "unnested ps \<longleftrightarrow> list_all (\<lambda>p. list_all (\<lambda>q. p = q \<or> \<not> nested p q) ps) ps"

lemma parse_stripped:
  assumes "strip y' = strip y" "deref y = y" "members_of y = Some ms" "walkObject rooted ms [] nodes [] [] = Inr out"
  shows "\<exists>ms'. members_of (deref y') = Some ms' \<and> walkObject rooted ms' [] nodes [] [] = Inr out \<and> \<not> isNull (deref y')"
proof -
  have "strip (deref y') = strip y" using assms(1,2) strip_deref [of y'] strip_deref [of y] by simp
  then have mem: "map_option strips (members_of (deref y')) = Some (strips ms)"
    using strip_simps(7) [of "deref y'"] strip_simps(7) [of y] assms(3) by simp
  then obtain ms' where ms': "members_of (deref y') = Some ms'" "strips ms' = strips ms" by auto
  then have "forget (walkObject rooted ms' [] nodes [] []) = Inr out"
    using strip_walk(1) [of rooted ms' "[]" nodes "[]" "[]"] strip_walk(1) [of rooted ms "[]" nodes "[]" "[]"] assms(4) by simp
  then have "walkObject rooted ms' [] nodes [] [] = Inr out"
    by (cases "walkObject rooted ms' [] nodes [] []") simp_all
  moreover have "\<not> isNull (deref y')" using ms'(1) by (cases "deref y'") (simp_all add: isNull_def)
  ultimately show ?thesis using ms'(1) by blast
qed

text \<open>C10: The manifest text of a field map parses back to it: when every path is a declared
  position spelled canonically, every field is one wrapper or one literal its position can hold,
  and no path lies inside another, \<open>Render\<close> succeeds, and parsing its text, in either rooting,
  gives the same fields, whatever keys the maps and objects have.\<close>

theorem Render_Parse_roundtrip:
  assumes "gomap_ok fs" "list_all (\<lambda>(p, f). settable nodes p f) fs" "unnested (map fst fs)"
    and "case render_tree nodes fs of Inl _ \<Rightarrow> True | Inr y \<Rightarrow> yaml_keeps encode decode y"
  shows "\<exists>text out. Render encode nodes fs = Inr text \<and> ParseWith decode nodes text rooted = Inr out \<and> map_of out = map_of fs"
proof -
  have "pairwise (\<lambda>p q. \<not> nested p q) (fst ` set fs)"
    using assms(3) by (auto simp: unnested_def pairwise_def list_all_iff)
  from render_walk [OF assms(1,2) this] obtain y ms out where
    y: "render_tree nodes fs = Inr y" "deref y = y" "members_of y = Some ms"
    and out: "walkObject rooted ms [] nodes [] [] = Inr out" "map_of out = map_of fs" by blast
  from assms(4) y(1) obtain tx doc y' where cod: "encode y = Inr tx" "decode tx = [Inr doc]"
    "yd_body doc = Some y'" "strip y' = strip y"
    by (auto elim: yaml_keepsE)
  from parse_stripped [OF cod(4) y(2,3) out(1)] y(1) cod out(2) show ?thesis
    by (auto simp: Render_def ParseWith_def Let_def)
qed

text \<open>The witness: entries and members named like wrappers, an element after a gap, a list.\<close>

abbreviation sample_leaf :: "string \<Rightarrow> string \<Rightarrow> node" where
  "sample_leaf nm ty \<equiv> Node nm ty [] False [] False [] JNull None None []"

definition sample_nodes :: "node list" where
  "sample_nodes = [Node ''spec'' ''object'' [] True
     [sample_leaf ''replicas'' ''integer'', sample_leaf ''labels'' ''map'', sample_leaf ''zones'' ''array'',
      Node ''containers'' ''array'' [] False [sample_leaf ''value'' ''string'', sample_leaf ''image'' ''string''] False [] JNull None None []]
     True [] JNull None None []]"

definition sample_fields :: "field gomap" where
  "sample_fields =
     [(''spec.replicas'', value_field ''3''), (''spec.labels[from]'', value_field ''x''), (''spec.zones'', value_field ''a,b''),
      (''spec.containers[1].value'', value_field ''nginx''), (''spec.containers[3]'', wrapped ''raw'' ''{}'')]"

definition sample_decode :: "string \<Rightarrow> (string + ydoc) list" where
  "sample_decode text = (case render_tree sample_nodes sample_fields of
     Inr y \<Rightarrow> [Inr \<lparr>yd_line = 1, yd_body = Some (strip y)\<rparr>] | Inl _ \<Rightarrow> [])"

lemma strip_idem [simp]: "strip (strip y) = strip y"
  by (induction y) (auto simp: fsts.simps snds.simps)

theorem Render_Parse_roundtrip_witness:
  "list_all (\<lambda>(p, f). settable sample_nodes p f) sample_fields \<and>
   (\<exists>text out. Render (\<lambda>y. Inr ''text'') sample_nodes sample_fields = Inr text \<and>
      ParseWith sample_decode sample_nodes text True = Inr out \<and> map_of out = map_of sample_fields)"
proof -
  have ok: "gomap_ok sample_fields" "list_all (\<lambda>(p, f). settable sample_nodes p f) sample_fields" "unnested (map fst sample_fields)"
    by (code_simp, code_simp, code_simp)
  have "case render_tree sample_nodes sample_fields of Inl _ \<Rightarrow> True
      | Inr y \<Rightarrow> yaml_keeps (\<lambda>y. Inr ''text'') sample_decode y"
    by (simp add: yaml_keeps_def sample_decode_def split: sum.split)
  from Render_Parse_roundtrip [OF ok this, of True] ok(2) show ?thesis by blast
qed

end

