(* ===== verification/EmitDoc.thy ===== *)
theory EmitDoc
  imports BlueprintTypes GoQuote
begin

text \<open>
  Writing documents (\<open>internal/emit/yaml.go\<close>): a \<open>Doc\<close> is the list of its \<open>Line\<close> calls, each an
  indent level and a formatted text; \<open>Bytes\<close> is the file they make. Then the scalars, keys and
  default expressions every emitter shares, and the sequencing of steps that may fail.
\<close>

named_theorems emit_simps \<open>when a step of an emitter succeeds\<close>

section \<open>Steps that may fail\<close>

definition bind_err :: "'e + 'a \<Rightarrow> ('a \<Rightarrow> 'e + 'b) \<Rightarrow> 'e + 'b" where
  "bind_err m f = (case m of Inl e \<Rightarrow> Inl e | Inr x \<Rightarrow> f x)"

definition wrap_err :: "('e \<Rightarrow> 'f) \<Rightarrow> 'e + 'a \<Rightarrow> 'f + 'a" where
  \<comment> \<open>\<open>fmt.Errorf\<close> around an error\<close>
  "wrap_err w m = (case m of Inl e \<Rightarrow> Inl (w e) | Inr x \<Rightarrow> Inr x)"

definition check_err :: "'e option \<Rightarrow> 'e + unit" where
  "check_err c = (case c of Some e \<Rightarrow> Inl e | None \<Rightarrow> Inr ())"

fun map_err :: "('a \<Rightarrow> 'e + 'b) \<Rightarrow> 'a list \<Rightarrow> 'e + 'b list" where
  "map_err f [] = Inr []"
| "map_err f (x # xs) = bind_err (f x) (\<lambda>y. bind_err (map_err f xs) (\<lambda>ys. Inr (y # ys)))"

lemma bind_err_simps [simp]: "bind_err (Inl e) f = Inl e" "bind_err (Inr x) f = f x"
  by (simp_all add: bind_err_def)

lemma bind_err_Inr [emit_simps]: "bind_err m f = Inr y \<longleftrightarrow> (\<exists>x. m = Inr x \<and> f x = Inr y)"
  by (cases m) simp_all

lemma wrap_err_Inr [emit_simps]: "wrap_err w m = Inr x \<longleftrightarrow> m = Inr x"
  by (cases m) (simp_all add: wrap_err_def)

lemma wrap_err_simps [simp]: "wrap_err w (Inl e) = Inl (w e)" "wrap_err w (Inr x) = Inr x"
  by (simp_all add: wrap_err_def)

lemma check_err_Inr [emit_simps]: "check_err c = Inr u \<longleftrightarrow> c = None"
  by (cases c) (simp_all add: check_err_def)

lemma map_err_Inr: "map_err f xs = Inr ys \<longleftrightarrow> map f xs = map Inr ys"
  by (induction xs arbitrary: ys) (auto simp: bind_err_Inr Cons_eq_map_conv)

lemma map_err_mem: "map_err f xs = Inr ys \<Longrightarrow> y \<in> set ys \<Longrightarrow> \<exists>x \<in> set xs. f x = Inr y"
  by (induction xs arbitrary: ys) (auto simp: bind_err_Inr)

lemma bind_err_cong [fundef_cong]:
  "m = m' \<Longrightarrow> (\<And>x. m' = Inr x \<Longrightarrow> f x = g x) \<Longrightarrow> bind_err m f = bind_err m' g"
  by (cases m') auto

lemma wrap_err_cong [fundef_cong]: "w = w' \<Longrightarrow> m = m' \<Longrightarrow> wrap_err w m = wrap_err w' m'"
  by simp

lemma map_err_cong [fundef_cong]:
  "xs = ys \<Longrightarrow> (\<And>x. x \<in> set ys \<Longrightarrow> f x = g x) \<Longrightarrow> map_err f xs = map_err g ys"
proof (induction ys arbitrary: xs)
  case (Cons y ys)
  then show ?case by (auto intro: bind_err_cong)
qed simp

section \<open>Documents\<close>

type_synonym line = "nat \<times> string"

definition line_text :: "line \<Rightarrow> string" where
  "line_text = (\<lambda>(indent, t).
     if t = [] then [CHR 0x0A]
     else concat (replicate indent ''  '') @ trim_right_set t [CHR '' '', CHR 0x09] @ [CHR 0x0A])"

definition Comment :: "string \<Rightarrow> line" where
  "Comment t = (0, ''# '' @ t)"

definition Bytes :: "line list \<Rightarrow> string" where
  "Bytes d = trim_right_set (replace_all (concat (map line_text d)) [CHR 0x0D, CHR 0x0A] [CHR 0x0A]) [CHR 0x0A] @ [CHR 0x0A]"

definition header :: "string \<Rightarrow> line list" where
  "header src =
     [Comment ''Generated by compositionfactory. Do not edit.'',
      Comment (''Source: '' @ src),
      Comment ''Regenerate with: cf gen'']"

definition blueprintSource :: "blueprint \<Rightarrow> string" where
  "blueprintSource b = (if b_metaName b \<noteq> [] then b_metaName b else ''blueprint'')"

section \<open>Scalars and keys\<close>

definition quoteYAML :: "string \<Rightarrow> string" where
  "quoteYAML s = [CHR 0x27] @ replace_all s [CHR 0x27] [CHR 0x27, CHR 0x27] @ [CHR 0x27]"

definition key_keywords :: "string list" where
  "key_keywords = [''true'', ''false'', ''yes'', ''no'', ''on'', ''off'', ''null'', ''y'', ''n'', ''~'']"

definition key_specials :: string where
  "key_specials = ''/: '' @ [CHR 0x09, CHR 0x0A, CHR 0x0D, CHR 0x22, CHR 0x27] @ ''#@'' @ ''{}[]!*?|<>&%,'' @ [CHR 0x60]"

definition formatYAMLKey :: "string \<Rightarrow> string" where
  "formatYAMLKey k =
     (if k = [] \<or> to_lower k \<in> set key_keywords \<or> list_ex (\<lambda>c. c \<in> set key_specials) k \<or> has_prefix k ''-''
      then quoteYAML k else k)"

definition formatKey :: "string \<Rightarrow> string" where
  "formatKey k = formatYAMLKey k"

definition numeric_types :: "string list" where
  "numeric_types = [''integer'', ''number'', ''boolean'']"

definition formatEnvDefault :: "printable \<Rightarrow> env_key \<Rightarrow> string" where
  "formatEnvDefault ip k = (if k_type k \<in> set numeric_types then k_default k else go_quote ip (k_default k))"

definition envDefaultExpr :: "printable \<Rightarrow> string \<Rightarrow> env_key \<Rightarrow> string" where
  "envDefaultExpr ip envKey envDecl =
     (let defVal = formatEnvDefault ip envDecl in
      if k_type envDecl \<in> set numeric_types
      then ''ternary (index $env '' @ go_quote ip envKey @ '') '' @ defVal @ '' (hasKey $env '' @ go_quote ip envKey @ '')''
      else ''default '' @ defVal @ '' (index $env '' @ go_quote ip envKey @ '')'')"

section \<open>Reading a quoted scalar back\<close>

fun unquote_body :: "string \<Rightarrow> (string \<times> string) option" where
  \<comment> \<open>the rest of a single-quoted YAML scalar, and the text after it\<close>
  "unquote_body [] = None"
| "unquote_body [c] = (if c = CHR 0x27 then Some ([], []) else None)"
| "unquote_body (c # d # s) =
     (if c = CHR 0x27
      then (if d = CHR 0x27 then map_option (\<lambda>(v, r). (c # v, r)) (unquote_body s) else Some ([], d # s))
      else map_option (\<lambda>(v, r). (c # v, r)) (unquote_body (d # s)))"

lemma replace_quote: "replace_all s [CHR 0x27] [CHR 0x27, CHR 0x27] = concat (map (\<lambda>c. if c = CHR 0x27 then [c, c] else [c]) s)"
  by (induction s) simp_all

lemma unquote_doubled:
  assumes "r = [] \<or> hd r \<noteq> CHR 0x27"
  shows "unquote_body (concat (map (\<lambda>c. if c = CHR 0x27 then [c, c] else [c]) s) @ CHR 0x27 # r) = Some (s, r)"
proof (induction s)
  case Nil
  with assms show ?case by (cases r) auto
next
  case (Cons c s)
  then show ?case
    by (cases "concat (map (\<lambda>c. if c = CHR 0x27 then [c, c] else [c]) s) @ CHR 0x27 # r") (auto split: if_splits)
qed

lemma quoteYAML_reads:
  assumes "r = [] \<or> hd r \<noteq> CHR 0x27"
  shows "\<exists>q. quoteYAML s @ r = CHR 0x27 # q \<and> unquote_body q = Some (s, r)"
  using unquote_doubled [OF assms, of s] by (simp add: quoteYAML_def replace_quote)

end
