(* ===== verification/EmitPipeline.thy ===== *)
theory EmitPipeline
  imports EmitDoc Pipeline Crd Closest "HOL-Library.While_Combinator"
begin

text \<open>
  The pipeline around the templating step (\<open>internal/emit/pipeline.go\<close>): the steps that are really
  emitted, with the environment step added where one is needed, and the check of each step's input
  against the schema of its function. The YAML marshaller is a parameter, as is the test whether a
  number is integral.
\<close>

section \<open>Effective steps\<close>

definition defaultPipeline :: "pipeline_step list" where
  "defaultPipeline = [\<lparr>st_name = ''auto-ready'', st_functionRef = ''function-auto-ready'',
     st_package = ''xpkg.upbound.io/crossplane-contrib/function-auto-ready:v0.5.0'', st_input = [], st_position = []\<rparr>]"

definition is_env_step :: "pipeline_step \<Rightarrow> bool" where
  "is_env_step s \<longleftrightarrow> st_functionRef s = EnvironmentConfigsFunctionName"

definition positioned :: "pipeline_step \<Rightarrow> pipeline_step" where
  "positioned s = (if is_env_step s \<and> st_position s = [] then s\<lparr>st_position := PositionBefore\<rparr> else s)"

definition filled :: "string \<Rightarrow> pipeline_step \<Rightarrow> pipeline_step" where
  \<comment> \<open>what an environment step leaves out is filled in\<close>
  "filled inp s =
     s\<lparr>st_input := (if st_input s = [] then inp else st_input s),
       st_package := (if st_package s = [] then EnvironmentConfigsFunctionPackage else st_package s),
       st_position := (if st_position s = [] then PositionBefore else st_position s)\<rparr>"

fun fill_first :: "string \<Rightarrow> pipeline_step list \<Rightarrow> pipeline_step list" where
  "fill_first inp [] = []"
| "fill_first inp (s # ss) = (if is_env_step s then filled inp s # ss else s # fill_first inp ss)"

definition nameTaken :: "pipeline_step list \<Rightarrow> string \<Rightarrow> bool" where
  "nameTaken steps name \<longleftrightarrow> name = TemplatingStepName \<or> list_ex (\<lambda>s. st_name s = name) steps"

definition suffixed :: "nat \<Rightarrow> string" where
  "suffixed k = ''environment-configs-fn-'' @ itoa k"

definition next_suffix :: "pipeline_step list \<Rightarrow> nat option" where
  \<comment> \<open>\<open>for nameTaken(stepName)\<close>, counting from 2; None when the loop never ends\<close>
  "next_suffix steps = while_option (\<lambda>k. nameTaken steps (suffixed k)) Suc 2"

definition env_step_name :: "pipeline_step list \<Rightarrow> string option" where
  "env_step_name steps =
     (if \<not> nameTaken steps EnvironmentConfigsStepName then Some EnvironmentConfigsStepName
      else if \<not> nameTaken steps ''environment-configs-fn'' then Some ''environment-configs-fn''
      else map_option suffixed (next_suffix steps))"

definition env_step :: "string \<Rightarrow> string \<Rightarrow> pipeline_step" where
  "env_step name inp = \<lparr>st_name = name, st_functionRef = EnvironmentConfigsFunctionName,
     st_package = EnvironmentConfigsFunctionPackage, st_input = inp, st_position = PositionBefore\<rparr>"

definition with_environment :: "string \<Rightarrow> blueprint \<Rightarrow> pipeline_step list \<Rightarrow> pipeline_step list option" where
  "with_environment inp b steps =
     (if \<not> HasEnvironment b then Some steps
      else if list_ex is_env_step steps then Some (fill_first inp steps)
      else map_option (\<lambda>name. env_step name inp # steps) (env_step_name steps))"

fun dedup_steps :: "string list \<Rightarrow> pipeline_step list \<Rightarrow> pipeline_step list" where
  "dedup_steps seen [] = []"
| "dedup_steps seen (s # ss) =
     (if st_name s = TemplatingStepName \<or> st_name s \<in> set seen then dedup_steps seen ss
      else s # dedup_steps (st_name s # seen) ss)"

definition effectivePipeline :: "string \<Rightarrow> blueprint \<Rightarrow> pipeline_step list option" where
  \<comment> \<open>the first argument is \<open>EnvironmentConfigsInput\<close> of the blueprint\<close>
  "effectivePipeline inp b =
     (let steps = (if sp_pipeline (b_spec b) = [] then defaultPipeline else sp_pipeline (b_spec b))
      in map_option (dedup_steps []) (with_environment inp b (map positioned steps)))"

definition splitPipeline :: "pipeline_step list \<Rightarrow> pipeline_step list \<times> pipeline_step list" where
  "splitPipeline steps = partition (\<lambda>s. st_position s = PositionBefore) steps"

section \<open>Writing a step\<close>

definition indented :: "nat \<Rightarrow> string \<Rightarrow> line list" where
  \<comment> \<open>the lines of a text without its trailing newlines\<close>
  "indented n body = map (\<lambda>l. (n, l)) (split_on CHR 0x0A (trim_right_set body [CHR 0x0A]))"

definition writePipelineStep :: "yaml_map \<Rightarrow> (yval gomap \<Rightarrow> msg + string) \<Rightarrow> pipeline_step \<Rightarrow> msg + line list" where
  "writePipelineStep yaml marshal s =
     (let head = [(1, ''- step: '' @ st_name s), (2, ''functionRef:''), (3, ''name: '' @ st_functionRef s)] in
      if st_input s = [] then Inr head
      else
        bind_err (wrap_err (\<lambda>err. Msg ''pipeline step %q: input %w'' [Str (st_name s), Ctx err]) (ParsePipelineInput yaml (st_input s))) (\<lambda>v.
        bind_err (wrap_err (\<lambda>err. Msg ''pipeline step %q: re-encode input: %w'' [Str (st_name s), Ctx err]) (marshal v)) (\<lambda>body.
          Inr (head @ [(2, ''input:'')] @ indented 3 body))))"

section \<open>Functions and their schemas\<close>

definition fn_char :: "char \<Rightarrow> bool" where
  "fn_char c \<longleftrightarrow> CHR ''a'' \<le> c \<and> c \<le> CHR ''z'' \<or> is_digit c"

definition normalizeFunctionName :: "string \<Rightarrow> string" where
  "normalizeFunctionName s0 =
     (let s = to_lower s0; s = trim_prefix s ''function-''; s = trim_prefix s ''fn-'';
          s = trim_suffix s ''.fn.crossplane.io''; s = trim_suffix s ''.crossplane.io''
      in filter fn_char s)"

definition similar_names :: "string \<Rightarrow> string \<Rightarrow> bool" where
  \<comment> \<open>the reference is the name, or holds a name that is long enough\<close>
  "similar_names ref name \<longleftrightarrow> ref = name \<or> 3 \<le> length name \<and> contains ref name"

definition matchFunctionCRD :: "string \<Rightarrow> crd \<Rightarrow> bool" where
  "matchFunctionCRD ref c =
     (let r = takeWhile (\<lambda>ch. ch \<noteq> CHR ''@'') ref;
          r = (case last_index CHR '':'' r of Some i \<Rightarrow> take i r | None \<Rightarrow> r);
          r = (case last_index CHR ''/'' r of Some i \<Rightarrow> drop (i + 1) r | None \<Rightarrow> r);
          normRef = normalizeFunctionName r; grp = normalizeFunctionName (crd_group c);
          kd = normalizeFunctionName (crd_kind c); pl = normalizeFunctionName (crd_plural c)
      in normRef \<noteq> [] \<and>
         (grp \<noteq> [] \<and> (similar_names normRef grp \<or> 3 \<le> length normRef \<and> contains grp normRef) \<or>
          kd \<noteq> [] \<and> kd \<noteq> ''input'' \<and> similar_names normRef kd \<or>
          pl \<noteq> [] \<and> pl \<noteq> ''inputs'' \<and> similar_names normRef pl))"

definition findFunctionCRD :: "pipeline_step \<Rightarrow> crd list \<Rightarrow> (crd \<times> version) option" where
  "findFunctionCRD s crds =
     (case List.map_filter (\<lambda>c.
         if \<not> IsFunctionInput c \<and> \<not> crd_function c then None
         else if st_functionRef s \<noteq> [] \<and> matchFunctionCRD (st_functionRef s) c \<or> st_package s \<noteq> [] \<and> matchFunctionCRD (st_package s) c
         then (case Preferred c of Inr v \<Rightarrow> Some (c, v) | Inl _ \<Rightarrow> None)
         else None) crds of
        [] \<Rightarrow> None
      | cv # _ \<Rightarrow> Some cv)"

definition isFunctionCached :: "string \<Rightarrow> crd list \<Rightarrow> bool" where
  "isFunctionCached ref crds =
     (if ref = [] then False else list_ex (\<lambda>c. (IsFunctionInput c \<or> crd_function c) \<and> matchFunctionCRD ref c) crds)"

definition isStandardEnvironmentInput :: "yaml_map \<Rightarrow> string \<Rightarrow> bool" where
  "isStandardEnvironmentInput yaml inp =
     (if trim_space inp = [] then True
      else case ParsePipelineInput yaml inp of
        Inl _ \<Rightarrow> False
      | Inr v \<Rightarrow>
          str_at v ''kind'' \<in> {''Input'', ''EnvironmentConfigs''} \<and>
          (has_prefix (str_at v ''apiVersion'') ''environmentconfigs.fn.crossplane.io'' \<or>
           has_prefix (str_at v ''apiVersion'') ''apiextensions.crossplane.io''))"

section \<open>An input against a schema\<close>

definition input_err :: "string \<Rightarrow> string \<Rightarrow> string \<Rightarrow> marg list \<Rightarrow> msg" where
  "input_err stepName path fmt args = Msg (''pipeline step %q input: field %q'' @ fmt) ([Str stepName, Str path] @ args)"

definition inferred_type :: "(string \<times> jval) list \<Rightarrow> string" where
  "inferred_type schema =
     (let present = (\<lambda>k. case map_of schema k of None \<Rightarrow> False | Some v \<Rightarrow> v \<noteq> JNull); t = as_str (map_of schema ''type'') in
      if t \<noteq> [] then t
      else if present ''properties'' then ''object''
      else if present ''items'' then ''array''
      else if present ''additionalProperties'' then ''map''
      else [])"

definition envelope_keys :: "string list" where
  "envelope_keys = [''apiVersion'', ''kind'', ''metadata'', ''status'']"

definition wrong_type :: "string \<Rightarrow> string \<Rightarrow> string \<Rightarrow> msg" where
  "wrong_type stepName path expected = input_err stepName path '': invalid type: expected %s'' [Str expected]"

definition enum_check :: "(jval \<Rightarrow> string) \<Rightarrow> string \<Rightarrow> string \<Rightarrow> (string \<times> jval) list \<Rightarrow> string \<Rightarrow> msg option" where
  \<comment> \<open>the first argument is \<open>fmt.Sprint\<close>\<close>
  "enum_check sprint stepName path schema s =
     (case map_of schema ''enum'' of
        Some (JList es) \<Rightarrow>
          refuse (es \<noteq> [] \<and> s \<notin> set (map sprint es))
            (input_err stepName path '': invalid value %q: supported values: %s'' [Str s, Strs (map sprint es)])
      | _ \<Rightarrow> None)"

definition join_dot :: "string \<Rightarrow> string \<Rightarrow> string" where
  "join_dot pre k = (if pre \<noteq> [] then pre @ ''.'' @ k else k)"

definition unknown_input :: "string \<Rightarrow> string \<Rightarrow> string \<Rightarrow> string \<Rightarrow> (string \<times> jval) list \<Rightarrow> msg" where
  "unknown_input stepName kind pre k props =
     (let s = ClosestPath k (filter (\<lambda>c. c \<notin> set envelope_keys) (map fst props)) in
      if s \<noteq> [] then input_err stepName (join_dot pre k) '' is not in %s schema; did you mean %q?'' [Str kind, Str (join_dot pre s)]
      else input_err stepName (join_dot pre k) '' is not in %s schema'' [Str kind])"

function validateInputMap :: "(jval \<Rightarrow> string) \<Rightarrow> (string \<Rightarrow> bool) \<Rightarrow> string \<Rightarrow> string \<Rightarrow> string \<Rightarrow> yval gomap \<Rightarrow> (string \<times> jval) list \<Rightarrow> msg option"
  and validateInputValue :: "(jval \<Rightarrow> string) \<Rightarrow> (string \<Rightarrow> bool) \<Rightarrow> string \<Rightarrow> string \<Rightarrow> string \<Rightarrow> yval \<Rightarrow> (string \<times> jval) list \<Rightarrow> msg option" where
  "validateInputMap sprint integral stepName kind pre inMap props =
     check_all (\<lambda>(k, v).
       if k \<in> set envelope_keys then None
       else case map_of props k of
              None \<Rightarrow> Some (unknown_input stepName kind pre k props)
            | Some raw \<Rightarrow>
                (case as_obj (Some raw) of
                   None \<Rightarrow> None
                 | Some schema \<Rightarrow> validateInputValue sprint integral stepName kind (join_dot pre k) v schema)) inMap"
| "validateInputValue sprint integral stepName kind path val schema =
     (if val = YNull then None
      else
        (let t = inferred_type schema in
         if t = ''string'' then
           (case val of YStr s \<Rightarrow> enum_check sprint stepName path schema s | _ \<Rightarrow> Some (wrong_type stepName path ''string''))
         else if t = ''integer'' then
           (case val of YNum n \<Rightarrow> refuse (\<not> integral n) (wrong_type stepName path ''integer'') | _ \<Rightarrow> Some (wrong_type stepName path ''integer''))
         else if t = ''number'' then
           (case val of YNum n \<Rightarrow> None | _ \<Rightarrow> Some (wrong_type stepName path ''number''))
         else if t = ''boolean'' then
           (case val of YBool x \<Rightarrow> None | _ \<Rightarrow> Some (wrong_type stepName path ''boolean''))
         else if t = ''array'' then
           (case val of
              YList vs \<Rightarrow>
                (case as_obj (map_of schema ''items'') of
                   None \<Rightarrow> None
                 | Some items \<Rightarrow> check_all (\<lambda>(i, item).
                     validateInputValue sprint integral stepName kind (path @ ''['' @ itoa i @ '']'') item items) (List.enumerate 0 vs))
            | _ \<Rightarrow> Some (wrong_type stepName path ''array''))
         else if t = ''object'' \<or> t = ''map'' then
           (case val of
              YMap m \<Rightarrow>
                (case as_obj (map_of schema ''properties'') of
                   Some (pr # prs) \<Rightarrow> validateInputMap sprint integral stepName kind path m (pr # prs)
                 | _ \<Rightarrow>
                     (case as_obj (map_of schema ''additionalProperties'') of
                        None \<Rightarrow> None
                      | Some addProps \<Rightarrow> check_all (\<lambda>(k, v).
                          validateInputValue sprint integral stepName kind (path @ ''['' @ k @ '']'') v addProps) m))
            | _ \<Rightarrow> Some (wrong_type stepName path ''object''))
         else None))"
  by pat_completeness auto
termination
  by (relation "measure (\<lambda>x. case x of
       Inl (_, _, _, _, _, m, _) \<Rightarrow> 2 * size (YMap m) - 1
     | Inr (_, _, _, _, _, v, _) \<Rightarrow> 2 * size v)")
    (auto dest!: size_yval_map size_yval_enum)

declare validateInputMap.simps [simp del] validateInputValue.simps [simp del]

definition not_cached_warning :: "yaml_map \<Rightarrow> pipeline_step \<Rightarrow> crd list \<Rightarrow> msg option" where
  \<comment> \<open>a step whose function's schema is not at hand\<close>
  "not_cached_warning yaml s crds =
     (if is_env_step s \<and> (st_input s = [] \<or> isStandardEnvironmentInput yaml (st_input s)) then None
      else if st_input s = [] then
        refuse (st_package s \<noteq> [] \<and> st_functionRef s \<noteq> ''function-auto-ready'' \<and> st_name s \<noteq> ''auto-ready'' \<and>
            \<not> isFunctionCached (st_package s) crds)
          (Msg ''pipeline step %q: function package %q is not cached; run cf function add %s to cache its schema''
            [Str (st_name s), Str (st_package s), Str (st_package s)])
      else
        (let v = (case ParsePipelineInput yaml (st_input s) of Inr v \<Rightarrow> v | Inl _ \<Rightarrow> []);
             apiVersion = str_at v ''apiVersion''; kind = str_at v ''kind'';
             desc = (if apiVersion \<noteq> [] \<and> kind \<noteq> [] then apiVersion @ '' '' @ kind else st_functionRef s);
             target = (if st_package s = [] then st_functionRef s else st_package s)
         in Some (Msg ''pipeline step %q: function %s (package %q) is not cached; input schema validation skipped (run: cf function add %s)''
              [Str (st_name s), Str desc, Str (st_package s), Str target])))"

definition input_group :: "string \<Rightarrow> string" where
  "input_group apiVersion = (case split_on CHR ''/'' apiVersion of [g, _] \<Rightarrow> g | _ \<Rightarrow> apiVersion)"

definition step_input_check :: "(jval \<Rightarrow> string) \<Rightarrow> (string \<Rightarrow> bool) \<Rightarrow> yaml_map \<Rightarrow> pipeline_step \<Rightarrow> crd \<Rightarrow> version \<Rightarrow> msg option" where
  "step_input_check sprint integral yaml s c ver =
     (case ParsePipelineInput yaml (st_input s) of
        Inl err \<Rightarrow> Some (Msg ''pipeline step %q input: %w'' [Str (st_name s), Ctx err])
      | Inr v \<Rightarrow>
          (let apiVersion = str_at v ''apiVersion''; kind = str_at v ''kind'' in
           if crd_group c \<noteq> [] \<and> input_group apiVersion \<noteq> crd_group c \<or> kind \<noteq> crd_kind c
           then Some (Msg ''pipeline step %q input: apiVersion/kind %q/%q does not match expected schema %s/%s for function %q''
                  [Str (st_name s), Str apiVersion, Str kind,
                   Str (case CRD_APIVersion c of Inr a \<Rightarrow> a | Inl _ \<Rightarrow> []), Str (crd_kind c), Str (st_functionRef s)])
           else validateInputMap sprint integral (st_name s) kind [] v (v_properties ver)))"

fun pipeline_inputs :: "(jval \<Rightarrow> string) \<Rightarrow> (string \<Rightarrow> bool) \<Rightarrow> yaml_map \<Rightarrow> crd list \<Rightarrow> pipeline_step list \<Rightarrow> msg + msg list" where
  "pipeline_inputs sprint integral yaml crds [] = Inr []"
| "pipeline_inputs sprint integral yaml crds (s # ss) =
     (case findFunctionCRD s crds of
        None \<Rightarrow>
          bind_err (pipeline_inputs sprint integral yaml crds ss) (\<lambda>ws.
            Inr ((case not_cached_warning yaml s crds of Some w \<Rightarrow> [w] | None \<Rightarrow> []) @ ws))
      | Some (c, ver) \<Rightarrow>
          if st_input s = [] then pipeline_inputs sprint integral yaml crds ss
          else bind_err (check_err (step_input_check sprint integral yaml s c ver)) (\<lambda>_.
                 pipeline_inputs sprint integral yaml crds ss))"

definition ValidatePipelineInputs :: "(jval \<Rightarrow> string) \<Rightarrow> (string \<Rightarrow> bool) \<Rightarrow> yaml_map \<Rightarrow> blueprint \<Rightarrow> crd list \<Rightarrow> msg + msg list" where
  "ValidatePipelineInputs sprint integral yaml b crds = pipeline_inputs sprint integral yaml crds (sp_pipeline (b_spec b))"

end
