(* ===== verification/EmitKinds.thy ===== *)
theory EmitKinds
  imports EmitDoc KindIndex Closest Refs Wires
begin

text \<open>
  Which kind a resource is, and whether the kind has what the blueprint sets
  (\<open>internal/emit/composition.go\<close>): \<open>resolveKind\<close>, \<open>checkFieldPaths\<close>, \<open>conventionFields\<close>,
  \<open>checkStatusRefs\<close>, the status wires and their guards. The trees of a kind are read through its
  memo, which is invisible (\<open>memo_transparent\<close>), so they are read here as the functions the memo
  keeps. Messages follow the convention of the prelude.
\<close>

definition first_seen :: "'a list \<Rightarrow> 'a list" where
  \<comment> \<open>a list built with a set of what it already holds\<close>
  "first_seen xs = rev (remdups (rev xs))"

lemma set_first_seen [simp]: "set (first_seen xs) = set xs"
  by (simp add: first_seen_def)

section \<open>Resolving a kind\<close>

definition matchesProvider :: "string \<Rightarrow> string \<Rightarrow> bool" where
  "matchesProvider grp provider =
     (if provider = [] \<or> provider = NativeProvider \<or> provider = ''cluster'' then True
      else
        (let p = (case last_index CHR ''/'' provider of Some idx \<Rightarrow> drop (idx + 1) provider | None \<Rightarrow> provider);
             p = takeWhile (\<lambda>c. c \<noteq> CHR ''@'') p;
             p = takeWhile (\<lambda>c. c \<noteq> CHR '':'') p;
             p = trim_prefix p ''provider-''
         in if p = ''test'' then True else list_all (contains grp) (split_on CHR ''-'' p)))"

definition objectRooted :: "resource \<Rightarrow> bool" where
  "objectRooted r \<longleftrightarrow> r_provider r = NativeProvider \<or> has_suffix (r_provider r) ''.yaml'' \<or> has_suffix (r_provider r) ''.yml''"

definition same_kind :: "crd list \<Rightarrow> resource \<Rightarrow> crd list" where
  "same_kind crds r = filter (\<lambda>c. crd_kind c = r_kind r) crds"

definition managed :: "crd list \<Rightarrow> resource \<Rightarrow> crd list" where
  "managed crds r = filter (\<lambda>c. \<not> crd_native c \<and> IsManaged c) (same_kind crds r)"

definition candidates :: "crd list \<Rightarrow> resource \<Rightarrow> bool \<Rightarrow> crd list" where
  "candidates crds r wantNamespaced = filter (\<lambda>c. Namespaced c = wantNamespaced) (managed crds r)"

definition fallback :: "crd list \<Rightarrow> resource \<Rightarrow> bool \<Rightarrow> crd option" where
  \<comment> \<open>the last managed kind of the other scope\<close>
  "fallback crds r wantNamespaced =
     (case filter (\<lambda>c. Namespaced c \<noteq> wantNamespaced) (managed crds r) of [] \<Rightarrow> None | cs \<Rightarrow> Some (last cs))"

definition scanned_error :: "resource \<Rightarrow> msg" where
  "scanned_error r = Msg ''resource %q: kind %q not found in scanned source %q'' [Str (r_name r), Str (r_kind r), Str (r_provider r)]"

definition provider_error :: "resource \<Rightarrow> msg" where
  "provider_error r = Msg ''resource %q: kind %q not found in provider %q'' [Str (r_name r), Str (r_kind r), Str (r_provider r)]"

definition unresolved :: "crd list \<Rightarrow> resource \<Rightarrow> bool \<Rightarrow> msg" where
  \<comment> \<open>the end of \<open>resolveKind\<close>: no candidate\<close>
  "unresolved crds r wantNamespaced =
     (let scope = (if wantNamespaced then ''namespaced'' else ''cluster-scoped'') in
      case fallback crds r wantNamespaced of
        Some c \<Rightarrow> Msg ''kind %q: no %s variant found (only %s in %s)'' [Str (r_kind r), Str scope, Str (crd_scope c), Str (crd_group c)]
      | None \<Rightarrow>
          if r_provider r = ''cluster'' then scanned_error r
          else if list_ex crd_native (same_kind crds r)
          then Msg ''kind %q not found in any cached provider, but a native Kubernetes kind with that name exists'' [Str (r_kind r)]
          else (let s = ClosestPath (r_kind r) (first_seen (map crd_kind crds)) in
                if s \<noteq> [] then Msg ''kind %q not found in any cached provider; did you mean %q?'' [Str (r_kind r), Str s]
                else Msg ''kind %q not found in any cached provider; run cf provider add'' [Str (r_kind r)]))"

definition resolveKind :: "crd list \<Rightarrow> resource \<Rightarrow> bool \<Rightarrow> msg + crd" where
  "resolveKind crds r wantNamespaced =
     (if objectRooted r then
        (case find (\<lambda>c. crd_native c \<and> crd_kind c = r_kind r) crds of
           Some c \<Rightarrow> Inr c
         | None \<Rightarrow>
             if r_provider r = NativeProvider
             then Inl (Msg ''resource %q: kind %q is not one of the vendored native Kubernetes kinds'' [Str (r_name r), Str (r_kind r)])
             else Inl (scanned_error r))
      else
        (case candidates crds r wantNamespaced of
           [c] \<Rightarrow>
             if r_provider r \<noteq> [] \<and> \<not> matchesProvider (crd_group c) (r_provider r) then Inl (provider_error r) else Inr c
         | c # c2 # cs \<Rightarrow>
             (case find (\<lambda>c. r_provider r \<noteq> [] \<and> matchesProvider (crd_group c) (r_provider r)) (c # c2 # cs) of
                Some x \<Rightarrow> Inr x
              | None \<Rightarrow> if r_provider r \<noteq> [] then Inl (provider_error r) else Inr c)
         | [] \<Rightarrow>
             (case (if r_provider r = ''cluster'' then find crd_native (same_kind crds r) else None) of
                Some c \<Rightarrow> Inr c
              | None \<Rightarrow> Inl (unresolved crds r wantNamespaced))))"

section \<open>Trees as the emitter sound_values them\<close>

definition field_tree :: "crd \<Rightarrow> msg + node list" where
  "field_tree c = (if \<not> crd_native c \<and> \<not> IsFunctionInput c then forProvider_tree c else fieldTree_tree c)"

definition resource_kind_err :: "resource \<Rightarrow> msg \<Rightarrow> msg" where
  "resource_kind_err r err = Msg ''resource %q (kind %q): %w'' [Str (r_name r), Str (r_kind r), Ctx err]"

section \<open>Field paths\<close>

definition arrayIdxRE :: rx where
  "arrayIdxRE = rx_seq [rx_lit ''['', rx_plus (Cls False [r_digit]), rx_lit '']'']"

definition zero_indices :: "string \<Rightarrow> string" where
  \<comment> \<open>\<open>arrayIdxRE.ReplaceAllString(p, "[0]")\<close>\<close>
  "zero_indices p = replace_rx arrayIdxRE (\<lambda>_. ''[0]'') p"

fun ancestors_from :: "string \<Rightarrow> string \<Rightarrow> string list" where
  \<comment> \<open>the loop of \<open>ancestorPaths\<close>: the prefix read so far and what is left\<close>
  "ancestors_from pre [] = []"
| "ancestors_from pre (c # s) =
     (if c = CHR ''.''
      then pre # (case cut_suffix pre ''[0]'' of Some trimmed \<Rightarrow> [trimmed] | None \<Rightarrow> [])
      else []) @ ancestors_from (pre @ [c]) s"

definition ancestorPaths :: "string \<Rightarrow> string list" where
  "ancestorPaths path = ancestors_from [] path"

definition known_paths :: "node list \<Rightarrow> string list" where
  "known_paths nodes = first_seen (concat (map (\<lambda>(p, _). p # ancestorPaths p) (Leaves nodes [])))"

definition path_known :: "node list \<Rightarrow> string \<Rightarrow> bool" where
  "path_known nodes p =
     (let (basePath, _, isMap) = ParseFieldPath p
      in zero_indices p \<in> set (known_paths nodes) \<or> isMap \<and> basePath \<in> set (known_paths nodes))"

definition where_fields :: "crd \<Rightarrow> marg" where
  "where_fields c = (if crd_native c then Ctx (Msg ''the native %s schema'' [Str (crd_kind c)])
     else Ctx (Msg ''%s spec.forProvider'' [Str (crd_kind c)]))"

definition one_unknown :: "resource \<Rightarrow> crd \<Rightarrow> node list \<Rightarrow> string \<Rightarrow> msg" where
  "one_unknown r c nodes p =
     (let (basePath, _, isMap) = ParseFieldPath p;
          target = (if isMap then basePath else p)
      in if p = ''when'' \<or> isMap \<and> basePath = ''when''
         then Msg ''resource %q: field %q is not in %s; when: is a resource-level field'' [Str (r_name r), Str p, where_fields c]
         else (let s = ClosestPath (zero_indices target) (known_paths nodes) in
               if s \<noteq> [] then Msg ''resource %q: field %q is not in %s; did you mean %q?'' [Str (r_name r), Str p, where_fields c, Str s]
               else Msg ''resource %q: field %q is not in %s'' [Str (r_name r), Str p, where_fields c]))"

definition checkFieldPaths :: "resource \<Rightarrow> crd \<Rightarrow> msg option" where
  "checkFieldPaths r c =
     (case field_tree c of
        Inl err \<Rightarrow> Some (resource_kind_err r err)
      | Inr nodes \<Rightarrow>
          if nodes = [] then
            Some (if crd_native c
                  then Msg ''resource %q: native kind %q resolved to an empty vendored schema'' [Str (r_name r), Str (r_kind r)]
                  else Msg ''resource %q: kind %q has no spec.forProvider properties in its CRD'' [Str (r_name r), Str (r_kind r)])
          else
            (case filter (\<lambda>p. \<not> path_known nodes p) (sorted_keys (r_fields r)) of
               [] \<Rightarrow> None
             | [p] \<Rightarrow> Some (one_unknown r c nodes p)
             | ps \<Rightarrow> Some (Msg ''resource %q: fields %s are not in %s'' [Str (r_name r), Strs ps, where_fields c])))"

section \<open>Conventions\<close>

definition explicitlySet :: "field gomap \<Rightarrow> string \<Rightarrow> bool" where
  "explicitlySet flds path =
     list_ex (\<lambda>(k0, _).
        let (base, _, isMap) = ParseFieldPath k0; k = (if isMap then base else k0)
        in k = path \<or> has_prefix path (k @ ''.'') \<or> has_prefix path (k @ ''['')) flds"

definition convention_for :: "convention list \<Rightarrow> string \<Rightarrow> convention option" where
  "convention_for cs name = find (\<lambda>c. has_suffix name (cv_match c)) cs"

definition top_level_matches :: "convention list \<Rightarrow> node list \<Rightarrow> string list" where
  "top_level_matches cs nodes =
     List.map_filter (\<lambda>n. if n_children n \<noteq> [] then None else map_option cv_match (convention_for cs (n_name n))) nodes"

definition template_field :: "string \<Rightarrow> field" where
  "template_field t = \<lparr>f_from = [], f_value = [], f_raw = [], f_template = t\<rparr>"

definition sets_top :: "field gomap \<Rightarrow> string \<Rightarrow> bool" where
  "sets_top merged name =
     list_ex (\<lambda>(k, _). let (base, _, isMap) = ParseFieldPath k in k = name \<or> isMap \<and> base = name) merged"

definition merge_convention :: "convention list \<Rightarrow> node \<Rightarrow> field gomap \<Rightarrow> field gomap" where
  \<comment> \<open>the body of the loop over the top-level nodes\<close>
  "merge_convention cs n merged =
     (if n_children n \<noteq> [] \<or> sets_top merged (n_name n) then merged
      else case convention_for cs (n_name n) of
             Some c \<Rightarrow> AList.update (n_name n) (template_field (cv_template c)) merged
           | None \<Rightarrow> merged)"

definition convention_refused :: "(string \<Rightarrow> string \<Rightarrow> msg) \<Rightarrow> convention list \<Rightarrow> field gomap \<Rightarrow> string \<Rightarrow> msg option" where
  "convention_refused err cs flds path =
     (if explicitlySet flds path then None
      else map_option (\<lambda>c. err (cv_match c) path) (convention_for cs path))"

definition native_match_error :: "resource \<Rightarrow> string \<Rightarrow> string \<Rightarrow> msg" where
  "native_match_error r m path =
     Msg ''resource %q: conventions cannot match native Kubernetes kind (match %q names %s field %q)''
       [Str (r_name r), Str m, Str (r_kind r), Str path]"

definition nested_match_error :: "resource \<Rightarrow> string \<Rightarrow> string \<Rightarrow> msg" where
  "nested_match_error r m path =
     Msg ''resource %q: conventions apply to top-level forProvider fields only (match %q names %s field %q)''
       [Str (r_name r), Str m, Str (r_kind r), Str path]"

definition nested_leaf :: "string \<Rightarrow> bool" where
  "nested_leaf path \<longleftrightarrow> contains path ''.'' \<or> contains path ''[''"

definition conventionFields :: "resource \<Rightarrow> blueprint \<Rightarrow> crd \<Rightarrow> msg + field gomap" where
  "conventionFields r b c =
     (let cs = sp_conventions (b_spec b) in
      if cs = [] then Inr (r_fields r)
      else if crd_native c then
        bind_err (wrap_err (resource_kind_err r) (field_tree c)) (\<lambda>nodes.
        bind_err (check_err (check_all (\<lambda>(p, _). convention_refused (native_match_error r) cs (r_fields r) p) (Leaves nodes [])))
          (\<lambda>_. Inr (r_fields r)))
      else
        bind_err (wrap_err (resource_kind_err r) (forProvider_tree c)) (\<lambda>nodes.
        let merged = fold (merge_convention cs) nodes (r_fields r);
            others = filter (\<lambda>cv. cv_match cv \<notin> set (top_level_matches cs nodes)) cs
        in bind_err (check_err (check_all (\<lambda>(p, _).
               if \<not> nested_leaf p then None else convention_refused (nested_match_error r) others (r_fields r) p)
             (Leaves nodes []))) (\<lambda>_. Inr merged)))"

end
