(* ===== verification/EmitWires.thy ===== *)
theory EmitWires
  imports EmitKinds
begin

text \<open>
  Wires and their render-time guards (\<open>internal/emit/composition.go\<close>): a wire from another
  resource's status is checked against the source kind's status schema and becomes a guard and an
  expression; a wire from a parameter is guarded from its first optional level on; a \<open>when\<close>
  condition and a loop bound become template conditions.
\<close>

abbreviation dq :: "string \<Rightarrow> string" where
  "dq s \<equiv> [dquote] @ s @ [dquote]"

definition interp :: "string \<Rightarrow> string" where
  \<comment> \<open>\<open>{{ expr }}\<close>\<close>
  "interp expr = ''{{ '' @ expr @ '' }}''"

definition parens :: "string \<Rightarrow> string" where
  "parens s = ''('' @ s @ '')''"

section \<open>Status guards\<close>

definition statusGuard :: "printable \<Rightarrow> string \<Rightarrow> string list \<Rightarrow> string \<times> string" where
  "statusGuard ip resName path =
     (let digKeys = [dq ''resources'', go_quote ip resName, dq ''resource'', dq ''status''] @ map (go_quote ip) (butlast path)
      in (''hasKey (dig '' @ go_join '' '' digKeys @ '' dict $.observed) '' @ go_quote ip (last path),
          ''(index $.observed.resources '' @ go_quote ip resName @ '').resource.status'' @ concat (map (\<lambda>s. ''.'' @ s) path)))"

definition statusScalarTypes :: "string list" where
  "statusScalarTypes = [''string'', ''integer'', ''number'', ''boolean'']"

definition scalarStatusTypes :: "string list" where
  "scalarStatusTypes = [''string'', ''integer'', ''number'', ''boolean'']"

definition forEachCountTypes :: "string list" where
  "forEachCountTypes = [''integer'', ''number'']"

definition typ_name :: "node \<Rightarrow> string" where
  "typ_name leaf = (if n_type leaf = [] then ''untyped'' else n_type leaf)"

definition suggest :: "string \<Rightarrow> string list \<Rightarrow> (string \<Rightarrow> msg) \<Rightarrow> msg \<Rightarrow> msg" where
  \<comment> \<open>an error with the nearest candidate, when one is near\<close>
  "suggest path cands near far = (let s = ClosestPath path cands in if s \<noteq> [] then near s else far)"

definition status_leaf_error :: "marg \<Rightarrow> string \<Rightarrow> crd \<Rightarrow> (string \<times> node) list \<Rightarrow> msg" where
  \<comment> \<open>\<open>resolveStatusWire\<close> when no leaf has the path\<close>
  "status_leaf_error ctx path c leaves =
     (if path \<in> set (concat (map (\<lambda>(p, _). ancestorPaths p) leaves))
      then Msg ''%s: status path %q on %s addresses an object subtree, not a scalar leaf'' [ctx, Str path, Str (crd_kind c)]
      else suggest path (map fst leaves)
        (\<lambda>s. Msg ''%s: status path %q is not in %s's status schema; did you mean %q?'' [ctx, Str path, Str (crd_kind c), Str s])
        (Msg ''%s: status path %q is not in %s's status schema'' [ctx, Str path, Str (crd_kind c)]))"

definition resolveStatusWire :: "printable \<Rightarrow> from_ref \<Rightarrow> marg \<Rightarrow> blueprint \<Rightarrow> crd list \<Rightarrow> bool \<Rightarrow> msg + string \<times> string \<times> string" where
  \<comment> \<open>guard, expression and the type of the leaf\<close>
  "resolveStatusWire ip ref ctx b crds wantNamespaced =
     (case ResourceNamed b (fr_resource ref) of
        None \<Rightarrow> Inl (Msg ''%s: references the status of unknown resource %q'' [ctx, Str (fr_resource ref)])
      | Some src \<Rightarrow>
          bind_err (wrap_err (\<lambda>err. Msg ''%s: %w'' [ctx, Ctx err]) (resolveKind crds src wantNamespaced)) (\<lambda>c.
          bind_err (wrap_err (\<lambda>err. Msg ''%s: %w'' [ctx, Ctx err]) (status_tree c)) (\<lambda>nodes.
          if nodes = [] then Inl (Msg ''%s: kind %q declares no status schema in its CRD'' [ctx, Str (r_kind src)])
          else
            (let path = go_join ''.'' (fr_statusPath ref); leaves = Leaves nodes []
             in case find (\<lambda>l. fst l = path) leaves of
                  None \<Rightarrow> Inl (status_leaf_error ctx path c leaves)
                | Some (_, leaf) \<Rightarrow>
                    if n_type leaf \<notin> set scalarStatusTypes
                    then Inl (Msg ''%s: status path %q on %s is %s, and a wire can only carry a scalar'' [ctx, Str path, Str (crd_kind c), Str (typ_name leaf)])
                    else (let (grd, expr) = statusGuard ip (fr_resource ref) (fr_statusPath ref)
                          in Inr (grd, expr, n_type leaf))))))"

definition statusWire :: "printable \<Rightarrow> from_ref \<Rightarrow> resource \<Rightarrow> marg \<Rightarrow> blueprint \<Rightarrow> crd list \<Rightarrow> bool \<Rightarrow> msg + string \<times> string \<times> string" where
  "statusWire ip ref r what b crds wantNamespaced =
     resolveStatusWire ip ref (Ctx (Msg ''resource %q %s'' [Str (r_name r), what])) b crds wantNamespaced"

definition last_leaf :: "string \<Rightarrow> (string \<times> node) list \<Rightarrow> node option" where
  \<comment> \<open>a loop over all leaves that keeps the last one with the path\<close>
  "last_leaf path leaves = map_option snd (find (\<lambda>l. fst l = path) (rev leaves))"

definition status_ref_check :: "blueprint \<Rightarrow> crd list \<Rightarrow> bool \<Rightarrow> resource \<Rightarrow> string \<Rightarrow> field \<Rightarrow> msg option" where
  \<comment> \<open>the body of the loop of \<open>checkStatusRefs\<close>\<close>
  "status_ref_check b crds wantNamespaced r p f =
     (case StatusRef (f_from f) of
        None \<Rightarrow> None
      | Some (target, statusPath) \<Rightarrow>
          (let fail = (\<lambda>fmt args. Msg (''resource %q field %q: '' @ fmt) ([Str (r_name r), Str p] @ args)) in
           case ResourceNamed b target of
             None \<Rightarrow> Some (fail ''references unknown resource %q'' [Str target])
           | Some targetRes \<Rightarrow>
               (case resolveKind crds targetRes wantNamespaced of
                  Inl err \<Rightarrow> Some (fail ''%w'' [Ctx err])
                | Inr c \<Rightarrow>
                    (case status_tree c of
                       Inl err \<Rightarrow> Some (fail ''%w'' [Ctx err])
                     | Inr nodes \<Rightarrow>
                         if nodes = [] then Some (fail ''kind %q declares no status schema in its CRD'' [Str (crd_kind c)])
                         else
                           (let leaves = Leaves nodes [];
                                scalars = map fst (filter (\<lambda>(q, n). n_type n \<in> set statusScalarTypes \<and> \<not> contains q ''['') leaves)
                            in case last_leaf statusPath leaves of
                                 None \<Rightarrow> Some (suggest statusPath scalars
                                   (\<lambda>s. fail ''%q is not a scalar leaf in %s's status schema; did you mean %q?'' [Str statusPath, Str (crd_kind c), Str s])
                                   (fail ''%q is not a scalar leaf in %s's status schema'' [Str statusPath, Str (crd_kind c)]))
                               | Some leaf \<Rightarrow>
                                   refuse (n_type leaf \<notin> set statusScalarTypes)
                                     (fail ''status path %q in %s has type %q, and a from: reference can only carry a scalar'' [Str statusPath, Str (crd_kind c), Str (n_type leaf)]))))))"

definition checkStatusRefs :: "resource \<Rightarrow> blueprint \<Rightarrow> crd list \<Rightarrow> bool \<Rightarrow> msg option" where
  "checkStatusRefs r b crds wantNamespaced = check_map (status_ref_check b crds wantNamespaced r) (r_fields r)"

section \<open>Observed loop bounds\<close>

definition forEachStatusBound :: "printable \<Rightarrow> from_ref \<Rightarrow> resource \<Rightarrow> blueprint \<Rightarrow> crd list \<Rightarrow> bool \<Rightarrow> msg + string \<times> string" where
  "forEachStatusBound ip ref r b crds wantNamespaced =
     (case ResourceNamed b (fr_resource ref) of
        None \<Rightarrow> Inl (Msg ''resource %q: forEach references the status of unknown resource %q'' [Str (r_name r), Str (fr_resource ref)])
      | Some src \<Rightarrow>
          bind_err (wrap_err (\<lambda>err. Msg ''resource %q: forEach: %w'' [Str (r_name r), Ctx err]) (resolveKind crds src wantNamespaced)) (\<lambda>c.
          bind_err (wrap_err (\<lambda>err. Msg ''resource %q: forEach: %w'' [Str (r_name r), Ctx err]) (status_tree c)) (\<lambda>nodes.
          if nodes = []
          then Inl (Msg ''resource %q: kind %q declares no status schema in its CRD, so forEach: %s can never carry a count''
                 [Str (r_name r), Str (r_kind src), Str (r_forEach r)])
          else
            (let path = go_join ''.'' (fr_statusPath ref); leaves = Leaves nodes [];
                 suggestions = map fst (filter (\<lambda>(q, n). n_type n \<in> set forEachCountTypes \<and> \<not> contains q ''['') leaves)
             in case last_leaf path leaves of
                  None \<Rightarrow> Inl (suggest path suggestions
                    (\<lambda>s. Msg ''resource %q: forEach status path %q is not an integer or number leaf in %s's status schema; did you mean %q?''
                       [Str (r_name r), Str path, Str (crd_kind c), Str s])
                    (Msg ''resource %q: forEach status path %q is not an integer or number leaf in %s's status schema''
                       [Str (r_name r), Str path, Str (crd_kind c)]))
                | Some leaf \<Rightarrow>
                    if n_type leaf \<notin> set forEachCountTypes
                    then Inl (Msg ''resource %q: forEach status path %q on %s is %s, and a loop bound must be an integer or number status leaf''
                       [Str (r_name r), Str path, Str (crd_kind c), Str (typ_name leaf)])
                    else Inr (statusGuard ip (fr_resource ref) (fr_statusPath ref))))))"

section \<open>Parameter guards and conditions\<close>

definition chain_link :: "printable \<Rightarrow> string list \<Rightarrow> nat \<Rightarrow> string" where
  "chain_link ip path i =
     ''hasKey '' @ (if 0 < i then ''$spec.'' @ go_join ''.'' (take i path) else ''$spec'') @ '' '' @ go_quote ip (path ! i)"

definition and_guards :: "string list \<Rightarrow> string" where
  "and_guards gs = (if length gs = 1 then hd gs else ''and ('' @ go_join '') ('' gs @ '')'')"

definition chainGuard :: "printable \<Rightarrow> string list \<Rightarrow> parameter list \<Rightarrow> string" where
  "chainGuard ip path chain =
     (let first = length (takeWhile p_required chain) in
      if first = length chain then []
      else and_guards (map (chain_link ip path) [first ..< length path]))"

definition env_has :: "printable \<Rightarrow> string \<Rightarrow> string" where
  "env_has ip k = ''hasKey $env '' @ go_quote ip k"

definition spec_has :: "printable \<Rightarrow> string \<Rightarrow> string" where
  "spec_has ip k = ''hasKey $spec '' @ go_quote ip k"

definition compared :: "printable \<Rightarrow> string \<Rightarrow> string \<Rightarrow> string \<Rightarrow> string" where
  \<comment> \<open>an expression with the operator and literal of a condition\<close>
  "compared ip op expr literal =
     (if op = [] then expr
      else if op = ''=='' then ''eq '' @ expr @ '' '' @ go_quote ip literal
      else ''ne '' @ expr @ '' '' @ go_quote ip literal)"

definition env_condition :: "printable \<Rightarrow> string \<Rightarrow> string \<Rightarrow> string \<Rightarrow> string" where
  \<comment> \<open>a condition on an environment key without a default\<close>
  "env_condition ip k op literal =
     (if op = [] then ''and ('' @ env_has ip k @ '') $env.'' @ k
      else if op = ''=='' then ''and ('' @ env_has ip k @ '') (eq $env.'' @ k @ '' '' @ go_quote ip literal @ '')''
      else ''or (not ('' @ env_has ip k @ '')) (ne $env.'' @ k @ '' '' @ go_quote ip literal @ '')'')"

definition whenCondition :: "printable \<Rightarrow> string \<Rightarrow> blueprint \<Rightarrow> msg + string" where
  "whenCondition ip cond b =
     (case ParseWhen cond of
        Inl err \<Rightarrow> Inl err
      | Inr (source, param, op, literal) \<Rightarrow>
          if source = ''env'' then
            (case map_of (b_env b) param of
               Some envDecl \<Rightarrow>
                 if k_default envDecl \<noteq> []
                 then (let expr = envDefaultExpr ip param envDecl
                       in Inr (if op = [] then expr else compared ip op (parens expr) literal))
                 else Inr (env_condition ip param op literal)
             | None \<Rightarrow> Inr (env_condition ip param op literal))
          else Inr (compared ip op (''$spec.'' @ param) literal))"

end
