(* ===== verification/EmitRHS.thy ===== *)
theory EmitRHS
  imports EmitWires Pipeline GoFloat
begin

text \<open>
  One field as a right-hand side (\<open>internal/emit/structured.go\<close>): a literal, raw text, a template
  call or a wire becomes a structured description, the template text after the key, and the
  condition its line needs. A wire to another resource's \<open>metadata.name\<close> follows that resource's
  own name field, with the resources on the way remembered; that recursion ends.
\<close>

datatype rhsKind = RhsUnset | RhsLiteral | RhsRaw | RhsTemplate | RhsParam | RhsStatus | RhsMetadata | RhsEnv

record structuredRHS =
  sr_kind :: rhsKind
  sr_value :: string
  sr_param :: string
  sr_paramSegs :: "string list"
  sr_resource :: string
  sr_statusPath :: string
  sr_optional :: bool
  sr_guard :: string
  sr_rawExpr :: string
  sr_targetType :: string
  sr_sourceType :: string
  sr_envDefault :: string
  sr_hasEnvDef :: bool
  sr_isByte :: bool

definition no_rhs :: structuredRHS where
  "no_rhs = \<lparr>sr_kind = RhsUnset, sr_value = [], sr_param = [], sr_paramSegs = [], sr_resource = [], sr_statusPath = [],
     sr_optional = False, sr_guard = [], sr_rawExpr = [], sr_targetType = [], sr_sourceType = [], sr_envDefault = [],
     sr_hasEnvDef = False, sr_isByte = False\<rparr>"

type_synonym resolved = "structuredRHS \<times> string \<times> string"

section \<open>Types and shapes\<close>

definition isIntOrStringNode :: "node option \<Rightarrow> bool" where
  "isIntOrStringNode nd = (case nd of None \<Rightarrow> False | Some n \<Rightarrow> n_format n = ''int-or-string'')"

definition isIntegerLiteral :: "string \<Rightarrow> bool" where
  "isIntegerLiteral v \<longleftrightarrow> parse_int64 v \<noteq> None"

definition isFieldTypeCompatible :: "string \<Rightarrow> string \<Rightarrow> bool \<Rightarrow> bool" where
  "isFieldTypeCompatible targetType paramType isMap =
     (if isMap then paramType \<in> {''string'', ''integer'', ''number'', ''boolean''}
      else if targetType = ''string'' then paramType \<in> {''string'', ''integer'', ''number'', ''boolean''}
      else if targetType = ''integer'' then paramType = ''integer''
      else if targetType = ''number'' then paramType \<in> {''number'', ''integer''}
      else if targetType = ''boolean'' then paramType = ''boolean''
      else targetType = [])"

definition isJSONComposite :: "string \<Rightarrow> bool" where
  "isJSONComposite s =
     (let trimmed = trim_space s in
      has_prefix trimmed ''{'' \<and> has_suffix trimmed ''}'' \<and> \<not> has_prefix trimmed ''{{'' \<or>
      has_prefix trimmed ''['' \<and> has_suffix trimmed '']'')"

definition isByteTarget :: "node option \<Rightarrow> resource \<Rightarrow> string \<Rightarrow> bool" where
  "isByteTarget nd r p =
     (if (case nd of Some n \<Rightarrow> n_format n = ''byte'' | None \<Rightarrow> False) then True
      else if r_kind r = ''Secret''
      then (let (basePath, _, _) = ParseFieldPath p
            in basePath = ''data'' \<or> has_prefix p ''data.'' \<or> has_prefix p ''data['' \<or> p = ''data'')
      else False)"

definition isFieldEmpty :: "field \<Rightarrow> bool" where
  "isFieldEmpty f \<longleftrightarrow> f_value f = [] \<and> f_from f = [] \<and> f_raw f = [] \<and> f_template f = []"

definition named_field :: "field gomap \<Rightarrow> string \<Rightarrow> field option" where
  "named_field m k = (case map_of m k of Some f \<Rightarrow> if isFieldEmpty f then None else Some f | None \<Rightarrow> None)"

definition targetCustomNameField :: "resource \<Rightarrow> field option" where
  "targetCustomNameField t =
     (case named_field (r_fields t) ''metadata.name'' of Some f \<Rightarrow> Some f | None \<Rightarrow>
     (case named_field (r_fields t) ''name'' of Some f \<Rightarrow> Some f | None \<Rightarrow>
     (case named_field (r_envelope t) ''metadata.name'' of Some f \<Rightarrow> Some f | None \<Rightarrow>
      named_field (r_envelope t) ''name'')))"

definition int_text :: "int \<Rightarrow> string" where
  "int_text i = (if i < 0 then CHR ''-'' # itoa (nat (- i)) else itoa (nat i))"

definition field_err :: "resource \<Rightarrow> string \<Rightarrow> string \<Rightarrow> marg list \<Rightarrow> msg" where
  "field_err r p fmt args = Msg (''resource %q field %q'' @ fmt) ([Str (r_name r), Str p] @ args)"

section \<open>Literals\<close>

definition flow_list :: "string \<Rightarrow> string option" where
  \<comment> \<open>a comma-separated value as a flow sequence; None when an entry is empty\<close>
  "flow_list v =
     (let entries = map trim_space (split_on CHR '','' v) in
      if list_ex (\<lambda>e. e = []) entries then None
      else Some (''['' @ go_join '', '' (map quoteYAML entries) @ '']''))"

definition value_rhs :: "resource \<Rightarrow> string \<Rightarrow> string \<Rightarrow> node option \<Rightarrow> bool \<Rightarrow> bool \<Rightarrow> string \<Rightarrow> structuredRHS \<Rightarrow> msg + resolved" where
  "value_rhs r p v nd branch isMap targetType s0 =
     (let s = s0\<lparr>sr_kind := RhsLiteral\<rparr>;
          lit = (\<lambda>ty v rhs. Inr (s\<lparr>sr_value := v, sr_targetType := ty\<rparr>, rhs, []))
      in if branch then
           Inl (if targetType = ''array''
                then field_err r p '' is an array of objects; value's comma-separated form renders scalar entries only'' []
                else field_err r p '' is an object; value cannot render a composite'' [])
         else if isMap then lit ''string'' v (quoteYAML v)
         else if isIntOrStringNode nd \<and> isIntegerLiteral v then lit ''integer'' v v
         else if targetType = ''string'' then lit ''string'' v (quoteYAML v)
         else if targetType = ''integer'' then
           (case parse_int64 v of
              None \<Rightarrow> Inl (field_err r p '': value %q is not a valid integer'' [Str v])
            | Some i \<Rightarrow> lit ''integer'' (int_text i) (int_text i))
         else if targetType = ''number'' then
           (if finite_float v then lit ''number'' v v
            else Inl (field_err r p '': value %q is not a valid number (NaN and Inf are refused)'' [Str v]))
         else if targetType = ''boolean'' then
           (let val = to_lower v in
            if val \<in> {''true'', ''false''} then lit ''boolean'' val val
            else Inl (field_err r p '': value %q is not a valid boolean (use true or false)'' [Str v]))
         else if targetType = ''array'' then
           (case flow_list v of
              None \<Rightarrow> Inl (field_err r p '': value %q contains an empty entry'' [Str v])
            | Some rhs \<Rightarrow> lit ''array'' v rhs)
         else lit ''string'' v (quoteYAML v))"

definition raw_rhs :: "string \<Rightarrow> string \<Rightarrow> structuredRHS \<Rightarrow> resolved" where
  "raw_rhs raw targetType s =
     (let rawNorm = NormalizeRawGoTemplate raw
      in (s\<lparr>sr_kind := RhsRaw, sr_value := raw\<rparr>,
          if targetType = ''string'' \<and> isJSONComposite raw then quoteYAML rawNorm else rawNorm, []))"

definition templateFieldNindent :: nat where "templateFieldNindent = 6"

definition templateCallRHS :: "printable \<Rightarrow> string \<Rightarrow> string \<Rightarrow> string \<Rightarrow> string" where
  "templateCallRHS ip name res fld =
     ''{{ include '' @ go_quote ip name @ '' (dict '' @ dq ''spec'' @ '' $spec '' @ dq ''xr'' @ '' $xr '' @ dq ''xrMeta'' @ '' $xrMeta ''
       @ dq ''observed'' @ '' $.observed '' @ dq ''resource'' @ '' '' @ go_quote ip res @ '' '' @ dq ''field'' @ '' '' @ go_quote ip fld
       @ '' '' @ dq ''env'' @ '' $env) | trim | nindent '' @ itoa templateFieldNindent @ '' }}''"

section \<open>Wires\<close>

definition wire_shape_error :: "resource \<Rightarrow> string \<Rightarrow> bool \<Rightarrow> string \<Rightarrow> msg option" where
  \<comment> \<open>the refusals every wire makes before a map position\<close>
  "wire_shape_error r p branch targetType =
     (if branch then Some (field_err r p '' is an object; a from: wire renders one scalar and cannot fill it'' [])
      else if targetType = ''array'' then Some (field_err r p '' is an array, and a from: wire cannot render a list in v1'' [])
      else None)"

definition map_wire_error :: "resource \<Rightarrow> string \<Rightarrow> msg" where
  "map_wire_error r p = field_err r p '' is a map, and a from: wire cannot render one in v1. Set it with raw:'' []"

definition rhs_type_error :: "resource \<Rightarrow> string \<Rightarrow> string \<Rightarrow> string \<Rightarrow> string \<Rightarrow> string \<Rightarrow> msg" where
  "rhs_type_error r p targetType what name paramType =
     field_err r p ('' has type %q in the CRD schema, but '' @ what @ '' %q has type %q'') [Str targetType, Str name, Str paramType]"

definition wire_target :: "node option \<Rightarrow> string \<Rightarrow> string \<Rightarrow> bool \<Rightarrow> string" where
  \<comment> \<open>the target type a wire ends with\<close>
  "wire_target nd sourceType targetType isMap =
     (if isIntOrStringNode nd \<and> sourceType = ''integer'' then ''integer'' else if isMap then ''string'' else targetType)"

definition wire_rhs :: "node option \<Rightarrow> string \<Rightarrow> string \<Rightarrow> bool \<Rightarrow> bool \<Rightarrow> string \<Rightarrow> string" where
  "wire_rhs nd sourceType targetType isMap isByte expr =
     (if isByte then interp (expr @ '' | b64enc | quote'')
      else if (wire_target nd sourceType targetType isMap = ''string'' \<or> isMap) \<and> \<not> (isIntOrStringNode nd \<and> sourceType = ''integer'')
      then interp (expr @ '' | quote'')
      else interp expr)"

definition status_rhs :: "printable \<Rightarrow> blueprint \<Rightarrow> crd list \<Rightarrow> bool \<Rightarrow> from_ref \<Rightarrow> resource \<Rightarrow> string \<Rightarrow> node option \<Rightarrow> bool \<Rightarrow> string \<Rightarrow> structuredRHS \<Rightarrow> msg + resolved" where
  "status_rhs ip b crds ns ref r p nd isMap targetType s =
     bind_err (statusWire ip ref r (Ctx (Msg ''field %q'' [Str p])) b crds ns) (\<lambda>(g, expr, leafType).
       if \<not> isFieldTypeCompatible targetType leafType isMap
       then Inl (rhs_type_error r p targetType ''status path'' (go_join ''.'' (fr_statusPath ref)) leafType)
       else Inr (s\<lparr>sr_kind := RhsStatus, sr_resource := fr_resource ref, sr_statusPath := go_join ''.'' (fr_statusPath ref),
              sr_optional := True, sr_guard := g, sr_rawExpr := expr, sr_sourceType := leafType,
              sr_targetType := wire_target nd leafType targetType isMap\<rparr>,
            wire_rhs nd leafType targetType isMap (sr_isByte s) expr, g))"

definition env_rhs :: "printable \<Rightarrow> blueprint \<Rightarrow> string \<Rightarrow> resource \<Rightarrow> string \<Rightarrow> node option \<Rightarrow> bool \<Rightarrow> bool \<Rightarrow> string \<Rightarrow> structuredRHS \<Rightarrow> msg + resolved" where
  "env_rhs ip b key r p nd branch isMap targetType s =
     (case map_of (b_env b) key of
        None \<Rightarrow> Inl (UnknownEnvKeyError (Ctx (Msg ''resource %q field %q'' [Str (r_name r), Str p])) key (b_env b))
      | Some envDecl \<Rightarrow>
          bind_err (check_err (wire_shape_error r p branch targetType)) (\<lambda>_.
          if targetType = ''map'' \<and> \<not> isMap then Inl (map_wire_error r p)
          else if \<not> isFieldTypeCompatible targetType (k_type envDecl) isMap
          then Inl (rhs_type_error r p targetType ''environment key'' key (k_type envDecl))
          else
            (let s = s\<lparr>sr_kind := RhsEnv, sr_param := key, sr_paramSegs := [key], sr_sourceType := k_type envDecl,
                   sr_targetType := wire_target nd (k_type envDecl) targetType isMap\<rparr>;
                 out = wire_rhs nd (k_type envDecl) targetType isMap (sr_isByte s)
             in if k_default envDecl \<noteq> []
                then (let expr = envDefaultExpr ip key envDecl
                      in Inr (s\<lparr>sr_hasEnvDef := True, sr_envDefault := k_default envDecl, sr_optional := False, sr_guard := [],
                            sr_rawExpr := expr\<rparr>, out expr, []))
                else (let g = env_has ip key; expr = ''$env.'' @ key
                      in Inr (s\<lparr>sr_optional := True, sr_guard := g, sr_rawExpr := expr\<rparr>, out expr, g)))))"

definition chain_ref :: "string \<Rightarrow> string" where
  \<comment> \<open>the dotted path after \<open>params.\<close>\<close>
  "chain_ref from = (case ParamRef from of
     Some (param, m) \<Rightarrow> if m \<noteq> [] then param @ ''.'' @ m else param
   | None \<Rightarrow> [])"

definition param_rhs :: "printable \<Rightarrow> blueprint \<Rightarrow> string \<Rightarrow> resource \<Rightarrow> string \<Rightarrow> node option \<Rightarrow> bool \<Rightarrow> bool \<Rightarrow> string \<Rightarrow> structuredRHS \<Rightarrow> msg + resolved" where
  "param_rhs ip b from r p nd branch isMap targetType s =
     bind_err (ParamChain (b_xrd b) (Ctx (Msg ''resource %q field %q'' [Str (r_name r), Str p])) (chain_ref from)) (\<lambda>(path, chain).
     let wireDecl = last chain; refName = go_join ''.'' path; g = chainGuard ip path chain; expr = ''$spec.'' @ refName;
         s = s\<lparr>sr_kind := RhsParam, sr_param := chain_ref from, sr_paramSegs := path, sr_optional := (g \<noteq> []), sr_guard := g,
               sr_rawExpr := expr\<rparr>
     in bind_err (check_err (wire_shape_error r p branch targetType)) (\<lambda>_.
        if targetType = ''map'' \<and> \<not> isMap then
          (if p_type wireDecl = ''object'' then Inr (s\<lparr>sr_targetType := ''object''\<rparr>, [], g) else Inl (map_wire_error r p))
        else if \<not> isFieldTypeCompatible targetType (p_type wireDecl) isMap
        then Inl (rhs_type_error r p targetType ''parameter'' refName (p_type wireDecl))
        else Inr (s\<lparr>sr_sourceType := p_type wireDecl, sr_targetType := wire_target nd (p_type wireDecl) targetType isMap\<rparr>,
               wire_rhs nd (p_type wireDecl) targetType isMap (sr_isByte s) expr, g)))"

definition byte_name :: "printable \<Rightarrow> bool \<Rightarrow> resolved \<Rightarrow> resolved" where
  \<comment> \<open>a name wired into a base64 target\<close>
  "byte_name ip isByte = (\<lambda>(s, rhs, g).
     let s = s\<lparr>sr_isByte := isByte\<rparr> in
     if \<not> isByte then (s, rhs, g)
     else (let s = (if sr_rawExpr s = [] \<and> sr_kind s = RhsLiteral then s\<lparr>sr_rawExpr := go_quote ip (sr_value s)\<rparr> else s)
           in (s, interp (sr_rawExpr s @ '' | b64enc | quote''), g)))"

definition resource_wire :: "(from_ref \<Rightarrow> msg + resolved) \<Rightarrow> printable \<Rightarrow> blueprint \<Rightarrow> crd list \<Rightarrow> bool \<Rightarrow> from_ref \<Rightarrow> resource \<Rightarrow> string \<Rightarrow> node option \<Rightarrow> bool \<Rightarrow> bool \<Rightarrow> string \<Rightarrow> structuredRHS \<Rightarrow> msg + resolved" where
  "resource_wire name ip b crds ns ref r p nd branch isMap targetType s =
     bind_err (check_err (wire_shape_error r p branch targetType)) (\<lambda>_.
     if targetType = ''map'' \<and> \<not> isMap then Inl (map_wire_error r p)
     else if IsMetadataName ref then bind_err (name ref) (\<lambda>x. Inr (byte_name ip (sr_isByte s) x))
     else status_rhs ip b crds ns ref r p nd isMap targetType s)"

definition node_branch :: "node option \<Rightarrow> bool" where
  "node_branch nd = (case nd of Some n \<Rightarrow> n_children n \<noteq> [] \<or> n_type n = ''object'' | None \<Rightarrow> False)"

definition target_type :: "node option \<Rightarrow> bool \<Rightarrow> string" where
  "target_type nd isMap = (if isMap then ''string'' else case nd of Some n \<Rightarrow> n_type n | None \<Rightarrow> [])"

definition resolve_with :: "(from_ref \<Rightarrow> msg + resolved) \<Rightarrow> printable \<Rightarrow> blueprint \<Rightarrow> crd list \<Rightarrow> bool \<Rightarrow> string \<Rightarrow> field \<Rightarrow> resource \<Rightarrow> node option \<Rightarrow> bool \<Rightarrow> msg + resolved" where
  \<comment> \<open>the body of \<open>resolveFieldRHSWithVisited\<close>; the first argument resolves a wire to a name\<close>
  "resolve_with name ip b crds ns p f r nd isMap =
     (let targetType = target_type nd isMap; branch = node_branch nd;
          s = no_rhs\<lparr>sr_targetType := targetType, sr_isByte := isByteTarget nd r p\<rparr>
      in if f_value f \<noteq> [] then value_rhs r p (f_value f) nd branch isMap targetType s
         else if f_raw f \<noteq> [] then Inr (raw_rhs (f_raw f) targetType s)
         else if f_template f \<noteq> [] then
           (if map_of (b_templates b) (f_template f) = None
            then Inl (field_err r p '': unknown template %q'' [Str (f_template f)])
            else Inr (s\<lparr>sr_kind := RhsTemplate, sr_value := f_template f\<rparr>, templateCallRHS ip (f_template f) (r_name r) p, []))
         else if f_from f \<noteq> [] then
           bind_err (wrap_err (\<lambda>err. field_err r p '': %w'' [Ctx err]) (ParseFrom (f_from f))) (\<lambda>ref.
           if fr_resource ref \<noteq> [] then resource_wire name ip b crds ns ref r p nd branch isMap targetType s
           else if fr_env ref \<noteq> [] then env_rhs ip b (fr_env ref) r p nd branch isMap targetType s
           else param_rhs ip b (f_from f) r p nd branch isMap targetType s)
         else Inr (s, [], []))"

lemma resource_wire_cong [fundef_cong]:
  assumes "ref = ref'" "ip = ip'" "b = b'" "crds = crds'" "ns = ns'" "r = r'" "p = p'" "nd = nd'" "br = br'" "im = im'" "tt = tt'" "s = s'"
    and "name ref' = name' ref'"
  shows "resource_wire name ip b crds ns ref r p nd br im tt s = resource_wire name' ip' b' crds' ns' ref' r' p' nd' br' im' tt' s'"
  using assms by (simp add: resource_wire_def)

lemma resolve_with_cong [fundef_cong]:
  assumes "ip = ip'" "b = b'" "crds = crds'" "ns = ns'" "p = p'" "f = f'" "r = r'" "nd = nd'" "im = im'"
    and "\<And>ref. fr_resource ref \<noteq> [] \<Longrightarrow> name ref = name' ref"
  shows "resolve_with name ip b crds ns p f r nd im = resolve_with name' ip' b' crds' ns' p' f' r' nd' im'"
  unfolding resolve_with_def assms(1-9) Let_def
  by (intro if_cong refl bind_err_cong resource_wire_cong) (auto intro: assms(10))

section \<open>Following names\<close>

definition string_node :: node where
  "string_node = Node [] ''string'' [] False [] False [] JNull None None []"

definition name_rank :: "blueprint \<Rightarrow> resource \<Rightarrow> string list \<Rightarrow> nat" where
  \<comment> \<open>how far a chain of names can still go\<close>
  "name_rank b r visited =
     (let ns = set (map r_name (b_resources b)) in
      2 * card (ns - set visited) + (if r_name r \<noteq> [] \<and> r_name r \<in> ns - set visited then 0 else 1))"

definition visit :: "resource \<Rightarrow> string list \<Rightarrow> string list" where
  "visit r visited = (if r_name r \<noteq> [] then r_name r # visited else visited)"

lemma ResourceNamed_in: "ResourceNamed b n = Some t \<Longrightarrow> t \<in> set (b_resources b) \<and> r_name t = n"
  by (auto simp: ResourceNamed_def find_Some_iff)

lemma name_rank_less:
  assumes "ResourceNamed b n = Some t" "n \<notin> set visited"
  shows "name_rank b t (visit r visited) < name_rank b r visited + (if n = [] then 2 else 0)"
proof -
  let ?ns = "set (map r_name (b_resources b))"
  have n: "n \<in> ?ns" "r_name t = n" using ResourceNamed_in [OF assms(1)] by auto
  have fin: "finite (?ns - set visited)" by simp
  have le: "card (?ns - set (visit r visited)) \<le> card (?ns - set visited)"
    by (intro card_mono fin) (auto simp: visit_def)
  have less: "card (?ns - set (visit r visited)) < card (?ns - set visited)" if "r_name r \<noteq> []" "r_name r \<in> ?ns - set visited"
    using that by (intro psubset_card_mono fin) (auto simp: visit_def)
  show ?thesis
  proof (cases "r_name r \<noteq> [] \<and> r_name r \<in> ?ns - set visited")
    case True
    with less show ?thesis by (auto simp: name_rank_def Let_def)
  next
    case False
    then have "n \<notin> set (visit r visited) \<or> n = []"
      using assms(2) n(1) by (cases "n = r_name r") (simp_all add: visit_def)
    with False n le show ?thesis by (auto simp: name_rank_def Let_def)
  qed
qed

lemma name_rank_steps:
  assumes "ResourceNamed b n = Some t" "n \<notin> set visited"
  shows "n = [] \<Longrightarrow> 2 * name_rank b t (visit r visited) < 3 + 2 * name_rank b r visited"
    and "n \<noteq> [] \<Longrightarrow> Suc (2 * name_rank b t (visit r visited)) < 2 * name_rank b r visited"
  using name_rank_less [OF assms, of r] by simp_all

function resolveFieldRHSWithVisited :: "printable \<Rightarrow> blueprint \<Rightarrow> crd list \<Rightarrow> bool \<Rightarrow> string list \<Rightarrow> string \<Rightarrow> field \<Rightarrow> resource \<Rightarrow> node option \<Rightarrow> bool \<Rightarrow> msg + resolved"
  and resolveMetadataNameRef :: "printable \<Rightarrow> blueprint \<Rightarrow> crd list \<Rightarrow> bool \<Rightarrow> string list \<Rightarrow> resource \<Rightarrow> marg \<Rightarrow> from_ref \<Rightarrow> string \<Rightarrow> bool \<Rightarrow> msg + resolved" where
  "resolveFieldRHSWithVisited ip b crds ns visited p f r nd isMap =
     resolve_with (\<lambda>ref. resolveMetadataNameRef ip b crds ns visited r (Ctx (Msg ''field %q'' [Str p])) ref (target_type nd isMap) isMap)
       ip b crds ns p f r nd isMap"
| "resolveMetadataNameRef ip b crds ns visited r what ref targetType isMap =
     (case ResourceNamed b (fr_resource ref) of
        None \<Rightarrow> Inl (Msg ''resource %q %s: references unknown resource %q'' [Str (r_name r), what, Str (fr_resource ref)])
      | Some t \<Rightarrow>
          if r_forEach t \<noteq> []
          then Inl (Msg ''resource %q %s: resource %q is looped (forEach: %s), so its name is indexed''
                 [Str (r_name r), what, Str (fr_resource ref), Str (r_forEach t)])
          else if fr_resource ref \<in> set visited
          then Inl (Msg ''resource %q %s: cycle detected in metadata.name references at resource %q'' [Str (r_name r), what, Str (fr_resource ref)])
          else
            (case targetCustomNameField t of
               Some g \<Rightarrow>
                 bind_err (wrap_err (\<lambda>err. Msg ''resource %q %s: resolving target %q metadata.name: %w''
                     [Str (r_name r), what, Str (fr_resource ref), Ctx err])
                   (resolveFieldRHSWithVisited ip b crds ns (visit r visited) ''metadata.name'' g t (Some string_node) False))
                 (\<lambda>(s, rhs, grd).
                   let s = (if isMap then s\<lparr>sr_targetType := ''string''\<rparr>
                            else if targetType \<noteq> [] then s\<lparr>sr_targetType := targetType\<rparr> else s);
                       s = (if sr_kind s = RhsLiteral \<and> sr_rawExpr s = [] then s\<lparr>sr_rawExpr := go_quote ip (sr_value s)\<rparr> else s)
                   in Inr (s, rhs, grd))
             | None \<Rightarrow>
                 Inr (no_rhs\<lparr>sr_kind := RhsMetadata, sr_resource := fr_resource ref, sr_statusPath := ''metadata.name'',
                        sr_targetType := (if isMap then ''string'' else targetType),
                        sr_rawExpr := ''printf '' @ dq (''%s-'' @ fr_resource ref) @ '' $xr''\<rparr>,
                      ''{{ $xr }}-'' @ fr_resource ref, [])))"
  by pat_completeness auto
termination
  by (relation "measure (\<lambda>x. case x of
       Inl (ip, b, crds, ns, visited, p, f, r, nd, isMap) \<Rightarrow> 2 * name_rank b r visited + 1
     | Inr (ip, b, crds, ns, visited, r, what, ref, targetType, isMap) \<Rightarrow>
         2 * name_rank b r visited + (if fr_resource ref = [] then 4 else 0))")
    (auto intro: name_rank_steps)

declare resolveFieldRHSWithVisited.simps [simp del] resolveMetadataNameRef.simps [simp del]

definition resolveFieldRHS :: "printable \<Rightarrow> string \<Rightarrow> field \<Rightarrow> resource \<Rightarrow> blueprint \<Rightarrow> crd list \<Rightarrow> bool \<Rightarrow> node option \<Rightarrow> bool \<Rightarrow> msg + resolved" where
  "resolveFieldRHS ip p f r b crds ns nd isMap = resolveFieldRHSWithVisited ip b crds ns [] p f r nd isMap"

end
