(* ===== verification/EmitPlan.thy ===== *)
theory EmitPlan
  imports EmitRHS Annotations
begin

text \<open>
  The plan of a resource's fields and annotations (\<open>planFields\<close>, \<open>planCompositeStatusFields\<close> and
  \<open>collectStatusGuards\<close> of \<open>internal/emit/composition.go\<close>, \<open>annotations.go\<close>): every path resolved,
  map entries grouped under their map, in sorted order.
\<close>

datatype pfield = PField (pf_path: string) (pf_rhs: string) (pf_guard: string) (pf_structured: structuredRHS)
  (pf_isMap: bool) (pf_entries: "pfield list")

abbreviation plain_field :: "string \<Rightarrow> string \<Rightarrow> string \<Rightarrow> structuredRHS \<Rightarrow> pfield" where
  "plain_field path rhs grd s \<equiv> PField path rhs grd s False []"

section \<open>Schema nodes by path\<close>

function walkNodes :: "node list \<Rightarrow> string \<Rightarrow> node gomap \<Rightarrow> node gomap" where
  "walkNodes [] pre out = out"
| "walkNodes (n # ns) pre out =
     walkNodes ns pre
       (let out = AList.update (node_path pre n) n out
        in if n_children n = [] then out else walkNodes (n_children n) (child_prefix pre n) out)"
  by pat_completeness auto
termination
  by (relation "measure (\<lambda>(ns, _). size_list size ns)") (auto intro: less_trans [OF size_children])

section \<open>Fields\<close>

definition wired :: "field \<Rightarrow> bool" where
  "wired f \<longleftrightarrow> f_from f \<noteq> [] \<or> f_template f \<noteq> []"

definition norm_path :: "string \<Rightarrow> string" where
  "norm_path p = (let (basePath, mapKey, isMap) = ParseFieldPath p
     in if isMap then basePath @ ''['' @ mapKey @ '']'' else p)"

definition normalize_field :: "string \<times> field \<Rightarrow> field gomap \<Rightarrow> field gomap" where
  \<comment> \<open>of two spellings of one map entry the wired one is kept\<close>
  "normalize_field = (\<lambda>(p, f) m.
     case map_of m (norm_path p) of
       Some existing \<Rightarrow> if wired existing \<and> \<not> wired f then m else AList.update (norm_path p) f m
     | None \<Rightarrow> AList.update (norm_path p) f m)"

definition normalizedFields :: "field gomap \<Rightarrow> field gomap" where
  "normalizedFields m = fold normalize_field m []"

record leaf_item =
  li_base :: string
  li_key :: string
  li_isMap :: bool
  li_rhs :: string
  li_guard :: string
  li_structured :: structuredRHS

definition literal_rhs :: "string \<Rightarrow> structuredRHS" where
  "literal_rhs v = no_rhs\<lparr>sr_kind := RhsLiteral, sr_value := v, sr_targetType := ''string''\<rparr>"

definition flow_items :: "string \<Rightarrow> string gomap \<Rightarrow> leaf_item list" where
  "flow_items basePath flowMap =
     map (\<lambda>k. let v = (case map_of flowMap k of Some v \<Rightarrow> v | None \<Rightarrow> []) in
        \<lparr>li_base = basePath, li_key = k, li_isMap = True, li_rhs = quoteYAML v, li_guard = [], li_structured = literal_rhs v\<rparr>)
       (sorted_keys flowMap)"

definition schema_lookup :: "string \<Rightarrow> string" where
  \<comment> \<open>the path a field is looked up under in the schema\<close>
  "schema_lookup p = (let (basePath, _, isMap) = ParseFieldPath p in zero_indices (if isMap then basePath else p))"

definition field_items :: "printable \<Rightarrow> yaml_map \<Rightarrow> blueprint \<Rightarrow> crd list \<Rightarrow> bool \<Rightarrow> resource \<Rightarrow> node gomap \<Rightarrow> string \<Rightarrow> field \<Rightarrow> msg + leaf_item list" where
  \<comment> \<open>the body of the loop over the sorted paths\<close>
  "field_items ip yaml b crds ns r known p f =
     (let (basePath, mapKey, isMap) = ParseFieldPath p;
          nd = map_of known (schema_lookup p);
          flow = (if \<not> isMap \<and> f_raw f \<noteq> [] \<and> (case nd of None \<Rightarrow> True | Some n \<Rightarrow> n_type n \<in> {''object'', ''map''})
                  then ParseFlowStyleMap yaml (f_raw f) else None)
      in case flow of
           Some flowMap \<Rightarrow> Inr (flow_items basePath flowMap)
         | None \<Rightarrow>
             bind_err (resolveFieldRHS ip p f r b crds ns nd isMap) (\<lambda>(s, rhs, grd).
               Inr [\<lparr>li_base = basePath, li_key = mapKey, li_isMap = isMap, li_rhs = rhs, li_guard = grd, li_structured = s\<rparr>]))"

definition object_param :: "leaf_item \<Rightarrow> bool" where
  "object_param l \<longleftrightarrow> \<not> li_isMap l \<and> sr_targetType (li_structured l) = ''object'' \<and> sr_kind (li_structured l) = RhsParam"

definition param_members :: "blueprint \<Rightarrow> string \<Rightarrow> (string list \<times> parameter list) option" where
  \<comment> \<open>the chain to a parameter that declares members\<close>
  "param_members b param =
     (case ParamChain (b_xrd b) (Str []) param of
        Inl _ \<Rightarrow> None
      | Inr (path, chain) \<Rightarrow> if chain \<noteq> [] \<and> p_properties (last chain) \<noteq> [] then Some (path, chain) else None)"

definition member_field :: "printable \<Rightarrow> string \<Rightarrow> string list \<Rightarrow> parameter list \<Rightarrow> string \<times> parameter \<Rightarrow> pfield" where
  "member_field ip param path chain = (\<lambda>(m, decl).
     plain_field m
       (interp (''$spec.'' @ param @ ''.'' @ m @ (if p_type decl = ''string'' then '' | quote'' else [])))
       (chainGuard ip (path @ [m]) (chain @ [decl]))
       (no_rhs\<lparr>sr_kind := RhsParam, sr_param := param @ ''.'' @ m, sr_targetType := p_type decl, sr_sourceType := p_type decl\<rparr>))"

definition item_fields :: "printable \<Rightarrow> blueprint \<Rightarrow> leaf_item \<Rightarrow> pfield list" where
  \<comment> \<open>what an item adds to the group of its base path\<close>
  "item_fields ip b l =
     (if li_isMap l then [plain_field (li_key l) (li_rhs l) (li_guard l) (li_structured l)]
      else if object_param l then
        (let param = sr_param (li_structured l) in
         case param_members b param of
           None \<Rightarrow> []
         | Some (path, chain) \<Rightarrow>
             map (\<lambda>m. member_field ip param path chain (m, the (map_of (p_properties (last chain)) m)))
               (sortedMemberNames (last chain)))
      else [plain_field (li_base l) (li_rhs l) (li_guard l) (li_structured l)])"

definition group_of :: "printable \<Rightarrow> blueprint \<Rightarrow> leaf_item list \<Rightarrow> string \<Rightarrow> pfield list" where
  "group_of ip b leaves base = concat (map (item_fields ip b) (filter (\<lambda>l. li_base l = base) leaves))"

definition is_map_base :: "leaf_item list \<Rightarrow> string \<Rightarrow> bool" where
  "is_map_base leaves base = list_ex (\<lambda>l. li_base l = base \<and> (li_isMap l \<or> object_param l)) leaves"

definition base_structured :: "blueprint \<Rightarrow> leaf_item list \<Rightarrow> string \<Rightarrow> structuredRHS" where
  \<comment> \<open>\<open>mapBaseStructured\<close>: the last untyped object parameter wired into the base\<close>
  "base_structured b leaves base =
     (case find (\<lambda>l. li_base l = base \<and> object_param l \<and> param_members b (sr_param (li_structured l)) = None) (rev leaves) of
        Some l \<Rightarrow> li_structured l
      | None \<Rightarrow> no_rhs)"

definition last_by_path :: "pfield list \<Rightarrow> pfield list" where
  \<comment> \<open>of entries with one path the last is kept\<close>
  "last_by_path es = fold (\<lambda>e out. if pf_path e \<in> pf_path ` set out then out else out @ [e]) (rev es) []"

definition base_plan :: "printable \<Rightarrow> blueprint \<Rightarrow> leaf_item list \<Rightarrow> string \<Rightarrow> pfield list" where
  "base_plan ip b leaves base =
     (if is_map_base leaves base
      then [PField base [] [] (base_structured b leaves base) True (sort_key pf_path (last_by_path (group_of ip b leaves base)))]
      else group_of ip b leaves base)"

definition planFields :: "printable \<Rightarrow> yaml_map \<Rightarrow> resource \<Rightarrow> blueprint \<Rightarrow> crd list \<Rightarrow> bool \<Rightarrow> msg + pfield list" where
  "planFields ip yaml r b crds ns =
     (let fs = normalizedFields (r_fields r); r = r\<lparr>r_fields := fs\<rparr> in
      bind_err (resolveKind crds r ns) (\<lambda>c.
      bind_err (wrap_err (resource_kind_err r) (field_tree c)) (\<lambda>nodes.
      let known = walkNodes nodes [] [] in
      bind_err (map_err (\<lambda>p. case map_of fs p of
          Some f \<Rightarrow> field_items ip yaml b crds ns r known p f | None \<Rightarrow> Inr []) (sorted_keys fs)) (\<lambda>items.
      let leaves = concat items
      in Inr (concat (map (base_plan ip b leaves) (sort (first_seen (map li_base leaves)))))))))"

section \<open>Annotations\<close>

definition reserved_error :: "string \<Rightarrow> string \<Rightarrow> msg" where
  "reserved_error resName k =
     Msg ''resource %q annotation %q: this key is the composition-resource-name annotation'' [Str resName, Str k]"

definition annotation_from :: "printable \<Rightarrow> resource \<Rightarrow> blueprint \<Rightarrow> crd list \<Rightarrow> bool \<Rightarrow> string \<Rightarrow> from_ref \<Rightarrow> msg + pfield" where
  "annotation_from ip r b crds ns k ref =
     (let what = Ctx (Msg ''annotation %q'' [Str k]); ctx = Ctx (Msg ''resource %q annotation %q'' [Str (r_name r), Str k]) in
      if fr_resource ref \<noteq> [] then
        if IsMetadataName ref then
          bind_err (resolveMetadataNameRef ip b crds ns [] r what ref ''string'' False) (\<lambda>(s, rhs, grd).
            if sr_kind s = RhsMetadata
            then (let e = ''printf '' @ dq (''%s-'' @ fr_resource ref) @ '' $xr''
                  in Inr (plain_field k (interp (e @ '' | quote'')) grd (s\<lparr>sr_rawExpr := e\<rparr>)))
            else Inr (plain_field k rhs grd s))
        else
          bind_err (statusWire ip ref r what b crds ns) (\<lambda>(grd, expr, leafType).
            Inr (plain_field k (interp (expr @ '' | quote'')) grd
              (no_rhs\<lparr>sr_kind := RhsStatus, sr_resource := fr_resource ref, sr_statusPath := go_join ''.'' (fr_statusPath ref),
                 sr_optional := True, sr_guard := grd, sr_rawExpr := expr, sr_targetType := ''string'', sr_sourceType := leafType\<rparr>)))
      else if fr_env ref \<noteq> [] then
        (let key = fr_env ref in
         case map_of (b_env b) key of
           None \<Rightarrow> Inl (UnknownEnvKeyError ctx key (b_env b))
         | Some envDecl \<Rightarrow>
             (let s = no_rhs\<lparr>sr_kind := RhsEnv, sr_param := key, sr_paramSegs := [key], sr_targetType := ''string'', sr_sourceType := k_type envDecl\<rparr>
              in if k_default envDecl \<noteq> []
                 then (let expr = envDefaultExpr ip key envDecl
                       in Inr (plain_field k (interp (expr @ '' | quote'')) []
                            (s\<lparr>sr_rawExpr := expr, sr_envDefault := k_default envDecl, sr_hasEnvDef := True\<rparr>)))
                 else Inr (plain_field k (interp (''$env.'' @ key @ '' | quote'')) (env_has ip key)
                        (s\<lparr>sr_optional := True, sr_guard := env_has ip key, sr_rawExpr := ''$env.'' @ key\<rparr>))))
      else
        bind_err (ParamChain (b_xrd b) ctx (fr_param ref)) (\<lambda>(path, chain).
          let refName = go_join ''.'' path; deref = ''$spec.'' @ refName; grd = chainGuard ip path chain
          in Inr (plain_field k (interp (deref @ '' | quote'')) grd
               (no_rhs\<lparr>sr_kind := RhsParam, sr_param := refName, sr_paramSegs := path, sr_optional := (grd \<noteq> []), sr_guard := grd,
                  sr_rawExpr := deref, sr_targetType := ''string'', sr_sourceType := p_type (last chain)\<rparr>))))"

definition plan_annotation :: "printable \<Rightarrow> resource \<Rightarrow> blueprint \<Rightarrow> crd list \<Rightarrow> bool \<Rightarrow> string \<Rightarrow> field \<Rightarrow> msg + pfield list" where
  \<comment> \<open>the body of the loop of \<open>planAnnotations\<close>\<close>
  "plan_annotation ip r b crds ns k f =
     (if ReservedAnnotationKey k then Inl (reserved_error (r_name r) k)
      else if f_value f \<noteq> [] then Inr [plain_field k (quoteYAML (f_value f)) [] (literal_rhs (f_value f))]
      else if f_raw f \<noteq> []
      then Inr [plain_field k (NormalizeRawGoTemplate (f_raw f)) []
             (no_rhs\<lparr>sr_kind := RhsRaw, sr_value := f_raw f, sr_targetType := ''string''\<rparr>)]
      else if f_template f \<noteq> [] then
        (if map_of (b_templates b) (f_template f) = None
         then Inl (Msg ''resource %q annotation %q: unknown template %q'' [Str (r_name r), Str k, Str (f_template f)])
         else Inr [plain_field k (templateCallRHS ip (f_template f) (r_name r) k) []
                (no_rhs\<lparr>sr_kind := RhsTemplate, sr_value := f_template f, sr_targetType := ''string''\<rparr>)])
      else if f_from f \<noteq> [] then
        bind_err (wrap_err (\<lambda>err. Msg ''resource %q annotation %q: %w'' [Str (r_name r), Str k, Ctx err]) (ParseFrom (f_from f))) (\<lambda>ref.
        bind_err (annotation_from ip r b crds ns k ref) (\<lambda>e. Inr [e]))
      else Inr [])"

definition planAnnotations :: "printable \<Rightarrow> resource \<Rightarrow> blueprint \<Rightarrow> crd list \<Rightarrow> bool \<Rightarrow> msg + pfield list" where
  "planAnnotations ip r b crds ns =
     bind_err (map_err (\<lambda>k. case map_of (r_annotations r) k of
         Some f \<Rightarrow> plan_annotation ip r b crds ns k f | None \<Rightarrow> Inr []) (sorted_keys (r_annotations r)))
       (\<lambda>es. Inr (concat es))"

section \<open>The composite's status\<close>

function collect_status :: "printable \<Rightarrow> blueprint \<Rightarrow> crd list \<Rightarrow> bool \<Rightarrow> string \<Rightarrow> parameter gomap \<Rightarrow> msg + pfield list" where
  \<comment> \<open>the closure of \<open>planCompositeStatusFields\<close>\<close>
  "collect_status ip b crds ns pre params =
     bind_err (map_err (\<lambda>n. case map_of params n of
         None \<Rightarrow> Inr []
       | Some p \<Rightarrow>
           (let fullPath = (if pre \<noteq> [] then pre @ ''.'' @ n else n) in
            if p_type p = ''object'' \<and> p_properties p \<noteq> [] then collect_status ip b crds ns fullPath (p_properties p)
            else if p_from p \<noteq> [] then
              bind_err (wrap_err (\<lambda>err. Msg ''spec.xrd.status.%s: %w'' [Str fullPath, Ctx err]) (ParseFrom (p_from p))) (\<lambda>ref.
              bind_err (resolveStatusWire ip ref (Ctx (Msg ''spec.xrd.status.%s'' [Str fullPath])) b crds ns) (\<lambda>(grd, expr, leafType).
              if \<not> isFieldTypeCompatible (p_type p) leafType False
              then Inl (Msg ''spec.xrd.status.%s has type %q in the XRD schema, but status path %q has type %q''
                     [Str fullPath, Str (p_type p), Str (go_join ''.'' (fr_statusPath ref)), Str leafType])
              else Inr [plain_field fullPath (if p_type p = ''string'' then interp (expr @ '' | quote'') else interp expr) grd no_rhs]))
            else Inr [])) (sorted_keys params)) (\<lambda>es. Inr (concat es))"
  by pat_completeness auto
termination
proof (relation "measure (\<lambda>(_, _, _, _, _, params). size_list (size_prod (\<lambda>_. 0) size) params)", goal_cases)
  case (2 ip b crds ns pre params n p fullPath)
  then have "(n, p) \<in> set params" by (simp add: map_of_SomeD)
  then have "size p < size_list (size_prod (\<lambda>_. 0) size) params"
    by (induction params) auto
  moreover have "size_list (size_prod (\<lambda>_. 0) size) (p_properties p) < size p" by (cases p) simp
  ultimately show ?case by simp
qed simp

declare collect_status.simps [simp del]

definition planCompositeStatusFields :: "printable \<Rightarrow> blueprint \<Rightarrow> crd list \<Rightarrow> bool \<Rightarrow> msg + pfield list" where
  "planCompositeStatusFields ip b crds ns =
     (if x_status (b_xrd b) = [] then Inr [] else collect_status ip b crds ns [] (x_status (b_xrd b)))"

section \<open>Status guards of a document\<close>

fun status_guards :: "pfield \<Rightarrow> string list" where
  \<comment> \<open>the walk of \<open>collectStatusGuards\<close>, before the duplicates are dropped\<close>
  "status_guards (PField path rhs grd s isMap es) =
     (if sr_kind s = RhsStatus \<and> grd \<noteq> [] then [grd] else []) @ (if isMap then concat (map status_guards es) else [])"

definition collectStatusGuards :: "pfield list list \<Rightarrow> string list" where
  "collectStatusGuards fss = sort (first_seen (concat (map status_guards (concat fss))))"

end
