(* ===== verification/EmitTree.thy ===== *)
theory EmitTree
  imports EmitPlan
begin

text \<open>
  Nested documents (\<open>internal/emit/native.go\<close> and the writers of \<open>composition.go\<close>): the plan is
  folded into a tree of path segments, array elements are put in order, and the tree is written
  with template conditions around what may be absent. A writer returns the \<open>Line\<close> calls it makes.
\<close>

section \<open>The tree\<close>

datatype nnode = NNode (nn_key: string) (nn_seg: string) (nn_idx: int) (nn_indexed: bool) (nn_leaf: "pfield option")
  (nn_map: "structuredRHS option") (nn_children: "nnode list")

definition wrap64 :: "int \<Rightarrow> int" where
  \<comment> \<open>Go's \<open>int\<close>\<close>
  "wrap64 i = (i + 2 ^ 63) mod 2 ^ 64 - 2 ^ 63"

definition index_value :: "string \<Rightarrow> int" where
  "index_value ds = fold (\<lambda>c n. wrap64 (n * 10 + (int (code_of c) - 48))) ds 0"

definition cutArrayIndex :: "string \<Rightarrow> string \<times> int \<times> bool" where
  "cutArrayIndex s =
     (case last_index CHR ''['' s of
        None \<Rightarrow> (s, 0, False)
      | Some bo \<Rightarrow>
          if bo = 0 \<or> \<not> has_suffix s '']'' then (s, 0, False)
          else (let digits = drop (bo + 1) (butlast s)
                in if digits = [] \<or> \<not> list_all is_digit digits then (s, 0, False)
                   else (take bo s, index_value digits, True)))"

definition child_at :: "string \<Rightarrow> nnode list \<Rightarrow> nnode option" where
  \<comment> \<open>\<open>byName\<close>\<close>
  "child_at key cs = find (\<lambda>c. nn_key c = key) cs"

fun put_node :: "nnode \<Rightarrow> nnode list \<Rightarrow> nnode list" where
  \<comment> \<open>a node in place of the one with its key, or after the others\<close>
  "put_node n [] = [n]"
| "put_node n (c # cs) = (if nn_key c = nn_key n then n # cs else c # put_node n cs)"

fun set_nodes :: "nnode list \<Rightarrow> nnode \<Rightarrow> nnode" where
  "set_nodes cs (NNode k s i x l m _) = NNode k s i x l m cs"

fun set_leaf :: "pfield \<Rightarrow> nnode \<Rightarrow> nnode" where
  "set_leaf f (NNode k s i x l m cs) = NNode k s i x (Some f) m cs"

fun set_map :: "structuredRHS \<Rightarrow> nnode \<Rightarrow> nnode" where
  "set_map st (NNode k s i x l m cs) = NNode k s i x l (Some st) cs"

definition whole_and_element :: "string \<Rightarrow> string \<Rightarrow> msg" where
  "whole_and_element resName sg = Msg ''resource %q: %q is set both as a whole array and by element'' [Str resName, Str sg]"

definition clash :: "string \<Rightarrow> bool \<Rightarrow> nnode list \<Rightarrow> bool" where
  \<comment> \<open>a new segment meets the other form of the same array\<close>
  "clash sg indexed cs \<longleftrightarrow>
     (if indexed then (case child_at sg cs of Some c \<Rightarrow> \<not> nn_indexed c | None \<Rightarrow> False)
      else list_ex (\<lambda>c. nn_indexed c \<and> nn_seg c = sg) cs)"

fun insertNativePath :: "string \<Rightarrow> string \<Rightarrow> nnode \<Rightarrow> string list \<Rightarrow> pfield \<Rightarrow> msg + nnode" where
  "insertNativePath resName fullPath cur [] leaf = Inr cur"
| "insertNativePath resName fullPath cur (s # rest) leaf =
     (let (sg, idx, indexed) = cutArrayIndex s; key = (if indexed then s else sg) in
      if sg = [] then Inl (Msg ''resource %q: field %q: empty segment'' [Str resName, Str fullPath])
      else if child_at key (nn_children cur) = None \<and> clash sg indexed (nn_children cur) then Inl (whole_and_element resName sg)
      else
        (let child = (case child_at key (nn_children cur) of Some c \<Rightarrow> c | None \<Rightarrow> NNode key sg idx indexed None None [])
         in case nn_leaf child of
              Some other \<Rightarrow>
                Inl (Msg ''resource %q: field %q conflicts with field %q, which already sets that whole value''
                  [Str resName, Str fullPath, Str (pf_path other)])
            | None \<Rightarrow>
                if rest = [] then
                  (if nn_children child \<noteq> []
                   then Inl (Msg ''resource %q: field %q sets a whole value, but other fields already set paths inside it''
                          [Str resName, Str fullPath])
                   else Inr (set_nodes (put_node (set_leaf leaf child) (nn_children cur)) cur))
                else
                  bind_err (insertNativePath resName fullPath child rest leaf) (\<lambda>child.
                    Inr (set_nodes (put_node child (nn_children cur)) cur))))"

fun mark_map :: "structuredRHS \<Rightarrow> string list \<Rightarrow> nnode \<Rightarrow> nnode" where
  \<comment> \<open>the node at a path, when there is one, is given the map's parameter\<close>
  "mark_map st [] cur = set_map st cur"
| "mark_map st (s # rest) cur =
     (case child_at s (nn_children cur) of
        Some c \<Rightarrow> set_nodes (put_node (mark_map st rest c) (nn_children cur)) cur
      | None \<Rightarrow> cur)"

definition map_param :: "structuredRHS \<Rightarrow> bool" where
  \<comment> \<open>an untyped object parameter fills the map\<close>
  "map_param s \<longleftrightarrow> sr_targetType s = ''object'' \<and> sr_param s \<noteq> []"

fun insert_entries :: "string \<Rightarrow> pfield \<Rightarrow> nnode \<Rightarrow> pfield list \<Rightarrow> msg + nnode" where
  "insert_entries resName f cur [] = Inr cur"
| "insert_entries resName f cur (e # es) =
     bind_err (insertNativePath resName (pf_path f @ ''['' @ pf_path e @ '']'') cur (split_on CHR ''.'' (pf_path f) @ [pf_path e]) e)
       (\<lambda>cur. insert_entries resName f cur es)"

definition insert_plan :: "string \<Rightarrow> pfield \<Rightarrow> nnode \<Rightarrow> msg + nnode" where
  \<comment> \<open>the body of the loop of \<open>buildNativeTree\<close>\<close>
  "insert_plan resName f cur =
     (if pf_isMap f \<and> pf_entries f \<noteq> [] then
        bind_err (insert_entries resName f cur (pf_entries f)) (\<lambda>cur.
          Inr (if map_param (pf_structured f) then mark_map (pf_structured f) (split_on CHR ''.'' (pf_path f)) cur else cur))
      else insertNativePath resName (pf_path f) cur (split_on CHR ''.'' (pf_path f)) f)"

fun insert_plans :: "string \<Rightarrow> pfield list \<Rightarrow> nnode \<Rightarrow> msg + nnode" where
  "insert_plans resName [] cur = Inr cur"
| "insert_plans resName (f # fs) cur = bind_err (insert_plan resName f cur) (insert_plans resName fs)"

definition element_run :: "string \<Rightarrow> nnode list \<Rightarrow> nnode list" where
  "element_run sg cs = sort_key nn_idx (filter (\<lambda>c. nn_indexed c \<and> nn_seg c = sg) cs)"

definition run_check :: "string \<Rightarrow> nnode list \<Rightarrow> string \<Rightarrow> msg option" where
  "run_check resName cs sg =
     check_all (\<lambda>(i, e). refuse (nn_idx e \<noteq> int i)
         (Msg ''resource %q: %s elements must be indexed contiguously from [0]; missing [%d] before [%d]'' [Str resName, Str sg, Num i, Str (int_text (nn_idx e))]))
       (List.enumerate 0 (element_run sg cs))"

definition indexed_segs :: "nnode list \<Rightarrow> string list" where
  "indexed_segs cs = first_seen (map nn_seg (filter nn_indexed cs))"

fun ordered_from :: "nnode list \<Rightarrow> string list \<Rightarrow> nnode list \<Rightarrow> nnode list" where
  \<comment> \<open>each run of elements at the place of its first\<close>
  "ordered_from all seen [] = []"
| "ordered_from all seen (c # cs) =
     (if \<not> nn_indexed c then c # ordered_from all seen cs
      else if nn_seg c \<in> set seen then ordered_from all seen cs
      else element_run (nn_seg c) all @ ordered_from all (nn_seg c # seen) cs)"

lemma set_ordered_from: "set (ordered_from cs seen cs') \<subseteq> set cs \<union> set cs'"
  by (induction cs seen cs' rule: ordered_from.induct) (auto simp: element_run_def)

lemma nn_size: "c \<in> set cs \<Longrightarrow> size c < Suc (size_list size cs)"
  using size_list_estimation' [of c cs "size c" size] by simp

function normalizeNativeArrays :: "string \<Rightarrow> nnode \<Rightarrow> msg + nnode" where
  "normalizeNativeArrays resName (NNode k s i x l m cs) =
     bind_err (check_err (check_all (run_check resName cs) (indexed_segs cs))) (\<lambda>_.
     bind_err (map_err (normalizeNativeArrays resName) (ordered_from cs [] cs)) (\<lambda>cs'. Inr (NNode k s i x l m cs')))"
  by pat_completeness auto
termination
  by (relation "measure (\<lambda>(_, n). size n)") (use set_ordered_from in \<open>fastforce dest: nn_size\<close>)+

definition native_root :: nnode where
  "native_root = NNode [] [] 0 False None None []"

definition buildNativeTree :: "string \<Rightarrow> pfield list \<Rightarrow> msg + nnode" where
  "buildNativeTree resName plan =
     bind_err (insert_plans resName plan native_root) (normalizeNativeArrays resName)"

section \<open>Conditions of a subtree\<close>

definition object_leaf :: "pfield \<Rightarrow> bool" where
  "object_leaf f \<longleftrightarrow> pf_isMap f \<and> sr_targetType (pf_structured f) = ''object'' \<and> pf_rhs f = []"

definition leaf_marks :: "printable \<Rightarrow> pfield \<Rightarrow> string option list" where
  \<comment> \<open>None for a leaf that always renders\<close>
  "leaf_marks ip f =
     [if object_leaf f then Some (spec_has ip (sr_param (pf_structured f)))
      else if pf_guard f = [] then None else Some (pf_guard f)]"

function node_marks :: "printable \<Rightarrow> nnode \<Rightarrow> string option list" where
  \<comment> \<open>the walk of \<open>analyze\<close>\<close>
  "node_marks ip (NNode k s i x l m cs) =
     (case l of Some f \<Rightarrow> leaf_marks ip f | None \<Rightarrow> []) @
     (case m of Some st \<Rightarrow> (if map_param st then [Some (spec_has ip (sr_param st))] else []) | None \<Rightarrow> []) @
     concat (map (node_marks ip) cs)"
  by pat_completeness auto
termination
  by (relation "measure (\<lambda>(_, n). size n)") (auto dest: nn_size)

definition analyze :: "printable \<Rightarrow> nnode \<Rightarrow> bool \<times> string list" where
  "analyze ip n = (None \<in> set (node_marks ip n), first_seen (List.map_filter id (node_marks ip n)))"

section \<open>Writing\<close>

definition or_cond :: "string list \<Rightarrow> string" where
  "or_cond gs = ''or '' @ go_join '' '' (map parens gs)"

definition if_lines :: "nat \<Rightarrow> string \<Rightarrow> line list \<Rightarrow> line list" where
  "if_lines indent cond body = [(indent, ''{{- if '' @ cond @ '' }}'')] @ body @ [(indent, ''{{- end }}'')]"

definition guarded_lines :: "nat \<Rightarrow> string \<Rightarrow> line list \<Rightarrow> line list" where
  "guarded_lines indent grd body = (if grd \<noteq> [] then if_lines indent grd body else body)"

definition range_lines :: "nat \<Rightarrow> string \<Rightarrow> line list" where
  \<comment> \<open>the members of an object parameter\<close>
  "range_lines indent param =
     [(indent, ''{{- range $k, $v := $spec.'' @ param @ '' }}''), (indent, ''{{ $k }}: {{ $v }}''), (indent, ''{{- end }}'')]"

definition key_line :: "nat \<Rightarrow> string \<Rightarrow> line" where
  "key_line indent k = (indent, formatKey k @ '':'')"

definition value_line :: "nat \<Rightarrow> string \<Rightarrow> string \<Rightarrow> line" where
  "value_line indent k rhs = (indent, formatKey k @ '': '' @ rhs)"

definition param_lines :: "printable \<Rightarrow> nat \<Rightarrow> string \<Rightarrow> line list" where
  "param_lines ip indent param = if_lines indent (spec_has ip param) (range_lines indent param)"

definition writeNativeLeaf :: "printable \<Rightarrow> nat \<Rightarrow> nnode \<Rightarrow> pfield \<Rightarrow> line list" where
  "writeNativeLeaf ip indent n f =
     (if object_leaf f then
        if_lines indent (spec_has ip (sr_param (pf_structured f)))
          (key_line indent (nn_seg n) # range_lines (indent + 1) (sr_param (pf_structured f)))
      else
        guarded_lines indent (pf_guard f)
          (if nn_indexed n then [key_line indent (nn_seg n), (indent + 1, ''- '' @ pf_rhs f)]
           else [value_line indent (nn_seg n) (pf_rhs f)]))"

definition branch_lines :: "nat \<Rightarrow> bool \<times> string list \<Rightarrow> line list \<Rightarrow> line list" where
  \<comment> \<open>a branch whose every leaf is optional is written under one condition\<close>
  "branch_lines indent a body = (if fst a then body else if_lines indent (or_cond (snd a)) body)"

definition analyze_run :: "printable \<Rightarrow> nnode list \<Rightarrow> bool \<times> string list" where
  "analyze_run ip elems = (list_ex (\<lambda>e. fst (analyze ip e)) elems, first_seen (concat (map (\<lambda>e. snd (analyze ip e)) elems)))"

definition element_lines :: "printable \<Rightarrow> nat \<Rightarrow> bool \<Rightarrow> nnode \<Rightarrow> line list \<Rightarrow> line list" where
  \<comment> \<open>the condition of one element of several\<close>
  "element_lines ip indent several e body =
     (if several \<and> \<not> fst (analyze ip e) \<and> snd (analyze ip e) \<noteq> []
      then if_lines indent (or_cond (snd (analyze ip e))) body else body)"

definition inline_first :: "nnode \<Rightarrow> pfield option" where
  \<comment> \<open>a first child that can stand on the dash line\<close>
  "inline_first n = (case nn_leaf n of
     Some f \<Rightarrow> if pf_guard f = [] \<and> \<not> nn_indexed n then Some f else None
   | None \<Rightarrow> None)"

definition same_run :: "nnode \<Rightarrow> nnode \<Rightarrow> bool" where
  "same_run c e \<longleftrightarrow> nn_indexed e \<and> nn_seg e = nn_seg c"

lemma size_run: "e \<in> set (takeWhile P cs) \<Longrightarrow> size e < Suc (size_list size cs)"
  by (rule nn_size) (rule set_takeWhileD [THEN conjunct1])

lemma size_rest: "size_list size (dropWhile P cs) \<le> size_list size (cs :: nnode list)"
  by (induction cs) auto

lemma nn_children_size: "size_list size (nn_children n) < size n"
  by (cases n) simp

lemma nn_tail_size:
  "nn_children n = c # cs \<Longrightarrow> size_list size cs < size n"
  "nn_children n = c # cs \<Longrightarrow> Suc (size c + size_list size cs) < size n"
  by (cases n; simp)+

function writeNativeChildren :: "printable \<Rightarrow> nat \<Rightarrow> nnode list \<Rightarrow> line list"
  and writeNativeElement :: "printable \<Rightarrow> nat \<Rightarrow> nnode \<Rightarrow> line list"
  and writeNativeNode :: "printable \<Rightarrow> nat \<Rightarrow> nnode \<Rightarrow> line list" where
  "writeNativeChildren ip indent [] = []"
| "writeNativeChildren ip indent (c # cs) =
     (if \<not> nn_indexed c then writeNativeNode ip indent c @ writeNativeChildren ip indent cs
      else
        (let elems = c # takeWhile (same_run c) cs
         in branch_lines indent (analyze_run ip elems)
              (key_line indent (nn_seg c) #
               concat (map (\<lambda>e. element_lines ip indent (1 < length elems) e (writeNativeElement ip indent e)) elems)) @
            writeNativeChildren ip indent (dropWhile (same_run c) cs)))"
| "writeNativeElement ip indent n =
     (case nn_leaf n of
        Some f \<Rightarrow> [(indent + 1, ''- '' @ pf_rhs f)]
      | None \<Rightarrow>
          (case nn_children n of
             [] \<Rightarrow> []   \<comment> \<open>an element without a value has members, see \<open>nnode_ok\<close>\<close>
           | first # rest \<Rightarrow>
               (case inline_first first of
                  Some f \<Rightarrow> (indent + 1, ''- '' @ formatKey (nn_seg first) @ '': '' @ pf_rhs f) # writeNativeChildren ip (indent + 2) rest
                | None \<Rightarrow> (indent + 1, ''-'') # writeNativeChildren ip (indent + 2) (nn_children n))))"
| "writeNativeNode ip indent n =
     (case nn_leaf n of
        Some f \<Rightarrow> writeNativeLeaf ip indent n f
      | None \<Rightarrow>
          branch_lines indent (analyze ip n)
            (key_line indent (nn_seg n) #
             (case nn_map n of Some st \<Rightarrow> (if map_param st then param_lines ip (indent + 1) (sr_param st) else []) | None \<Rightarrow> []) @
             writeNativeChildren ip (indent + 1) (nn_children n)))"
  by pat_completeness auto
termination
  by (relation "measure (\<lambda>x. case x of
       Inl (_, _, cs) \<Rightarrow> size_list size cs
     | Inr (Inl (_, _, n)) \<Rightarrow> size n
     | Inr (Inr (_, _, n)) \<Rightarrow> size n)")
    (auto simp: less_Suc_eq_le nn_children_size nn_tail_size dest: size_run intro: le_SucI le_trans [OF size_rest])

declare writeNativeElement.simps [simp del] writeNativeNode.simps [simp del]

definition writeNativeFields :: "printable \<Rightarrow> nat \<Rightarrow> string \<Rightarrow> pfield list \<Rightarrow> msg + line list" where
  "writeNativeFields ip indent resName plan =
     bind_err (buildNativeTree resName plan) (\<lambda>rt. Inr (writeNativeChildren ip indent (nn_children rt)))"

end
