(* ===== verification/EmitEnvelope.thy ===== *)
theory EmitEnvelope
  imports EmitTree
begin

text \<open>
  A resource's spec envelope (\<open>internal/emit/envelope.go\<close>): the entries are checked against the
  kind's envelope schema, planned in path order with the defaults of \<open>providerConfigRef\<close>, and
  written with the conditions of what is optional.
\<close>

record env_field =
  ef_path :: "string list"
  ef_rhs :: string
  ef_optional :: bool
  ef_guard :: string
  ef_structured :: structuredRHS

definition env_err :: "resource \<Rightarrow> string \<Rightarrow> string \<Rightarrow> marg list \<Rightarrow> msg" where
  "env_err r p fmt args = Msg (''resource %q: envelope %q'' @ fmt) ([Str (r_name r), Str p] @ args)"

section \<open>Paths\<close>

definition envelope_path_check :: "resource \<Rightarrow> crd \<Rightarrow> node list \<Rightarrow> string \<Rightarrow> msg option" where
  "envelope_path_check r c nodes p =
     (if map_of (walkNodes nodes [] []) p \<noteq> None then None
      else if takeWhile (\<lambda>ch. ch \<noteq> CHR ''.'') p = ''deletionPolicy'' \<and> Namespaced c
      then Some (env_err r p '': the namespaced (.m.) %s variant's envelope has no deletionPolicy'' [Str (crd_kind c)])
      else Some (suggest p (map fst (Leaves nodes []))
        (\<lambda>s. env_err r p '' is not in %s's spec envelope; did you mean %q?'' [Str (crd_kind c), Str s])
        (env_err r p '' is not in %s's spec envelope'' [Str (crd_kind c)])))"

definition checkEnvelopePaths :: "resource \<Rightarrow> crd \<Rightarrow> msg + node gomap" where
  "checkEnvelopePaths r c =
     (if r_envelope r = [] then Inr []
      else if crd_native c
      then Inl (Msg ''resource %q: kind %q is a native Kubernetes kind, and a native object has no Crossplane envelope''
             [Str (r_name r), Str (r_kind r)])
      else
        bind_err (wrap_err (resource_kind_err r) (envelope_tree c)) (\<lambda>nodes.
        bind_err (check_err (check_all (envelope_path_check r c nodes) (sorted_keys (r_envelope r)))) (\<lambda>_.
          Inr (walkNodes nodes [] []))))"

section \<open>Entries\<close>

definition envelopeValueRHS :: "node \<Rightarrow> bool \<Rightarrow> string \<Rightarrow> msg + string" where
  "envelopeValueRHS n branch v =
     (if branch then
        Inl (if n_type n = ''array'' then Msg ''it is an array of objects; value's comma-separated form renders scalar entries only'' []
             else Msg ''it is an object; value cannot render a composite'' [])
      else if n_type n = ''string'' then Inr (quoteYAML v)
      else if n_type n = ''integer'' then
        (case parse_int64 v of None \<Rightarrow> Inl (Msg ''value %q is not a valid integer'' [Str v]) | Some i \<Rightarrow> Inr (int_text i))
      else if n_type n = ''number'' then
        (if finite_float v then Inr v else Inl (Msg ''value %q is not a valid number (NaN and Inf are refused)'' [Str v]))
      else if n_type n = ''boolean'' then
        (if to_lower v \<in> {''true'', ''false''} then Inr (to_lower v)
         else Inl (Msg ''value %q is not a valid boolean (use true or false)'' [Str v]))
      else if n_type n = ''array'' then
        (case flow_list v of None \<Rightarrow> Inl (Msg ''value %q contains an empty entry'' [Str v]) | Some rhs \<Rightarrow> Inr rhs)
      else Inl (Msg ''unsupported schema type %q'' [Str (n_type n)]))"

definition envelopeTypeCompatible :: "string \<Rightarrow> string \<Rightarrow> bool" where
  "envelopeTypeCompatible nodeType paramType =
     (if nodeType = ''string'' then paramType = ''string''
      else if nodeType = ''integer'' then paramType = ''integer''
      else if nodeType = ''number'' then paramType \<in> {''number'', ''integer''}
      else if nodeType = ''boolean'' then paramType = ''boolean''
      else nodeType = [])"

definition envelope_wire_error :: "resource \<Rightarrow> string \<Rightarrow> node \<Rightarrow> bool \<Rightarrow> msg option" where
  "envelope_wire_error r p n branch =
     (if n_type n = ''array'' then Some (env_err r p '' is an array, and a from: wire cannot render a list in v1'' [])
      else if branch then Some (env_err r p '' is an object; a from: wire renders one scalar and cannot fill it'' [])
      else if n_type n = ''map'' then Some (env_err r p '' is a map, and a from: wire cannot render one in v1'' [])
      else None)"

definition envelope_type_error :: "resource \<Rightarrow> string \<Rightarrow> node \<Rightarrow> string \<Rightarrow> string \<Rightarrow> string \<Rightarrow> msg" where
  "envelope_type_error r p n what name ty =
     env_err r p ('' has type %q in the CRD schema, but '' @ what @ '' %q has type %q'') [Str (n_type n), Str name, Str ty]"

definition envelope_rhs :: "node \<Rightarrow> string \<Rightarrow> string" where
  "envelope_rhs n expr = (if n_type n = ''string'' then interp (expr @ '' | quote'') else interp expr)"

definition envelope_env :: "printable \<Rightarrow> resource \<Rightarrow> blueprint \<Rightarrow> string \<Rightarrow> node \<Rightarrow> bool \<Rightarrow> string \<Rightarrow> msg + env_field" where
  "envelope_env ip r b p n branch key =
     (case map_of (b_env b) key of
        None \<Rightarrow> Inl (UnknownEnvKeyError (Ctx (Msg ''resource %q envelope %q'' [Str (r_name r), Str p])) key (b_env b))
      | Some envDecl \<Rightarrow>
          bind_err (check_err (envelope_wire_error r p n branch)) (\<lambda>_.
          if \<not> envelopeTypeCompatible (n_type n) (k_type envDecl)
          then Inl (envelope_type_error r p n ''environment key'' key (k_type envDecl))
          else
            (let s = no_rhs\<lparr>sr_kind := RhsEnv, sr_param := key, sr_paramSegs := [key], sr_targetType := n_type n,
                   sr_sourceType := k_type envDecl, sr_isByte := (n_format n = ''byte'')\<rparr>
             in if k_default envDecl \<noteq> []
                then (let expr = envDefaultExpr ip key envDecl
                      in Inr \<lparr>ef_path = split_on CHR ''.'' p, ef_rhs = envelope_rhs n expr, ef_optional = False, ef_guard = [],
                           ef_structured = s\<lparr>sr_rawExpr := expr, sr_envDefault := k_default envDecl, sr_hasEnvDef := True\<rparr>\<rparr>)
                else (let deref = ''$env.'' @ key; g = env_has ip key
                      in Inr \<lparr>ef_path = split_on CHR ''.'' p, ef_rhs = envelope_rhs n deref, ef_optional = True, ef_guard = g,
                           ef_structured = s\<lparr>sr_rawExpr := deref, sr_optional := True, sr_guard := g\<rparr>\<rparr>))))"

definition envelope_param :: "printable \<Rightarrow> resource \<Rightarrow> blueprint \<Rightarrow> string \<Rightarrow> node \<Rightarrow> bool \<Rightarrow> string \<Rightarrow> msg + env_field" where
  "envelope_param ip r b p n branch from =
     (let (param, m) = (case ParamRef from of Some pm \<Rightarrow> pm | None \<Rightarrow> ([], [])) in
      bind_err (ParamChain (b_xrd b) (Ctx (Msg ''resource %q envelope %q'' [Str (r_name r), Str p])) (chain_ref from)) (\<lambda>(path, chain).
      let wireDecl = last chain; refName = go_join ''.'' path; deref = ''$spec.'' @ refName in
      bind_err (check_err (envelope_wire_error r p n branch)) (\<lambda>_.
      if \<not> envelopeTypeCompatible (n_type n) (p_type wireDecl)
      then Inl (envelope_type_error r p n ''parameter'' refName (p_type wireDecl))
      else
        (let g = (if m \<noteq> [] then chainGuard ip path chain
                  else if \<not> p_required (hd chain) then spec_has ip param else [])
         in Inr \<lparr>ef_path = split_on CHR ''.'' p, ef_rhs = envelope_rhs n deref, ef_optional = (g \<noteq> []), ef_guard = g,
              ef_structured = no_rhs\<lparr>sr_kind := RhsParam, sr_param := chain_ref from, sr_paramSegs := path, sr_rawExpr := deref,
                sr_targetType := n_type n, sr_sourceType := p_type wireDecl, sr_isByte := (n_format n = ''byte''),
                sr_optional := (g \<noteq> []), sr_guard := g\<rparr>\<rparr>))))"

definition fixed_entry :: "string list \<Rightarrow> string \<Rightarrow> structuredRHS \<Rightarrow> env_field" where
  "fixed_entry path rhs s = \<lparr>ef_path = path, ef_rhs = rhs, ef_optional = False, ef_guard = [], ef_structured = s\<rparr>"

definition plan_entry :: "printable \<Rightarrow> yaml_map \<Rightarrow> resource \<Rightarrow> blueprint \<Rightarrow> node \<Rightarrow> string \<Rightarrow> field \<Rightarrow> msg + env_field list" where
  \<comment> \<open>the body of the loop over the paths\<close>
  "plan_entry ip yaml r b n p f =
     (let branch = (n_children n \<noteq> [] \<or> n_type n = ''object''); path = split_on CHR ''.'' p in
      if f_raw f \<noteq> [] then
        (case (if branch then ParseFlowStyleMap yaml (f_raw f) else None) of
           Some flowMap \<Rightarrow>
             Inr (map (\<lambda>k. let v = (case map_of flowMap k of Some v \<Rightarrow> v | None \<Rightarrow> []) in
                 fixed_entry (path @ [k]) (quoteYAML v) (literal_rhs v)) (sorted_keys flowMap))
         | None \<Rightarrow> Inr [fixed_entry path (NormalizeRawGoTemplate (f_raw f)) (no_rhs\<lparr>sr_kind := RhsRaw, sr_value := f_raw f\<rparr>)])
      else if f_value f \<noteq> [] then
        bind_err (wrap_err (\<lambda>err. env_err r p '': %w'' [Ctx err]) (envelopeValueRHS n branch (f_value f))) (\<lambda>rhs.
          Inr [fixed_entry path rhs (no_rhs\<lparr>sr_kind := RhsLiteral, sr_value := f_value f, sr_targetType := n_type n\<rparr>)])
      else if f_from f \<noteq> [] then
        bind_err (case EnvRef (f_from f) of
            Some key \<Rightarrow> envelope_env ip r b p n branch key
          | None \<Rightarrow> envelope_param ip r b p n branch (f_from f)) (\<lambda>e. Inr [e])
      else Inr [fixed_entry path [] no_rhs])"

section \<open>The plan\<close>

definition pcr :: string where "pcr = ''providerConfigRef''"

definition pcr_defaults :: "env_field list \<Rightarrow> env_field list" where
  \<comment> \<open>the entries added to a partial \<open>providerConfigRef\<close>\<close>
  "pcr_defaults plan =
     (let hasName = list_ex (\<lambda>e. ef_path e = [pcr, ''name'']) plan;
          hasKind = list_ex (\<lambda>e. ef_path e = [pcr, ''kind'']) plan;
          hasOther = list_ex (\<lambda>e. ef_path e \<noteq> [] \<and> hd (ef_path e) = pcr \<and>
            ef_path e \<noteq> [pcr, ''name''] \<and> ef_path e \<noteq> [pcr, ''kind'']) plan
      in (if (hasName \<or> hasOther) \<and> \<not> hasKind
          then [fixed_entry [pcr, ''kind''] ''ClusterProviderConfig'' (no_rhs\<lparr>sr_kind := RhsLiteral, sr_value := ''ClusterProviderConfig''\<rparr>)]
          else []) @
         (if hasKind \<and> \<not> hasName
          then [fixed_entry [pcr, ''name''] ''{{ $spec.providerName }}''
                 (no_rhs\<lparr>sr_kind := RhsParam, sr_param := ''providerName'', sr_paramSegs := [''providerName''],
                    sr_rawExpr := ''$spec.providerName'', sr_targetType := ''string'', sr_sourceType := ''string''\<rparr>)]
          else []))"

definition drop_head :: "env_field \<Rightarrow> env_field" where
  "drop_head e = e\<lparr>ef_path := tl (ef_path e)\<rparr>"

definition has_head :: "string \<Rightarrow> env_field \<Rightarrow> bool" where
  "has_head k e \<longleftrightarrow> ef_path e \<noteq> [] \<and> hd (ef_path e) = k"

function by_head :: "env_field list \<Rightarrow> (string \<times> env_field list) list" where
  \<comment> \<open>runs of entries with one first segment, an entry at the key itself left out\<close>
  "by_head [] = []"
| "by_head (e # es) =
     (case ef_path e of
        [] \<Rightarrow> by_head es
      | k # _ \<Rightarrow> (k, e # takeWhile (has_head k) es) # by_head (dropWhile (has_head k) es))"
  by pat_completeness auto
termination
  by (relation "measure length") (auto simp: less_Suc_eq_le length_dropWhile_le)

definition required_key_error :: "resource \<Rightarrow> node gomap \<Rightarrow> string \<times> env_field list \<Rightarrow> msg option" where
  "required_key_error r nodes = (\<lambda>(key, es).
     refuse (list_all ef_optional es \<and> (case map_of nodes key of Some n \<Rightarrow> n_required n | None \<Rightarrow> False))
       (env_err r key '' is required by the kind's spec schema, but every blueprint entry under it is wired from an optional parameter'' []))"

definition planEnvelope :: "printable \<Rightarrow> yaml_map \<Rightarrow> resource \<Rightarrow> blueprint \<Rightarrow> node gomap \<Rightarrow> msg + env_field list" where
  "planEnvelope ip yaml r b nodes =
     bind_err (map_err (\<lambda>p. case (map_of (r_envelope r) p, map_of nodes p) of
         (Some f, Some n) \<Rightarrow> plan_entry ip yaml r b n p f
       | _ \<Rightarrow> Inr []) (sorted_keys (r_envelope r))) (\<lambda>es.
     let plan = concat es;
         plan = sort_key (\<lambda>e. go_join ''.'' (ef_path e)) (plan @ pcr_defaults plan)
     in bind_err (check_err (check_all (required_key_error r nodes) (by_head plan))) (\<lambda>_. Inr plan))"

section \<open>Writing\<close>

definition orGuards :: "string list \<Rightarrow> string" where
  "orGuards gs = (if length gs = 1 then hd gs else or_cond gs)"

definition path_weight :: "env_field list \<Rightarrow> nat" where
  "path_weight es = sum_list (map (\<lambda>e. length (ef_path e)) es)"

lemma ef_path_drop_head [simp]: "ef_path (drop_head e) = tl (ef_path e)"
  by (simp add: drop_head_def)

lemma by_head_weight:
  assumes "(k, sub) \<in> set (by_head es)"
  shows "path_weight (map drop_head sub) < path_weight es"
  using assms
proof (induction es rule: by_head.induct)
  case (2 e es)
  note IH = this
  show ?case
  proof (cases "ef_path e")
    case Nil
    with IH show ?thesis by (simp add: path_weight_def)
  next
    case (Cons k' rest)
    have shorter: "path_weight (map drop_head xs) \<le> path_weight xs" for xs
      by (induction xs) (auto simp: path_weight_def intro: add_mono)
    have split: "path_weight es = path_weight (takeWhile (has_head k') es) + path_weight (dropWhile (has_head k') es)"
      using takeWhile_dropWhile_id [of "has_head k'" es]
      by (metis map_append path_weight_def sum_list_append)
    from IH Cons consider "k = k'" "sub = e # takeWhile (has_head k') es" | "(k, sub) \<in> set (by_head (dropWhile (has_head k') es))"
      by auto
    then show ?thesis
    proof cases
      case 1
      with Cons split shorter [of "takeWhile (has_head k') es"] show ?thesis
        by (simp add: path_weight_def)
    next
      case 2
      with IH Cons have "path_weight (map drop_head sub) < path_weight (dropWhile (has_head k') es)" by simp
      with split show ?thesis by (simp add: path_weight_def)
    qed
  qed
qed simp

function writeEnvelopeNode :: "nat \<Rightarrow> string \<Rightarrow> env_field list \<Rightarrow> string \<Rightarrow> line list" where
  "writeEnvelopeNode level key entries inherited =
     (let guards = first_seen (map ef_guard (filter ef_optional entries));
          grd = (if list_all ef_optional entries then orGuards guards else []);
          wrap = (grd \<noteq> [] \<and> grd \<noteq> inherited);
          inherited = (if wrap then grd else inherited);
          body = (case entries of
                    [e] \<Rightarrow> if ef_path e = [] then [(level, key @ '': '' @ ef_rhs e)]
                           else (level, key @ '':'') # concat (map (\<lambda>(k, sub). writeEnvelopeNode (level + 1) k (map drop_head sub) inherited) (by_head entries))
                  | _ \<Rightarrow> (level, key @ '':'') # concat (map (\<lambda>(k, sub). writeEnvelopeNode (level + 1) k (map drop_head sub) inherited) (by_head entries)))
      in if wrap then if_lines level grd body else body)"
  by pat_completeness auto
termination
  by (relation "measure (\<lambda>(_, _, es, _). path_weight es)") (auto simp del: by_head.simps dest: by_head_weight)

declare writeEnvelopeNode.simps [simp del]

definition writeProviderConfigRef :: "nat \<Rightarrow> line list" where
  "writeProviderConfigRef ti =
     [(ti, ''  providerConfigRef:''), (ti, ''    kind: ClusterProviderConfig''), (ti, ''    name: {{ $spec.providerName }}'')]"

fun envelope_groups :: "nat \<Rightarrow> bool \<Rightarrow> (string \<times> env_field list) list \<Rightarrow> line list" where
  \<comment> \<open>the loop of \<open>writeEnvelope\<close>; the flag says that the default reference is still to be written\<close>
  "envelope_groups ti todo [] = (if todo then writeProviderConfigRef ti else [])"
| "envelope_groups ti todo ((key, es) # gs) =
     (let now = (todo \<and> key > pcr)
      in (if now then writeProviderConfigRef ti else []) @
         writeEnvelopeNode (ti + 1) key (map drop_head es) [] @
         envelope_groups ti (todo \<and> \<not> now) gs)"

definition writeEnvelope :: "nat \<Rightarrow> env_field list \<Rightarrow> bool \<Rightarrow> line list" where
  "writeEnvelope ti plan wantNamespaced =
     envelope_groups ti (wantNamespaced \<and> \<not> list_ex (has_head pcr) plan) (by_head plan)"

end
