(* ===== verification/EmitResource.thy ===== *)
theory EmitResource
  imports EmitEnvelope Templates
begin

text \<open>
  One composed resource (\<open>planSingleResource\<close> and the required-field checks of \<open>plan.go\<close>, the
  writers of \<open>composition.go\<close> and \<open>annotations.go\<close>): its plan, and the lines of its document inside
  the template, with the condition, the status guards and the loop around it.
\<close>

section \<open>Planning a resource\<close>

record planned =
  pl_resource :: resource
  pl_crd :: crd
  pl_apiVersion :: string
  pl_looped :: bool
  pl_plan :: "pfield list"
  pl_metaPlan :: "pfield list"
  pl_bodyPlan :: "pfield list"
  pl_envPlan :: "env_field list"
  pl_annPlan :: "pfield list"

definition metadata_path :: "string \<Rightarrow> bool" where
  "metadata_path p \<longleftrightarrow> has_prefix p ''metadata.'' \<or> p = ''name''"

fun set_path :: "string \<Rightarrow> pfield \<Rightarrow> pfield" where
  "set_path p (PField _ rhs grd s m es) = PField p rhs grd s m es"

definition meta_annotations :: "pfield \<Rightarrow> pfield list" where
  \<comment> \<open>the annotations a field under \<open>metadata.annotations\<close> sets\<close>
  "meta_annotations fld =
     (if pf_path fld = ''metadata.annotations'' then (if pf_isMap fld then pf_entries fld else [])
      else case cut_prefix (pf_path fld) ''metadata.annotations.'' of
             Some annKey \<Rightarrow> [set_path annKey fld]
           | None \<Rightarrow> [])"

definition mergeNativeAnnotations :: "string \<Rightarrow> pfield list \<Rightarrow> pfield list \<Rightarrow> msg + pfield list" where
  "mergeNativeAnnotations resName annPlan metaPlan =
     (let extra = concat (map meta_annotations metaPlan) in
      case find (\<lambda>e. ReservedAnnotationKey (pf_path e)) extra of
        Some e \<Rightarrow> Inl (reserved_error resName (pf_path e))
      | None \<Rightarrow>
          Inr (sort_key pf_path (map snd (fold (\<lambda>e m. AList.update (pf_path e) e m) (annPlan @ extra) []))))"

definition otherNativeMetadata :: "pfield list \<Rightarrow> pfield list" where
  "otherNativeMetadata metaPlan =
     map (\<lambda>fld. set_path (trim_prefix (pf_path fld) ''metadata.'') fld)
       (filter (\<lambda>fld. pf_path fld \<notin> {''metadata.name'', ''name'', ''metadata.annotations''} \<and>
          \<not> has_prefix (pf_path fld) ''metadata.annotations.'') metaPlan)"

definition planSingleResource :: "printable \<Rightarrow> yaml_map \<Rightarrow> resource \<Rightarrow> blueprint \<Rightarrow> crd list \<Rightarrow> bool \<Rightarrow> msg + planned" where
  "planSingleResource ip yaml r b crds ns =
     bind_err (resolveKind crds r ns) (\<lambda>c.
     bind_err (wrap_err (resource_kind_err r) (CRD_APIVersion c)) (\<lambda>apiVersion.
     bind_err (check_err (checkFieldPaths r c)) (\<lambda>_.
     bind_err (checkEnvelopePaths r c) (\<lambda>envNodes.
     bind_err (check_err (checkStatusRefs r b crds ns)) (\<lambda>_.
     bind_err (planAnnotations ip r b crds ns) (\<lambda>annPlan.
     bind_err (conventionFields r b c) (\<lambda>fs.
     bind_err (planFields ip yaml (r\<lparr>r_fields := fs\<rparr>) b crds ns) (\<lambda>plan.
     let metaPlan = (if crd_native c then filter (\<lambda>f. metadata_path (pf_path f)) plan else []);
         bodyPlan = (if crd_native c then filter (\<lambda>f. \<not> metadata_path (pf_path f)) plan else plan)
     in
     bind_err (if crd_native c then mergeNativeAnnotations (r_name r) annPlan metaPlan else Inr annPlan) (\<lambda>annPlan.
     bind_err (planEnvelope ip yaml r b envNodes) (\<lambda>envPlan.
       Inr \<lparr>pl_resource = r, pl_crd = c, pl_apiVersion = apiVersion, pl_looped = (r_forEach r \<noteq> []), pl_plan = plan,
            pl_metaPlan = metaPlan, pl_bodyPlan = bodyPlan, pl_envPlan = envPlan, pl_annPlan = annPlan\<rparr>))))))))))"

section \<open>Required fields\<close>

definition covers_leaf :: "string \<Rightarrow> string \<Rightarrow> bool" where
  \<comment> \<open>a set path is a leaf, an entry of it, or an ancestor\<close>
  "covers_leaf leaf p =
     (let (basePath, _, isMap) = ParseFieldPath p; norm = zero_indices p; normBase = zero_indices basePath
      in list_ex (\<lambda>q. norm = q \<or> normBase = q) (leaf # ancestorPaths leaf))"

definition covers_branch :: "string \<Rightarrow> string \<Rightarrow> bool" where
  "covers_branch br p =
     (let (basePath, _, _) = ParseFieldPath p; norm = zero_indices p; normBase = zero_indices basePath
      in norm = br \<or> normBase = br \<or> has_prefix norm (br @ ''.'') \<or> has_prefix normBase (br @ ''.'') \<or>
         has_prefix norm (br @ ''['') \<or> has_prefix normBase (br @ ''[''))"

definition missing_fields :: "(string \<Rightarrow> string) \<Rightarrow> node list \<Rightarrow> field gomap \<Rightarrow> string list" where
  "missing_fields lower nodes fs =
     map if_path (filter (\<lambda>l. \<not> list_ex (\<lambda>(p, _). covers_leaf (if_path l) p) fs)
       (Fields lower nodes \<lparr>q_requiredOnly = True, q_maxDepth = 0, q_prefix = [], q_search = [], q_limit = 0\<rparr>)) @
     map if_path (filter (\<lambda>br. \<not> list_ex (\<lambda>(p, _). covers_branch (if_path br) p) fs) (RequiredBranchFields nodes))"

definition checkResourceRequiredFields :: "(string \<Rightarrow> string) \<Rightarrow> resource \<Rightarrow> crd \<Rightarrow> bool \<Rightarrow> msg option" where
  "checkResourceRequiredFields lower r c allowUnconfigured =
     (if crd_native c \<or> allowUnconfigured \<and> r_fields r = [] then None
      else case field_tree c of
             Inl err \<Rightarrow> Some (resource_kind_err r err)
           | Inr nodes \<Rightarrow>
               if nodes = [] then None
               else (case sort (missing_fields lower nodes (r_fields r)) of
                       [] \<Rightarrow> None
                     | m # _ \<Rightarrow> Some (Msg ''resource %q: missing required field %q in %s spec.forProvider''
                         [Str (r_name r), Str m, Str (crd_kind c)])))"

definition wants_namespaced :: "blueprint \<Rightarrow> bool" where
  "wants_namespaced b \<longleftrightarrow> x_scope (b_xrd b) = ''Namespaced''"

definition required_check :: "(string \<Rightarrow> string) \<Rightarrow> blueprint \<Rightarrow> crd list \<Rightarrow> bool \<Rightarrow> resource \<Rightarrow> msg option" where
  "required_check lower b crds allowUnconfigured r =
     (if allowUnconfigured \<and> r_fields r = [] then None
      else case resolveKind crds r (wants_namespaced b) of
             Inl err \<Rightarrow> Some err
           | Inr c \<Rightarrow>
               (case conventionFields r b c of
                  Inl err \<Rightarrow> Some err
                | Inr fs \<Rightarrow> checkResourceRequiredFields lower (r\<lparr>r_fields := fs\<rparr>) c allowUnconfigured))"

definition checkRequiredFields :: "(string \<Rightarrow> string) \<Rightarrow> blueprint \<Rightarrow> crd list \<Rightarrow> bool \<Rightarrow> msg option" where
  "checkRequiredFields lower b crds allowUnconfigured = check_all (required_check lower b crds allowUnconfigured) (b_resources b)"

definition CheckRequiredFields :: "(string \<Rightarrow> string) \<Rightarrow> blueprint \<Rightarrow> crd list \<Rightarrow> msg option" where
  "CheckRequiredFields lower b crds = checkRequiredFields lower b crds False"

definition CheckRequiredFieldsDraft :: "(string \<Rightarrow> string) \<Rightarrow> blueprint \<Rightarrow> crd list \<Rightarrow> msg option" where
  "CheckRequiredFieldsDraft lower b crds = checkRequiredFields lower b crds True"

fun param_required :: "parameter \<Rightarrow> string list \<Rightarrow> bool" where
  "param_required p [] = True"
| "param_required p (seg # rest) =
     (case map_of (p_properties p) seg of
        Some sub \<Rightarrow> p_required sub \<and> param_required sub rest
      | None \<Rightarrow> False)"

definition isXRDParamRequired :: "xrd \<Rightarrow> string \<Rightarrow> bool" where
  "isXRDParamRequired x paramPath =
     (let parts = split_on CHR ''.'' paramPath in
      case map_of (x_parameters x) (hd parts) of
        Some p \<Rightarrow> p_required p \<and> param_required p (tl parts)
      | None \<Rightarrow> False)"

definition field_at :: "index_field gomap \<Rightarrow> string \<Rightarrow> index_field option" where
  \<comment> \<open>the spellings under which a field path is looked for, in turn\<close>
  "field_at byPath p =
     (let (basePath, _, _) = ParseFieldPath p; trimmed = trim_prefix p ''spec.forProvider.'' in
      case map_of byPath p of Some f \<Rightarrow> Some f | None \<Rightarrow>
     (case map_of byPath (zero_indices p) of Some f \<Rightarrow> Some f | None \<Rightarrow>
     (case map_of byPath (zero_indices basePath) of Some f \<Rightarrow> Some f | None \<Rightarrow>
     (case map_of byPath trimmed of Some f \<Rightarrow> Some f | None \<Rightarrow> map_of byPath (zero_indices trimmed)))))"

definition optional_wire :: "blueprint \<Rightarrow> resource \<Rightarrow> index_field gomap \<Rightarrow> string \<Rightarrow> field \<Rightarrow> msg option" where
  \<comment> \<open>the warning for one field, when it deserves one\<close>
  "optional_wire b r byPath p f =
     (let from = trim_space (f_from f) in
      if \<not> has_prefix from ''params.'' then None
      else if \<not> (case field_at byPath p of Some sf \<Rightarrow> if_required sf \<or> if_chain sf | None \<Rightarrow> False) then None
      else (let paramPath = trim_space (trim_prefix from ''params.'')
            in if isXRDParamRequired (b_xrd b) paramPath then None
               else Some (Msg ''resource %q: optional parameter %q feeds required field %q'' [Str (r_name r), Str paramPath, Str p])))"

definition resource_warnings :: "(string \<Rightarrow> string) \<Rightarrow> blueprint \<Rightarrow> crd list \<Rightarrow> resource \<Rightarrow> msg list" where
  "resource_warnings lower b crds r =
     (if r_fields r = [] then []
      else case resolveKind crds r (wants_namespaced b) of
             Inl _ \<Rightarrow> []
           | Inr c \<Rightarrow>
               (case field_tree c of
                  Inl _ \<Rightarrow> []
                | Inr nodes \<Rightarrow>
                    if nodes = [] then []
                    else
                      (let byPath = fold (\<lambda>f m. AList.update (if_path f) f m)
                             (Fields lower nodes \<lparr>q_requiredOnly = False, q_maxDepth = 0, q_prefix = [], q_search = [], q_limit = 0\<rparr>
                              @ RequiredBranchFields nodes) []
                       in List.map_filter (\<lambda>p. case map_of (r_fields r) p of
                            Some f \<Rightarrow> optional_wire b r byPath p f | None \<Rightarrow> None) (sorted_keys (r_fields r)))))"

definition CheckOptionalParamWires :: "(string \<Rightarrow> string) \<Rightarrow> blueprint \<Rightarrow> crd list \<Rightarrow> msg list" where
  "CheckOptionalParamWires lower b crds = concat (map (resource_warnings lower b crds) (b_resources b))"

section \<open>Engines without templates\<close>

definition go_template_raw :: "string \<Rightarrow> bool" where
  "go_template_raw raw \<longleftrightarrow> raw \<noteq> [] \<and> (contains raw ''{{'' \<or> IsBareGoTemplateExpr raw)"

definition foreign_field :: "blueprint \<Rightarrow> resource \<Rightarrow> string \<Rightarrow> bool \<Rightarrow> string \<times> field \<Rightarrow> msg option" where
  "foreign_field b r what templates = (\<lambda>(k, f).
     if templates \<and> f_template f \<noteq> []
     then Some (Msg (''resource %q '' @ what @ '' %q: engine %q does not support template: fields'') [Str (r_name r), Str k, Str (Engine b)])
     else if go_template_raw (f_raw f)
     then Some (Msg (''resource %q '' @ what @ '' %q: raw %q contains Go-template syntax which is only supported with the go-templating engine (current engine is %q)'')
            [Str (r_name r), Str k, Str (f_raw f), Str (Engine b)])
     else None)"

definition refuseGoTemplateOnlyFeatures :: "blueprint \<Rightarrow> msg option" where
  \<comment> \<open>the loops over a resource's maps are in whatever order they are ranged over\<close>
  "refuseGoTemplateOnlyFeatures b =
     (if sp_conventions (b_spec b) \<noteq> [] then Some (Msg ''spec.conventions: engine %q does not support template: conventions'' [Str (Engine b)])
      else if b_templates b \<noteq> [] then Some (Msg ''spec.templates: engine %q does not support template: blocks'' [Str (Engine b)])
      else check_all (\<lambda>r. first_error
        [check_all (foreign_field b r ''field'' True) (r_fields r),
         check_all (foreign_field b r ''annotation'' True) (r_annotations r),
         check_all (foreign_field b r ''envelope'' False) (r_envelope r)]) (b_resources b))"

end
