(* ===== verification/EmitTemplate.thy ===== *)
theory EmitTemplate
  imports EmitResource
begin

text \<open>
  The template body (\<open>composition.go\<close>, \<open>annotations.go\<close>): the preamble, a document per resource
  with its condition, status guards and loop, and the composite's status.
\<close>

section \<open>The fields of a managed resource\<close>

definition entry_conds :: "pfield \<Rightarrow> string list" where
  "entry_conds f = map (\<lambda>e. pf_guard e) (filter (\<lambda>e. pf_guard e \<noteq> []) (pf_entries f))"

function writeField :: "printable \<Rightarrow> nat \<Rightarrow> pfield \<Rightarrow> line list" where
  "writeField ip indent (PField path rhs grd s isMap es) =
     (let f = PField path rhs grd s isMap es;
          params = (if map_param s then param_lines ip (indent + 1) (sr_param s) else []);
          conds = (if map_param s then [spec_has ip (sr_param s)] else []) @ entry_conds f;
          body = key_line indent path # params @ concat (map (writeField ip (indent + 1)) es)
      in if isMap then
           (if map_param s \<and> es = [] then
              if_lines indent (spec_has ip (sr_param s)) (key_line indent path # range_lines (indent + 1) (sr_param s))
            else if list_ex (\<lambda>e. pf_guard e = []) es then body
            else if conds \<noteq> [] then
              [(indent, ''{{- if '' @ or_cond conds @ '' }}'')] @ body @
              [(indent, ''{{- else }}''), (indent, formatKey path @ '': {}''), (indent, ''{{- end }}'')]
            else [(indent, formatKey path @ '': {}'')])
         else guarded_lines indent grd [value_line indent path rhs])"
  by pat_completeness auto

lemma pfield_size: "e \<in> set es \<Longrightarrow> size e < Suc (size_list size es)"
  using size_list_estimation' [of e es "size e" size] by simp

termination writeField
  by (relation "measure (\<lambda>(_, _, f). size f)") (auto dest: pfield_size)

declare writeField.simps [simp del]

definition else_lines :: "nat \<Rightarrow> string \<Rightarrow> line list \<Rightarrow> line list" where
  \<comment> \<open>a block that falls back to an empty mapping\<close>
  "else_lines indent cond body =
     [(indent, ''{{- if '' @ cond @ '' }}'')] @ body @ [(indent, ''{{- else }}''), (indent, ''{}''), (indent, ''{{- end }}'')]"

definition field_conds :: "printable \<Rightarrow> pfield \<Rightarrow> string list" where
  \<comment> \<open>the conditions \<open>writeMapField\<close> collects from one field\<close>
  "field_conds ip f =
     (if pf_isMap f then (if map_param (pf_structured f) then [spec_has ip (sr_param (pf_structured f))] else []) @ entry_conds f
      else if pf_guard f \<noteq> [] then [pf_guard f] else [])"

definition guaranteed :: "pfield \<Rightarrow> bool" where
  "guaranteed f \<longleftrightarrow> (if pf_isMap f then list_ex (\<lambda>e. pf_guard e = []) (pf_entries f) else pf_guard f = [])"

definition writeMapField :: "printable \<Rightarrow> nat \<Rightarrow> string \<Rightarrow> nat \<Rightarrow> pfield list \<Rightarrow> line list" where
  "writeMapField ip keyIndent key childIndent plan =
     (if plan = [] then [(keyIndent, ''  '' @ key @ '': {}'')]
      else
        (let body = concat (map (writeField ip childIndent) plan); conds = concat (map (field_conds ip) plan)
         in (keyIndent, ''  '' @ key @ '':'') #
            (if list_ex guaranteed plan then body
             else if conds \<noteq> [] then else_lines childIndent (or_cond conds) body
             else body)))"

definition tree_lines :: "printable \<Rightarrow> nat \<Rightarrow> nnode \<Rightarrow> line list" where
  \<comment> \<open>a tree whose leaves may all be absent falls back to an empty mapping\<close>
  "tree_lines ip indent rt =
     (let (unconditional, guards) = analyze ip rt; body = writeNativeChildren ip indent (nn_children rt)
      in if \<not> unconditional \<and> guards \<noteq> [] then else_lines indent (or_cond guards) body else body)"

definition writeForProviderTree :: "printable \<Rightarrow> nat \<Rightarrow> nat \<Rightarrow> string \<Rightarrow> pfield list \<Rightarrow> msg + line list" where
  "writeForProviderTree ip keyIndent childIndent resName plan =
     (if plan = [] then Inr [(keyIndent, ''  forProvider: {}'')]
      else if \<not> list_ex (\<lambda>f. \<not> pf_isMap f \<and> (contains (pf_path f) ''.'' \<or> contains (pf_path f) ''['')) plan
      then Inr (writeMapField ip keyIndent ''forProvider'' childIndent plan)
      else bind_err (buildNativeTree resName plan) (\<lambda>rt.
             Inr ((keyIndent, ''  forProvider:'') # tree_lines ip childIndent rt)))"

definition writeAnnotations :: "nat \<Rightarrow> pfield list \<Rightarrow> line list" where
  "writeAnnotations ti plan =
     concat (map (\<lambda>fld.
       (if pf_guard fld \<noteq> [] then [(ti, ''    {{- if '' @ pf_guard fld @ '' }}'')] else []) @
       [(ti, ''    '' @ quoteYAML (pf_path fld) @ '': '' @ pf_rhs fld)] @
       (if pf_guard fld \<noteq> [] then [(ti, ''    {{- end }}'')] else [])) plan)"

section \<open>The document of a resource\<close>

definition looped_printf :: "string \<Rightarrow> string" where
  "looped_printf expr = interp (''printf '' @ dq ''%s-%d'' @ '' '' @ expr @ '' $i'')"

definition goLoopedMetaName :: "printable \<Rightarrow> pfield \<Rightarrow> string" where
  "goLoopedMetaName ip f =
     (let s = pf_structured f; rhs = pf_rhs f;
          from_rhs = (if contains rhs ''{{'' then rhs @ ''-{{ $i }}'' else looped_printf (go_quote ip rhs))
      in if sr_rawExpr s \<noteq> [] then
           (if sr_kind s = RhsMetadata then interp (''printf '' @ dq (''%s-'' @ sr_resource s @ ''-%d'') @ '' $xr $i'')
            else looped_printf (if contains (sr_rawExpr s) '' '' \<and> \<not> has_prefix (sr_rawExpr s) ''('' then parens (sr_rawExpr s) else sr_rawExpr s))
         else if sr_kind s = RhsLiteral then looped_printf (go_quote ip (sr_value s))
         else from_rhs)"

definition default_name :: "resource \<Rightarrow> string" where
  "default_name r =
     (if r_forEach r \<noteq> [] then ''  name: '' @ interp (''printf '' @ dq (''%s-'' @ r_name r @ ''-%d'') @ '' $xr $i'')
      else ''  name: {{ $xr }}-'' @ r_name r)"

definition native_name_lines :: "printable \<Rightarrow> nat \<Rightarrow> resource \<Rightarrow> pfield list \<Rightarrow> line list" where
  "native_name_lines ip ti r metaPlan =
     (case find (\<lambda>f. pf_path f = ''metadata.name'' \<or> pf_path f = ''name'') metaPlan of
        None \<Rightarrow> [(ti, default_name r)]
      | Some f \<Rightarrow>
          (let named = (ti, ''  name: '' @ (if r_forEach r \<noteq> [] then goLoopedMetaName ip f else pf_rhs f))
           in if pf_guard f = [] then [named]
              else [(ti, ''  {{- if '' @ pf_guard f @ '' }}''), named, (ti, ''  {{- else }}''), (ti, default_name r), (ti, ''  {{- end }}'')]))"

definition annotation_name_line :: "printable \<Rightarrow> nat \<Rightarrow> resource \<Rightarrow> line" where
  "annotation_name_line ip ti r =
     (ti, ''    '' @ interp (''setResourceNameAnnotation '' @
        (if r_forEach r \<noteq> [] then parens (''printf '' @ dq (r_name r @ ''-%d'') @ '' $i'') else go_quote ip (r_name r))))"

definition body_template :: "resource \<Rightarrow> pfield \<Rightarrow> msg option" where
  "body_template r fld =
     (case map_of (r_fields r) (pf_path fld) of
        Some f \<Rightarrow> refuse (f_template f \<noteq> [])
          (Msg ''resource %q field %q: template: fields are not supported on native Kubernetes kind %q in v1''
            [Str (r_name r), Str (pf_path fld), Str (r_kind r)])
      | None \<Rightarrow> None)"

definition object_lines :: "printable \<Rightarrow> nat \<Rightarrow> resource \<Rightarrow> planned \<Rightarrow> bool \<Rightarrow> msg + line list" where
  \<comment> \<open>what follows the annotations: the body of a native object, or the spec of a managed one\<close>
  "object_lines ip ti r pl ns =
     (if crd_native (pl_crd pl) then
        bind_err (let other = otherNativeMetadata (pl_metaPlan pl)
                  in if other \<noteq> [] then writeNativeFields ip (ti + 1) (r_name r) other else Inr []) (\<lambda>meta.
        bind_err (check_err (check_all (body_template r) (pl_bodyPlan pl))) (\<lambda>_.
        bind_err (writeNativeFields ip ti (r_name r) (pl_bodyPlan pl)) (\<lambda>body. Inr (meta @ body))))
      else
        bind_err (writeForProviderTree ip ti (ti + 2) (r_name r) (pl_bodyPlan pl)) (\<lambda>fp.
          Inr ((ti, ''spec:'') # fp @ writeEnvelope ti (pl_envPlan pl) ns)))"

definition document_lines :: "printable \<Rightarrow> nat \<Rightarrow> resource \<Rightarrow> planned \<Rightarrow> bool \<Rightarrow> msg + line list" where
  "document_lines ip ti r pl ns =
     bind_err (object_lines ip ti r pl ns) (\<lambda>obj.
       Inr ([(ti, ''---''), (ti, ''apiVersion: '' @ pl_apiVersion pl), (ti, ''kind: '' @ crd_kind (pl_crd pl)), (ti, ''metadata:'')] @
            (if crd_native (pl_crd pl) then native_name_lines ip ti r (pl_metaPlan pl) else []) @
            [(ti, ''  annotations:''), annotation_name_line ip ti r] @
            writeAnnotations ti (pl_annPlan pl) @ obj))"

definition loop_heads :: "printable \<Rightarrow> resource \<Rightarrow> blueprint \<Rightarrow> crd list \<Rightarrow> bool \<Rightarrow> msg + string list" where
  \<comment> \<open>the actions that open the loop, each closed by an \<open>end\<close>\<close>
  "loop_heads ip r b crds ns =
     (if r_forEach r = [] then Inr []
      else
        (let status = (case ParseFrom (r_forEach r) of Inr ref \<Rightarrow> if fr_resource ref \<noteq> [] then Some ref else None | Inl _ \<Rightarrow> None)
         in case status of
              Some ref \<Rightarrow>
                bind_err (forEachStatusBound ip ref r b crds ns) (\<lambda>(grd, expr).
                  Inr [''{{- if '' @ grd @ '' }}'', ''{{- range $i := until (int '' @ expr @ '') }}''])
            | None \<Rightarrow>
                (case EnvRef (r_forEach r) of
                   Some key \<Rightarrow>
                     (case map_of (b_env b) key of
                        Some decl \<Rightarrow>
                          if k_default decl \<noteq> []
                          then Inr [''{{- range $i := until (int ('' @ envDefaultExpr ip key decl @ '')) }}'']
                          else Inr [''{{- if '' @ env_has ip key @ '' }}'', ''{{- range $i := until (int $env.'' @ key @ '') }}'']
                      | None \<Rightarrow> Inr [''{{- if '' @ env_has ip key @ '' }}'', ''{{- range $i := until (int $env.'' @ key @ '') }}''])
                 | None \<Rightarrow> Inr [''{{- range $i := until (int $spec.'' @ trim_prefix (r_forEach r) ''params.'' @ '') }}''])))"

definition enclose :: "nat \<Rightarrow> string list \<Rightarrow> line list \<Rightarrow> line list" where
  \<comment> \<open>lines inside opened actions\<close>
  "enclose ti heads body = map (\<lambda>h. (ti, h)) heads @ body @ map (\<lambda>_. (ti, ''{{- end }}'')) heads"

definition writeResourceTemplate :: "printable \<Rightarrow> yaml_map \<Rightarrow> nat \<Rightarrow> resource \<Rightarrow> blueprint \<Rightarrow> crd list \<Rightarrow> bool \<Rightarrow> msg + line list" where
  "writeResourceTemplate ip yaml ti r b crds ns =
     bind_err (planSingleResource ip yaml r b crds ns) (\<lambda>pl.
     bind_err (if r_when r = [] then Inr []
               else bind_err (wrap_err (\<lambda>err. Msg ''resource %q: %w'' [Str (r_name r), Ctx err]) (whenCondition ip (r_when r) b))
                      (\<lambda>cond. Inr [''{{- if '' @ cond @ '' }}''])) (\<lambda>whens.
     let guards = collectStatusGuards [pl_annPlan pl, pl_metaPlan pl, pl_bodyPlan pl];
         statuses = (if guards = [] then [] else [''{{- if '' @ and_guards guards @ '' }}''])
     in
     bind_err (loop_heads ip r b crds ns) (\<lambda>loops.
     bind_err (document_lines ip ti r pl ns) (\<lambda>doc.
       Inr (enclose ti (whens @ statuses @ loops) doc)))))"

section \<open>The whole body\<close>

definition writeTemplatePreamble :: "nat \<Rightarrow> blueprint \<Rightarrow> line list" where
  "writeTemplatePreamble ti b =
     map (\<lambda>l. (ti, l)) (concat (map (\<lambda>n. TemplateBlockLines n (case map_of (b_templates b) n of Some body \<Rightarrow> body | None \<Rightarrow> []))
       (sorted_keys (b_templates b)))) @
     [(ti, ''{{- $spec := .observed.composite.resource.spec -}}''),
      (ti, ''{{- $xr := .observed.composite.resource.metadata.name -}}''),
      (ti, ''{{- $xrMeta := .observed.composite.resource.metadata -}}'')] @
     (if b_env b \<noteq> [] then [(ti, ''{{- $env := index .context '' @ dq ''apiextensions.crossplane.io/environment'' @ '' | default dict -}}'')]
      else if b_templates b \<noteq> [] \<or> sp_conventions (b_spec b) \<noteq> [] then [(ti, ''{{- $env := dict -}}'')]
      else [])"

definition writeCompositeStatusTemplate :: "printable \<Rightarrow> nat \<Rightarrow> blueprint \<Rightarrow> crd list \<Rightarrow> bool \<Rightarrow> msg + line list" where
  "writeCompositeStatusTemplate ip ti b crds ns =
     bind_err (planCompositeStatusFields ip b crds ns) (\<lambda>plan.
     if plan = [] then Inr []
     else
       bind_err (buildNativeTree (x_kind (b_xrd b)) plan) (\<lambda>rt.
         Inr ([(ti, ''---''), (ti, ''apiVersion: '' @ x_group (b_xrd b) @ ''/'' @ x_version (b_xrd b)),
               (ti, ''kind: '' @ x_kind (b_xrd b)), (ti, ''status:'')] @ tree_lines ip (ti + 1) rt)))"

definition writeTemplateBody :: "printable \<Rightarrow> yaml_map \<Rightarrow> nat \<Rightarrow> blueprint \<Rightarrow> crd list \<Rightarrow> bool \<Rightarrow> msg + line list" where
  "writeTemplateBody ip yaml ti b crds ns =
     bind_err (map_err (\<lambda>r. writeResourceTemplate ip yaml ti r b crds ns) (b_resources b)) (\<lambda>docs.
     bind_err (if x_status (b_xrd b) \<noteq> [] then writeCompositeStatusTemplate ip ti b crds ns else Inr []) (\<lambda>st.
       Inr (writeTemplatePreamble ti b @ concat docs @ st)))"

end
