(* ===== verification/EmitFiles.thy ===== *)
theory EmitFiles
  imports EmitPipeline EmitTemplate
begin

text \<open>
  The files around the template: the composite's definition (\<open>xrd.go\<close>), the function list
  (\<open>functions.go\<close>, \<open>configuration.go\<close>), the environment configs (\<open>environment_config.go\<close>), and the
  Composition that holds the template body (\<open>composition\<close> in \<open>composition.go\<close>, for the go-templating
  engine).
\<close>

section \<open>The definition\<close>

definition defaultYAML :: "string \<Rightarrow> string \<Rightarrow> string" where
  "defaultYAML paramType v = (if paramType = ''string'' then quoteYAML v else v)"

definition enumYAML :: "string \<Rightarrow> string \<Rightarrow> string" where
  "enumYAML paramType v = (if paramType = ''string'' then quoteYAML v else v)"

definition requiredParams :: "parameter gomap \<Rightarrow> string list" where
  "requiredParams params = sort (map fst (filter (\<lambda>(_, p). p_required p) params))"

definition required_line :: "nat \<Rightarrow> string list \<Rightarrow> line list" where
  "required_line ind req = (if req = [] then [] else [(ind, ''required: ['' @ go_join '', '' (map formatYAMLKey req) @ '']'')])"

definition scalar_lines :: "nat \<Rightarrow> parameter \<Rightarrow> line list" where
  \<comment> \<open>type, description, default and enum, one level below the name\<close>
  "scalar_lines ind p =
     [(ind, ''type: '' @ p_type p)] @
     (if p_description p \<noteq> [] then [(ind, ''description: '' @ quoteYAML (p_description p))] else []) @
     (if p_default p \<noteq> [] then [(ind, ''default: '' @ defaultYAML (p_type p) (p_default p))] else []) @
     (if p_enum p \<noteq> [] then (ind, ''enum:'') # map (\<lambda>e. (ind, ''- '' @ enumYAML (p_type p) e)) (p_enum p) else [])"

lemma size_in_map: "(k, q) \<in> set m \<Longrightarrow> size (q :: parameter) < size_list (size_prod (\<lambda>_. 0) size) m"
  by (induction m) auto

lemma member_size: "map_of (p_properties p) k = Some q \<Longrightarrow> size q < size p"
  using size_in_map [of k q "p_properties p"] by (cases p) (auto dest: map_of_SomeD)

function writeObjectMembers :: "nat \<Rightarrow> parameter \<Rightarrow> line list" where
  "writeObjectMembers ind p =
     [(ind, ''properties:'')] @
     concat (map (\<lambda>m. case map_of (p_properties p) m of
         None \<Rightarrow> []
       | Some mp \<Rightarrow>
           (ind + 1, formatYAMLKey m @ '':'') # scalar_lines (ind + 2) mp @
           (if p_type mp = ''object'' \<and> p_properties mp = []
            then [(ind + 2, ''additionalProperties:''), (ind + 3, ''type: string'')] else []) @
           (if p_type mp = ''object'' \<and> p_properties mp \<noteq> [] then writeObjectMembers (ind + 2) mp else []))
       (sorted_keys (p_properties p))) @
     required_line ind (filter (\<lambda>m. case map_of (p_properties p) m of Some mp \<Rightarrow> p_required mp | None \<Rightarrow> False)
       (sorted_keys (p_properties p)))"
  by pat_completeness auto
termination
  by (relation "measure (\<lambda>(_, p). size p)") (auto dest: member_size)

declare writeObjectMembers.simps [simp del]

definition writeParameterProperties :: "nat \<Rightarrow> parameter gomap \<Rightarrow> line list" where
  "writeParameterProperties ind params =
     concat (map (\<lambda>n. case map_of params n of
         None \<Rightarrow> []
       | Some p \<Rightarrow>
           (ind, formatYAMLKey n @ '':'') # scalar_lines (ind + 1) p @
           (if p_type p = ''object'' \<and> p_properties p = []
            then [(ind + 1, ''additionalProperties:''), (ind + 2, ''type: string'')] else []) @
           (if p_type p = ''object'' \<and> p_properties p \<noteq> [] then writeObjectMembers (ind + 1) p else []))
       (sorted_keys params))"

definition schema_lines :: "parameter gomap \<Rightarrow> line list" where
  "schema_lines params =
     [(6, ''type: object''), (6, ''properties:'')] @ writeParameterProperties 7 params @ required_line 6 (requiredParams params)"

definition XRD_lines :: "blueprint \<Rightarrow> line list" where
  "XRD_lines b =
     (let x = b_xrd b in
      header (blueprintSource b) @
      [(0, ''apiVersion: apiextensions.crossplane.io/v2''), (0, ''kind: CompositeResourceDefinition''), (0, ''metadata:''),
       (1, ''name: '' @ x_plural x @ ''.'' @ x_group x), (0, ''spec:''), (1, ''group: '' @ x_group x), (1, ''names:''),
       (2, ''kind: '' @ x_kind x), (2, ''plural: '' @ x_plural x), (1, ''scope: '' @ x_scope x), (1, ''versions:''),
       (1, ''- name: '' @ x_version x), (2, ''served: true''), (2, ''referenceable: true''), (2, ''schema:''),
       (3, ''openAPIV3Schema:''), (4, ''type: object''), (4, ''properties:''), (5, ''spec:'')] @
      schema_lines (x_parameters x) @
      [Comment ''required lists only the parameters the blueprint marks Required.'',
       Comment ''A merely-dereferenced parameter is safe unforced: the Composition'',
       Comment ''guards every optional access with hasKey, never a bare dereference.''] @
      (if x_status x \<noteq> [] then (5, ''status:'') # schema_lines (x_status x) else []))"

definition XRD :: "blueprint \<Rightarrow> msg + string" where
  "XRD b = (if x_scope (b_xrd b) = ''LegacyCluster''
     then Inl (Msg ''scope LegacyCluster is not valid in apiextensions.crossplane.io/v2'' [])
     else Inr (Bytes (XRD_lines b)))"

section \<open>The functions\<close>

type_synonym fn = "string \<times> string"   \<comment> \<open>name and package\<close>

definition templatingFunction :: fn where
  "templatingFunction = (TemplatingFunctionName, ''xpkg.upbound.io/crossplane-contrib/function-go-templating:v0.12.0'')"

definition KCLFunctionPackage :: string where
  "KCLFunctionPackage = ''xpkg.upbound.io/crossplane-contrib/function-kcl:v0.11.2''"

definition PythonFunctionPackage :: string where
  "PythonFunctionPackage = ''xpkg.upbound.io/crossplane-contrib/function-python:v0.5.0''"

definition engine_function :: "blueprint \<Rightarrow> fn" where
  "engine_function b =
     (if Engine b = EngineKCL then (KCLFunctionName, KCLFunctionPackage)
      else if Engine b = EnginePython then (PythonFunctionName, PythonFunctionPackage)
      else templatingFunction)"

definition primary_function :: "blueprint \<Rightarrow> fn" where
  \<comment> \<open>the engine's function, with the package a step pins for it\<close>
  "primary_function b =
     (let (name, pkg) = engine_function b in
      case find (\<lambda>s. st_functionRef s = name \<and> st_package s \<noteq> []) (sp_pipeline (b_spec b)) of
        Some s \<Rightarrow> (name, st_package s)
      | None \<Rightarrow> (name, pkg))"

fun declare_functions :: "string \<Rightarrow> fn list \<Rightarrow> pipeline_step list \<Rightarrow> msg + fn list" where
  \<comment> \<open>the loop of \<open>functionList\<close>; the list holds what is declared so far\<close>
  "declare_functions primary fns [] = Inr fns"
| "declare_functions primary fns (s # ss) =
     (if st_functionRef s = primary then declare_functions primary fns ss
      else case map_of fns (st_functionRef s) of
             Some pkg \<Rightarrow>
               if pkg \<noteq> st_package s
               then Inl (Msg ''pipeline step %q: functionRef %q already declared with package %q''
                      [Str (st_name s), Str (st_functionRef s), Str pkg])
               else declare_functions primary fns ss
           | None \<Rightarrow> declare_functions primary (fns @ [(st_functionRef s, st_package s)]) ss)"

definition functionList :: "blueprint \<Rightarrow> pipeline_step list \<Rightarrow> msg + fn list" where
  \<comment> \<open>the second argument is \<open>effectivePipeline(b)\<close>\<close>
  "functionList b steps = declare_functions (fst (primary_function b)) [primary_function b] steps"

definition function_lines :: "string \<Rightarrow> nat \<times> fn \<Rightarrow> line list" where
  "function_lines runtimeConfigName = (\<lambda>(i, name, pkg).
     (if 0 < i then [(0, ''---'')] else []) @
     [(0, ''apiVersion: pkg.crossplane.io/v1''), (0, ''kind: Function''), (0, ''metadata:''), (1, ''name: '' @ name),
      (0, ''spec:''), (1, ''package: '' @ pkg)] @
     (if runtimeConfigName \<noteq> [] \<and> name = TemplatingFunctionName
      then [(1, ''runtimeConfigRef:''), (2, ''name: '' @ runtimeConfigName)] else []))"

definition functionsDoc :: "blueprint \<Rightarrow> pipeline_step list \<Rightarrow> string \<Rightarrow> msg + string" where
  "functionsDoc b steps runtimeConfigName =
     bind_err (functionList b steps) (\<lambda>fns.
       Inr (Bytes (header (blueprintSource b) @
         [Comment ''Required by: crossplane composition render <xr> <composition> functions.yaml'',
          Comment ''No render.crossplane.io/runtime annotation is needed to render.''] @
         concat (map (function_lines runtimeConfigName) (List.enumerate 0 fns)))))"

definition file_system :: "blueprint \<Rightarrow> bool" where
  "file_system b \<longleftrightarrow> TemplateSource b = TemplateSourceFileSystem \<and> Engine b = EngineGoTemplating"

definition Functions :: "blueprint \<Rightarrow> pipeline_step list \<Rightarrow> msg + string" where
  "Functions b steps = functionsDoc b steps (if file_system b then TemplatingFunctionName else [])"

definition splitRef :: "string \<Rightarrow> string \<times> string" where
  \<comment> \<open>a missing character has the index -1\<close>
  "splitRef ref =
     (if contains ref ''@'' then (ref, [])
      else case last_index CHR '':'' ref of
             Some colon \<Rightarrow>
               (if (case last_index CHR ''/'' ref of Some slash \<Rightarrow> slash < colon | None \<Rightarrow> True)
                then (take colon ref, ''='' @ drop (colon + 1) ref) else (ref, []))
           | None \<Rightarrow> (ref, []))"

definition dependency_lines :: "string \<Rightarrow> string \<times> string \<Rightarrow> line list" where
  "dependency_lines kind = (\<lambda>(pkg, version).
     [(1, ''- apiVersion: pkg.crossplane.io/v1''), (2, ''kind: '' @ kind), (2, ''package: '' @ pkg)] @
     (if version \<noteq> [] then [(2, ''version: '' @ quoteYAML version)] else []))"

fun first_packages :: "string list \<Rightarrow> (string \<times> string) list \<Rightarrow> (string \<times> string) list" where
  \<comment> \<open>each package with the version it is first named with\<close>
  "first_packages seen [] = []"
| "first_packages seen ((pkg, version) # ps) =
     (if pkg \<in> set seen then first_packages seen ps else (pkg, version) # first_packages (pkg # seen) ps)"

definition source_lines :: "string \<Rightarrow> line list" where
  \<comment> \<open>the blueprint's own text under an annotation\<close>
  "source_lines source =
     (if source = [] then []
      else [(1, ''annotations:''), (2, ''factory.crossplane.io/blueprint: |'')] @
        map (\<lambda>l. if trim_space l = [] then (0, []) else (3, l)) (split_on CHR 0x0A (trim_right_set source [CHR 0x0A])))"

definition ConfigurationMeta :: "blueprint \<Rightarrow> pipeline_step list \<Rightarrow> string \<Rightarrow> msg + string" where
  "ConfigurationMeta b steps source =
     bind_err (functionList b steps) (\<lambda>fns.
       Inr (Bytes (header (blueprintSource b) @
         [(0, ''apiVersion: meta.pkg.crossplane.io/v1''), (0, ''kind: Configuration''), (0, ''metadata:''), (1, ''name: '' @ b_metaName b)] @
         source_lines source @
         [(0, ''spec:''), (1, ''crossplane:''), (2, ''version: '' @ quoteYAML ''>=v2.0.0''), (1, ''dependsOn:'')] @
         concat (map (dependency_lines ''Provider'')
           (first_packages [] (map (\<lambda>src. splitRef (s_provider src)) (filter (\<lambda>src. s_provider src \<noteq> []) (sp_sources (b_spec b)))))) @
         concat (map (dependency_lines ''Function'') (first_packages [] (map (\<lambda>f. splitRef (snd f)) fns))))))"

section \<open>Environment configs\<close>

definition environmentConfigHeader :: "string \<Rightarrow> line list" where
  "environmentConfigHeader source =
     [Comment ''Generated by compositionfactory.'', Comment (''Source: '' @ source),
      Comment ''Declared environment values are preserved across regeneration; fill in values for your environment.'',
      Comment ''Regenerate with: cf gen'']"

definition label_specials :: string where
  "label_specials = '':#'' @ [CHR 0x22, CHR 0x27] @ ''{}[]!*?''"

definition formatLabelValue :: "printable \<Rightarrow> string \<Rightarrow> string" where
  "formatLabelValue ip v =
     (if v = [] then dq []
      else if to_lower v \<in> set key_keywords \<or> list_ex (\<lambda>c. c \<in> set label_specials) v \<or> has_prefix v ''-'' then go_quote ip v
      else v)"

definition formatEnvVal :: "printable \<Rightarrow> env_key \<Rightarrow> string \<Rightarrow> string" where
  "formatEnvVal ip k val =
     (if val = [] then
        (if k_type k = ''integer'' then ''0'' else if k_type k = ''number'' then ''0.0''
         else if k_type k = ''boolean'' then ''false'' else dq [])
      else if k_type k \<in> set numeric_types then val else go_quote ip val)"

definition env_data_line :: "printable \<Rightarrow> string gomap \<Rightarrow> string gomap \<Rightarrow> string \<Rightarrow> env_key \<Rightarrow> line" where
  \<comment> \<open>the declared value, else the default, else the value on disk, else the zero value\<close>
  "env_data_line ip data existing k envKey =
     (1, formatYAMLKey k @ '': '' @
       (case map_of data k of
          Some val \<Rightarrow> formatEnvVal ip envKey val
        | None \<Rightarrow>
            if k_default envKey \<noteq> [] then formatEnvDefault ip envKey
            else (case map_of existing k of
                    Some v \<Rightarrow> formatEnvVal ip envKey v
                  | None \<Rightarrow> formatEnvVal ip envKey [])))"

definition EnvironmentConfig :: "printable \<Rightarrow> blueprint \<Rightarrow> env_config \<Rightarrow> string gomap \<Rightarrow> string" where
  "EnvironmentConfig ip b cfg existing =
     Bytes (environmentConfigHeader (blueprintSource b) @
       [(0, ''apiVersion: apiextensions.crossplane.io/v1beta1''), (0, ''kind: EnvironmentConfig''), (0, ''metadata:''),
        (1, ''name: '' @ (if c_name cfg = [] then ''default'' else c_name cfg))] @
       (case c_selector cfg of
          Some (l # ls) \<Rightarrow>
            (1, ''labels:'') # map (\<lambda>k. (2, formatYAMLKey k @ '': '' @
              formatLabelValue ip (case map_of (l # ls) k of Some v \<Rightarrow> v | None \<Rightarrow> []))) (sorted_keys (l # ls))
        | _ \<Rightarrow> []) @
       [(0, ''data:'')] @
       List.map_filter (\<lambda>k. map_option (env_data_line ip (EffectiveData cfg) existing k) (map_of (b_env b) k)) (sorted_keys (b_env b)))"

section \<open>The Composition\<close>

definition env_annotation_lines :: "(env_config list \<Rightarrow> msg + string) \<Rightarrow> (env_key gomap \<Rightarrow> msg + string) \<Rightarrow> blueprint \<Rightarrow> msg + line list" where
  \<comment> \<open>the arguments are \<open>json.Marshal\<close> on the two values\<close>
  "env_annotation_lines json_configs json_keys b =
     (let cfgs = sp_environmentConfigs (b_spec b) in
      if cfgs = [] \<and> b_env b = [] then Inr []
      else
        bind_err (if cfgs = [] then Inr [] else bind_err (json_configs cfgs) (\<lambda>j.
          Inr [(2, ''factory.crossplane.io/environment-configs: '' @ quoteYAML j)])) (\<lambda>c.
        bind_err (if b_env b = [] then Inr [] else bind_err (json_keys (b_env b)) (\<lambda>j.
          Inr [(2, ''factory.crossplane.io/environment-keys: '' @ quoteYAML j)])) (\<lambda>k.
          Inr ((1, ''annotations:'') # c @ k))))"

definition go_template_step :: "printable \<Rightarrow> yaml_map \<Rightarrow> blueprint \<Rightarrow> crd list \<Rightarrow> string \<Rightarrow> msg + line list" where
  "go_template_step ip yaml b crds fsDir =
     (let head = [(1, ''- step: '' @ TemplatingStepName), (2, ''functionRef:''), (3, ''name: '' @ TemplatingFunctionName), (2, ''input:''),
            (3, ''apiVersion: gotemplating.fn.crossplane.io/v1beta1''), (3, ''kind: GoTemplate'')];
          opts = (3, ''options: ['' @ dq ''missingkey=error'' @ '']'')
      in if fsDir \<noteq> [] then
           bind_err (writeTemplateBody ip yaml 0 b crds (wants_namespaced b)) (\<lambda>_.
             Inr (head @ [(3, ''source: FileSystem''), opts, (3, ''fileSystem:''), (4, ''dirPath: '' @ fsDir)]))
         else
           bind_err (writeTemplateBody ip yaml 5 b crds (wants_namespaced b)) (\<lambda>body.
             Inr (head @ [(3, ''source: Inline''), opts, (3, ''inline:''), (4, ''template: |'')] @ body)))"

end
