(* ===== verification/Pipeline_Steps.thy ===== *)
theory Pipeline_Steps
  imports EmitPipeline Sample
begin

text \<open>
  The emitted pipeline: the search for a free step name ends, the emitted names are unique, and
  a validated pipeline keeps every declared step and runs an environment step before templating.
\<close>

section \<open>Decimal numerals\<close>

lemma itoa_value: "fold (\<lambda>c v. v * 10 + (of_char c - 48)) (itoa n) 0 = n"
proof (induction n rule: itoa.induct)
  case (1 n)
  then show ?case by (subst itoa.simps) (simp add: of_char_of mod_less)
qed

lemma itoa_eq_iff [simp]: "itoa m = itoa n \<longleftrightarrow> m = n"
  by (metis itoa_value)

lemma suffixed_inj: "inj suffixed"
  by (auto simp: inj_def suffixed_def)

section \<open>The search for a name\<close>

lemma taken_finite: "finite {k. nameTaken steps (suffixed k)}"
proof -
  have "{k. nameTaken steps (suffixed k)} \<subseteq> suffixed -` (insert TemplatingStepName (st_name ` set steps))"
    by (auto simp: nameTaken_def list_ex_iff image_iff) metis
  moreover have "finite (suffixed -` (insert TemplatingStepName (st_name ` set steps)))"
    by (rule finite_vimageI) (auto simp: suffixed_inj)
  ultimately show ?thesis by (rule finite_subset)
qed

lemma next_suffix_returns: "\<exists>k. next_suffix steps = Some k \<and> \<not> nameTaken steps (suffixed k)"
proof -
  obtain n where n: "\<forall>k \<in> {k. nameTaken steps (suffixed k)}. k < n"
    using finite_nat_set_iff_bounded [THEN iffD1, OF taken_finite] by blast
  define m where "m = max n 2"
  have m: "m \<ge> 2" "\<not> nameTaken steps (suffixed m)" using n by (auto simp: m_def max_def)
  have "\<exists>k. next_suffix steps = Some k"
    unfolding next_suffix_def
    by (rule measure_while_option_Some [where P = "\<lambda>k. k \<le> m" and f = "\<lambda>k. m - k"])
      (use m in \<open>auto simp: le_less intro: diff_less_mono2\<close>)
  then show ?thesis unfolding next_suffix_def using while_option_stop by fastforce
qed

lemma env_step_name_returns: "\<exists>name. env_step_name steps = Some name \<and> \<not> nameTaken steps name"
  using next_suffix_returns [of steps] by (auto simp: env_step_name_def)

section \<open>Deduplication\<close>


lemma dedup_id:
  "distinct (map st_name ss) \<Longrightarrow> TemplatingStepName \<notin> st_name ` set ss \<Longrightarrow> st_name ` set ss \<inter> set seen = {} \<Longrightarrow>
     dedup_steps seen ss = ss"
  by (induction seen ss rule: dedup_steps.induct) auto

lemma positioned_sels [simp]:
  "st_name (positioned s) = st_name s" "st_functionRef (positioned s) = st_functionRef s" "is_env_step (positioned s) = is_env_step s"
  by (simp_all add: positioned_def is_env_step_def)

lemma filled_sels [simp]:
  "st_name (filled inp s) = st_name s" "st_functionRef (filled inp s) = st_functionRef s" "is_env_step (filled inp s) = is_env_step s"
  by (simp_all add: filled_def is_env_step_def)

lemma fill_first_names [simp]: "map st_name (fill_first inp ss) = map st_name ss" "map st_functionRef (fill_first inp ss) = map st_functionRef ss"
  by (induction ss) auto

lemma with_environment_returns: "\<exists>ss. with_environment inp b steps = Some ss"
  using env_step_name_returns [of steps] by (auto simp: with_environment_def)


section \<open>Validated pipelines\<close>

definition declared :: "blueprint \<Rightarrow> pipeline_step list" where
  "declared b = (if sp_pipeline (b_spec b) = [] then defaultPipeline else sp_pipeline (b_spec b))"

lemma default_ok: "distinct (map st_name defaultPipeline)" "TemplatingStepName \<notin> st_name ` set defaultPipeline"
  "\<forall>s \<in> set defaultPipeline. \<not> is_env_step s"
  by (simp_all add: defaultPipeline_def TemplatingStepName_def is_env_step_def EnvironmentConfigsFunctionName_def)

lemma declared_ok:
  assumes "validatePipeline yaml b = None"
  shows "distinct (map st_name (declared b))" "TemplatingStepName \<notin> st_name ` set (declared b)"
    "s \<in> set (declared b) \<Longrightarrow> is_env_step s \<Longrightarrow> st_position s \<in> {[], PositionBefore}"
  using assms default_ok
  by (auto simp: declared_def validatePipeline_None pipeline_wf_def step_ok_def is_env_step_def split: if_splits)

lemma env_before: "is_env_step s \<Longrightarrow> st_position s \<in> {[], PositionBefore} \<Longrightarrow> st_position (positioned s) = PositionBefore"
  by (auto simp: positioned_def)

lemma fill_first_before:
  "s \<in> set (fill_first inp ss) \<Longrightarrow> is_env_step s \<Longrightarrow> (\<forall>s \<in> set ss. is_env_step s \<longrightarrow> st_position s = PositionBefore) \<Longrightarrow>
     st_position s = PositionBefore"
  by (induction ss) (auto simp: filled_def split: if_splits)

lemma fill_first_env: "list_ex is_env_step ss \<Longrightarrow> list_ex is_env_step (fill_first inp ss)"
  by (induction ss) auto

text \<open>C16: A validated pipeline is emitted whole: every declared step is kept under its name with its
  function, in order, and when the blueprint reads the environment a step that loads it runs before
  the templating step.\<close>

theorem effectivePipeline_whole:
  assumes "validatePipeline yaml b = None" "effectivePipeline inp b = Some steps"
  shows "(\<exists>extra. map (\<lambda>s. (st_name s, st_functionRef s)) steps = extra @ map (\<lambda>s. (st_name s, st_functionRef s)) (declared b)) \<and>
    (HasEnvironment b \<longrightarrow> list_ex is_env_step (fst (splitPipeline steps)))"
proof -
  define ss where "ss = map positioned (declared b)"
  have names: "map (\<lambda>s. (st_name s, st_functionRef s)) ss = map (\<lambda>s. (st_name s, st_functionRef s)) (declared b)"
    "distinct (map st_name ss)" "TemplatingStepName \<notin> st_name ` set ss"
    using declared_ok(1,2) [OF assms(1)] by (auto simp: ss_def comp_def image_image)
  have before: "\<forall>s \<in> set ss. is_env_step s \<longrightarrow> st_position s = PositionBefore"
    using declared_ok(3) [OF assms(1)] env_before by (auto simp: ss_def)
  from assms(2) obtain ws where ws: "with_environment inp b ss = Some ws" "steps = dedup_steps [] ws"
    by (auto simp: effectivePipeline_def declared_def ss_def Let_def)
  consider (no) "\<not> HasEnvironment b" "ws = ss"
    | (own) "HasEnvironment b" "list_ex is_env_step ss" "ws = fill_first inp ss"
    | (added) name where "HasEnvironment b" "env_step_name ss = Some name" "ws = env_step name inp # ss"
    using ws(1) by (auto simp: with_environment_def split: if_splits)
  then show ?thesis
  proof cases
    case no
    with ws(2) names show ?thesis by (simp add: dedup_id)
  next
    case own
    have "map (\<lambda>s. (st_name s, st_functionRef s)) (fill_first inp ss) = map (\<lambda>s. (st_name s, st_functionRef s)) ss"
      by (induction ss) auto
    moreover have "steps = fill_first inp ss"
      unfolding ws(2) own(3) using names(2,3) by (intro dedup_id) (auto simp flip: set_map)
    moreover obtain s where "s \<in> set (fill_first inp ss)" "is_env_step s"
      using fill_first_env [OF own(2), of inp] by (auto simp: list_ex_iff)
    ultimately show ?thesis using names(1) fill_first_before [OF _ _ before]
      by (auto simp: splitPipeline_def list_ex_iff)
  next
    case added
    have "\<not> nameTaken ss name" using env_step_name_returns [of ss] added(2) by auto
    then have "name \<noteq> TemplatingStepName" "name \<notin> st_name ` set ss" by (auto simp: nameTaken_def list_ex_iff)
    then have "steps = env_step name inp # ss"
      unfolding ws(2) added(3) using names(2,3) by (intro dedup_id) (auto simp: env_step_def)
    with names(1) show ?thesis
      by (auto simp: splitPipeline_def env_step_def is_env_step_def intro: exI [of _ "[(name, EnvironmentConfigsFunctionName)]"])
  qed
qed

lemma effectivePipeline_whole_witness:
  "HasEnvironment sample \<and> list_ex is_env_step (fst (splitPipeline (the (effectivePipeline ''kind: Input'' sample))))"
proof -
  obtain steps where s: "effectivePipeline ''kind: Input'' sample = Some steps"
    using with_environment_returns by (fastforce simp: effectivePipeline_def Let_def)
  have "HasEnvironment sample" by code_simp
  with effectivePipeline_whole [OF sample_pipeline s] s show ?thesis by simp
qed

end
