(* ===== verification/EmitExec.thy ===== *)
theory EmitExec
  imports EmitTemplate
begin

text \<open>
  What the emitted lines render to. A template is executed line by line on a stack of open blocks;
  a valuation says which conditions hold and which ranges have members. Text inside a value is not
  interpreted. A rendered document is \<open>no_empty_key\<close> when no line that only opens a mapping or a sequence
  element is left without anything below it, which YAML would read as null.
\<close>

section \<open>Actions\<close>

datatype action = AIf string | ARange string | AElse | AEnd | AOut

definition action_of :: "string \<Rightarrow> action" where
  "action_of t0 =
     (let t = dropWhile (\<lambda>c. c = CHR '' '') t0 in
      case cut_prefix t ''{{- if '' of
        Some rest \<Rightarrow> AIf (trim_suffix rest '' }}'')
      | None \<Rightarrow>
          (case cut_prefix t ''{{- range '' of
             Some rest \<Rightarrow> ARange (trim_suffix rest '' }}'')
           | None \<Rightarrow> if t = ''{{- else }}'' then AElse else if t = ''{{- end }}'' then AEnd else AOut))"

record valuation =
  holds :: "string \<Rightarrow> bool"    \<comment> \<open>a condition\<close>
  some :: "string \<Rightarrow> bool"     \<comment> \<open>a range with at least one member\<close>

fun exec :: "valuation \<Rightarrow> bool list \<Rightarrow> line list \<Rightarrow> line list option" where
  \<comment> \<open>the stack holds, innermost first, which open blocks render; None for unbalanced actions\<close>
  "exec V st [] = (if st = [] then Some [] else None)"
| "exec V st (l # ls) =
     (case action_of (snd l) of
        AIf c \<Rightarrow> exec V (holds V c # st) ls
      | ARange e \<Rightarrow> exec V (some V e # st) ls
      | AElse \<Rightarrow> (case st of [] \<Rightarrow> None | b # st \<Rightarrow> exec V ((\<not> b) # st) ls)
      | AEnd \<Rightarrow> (case st of [] \<Rightarrow> None | b # st \<Rightarrow> exec V st ls)
      | AOut \<Rightarrow> map_option (\<lambda>out. (if list_all id st then [l] else []) @ out) (exec V st ls))"

definition renders :: "valuation \<Rightarrow> line list \<Rightarrow> line list \<Rightarrow> bool" where
  \<comment> \<open>a balanced piece of a template and what it leaves where it is reached\<close>
  "renders V ls out \<longleftrightarrow>
     (\<forall>st rest. exec V st (ls @ rest) = map_option (\<lambda>o'. (if list_all id st then out else []) @ o') (exec V st rest))"

lemma renders_exec:
  assumes "renders V ls out"
  shows "exec V [] ls = Some out"
proof -
  from assms have "exec V [] (ls @ []) = map_option (\<lambda>o'. (if list_all id [] then out else []) @ o') (exec V [] [])"
    unfolding renders_def by blast
  then show ?thesis by simp
qed

lemma map_option_app [simp]: "map_option ((@) []) m = m" "map_option ((@) [x]) m = map_option ((#) x) m"
  by (cases m; simp)+

lemma renders_Nil [simp]: "renders V [] []"
  by (simp add: renders_def option.map_ident)

lemma renders_append:
  assumes "renders V xs a" "renders V ys b"
  shows "renders V (xs @ ys) (a @ b)"
  using assms by (simp add: renders_def option.map_comp comp_def)

lemma renders_Cons: "action_of (snd l) = AOut \<Longrightarrow> renders V ls out \<Longrightarrow> renders V (l # ls) (l # out)"
  by (simp add: renders_def option.map_comp comp_def)

lemma renders_concat:
  assumes "\<And>x. x \<in> set xs \<Longrightarrow> renders V (f x) (g x)"
  shows "renders V (concat (map f xs)) (concat (map g xs))"
  using assms by (induction xs) (auto intro: renders_append)

lemma trim_suffix_app [simp]: "trim_suffix (s @ t) t = s"
proof -
  have "cut_suffix (s @ t) t = Some s" by (simp add: cut_suffix_Some)
  then show ?thesis by (simp add: trim_suffix_def)
qed

lemma action_if [simp]: "action_of (''{{- if '' @ c @ '' }}'') = AIf c"
proof -
  have "cut_prefix (''{{- if '' @ c @ '' }}'') ''{{- if '' = Some (c @ '' }}'')" by (rule cut_prefix_append)
  moreover have "dropWhile (\<lambda>c. c = CHR '' '') (''{{- if '' @ c @ '' }}'') = ''{{- if '' @ c @ '' }}''" by simp
  ultimately show ?thesis unfolding action_of_def Let_def using trim_suffix_app [of c "'' }}''"] by (metis option.simps(5))
qed

lemma action_range [simp]: "action_of (''{{- range '' @ c @ '' }}'') = ARange c"
proof -
  have "cut_prefix (''{{- range '' @ c @ '' }}'') ''{{- range '' = Some (c @ '' }}'')" by (rule cut_prefix_append)
  moreover have "cut_prefix (''{{- range '' @ c @ '' }}'') ''{{- if '' = None" by simp
  moreover have "dropWhile (\<lambda>c. c = CHR '' '') (''{{- range '' @ c @ '' }}'') = ''{{- range '' @ c @ '' }}''" by simp
  ultimately show ?thesis unfolding action_of_def Let_def using trim_suffix_app [of c "'' }}''"] by (metis option.simps(4,5))
qed

lemmas action_cons [simp] = action_if [unfolded append_Cons append_Nil] action_range [unfolded append_Cons append_Nil]

lemma action_fixed [simp]:
  "action_of ''{{- else }}'' = AElse" "action_of ''{{- end }}'' = AEnd" "action_of ''{}'' = AOut"
  "action_of ''{{ $k }}: {{ $v }}'' = AOut" "action_of ''-'' = AOut"
  by code_simp+

lemma action_out:
  assumes "t = c # s" "c \<noteq> CHR ''{''" "c \<noteq> CHR '' ''"
  shows "action_of t = AOut"
  using assms by (simp add: action_of_def)

lemma action_spaces [simp]: "action_of (CHR '' '' # t) = action_of t"
  by (simp add: action_of_def)

lemma renders_if:
  assumes "renders V body out"
  shows "renders V (if_lines n c body) (if holds V c then out else [])"
proof -
  have "exec V st (if_lines n c body @ rest) =
      map_option (\<lambda>o'. (if list_all id st then if holds V c then out else [] else []) @ o') (exec V st rest)" for st rest
    using assms by (simp add: if_lines_def renders_def if_distrib [where f = "\<lambda>x. x @ _"])
  then show ?thesis by (simp add: renders_def)
qed

lemma renders_else:
  assumes "renders V body out" "renders V alt out'"
  shows "renders V ([(n, ''{{- if '' @ c @ '' }}'')] @ body @ [(n', ''{{- else }}'')] @ alt @ [(n'', ''{{- end }}'')]) (if holds V c then out else out')"
proof -
  have "exec V st (([(n, ''{{- if '' @ c @ '' }}'')] @ body @ [(n', ''{{- else }}'')] @ alt @ [(n'', ''{{- end }}'')]) @ rest) =
      map_option (\<lambda>o'. (if list_all id st then if holds V c then out else out' else []) @ o') (exec V st rest)" for st rest
    using assms by (cases "holds V c") (simp_all add: renders_def option.map_comp comp_def option.map_ident)
  then show ?thesis by (simp add: renders_def)
qed

lemma renders_range:
  "renders V (range_lines n p) (if some V (''$k, $v := $spec.'' @ p) then [(n, ''{{ $k }}: {{ $v }}'')] else [])"
proof -
  have "exec V st (range_lines n p @ rest) =
      map_option (\<lambda>o'. (if list_all id st then if some V (''$k, $v := $spec.'' @ p) then [(n, ''{{ $k }}: {{ $v }}'')] else [] else []) @ o')
        (exec V st rest)" for st rest
    using action_range [of "''$k, $v := $spec.'' @ p"] by (simp add: range_lines_def option.map_ident)
  then show ?thesis by (simp add: renders_def)
qed

section \<open>Nothing is left empty\<close>

definition col :: "line \<Rightarrow> nat" where
  "col l = 2 * fst l + length (takeWhile (\<lambda>c. c = CHR '' '') (snd l))"

definition opens :: "line \<Rightarrow> bool" where
  \<comment> \<open>a key without a value, or a dash alone\<close>
  "opens l \<longleftrightarrow> (snd l \<noteq> [] \<and> last (snd l) = CHR '':'') \<or> snd l = ''-''"

fun no_empty_key :: "line list \<Rightarrow> bool" where
  "no_empty_key [] = True"
| "no_empty_key [l] = (\<not> opens l)"
| "no_empty_key (l # m # ls) = ((opens l \<longrightarrow> col l < col m) \<and> no_empty_key (m # ls))"

lemma no_empty_key_append: "no_empty_key xs \<Longrightarrow> no_empty_key ys \<Longrightarrow> no_empty_key (xs @ ys)"
proof (induction xs rule: no_empty_key.induct)
  case (2 l)
  then show ?case by (cases ys) auto
qed auto

lemma no_empty_key_Cons: "no_empty_key xs \<Longrightarrow> xs \<noteq> [] \<Longrightarrow> col l < col (hd xs) \<Longrightarrow> no_empty_key (l # xs)"
  by (cases xs) auto

lemma no_empty_key_leaf: "\<not> opens l \<Longrightarrow> no_empty_key xs \<Longrightarrow> no_empty_key (l # xs)"
  by (cases xs) auto

lemma no_empty_key_concat: "(\<And>x. x \<in> set xs \<Longrightarrow> no_empty_key (f x)) \<Longrightarrow> no_empty_key (concat (map f xs))"
  by (induction xs) (auto intro: no_empty_key_append)

definition at_least :: "nat \<Rightarrow> line list \<Rightarrow> bool" where
  "at_least n out \<longleftrightarrow> list_all (\<lambda>l. 2 * n \<le> col l) out"

lemma below_simps [simp]:
  "at_least n []" "at_least n (l # ls) \<longleftrightarrow> 2 * n \<le> col l \<and> at_least n ls" "at_least n (xs @ ys) \<longleftrightarrow> at_least n xs \<and> at_least n ys"
  by (simp_all add: at_least_def)

lemma below_mono: "at_least m out \<Longrightarrow> n \<le> m \<Longrightarrow> at_least n out"
  by (fastforce simp: at_least_def list_all_iff)

definition renders_well :: "valuation \<Rightarrow> nat \<Rightarrow> line list \<Rightarrow> bool \<Rightarrow> bool" where
  \<comment> \<open>a piece at an indent is balanced and renders without an empty key, to something when it must\<close>
  "renders_well V n ls must \<longleftrightarrow> (\<exists>out. renders V ls out \<and> no_empty_key out \<and> at_least n out \<and> (must \<longrightarrow> out \<noteq> []))"

lemma good_Nil [simp]: "renders_well V n [] False"
  by (auto simp: renders_well_def intro: exI [of _ "[]"])

lemma good_append: "renders_well V n xs m \<Longrightarrow> renders_well V n ys m' \<Longrightarrow> renders_well V n (xs @ ys) (m \<or> m')"
  unfolding renders_well_def by (metis append_is_Nil_conv below_simps(3) no_empty_key_append renders_append)

lemma good_weaken: "renders_well V n ls m \<Longrightarrow> (m' \<longrightarrow> m) \<Longrightarrow> n' \<le> n \<Longrightarrow> renders_well V n' ls m'"
  unfolding renders_well_def by (blast intro: below_mono)

lemma good_concat:
  assumes "\<And>x. x \<in> set xs \<Longrightarrow> renders_well V n (f x) (m x)"
  shows "renders_well V n (concat (map f xs)) (list_ex m xs)"
  using assms
proof (induction xs)
  case (Cons x xs)
  from good_append [OF Cons.prems [of x] Cons.IH] Cons.prems show ?case by simp
qed simp

lemma good_if: "renders_well V n body m \<Longrightarrow> renders_well V n (if_lines i c body) (m \<and> holds V c)"
  unfolding renders_well_def by (metis below_simps(1) no_empty_key.simps(1) renders_if)

lemma good_line: "action_of (snd l) = AOut \<Longrightarrow> \<not> opens l \<Longrightarrow> n \<le> fst l \<Longrightarrow> renders_well V n [l] True"
  unfolding renders_well_def by (rule exI [of _ "[l]"]) (auto intro: renders_Cons simp: col_def)

lemma good_open:
  assumes "action_of (snd l) = AOut" "n \<le> fst l" "renders_well V k body True" "col l < 2 * k"
  shows "renders_well V n (l # body) True"
proof -
  from assms(3) obtain out where out: "renders V body out" "no_empty_key out" "at_least k out" "out \<noteq> []"
    by (auto simp: renders_well_def)
  then have "col l < col (hd out)" using assms(4) by (cases out) auto
  with out have "no_empty_key (l # out)" by (intro no_empty_key_Cons)
  moreover have "at_least n (l # out)"
  proof -
    have "2 * n \<le> col l" using assms(2) by (simp add: col_def)
    moreover from this assms(4) have "n \<le> k" by simp
    ultimately show ?thesis using out(3) by (auto intro: below_mono)
  qed
  moreover have "renders V (l # body) (l # out)" using assms(1) out(1) by (rule renders_Cons)
  ultimately show ?thesis unfolding renders_well_def by blast
qed

lemma good_else_when:
  assumes "renders_well V n body (holds V c)" "n \<le> i"
  shows "renders_well V n (else_lines i c body) True"
proof -
  from assms(1) obtain out where out: "renders V body out" "no_empty_key out" "at_least n out" "holds V c \<longrightarrow> out \<noteq> []"
    by (auto simp: renders_well_def)
  have alt: "renders V [(i, ''{}'')] [(i, ''{}'')]" by (intro renders_Cons) simp_all
  have "renders V (else_lines i c body) (if holds V c then out else [(i, ''{}'')])"
    using renders_else [OF out(1) alt, of i c i i] by (simp add: else_lines_def)
  moreover have "no_empty_key [(i, ''{}'')]" "at_least n [(i, ''{}'')]" using assms(2) by (simp_all add: opens_def col_def)
  ultimately show ?thesis using out(2-4) unfolding renders_well_def by (cases "holds V c") auto
qed

end
