(* ===== verification/EmitFilled.thy ===== *)
theory EmitFilled
  imports EmitExec
begin

text \<open>
  The writers leave nothing empty: whatever is set and whatever is not, the lines of a resource's
  fields are balanced and no key is rendered without a value below it.
\<close>

section \<open>Lines\<close>

lemma formatKey_head: "\<exists>c s. formatKey k = c # s \<and> c \<noteq> CHR ''{'' \<and> c \<noteq> CHR '' '' \<and> (formatKey k = [c] \<longrightarrow> c \<noteq> CHR ''-'')"
proof (cases "k = [] \<or> to_lower k \<in> set key_keywords \<or> list_ex (\<lambda>c. c \<in> set key_specials) k \<or> has_prefix k ''-''")
  case True
  then show ?thesis by (simp add: formatKey_def formatYAMLKey_def quoteYAML_def)
next
  case False
  then obtain c s where k: "k = c # s" by (cases k) auto
  from False k have "c \<notin> set key_specials" by auto
  then have "c \<noteq> CHR ''{''" "c \<noteq> CHR '' ''" by (auto simp: key_specials_def)
  moreover from False k have "c \<noteq> CHR ''-''" by (auto simp: has_prefix_iff)
  moreover have "formatKey k = k" using False by (simp add: formatKey_def formatYAMLKey_def)
  ultimately show ?thesis using k by auto
qed

lemma action_key: "action_of (formatKey k @ t) = AOut"
  using formatKey_head [of k] by (auto intro: action_out)

lemma col_key: "col (n, formatKey k @ t) = 2 * n"
  using formatKey_head [of k] by (auto simp: col_def)

definition plain_value :: "string \<Rightarrow> bool" where
  "plain_value rhs \<longleftrightarrow> rhs \<noteq> [] \<and> last rhs \<noteq> CHR '':''"

lemma opens_value: "plain_value rhs \<Longrightarrow> \<not> opens (n, formatKey k @ '': '' @ rhs)"
  using formatKey_head [of k] by (auto simp: opens_def plain_value_def)

lemma opens_dash: "plain_value rhs \<Longrightarrow> \<not> opens (n, ''- '' @ rhs)"
  by (auto simp: opens_def plain_value_def)

lemma good_value: "plain_value rhs \<Longrightarrow> n \<le> i \<Longrightarrow> renders_well V n [value_line i k rhs] True"
  using action_key [of k "'': '' @ rhs"] opens_value [of rhs i k] by (intro good_line) (simp_all add: value_line_def)

lemma good_dash: "plain_value rhs \<Longrightarrow> n \<le> i \<Longrightarrow> renders_well V n [(i, ''- '' @ rhs)] True"
  using opens_dash [of rhs i] by (intro good_line) (simp_all add: action_out)

lemma good_empty: "n \<le> i \<Longrightarrow> renders_well V n [(i, formatKey k @ '': {}'')] True"
  using action_key [of k "'': {}''"] opens_value [of "''{}''" i k] by (intro good_line) (simp_all add: plain_value_def)

lemma good_key: "renders_well V k body True \<Longrightarrow> n \<le> i \<Longrightarrow> i < k \<Longrightarrow> renders_well V n (key_line i s # body) True"
  using action_key [of s "'':''"] col_key [of i s "'':''"] by (intro good_open [where k = k]) (simp_all add: key_line_def)

lemma good_guarded: "renders_well V n body True \<Longrightarrow> renders_well V n (guarded_lines i g body) (g = [] \<or> holds V g)"
  using good_if [of V n body True i g] by (simp add: guarded_lines_def)

lemma renders_key: "renders V body out \<Longrightarrow> renders V (key_line i s # body) (key_line i s # out)"
  using action_key [of s "'':''"] by (intro renders_Cons) (simp_all add: key_line_def)

section \<open>Valuations\<close>

definition sound_values :: "printable \<Rightarrow> valuation \<Rightarrow> bool" where
  \<comment> \<open>\<open>or\<close> is a disjunction, and an object parameter that is set has members\<close>
  "sound_values ip V \<longleftrightarrow> (\<forall>gs. gs \<noteq> [] \<longrightarrow> holds V (or_cond gs) = list_ex (holds V) gs) \<and>
     (\<forall>p. holds V (spec_has ip p) \<longrightarrow> some V (''$k, $v := $spec.'' @ p))"

lemma reads_or: "sound_values ip V \<Longrightarrow> gs \<noteq> [] \<Longrightarrow> holds V (or_cond gs) \<longleftrightarrow> list_ex (holds V) gs"
  by (simp add: sound_values_def)

lemma good_range:
  assumes "sound_values ip V" "holds V (spec_has ip p)" "n \<le> i"
  shows "renders_well V n (range_lines i p) True"
proof -
  have "some V (''$k, $v := $spec.'' @ p)" using assms by (simp add: sound_values_def)
  with renders_range [of V i p] have "renders V (range_lines i p) [(i, ''{{ $k }}: {{ $v }}'')]" by simp
  moreover have "no_empty_key [(i, ''{{ $k }}: {{ $v }}'')]" by (simp add: opens_def)
  ultimately show ?thesis using assms(3) unfolding renders_well_def by (fastforce simp: col_def)
qed

lemma good_params:
  assumes "sound_values ip V" "n \<le> i"
  shows "renders_well V n (param_lines ip i p) (holds V (spec_has ip p))"
proof (cases "holds V (spec_has ip p)")
  case True
  from good_if [OF good_range [OF assms(1) True assms(2)], of i "spec_has ip p"] True
  show ?thesis by (simp add: param_lines_def)
next
  case False
  with renders_if [OF renders_range, of V i "spec_has ip p" i p] show ?thesis
    by (auto simp: renders_well_def param_lines_def)
qed

section \<open>Fields of a flat mapping\<close>

definition plan_entry_ok :: "pfield \<Rightarrow> bool" where
  "plan_entry_ok e \<longleftrightarrow> \<not> pf_isMap e \<and> plain_value (pf_rhs e)"

definition planned_ok :: "pfield \<Rightarrow> bool" where
  \<comment> \<open>a planned field: a value, a map with entries, or an object parameter, which no array is on the way to\<close>
  "planned_ok f \<longleftrightarrow>
     (if pf_isMap f \<and> pf_entries f \<noteq> []
      then list_all plan_entry_ok (pf_entries f) \<and> (map_param (pf_structured f) \<longrightarrow> CHR ''['' \<notin> set (pf_path f))
      else if object_leaf f then CHR ''['' \<notin> set (pf_path f) else plain_value (pf_rhs f))"

definition field_live :: "printable \<Rightarrow> valuation \<Rightarrow> pfield \<Rightarrow> bool" where
  \<comment> \<open>the field renders\<close>
  "field_live ip V f \<longleftrightarrow>
     (if pf_isMap f then (map_param (pf_structured f) \<and> pf_entries f = [] \<longrightarrow> holds V (spec_has ip (sr_param (pf_structured f))))
      else pf_guard f = [] \<or> holds V (pf_guard f))"

lemma writeField_entry: "plan_entry_ok e \<Longrightarrow> renders_well V i (writeField ip i e) (pf_guard e = [] \<or> holds V (pf_guard e))"
  by (cases e) (auto simp: plan_entry_ok_def writeField.simps intro!: good_guarded good_value)

lemma good_object:
  assumes "sound_values ip V"
  shows "renders_well V i (if_lines i (spec_has ip p) (key_line i s # range_lines (i + 1) p)) (holds V (spec_has ip p))"
proof (cases "holds V (spec_has ip p)")
  case True
  have "renders_well V i (key_line i s # range_lines (i + 1) p) True"
    using good_key [OF good_range [OF assms True, of "i + 1" "i + 1"], of i i s] by simp
  from good_if [OF this, of i "spec_has ip p"] True show ?thesis by simp
next
  case False
  from renders_if [OF renders_key [OF renders_range, of V i s "i + 1" p], of i "spec_has ip p"] False
  show ?thesis by (auto simp: renders_well_def)
qed

definition map_body :: "printable \<Rightarrow> nat \<Rightarrow> pfield \<Rightarrow> line list" where
  \<comment> \<open>the key, the object parameter's members, the entries\<close>
  "map_body ip i f = key_line i (pf_path f) #
     (if map_param (pf_structured f) then param_lines ip (i + 1) (sr_param (pf_structured f)) else []) @
     concat (map (writeField ip (i + 1)) (pf_entries f))"

lemma writeField_map:
  "pf_isMap f \<Longrightarrow> writeField ip i f =
     (if map_param (pf_structured f) \<and> pf_entries f = [] then
        if_lines i (spec_has ip (sr_param (pf_structured f))) (key_line i (pf_path f) # range_lines (i + 1) (sr_param (pf_structured f)))
      else if list_ex (\<lambda>e. pf_guard e = []) (pf_entries f) then map_body ip i f
      else if field_conds ip f \<noteq> [] then
        [(i, ''{{- if '' @ or_cond (field_conds ip f) @ '' }}'')] @ map_body ip i f @
        [(i, ''{{- else }}'')] @ [(i, formatKey (pf_path f) @ '': {}'')] @ [(i, ''{{- end }}'')]
      else [(i, formatKey (pf_path f) @ '': {}'')])"
  by (cases f) (simp add: writeField.simps map_body_def field_conds_def entry_conds_def Let_def)

lemma field_conds_live:
  assumes "pf_isMap f"
  shows "list_ex (holds V) (field_conds ip f) \<longleftrightarrow>
    (map_param (pf_structured f) \<and> holds V (spec_has ip (sr_param (pf_structured f)))) \<or>
    list_ex (\<lambda>e. pf_guard e \<noteq> [] \<and> holds V (pf_guard e)) (pf_entries f)"
  using assms by (auto simp: field_conds_def entry_conds_def list_ex_iff)

lemma map_rest_good:
  assumes "sound_values ip V" "planned_ok f" "pf_isMap f"
  shows "renders_well V (i + 1) (tl (map_body ip i f))
    (list_ex (holds V) (field_conds ip f) \<or> list_ex (\<lambda>e. pf_guard e = []) (pf_entries f))"
proof -
  have es: "renders_well V (i + 1) (concat (map (writeField ip (i + 1)) (pf_entries f)))
      (list_ex (\<lambda>e. pf_guard e = [] \<or> holds V (pf_guard e)) (pf_entries f))"
    using assms(2,3) by (intro good_concat writeField_entry) (auto simp: planned_ok_def list_all_iff split: if_splits)
  have ps: "renders_well V (i + 1) (if map_param (pf_structured f) then param_lines ip (i + 1) (sr_param (pf_structured f)) else [])
      (map_param (pf_structured f) \<and> holds V (spec_has ip (sr_param (pf_structured f))))"
    using good_params [OF assms(1), of "i + 1" "i + 1"] by simp
  have "tl (map_body ip i f) = (if map_param (pf_structured f) then param_lines ip (i + 1) (sr_param (pf_structured f)) else []) @
      concat (map (writeField ip (i + 1)) (pf_entries f))"
    by (simp add: map_body_def)
  with good_append [OF ps es] have "renders_well V (i + 1) (tl (map_body ip i f))
      (map_param (pf_structured f) \<and> holds V (spec_has ip (sr_param (pf_structured f))) \<or>
       list_ex (\<lambda>e. pf_guard e = [] \<or> holds V (pf_guard e)) (pf_entries f))"
    by simp
  then show ?thesis
    by (rule good_weaken) (use field_conds_live [OF assms(3), of V ip] in \<open>auto simp: list_ex_iff [of _ "pf_entries f"]\<close>)
qed

lemma map_body_good:
  assumes "sound_values ip V" "planned_ok f" "pf_isMap f"
    and "list_ex (holds V) (field_conds ip f) \<or> list_ex (\<lambda>e. pf_guard e = []) (pf_entries f)"
  shows "renders_well V i (map_body ip i f) True"
proof -
  from map_rest_good [OF assms(1-3)] assms(4) have "renders_well V (i + 1) (tl (map_body ip i f)) True" by simp
  from good_key [OF this, of i i "pf_path f"] show ?thesis by (simp add: map_body_def)
qed

lemma writeField_good:
  assumes "sound_values ip V" "planned_ok f"
  shows "renders_well V i (writeField ip i f) (field_live ip V f)"
proof (cases "pf_isMap f")
  case False
  with assms(2) have "renders_well V i (writeField ip i f) (pf_guard f = [] \<or> holds V (pf_guard f))"
    by (cases f) (auto simp: planned_ok_def object_leaf_def writeField.simps intro!: good_guarded good_value)
  with False show ?thesis by (simp add: field_live_def)
next
  case m: True
  consider (param) "map_param (pf_structured f)" "pf_entries f = []"
    | (sure) "list_ex (\<lambda>e. pf_guard e = []) (pf_entries f)"
    | (conds) "\<not> (map_param (pf_structured f) \<and> pf_entries f = [])" "\<not> list_ex (\<lambda>e. pf_guard e = []) (pf_entries f)" "field_conds ip f \<noteq> []"
    | (none) "\<not> (map_param (pf_structured f) \<and> pf_entries f = [])" "\<not> list_ex (\<lambda>e. pf_guard e = []) (pf_entries f)" "field_conds ip f = []"
    by blast
  then show ?thesis
  proof cases
    case param
    with m good_object [OF assms(1)] show ?thesis by (simp add: writeField_map field_live_def)
  next
    case sure
    then have "pf_entries f \<noteq> []" by auto
    with m sure map_body_good [OF assms m] show ?thesis by (simp add: writeField_map field_live_def)
  next
    case conds
    obtain o1 where o1: "renders V (map_body ip i f) o1"
      using renders_key map_rest_good [OF assms m, of i] by (fastforce simp: renders_well_def map_body_def)
    obtain o2 where o2: "renders V [(i, formatKey (pf_path f) @ '': {}'')] o2" "no_empty_key o2" "at_least i o2" "o2 \<noteq> []"
      using good_empty [of i i V "pf_path f"] by (auto simp: renders_well_def)
    have "holds V (or_cond (field_conds ip f)) \<Longrightarrow> renders_well V i (map_body ip i f) True"
      using reads_or [OF assms(1) conds(3)] map_body_good [OF assms m] by simp
    then obtain o3 where o3: "renders V (map_body ip i f) o3" "holds V (or_cond (field_conds ip f)) \<Longrightarrow> no_empty_key o3 \<and> at_least i o3 \<and> o3 \<noteq> []"
      using o1 by (fastforce simp: renders_well_def)
    from renders_else [OF o3(1) o2(1), of i "or_cond (field_conds ip f)" i i] m conds o2 o3(2)
    have "renders_well V i (writeField ip i f) True"
      by (auto simp: writeField_map renders_well_def split: if_splits)
    then show ?thesis by (rule good_weaken) simp_all
  next
    case none
    have "writeField ip i f = [(i, formatKey (pf_path f) @ '': {}'')]"
      using none by (subst writeField_map [OF m]) (simp only: if_False if_True simp_thms)
    with good_empty [of i i V "pf_path f"] have "renders_well V i (writeField ip i f) True" by simp
    then show ?thesis by (rule good_weaken) simp_all
  qed
qed

end
