(* ===== verification/EmitTreeOK.thy ===== *)
theory EmitTreeOK
  imports EmitFilled
begin

text \<open>
  The shape of a native tree: a node is a value or has members, never both and never neither, and
  the insertions, the map marks and the ordering of elements keep it so.
\<close>

section \<open>The invariant\<close>

definition leaf_ok :: "bool \<Rightarrow> pfield \<Rightarrow> bool" where
  \<comment> \<open>a value that fills its line, or an object parameter at a mapping key\<close>
  "leaf_ok indexed f \<longleftrightarrow> (if object_leaf f then \<not> indexed else plain_value (pf_rhs f))"

definition object_node :: "nnode \<Rightarrow> bool" where
  "object_node n \<longleftrightarrow> (case nn_leaf n of Some f \<Rightarrow> object_leaf f | None \<Rightarrow> False)"

function nnode_ok :: "nnode \<Rightarrow> bool" where
  "nnode_ok n \<longleftrightarrow>
     cutArrayIndex (nn_key n) = (nn_seg n, nn_idx n, nn_indexed n) \<and>
     (case nn_leaf n of
        Some f \<Rightarrow> nn_children n = [] \<and> nn_map n = None \<and> leaf_ok (nn_indexed n) f
      | None \<Rightarrow> nn_children n \<noteq> [] \<and> (nn_indexed n \<longrightarrow> nn_map n = None)) \<and>
     (\<forall>c \<in> set (nn_children n). nnode_ok c \<and> (nn_indexed n \<longrightarrow> \<not> object_node c))"
  by pat_completeness auto

lemma nn_child_size: "c \<in> set (nn_children n) \<Longrightarrow> size c < size n"
  by (cases n) (auto dest: nn_size)

termination nnode_ok
  by (relation "measure size") (auto dest: nn_child_size)

declare nnode_ok.simps [simp del]

definition kids_ok :: "nnode \<Rightarrow> bool" where
  "kids_ok n \<longleftrightarrow> (\<forall>c \<in> set (nn_children n). nnode_ok c \<and> (nn_indexed n \<longrightarrow> \<not> object_node c))"

lemma nnode_ok_kids: "nnode_ok n \<longleftrightarrow>
     cutArrayIndex (nn_key n) = (nn_seg n, nn_idx n, nn_indexed n) \<and>
     (case nn_leaf n of
        Some f \<Rightarrow> nn_children n = [] \<and> nn_map n = None \<and> leaf_ok (nn_indexed n) f
      | None \<Rightarrow> nn_children n \<noteq> [] \<and> (nn_indexed n \<longrightarrow> nn_map n = None)) \<and> kids_ok n"
  by (subst nnode_ok.simps) (simp add: kids_ok_def)

lemma node_sels [simp]:
  "nn_key (set_nodes cs n) = nn_key n" "nn_seg (set_nodes cs n) = nn_seg n" "nn_idx (set_nodes cs n) = nn_idx n"
  "nn_indexed (set_nodes cs n) = nn_indexed n" "nn_leaf (set_nodes cs n) = nn_leaf n" "nn_map (set_nodes cs n) = nn_map n"
  "nn_children (set_nodes cs n) = cs"
  "nn_key (set_leaf f n) = nn_key n" "nn_seg (set_leaf f n) = nn_seg n" "nn_idx (set_leaf f n) = nn_idx n"
  "nn_indexed (set_leaf f n) = nn_indexed n" "nn_leaf (set_leaf f n) = Some f" "nn_map (set_leaf f n) = nn_map n"
  "nn_children (set_leaf f n) = nn_children n"
  "nn_key (set_map st n) = nn_key n" "nn_seg (set_map st n) = nn_seg n" "nn_idx (set_map st n) = nn_idx n"
  "nn_indexed (set_map st n) = nn_indexed n" "nn_leaf (set_map st n) = nn_leaf n" "nn_map (set_map st n) = Some st"
  "nn_children (set_map st n) = nn_children n"
  by (cases n; simp)+

lemma set_put_node: "set (put_node n cs) \<subseteq> insert n (set cs)"
  by (induction n cs rule: put_node.induct) auto

lemma put_node_ne [simp]: "put_node n cs \<noteq> []"
  by (cases cs) auto

lemma child_put: "child_at (nn_key n) (put_node n cs) = Some n"
  by (induction n cs rule: put_node.induct) (auto simp: child_at_def)

lemma child_at_in: "child_at k cs = Some c \<Longrightarrow> c \<in> set cs \<and> nn_key c = k"
  by (auto simp: child_at_def find_Some_iff)

lemma kids_put:
  assumes "kids_ok cur" "nnode_ok c" "nn_indexed cur \<Longrightarrow> \<not> object_node c"
  shows "kids_ok (set_nodes (put_node c (nn_children cur)) cur)"
  using assms set_put_node [of c "nn_children cur"] by (auto simp: kids_ok_def)

lemma cut_unindexed: "cutArrayIndex s = (sg, i, False) \<Longrightarrow> sg = s \<and> i = 0"
  by (auto simp: cutArrayIndex_def Let_def split: option.splits if_splits)

lemma cut_plain: "CHR ''['' \<notin> set s \<Longrightarrow> cutArrayIndex s = (s, 0, False)"
  by (simp add: cutArrayIndex_def last_index_None [THEN iffD2])

lemma kids_leaf [simp]: "kids_ok (set_leaf f n) = kids_ok n" "kids_ok (set_map st n) = kids_ok n"
  by (simp_all add: kids_ok_def)

section \<open>Insertion\<close>

definition leaf_fits :: "bool \<Rightarrow> string list \<Rightarrow> pfield \<Rightarrow> bool" where
  \<comment> \<open>a value, or an object parameter with no array on its way\<close>
  "leaf_fits indexed path f \<longleftrightarrow>
     (if object_leaf f then \<not> indexed \<and> list_all (\<lambda>s. CHR ''['' \<notin> set s) path else plain_value (pf_rhs f))"

fun node_at :: "string list \<Rightarrow> nnode \<Rightarrow> nnode option" where
  "node_at [] n = Some n"
| "node_at (s # p) n = (case child_at s (nn_children n) of Some c \<Rightarrow> node_at p c | None \<Rightarrow> None)"

definition same_node :: "nnode \<Rightarrow> nnode \<Rightarrow> bool" where
  \<comment> \<open>the same place in the tree\<close>
  "same_node n m \<longleftrightarrow> nn_key m = nn_key n \<and> nn_seg m = nn_seg n \<and> nn_idx m = nn_idx n \<and> nn_indexed m = nn_indexed n \<and>
     nn_leaf m = nn_leaf n \<and> nn_map m = nn_map n"

lemma insert_ok:
  assumes "insertNativePath r fp cur path f = Inr cur'" "kids_ok cur" "path \<noteq> []" "leaf_fits (nn_indexed cur) path f"
  shows "kids_ok cur' \<and> nn_children cur' \<noteq> [] \<and> same_node cur cur'"
  using assms
proof (induction r fp cur path f arbitrary: cur' rule: insertNativePath.induct)
  case (2 r fp cur s rest f)
  obtain sg idx indexed where cut: "cutArrayIndex s = (sg, idx, indexed)" by (metis prod.exhaust)
  define key where "key = (if indexed then s else sg)"
  have ks: "key = s" using cut cut_unindexed by (cases indexed) (auto simp: key_def)
  define child where "child = (case child_at key (nn_children cur) of Some c \<Rightarrow> c | None \<Rightarrow> NNode key sg idx indexed None None [])"
  have ck: "nn_key child = key" by (auto simp: child_def dest: child_at_in split: option.splits)
  have old: "child_at key (nn_children cur) = Some c \<Longrightarrow> nnode_ok c" for c
    using "2.prems"(2) by (auto simp: kids_ok_def dest: child_at_in)
  have ok: "cutArrayIndex (nn_key child) = (nn_seg child, nn_idx child, nn_indexed child) \<and> kids_ok child \<and>
      (nn_leaf child = None \<longrightarrow> nn_indexed child \<longrightarrow> nn_map child = None)"
  proof (cases "child_at key (nn_children cur)")
    case None
    then show ?thesis using cut ks by (simp add: child_def kids_ok_def)
  next
    case (Some c)
    with old [OF Some] show ?thesis by (cases "nn_leaf c") (simp_all add: child_def nnode_ok_kids)
  qed
  have ix: "nn_indexed child = indexed" using ok ck ks cut by simp
  have fits: "leaf_fits (nn_indexed child) rest f"
    using "2.prems"(4) cut ix by (auto simp: leaf_fits_def cut_plain)
  note step = "2.prems"(1) [unfolded insertNativePath.simps cut Let_def prod.case, folded key_def, folded child_def]
  have nl: "nn_leaf child = None" using step by (auto split: if_splits option.splits)
  have nm: "child_at key (nn_children cur) = None \<or> nn_children child \<noteq> []"
  proof (cases "child_at key (nn_children cur)")
    case (Some c)
    with old [OF Some] nl show ?thesis by (simp add: child_def nnode_ok_kids)
  qed simp
  show ?case
  proof (cases "rest = []")
    case True
    from step nl True have c: "nn_children child = []" and e: "cur' = set_nodes (put_node (set_leaf f child) (nn_children cur)) cur"
      by (auto split: if_splits)
    from c nm have fresh: "child = NNode key sg idx indexed None None []" by (simp add: child_def)
    have "leaf_ok indexed f"
      using "2.prems"(4) cut by (auto simp: leaf_ok_def leaf_fits_def cut_plain split: if_splits)
    then have "nnode_ok (set_leaf f child)"
      using ok c ix by (simp add: nnode_ok_kids [of "set_leaf f child"] kids_leaf) (simp add: fresh)
    moreover have "nn_indexed cur \<Longrightarrow> \<not> object_node (set_leaf f child)"
      using "2.prems"(4) by (auto simp: object_node_def leaf_fits_def split: if_splits)
    ultimately show ?thesis using e kids_put [OF "2.prems"(2)] by (simp add: same_node_def)
  next
    case False
    from step nl False obtain child' where c: "insertNativePath r fp child rest f = Inr child'"
      and e: "cur' = set_nodes (put_node child' (nn_children cur)) cur"
      by (auto simp: bind_err_Inr split: if_splits)
    have g: "\<not> sg = []" "\<not> (child_at key (nn_children cur) = None \<and> clash sg indexed (nn_children cur))"
      using step by (auto split: if_splits)
    have "kids_ok child' \<and> nn_children child' \<noteq> [] \<and> same_node child child'"
      using "2.IH" [OF cut [symmetric] refl refl key_def g child_def nl False] c ok fits False by blast
    then have "nnode_ok child'" "\<not> object_node child'"
      using ok nl by (auto simp: nnode_ok_kids same_node_def object_node_def)
    with kids_put [OF "2.prems"(2)] e show ?thesis by (simp add: same_node_def)
  qed
qed simp

lemma insert_same: "insertNativePath r fp cur path f = Inr cur' \<Longrightarrow> same_node cur cur'"
  by (cases path) (auto simp: same_node_def bind_err_Inr Let_def split: prod.splits if_splits option.splits)

lemma insert_reach:
  assumes "insertNativePath r fp cur (p @ [e]) f = Inr cur'" "p \<noteq> []"
  shows "\<exists>n. node_at p cur' = Some n \<and> nn_leaf n = None"
  using assms
proof (induction p arbitrary: cur cur')
  case (Cons s p)
  obtain sg idx indexed where cut: "cutArrayIndex s = (sg, idx, indexed)" by (metis prod.exhaust)
  define child where "child = (case child_at s (nn_children cur) of Some c \<Rightarrow> c | None \<Rightarrow> NNode s sg idx indexed None None [])"
  have ks: "(if indexed then s else sg) = s" using cut cut_unindexed by (cases indexed) auto
  have ck: "nn_key child = s" by (auto simp: child_def dest: child_at_in split: option.splits)
  note step = Cons.prems(1) [unfolded append_Cons insertNativePath.simps cut Let_def prod.case ks, folded child_def]
  have nl: "nn_leaf child = None" using step by (auto split: if_splits option.splits)
  from step nl obtain child' where c: "insertNativePath r fp child (p @ [e]) f = Inr child'"
    and e: "cur' = set_nodes (put_node child' (nn_children cur)) cur"
    by (auto simp: bind_err_Inr split: if_splits)
  have same: "same_node child child'" using insert_same [OF c] .
  then have k: "nn_key child' = s" using ck by (simp add: same_node_def)
  show ?case
  proof (cases "p = []")
    case True
    with same nl e k child_put [of child' "nn_children cur"] show ?thesis by (simp add: same_node_def)
  next
    case False
    with Cons.IH [OF c] e k child_put [of child' "nn_children cur"] show ?thesis by simp
  qed
qed simp

lemma mark_ok:
  assumes "kids_ok cur" "node_at p cur = Some n" "nn_leaf n = None" "p \<noteq> []" "list_all (\<lambda>s. CHR ''['' \<notin> set s) p"
  shows "kids_ok (mark_map st p cur) \<and> nn_children (mark_map st p cur) \<noteq> [] \<and> same_node cur (mark_map st p cur)"
  using assms
proof (induction st p cur rule: mark_map.induct)
  case (2 st s rest cur)
  then obtain c where c: "child_at s (nn_children cur) = Some c" "node_at rest c = Some n"
    by (auto split: option.splits)
  then have ok: "nnode_ok c" "nn_indexed cur \<Longrightarrow> \<not> object_node c"
    using "2.prems"(1) by (auto simp: kids_ok_def dest: child_at_in)
  have plain: "\<not> nn_indexed c"
    using ok(1) child_at_in [OF c(1)] cut_plain [of s] "2.prems"(5) by (simp add: nnode_ok_kids [of c])
  have rest: "list_all (\<lambda>s. CHR ''['' \<notin> set s) rest" using "2.prems"(5) by simp
  define c' where "c' = mark_map st rest c"
  have "nnode_ok c' \<and> (object_node c' \<longleftrightarrow> object_node c)"
  proof (cases "rest = []")
    case True
    with c(2) "2.prems"(3) have "nn_leaf c = None" "c' = set_map st c" by (simp_all add: c'_def)
    with ok(1) plain show ?thesis by (simp add: nnode_ok_kids [of c] nnode_ok_kids [of "set_map st c"] object_node_def)
  next
    case False
    from ok(1) have "kids_ok c" by (simp add: nnode_ok_kids)
    with "2.IH" [OF c(1) _ c(2) "2.prems"(3) False rest]
    have m: "kids_ok c'" "nn_children c' \<noteq> []" "same_node c c'" by (simp_all add: c'_def)
    have "nn_leaf c = None"
      using ok(1) c(2) False by (cases rest) (auto simp: nnode_ok_kids [of c] child_at_def split: option.splits)
    with m ok(1) show ?thesis by (simp add: nnode_ok_kids [of c] nnode_ok_kids [of c'] same_node_def object_node_def)
  qed
  with kids_put [OF "2.prems"(1)] ok show ?case by (simp add: c(1) c'_def same_node_def)
qed simp

section \<open>The plan\<close>

lemma go_join_set: "s \<in> set ws \<Longrightarrow> set s \<subseteq> set (go_join [d] ws)"
  by (induction "[d]" ws rule: go_join.induct) auto

lemma split_on_sub: "s \<in> set (split_on d xs) \<Longrightarrow> set s \<subseteq> set xs"
  using go_join_set [of s "split_on d xs" d] by (simp add: go_join_split_on)

lemma fits_entry: "plan_entry_ok e \<Longrightarrow> leaf_fits i path e"
  by (simp add: plan_entry_ok_def leaf_fits_def object_leaf_def)

lemma fits_plain:
  assumes "planned_ok f" "\<not> (pf_isMap f \<and> pf_entries f \<noteq> [])"
  shows "leaf_fits False (split_on CHR ''.'' (pf_path f)) f"
proof (cases "object_leaf f")
  case True
  with assms have "CHR ''['' \<notin> set (pf_path f)" by (auto simp: planned_ok_def split: if_splits)
  with True show ?thesis using split_on_sub [of _ "CHR ''.''" "pf_path f"] by (auto simp: leaf_fits_def list_all_iff)
next
  case False
  with assms have "plain_value (pf_rhs f)" by (auto simp: planned_ok_def split: if_splits)
  with False show ?thesis by (simp add: leaf_fits_def)
qed

lemma entries_ok:
  assumes "insert_entries r f cur es = Inr cur'" "kids_ok cur" "list_all plan_entry_ok es" "es \<noteq> []"
  shows "kids_ok cur' \<and> nn_children cur' \<noteq> [] \<and> same_node cur cur' \<and>
    (\<exists>n. node_at (split_on CHR ''.'' (pf_path f)) cur' = Some n \<and> nn_leaf n = None)"
  using assms
proof (induction es arbitrary: cur)
  case (Cons e es)
  define p where "p = split_on CHR ''.'' (pf_path f)"
  from Cons.prems(1) obtain mid where m: "insertNativePath r (pf_path f @ ''['' @ pf_path e @ '']'') cur (p @ [pf_path e]) e = Inr mid"
    and rest: "insert_entries r f mid es = Inr cur'"
    by (auto simp: bind_err_Inr p_def)
  from Cons.prems(3) have "leaf_fits (nn_indexed cur) (p @ [pf_path e]) e" by (simp add: fits_entry)
  with insert_ok [OF m Cons.prems(2)] have ok: "kids_ok mid" "nn_children mid \<noteq> []" "same_node cur mid" by auto
  have "p \<noteq> []" by (simp add: p_def)
  with insert_reach [OF m] have r: "\<exists>n. node_at p mid = Some n \<and> nn_leaf n = None" by blast
  show ?case
  proof (cases "es = []")
    case True
    with rest ok r show ?thesis by (simp add: p_def)
  next
    case False
    with Cons.IH [OF rest ok(1)] Cons.prems(3) ok(3) show ?thesis by (auto simp: same_node_def)
  qed
qed simp

lemma insert_plan_ok:
  assumes "insert_plan r f cur = Inr cur'" "kids_ok cur" "planned_ok f" "\<not> nn_indexed cur"
  shows "kids_ok cur' \<and> same_node cur cur' \<and> nn_children cur' \<noteq> []"
proof (cases "pf_isMap f \<and> pf_entries f \<noteq> []")
  case True
  with assms(1) obtain mid where m: "insert_entries r f cur (pf_entries f) = Inr mid"
    and c: "cur' = (if map_param (pf_structured f) then mark_map (pf_structured f) (split_on CHR ''.'' (pf_path f)) mid else mid)"
    by (auto simp: insert_plan_def bind_err_Inr)
  from True assms(3) have entries: "list_all plan_entry_ok (pf_entries f)" "map_param (pf_structured f) \<longrightarrow> CHR ''['' \<notin> set (pf_path f)"
    by (simp_all add: planned_ok_def)
  from entries(2) have plain: "map_param (pf_structured f) \<Longrightarrow> list_all (\<lambda>s. CHR ''['' \<notin> set s) (split_on CHR ''.'' (pf_path f))"
    using split_on_sub [of _ "CHR ''.''" "pf_path f"] by (auto simp: list_all_iff)
  obtain n where ok: "kids_ok mid" "same_node cur mid" "nn_children mid \<noteq> []"
    and n: "node_at (split_on CHR ''.'' (pf_path f)) mid = Some n" "nn_leaf n = None"
    using entries_ok [OF m assms(2)] True entries by blast
  from mark_ok [OF ok(1) n _ plain] ok c show ?thesis by (auto simp: same_node_def)
next
  case False
  then have "insertNativePath r (pf_path f) cur (split_on CHR ''.'' (pf_path f)) f = Inr cur'"
    using assms(1) by (simp only: insert_plan_def if_False)
  from insert_ok [OF this assms(2)] fits_plain [OF assms(3) False] assms(4) show ?thesis by simp
qed

lemma insert_plans_ok:
  "insert_plans r fs cur = Inr cur' \<Longrightarrow> kids_ok cur \<Longrightarrow> list_all planned_ok fs \<Longrightarrow> \<not> nn_indexed cur \<Longrightarrow>
     kids_ok cur' \<and> same_node cur cur' \<and> (fs = [] \<and> nn_children cur = [] \<or> nn_children cur' \<noteq> [])"
proof (induction fs arbitrary: cur)
  case (Cons f fs)
  from Cons.prems(1) obtain mid where m: "insert_plan r f cur = Inr mid" "insert_plans r fs mid = Inr cur'"
    by (auto simp: bind_err_Inr)
  from insert_plan_ok [OF m(1) Cons.prems(2)] Cons.prems(3,4) have "kids_ok mid" "same_node cur mid" "nn_children mid \<noteq> []" by simp_all
  with Cons.IH [OF m(2)] Cons.prems(3,4) show ?case by (simp add: same_node_def)
qed (simp add: same_node_def)

section \<open>The order of elements\<close>

lemma ordered_ne: "cs \<noteq> [] \<Longrightarrow> ordered_from cs [] cs \<noteq> []"
proof (cases cs)
  case (Cons c cs')
  then have "c \<in> set (element_run (nn_seg c) cs)" if "nn_indexed c"
    using that Cons by (simp add: element_run_def set_insort_key)
  then show ?thesis using Cons by (auto dest: arg_cong [of _ "[]" set])
qed simp

lemma normalize_ok:
  "normalizeNativeArrays r n = Inr n' \<Longrightarrow>
     same_node n n' \<and> (nn_children n \<noteq> [] \<longrightarrow> nn_children n' \<noteq> []) \<and> (kids_ok n \<longrightarrow> kids_ok n') \<and> (nn_children n = [] \<longrightarrow> nn_children n' = [])"
proof (induction r n arbitrary: n' rule: normalizeNativeArrays.induct)
  case (1 r k s i x l m cs)
  from "1.prems" obtain cs' u where c: "map_err (normalizeNativeArrays r) (ordered_from cs [] cs) = Inr cs'"
    and u: "check_err (check_all (run_check r cs) (indexed_segs cs)) = Inr u" and n': "n' = NNode k s i x l m cs'"
    by (auto simp: bind_err_Inr)
  have len: "length cs' = length (ordered_from cs [] cs)"
    using c by (metis length_map map_err_Inr)
  have kid: "nnode_ok d' \<and> (object_node d' \<longleftrightarrow> object_node d)"
    if "d \<in> set (ordered_from cs [] cs)" "nnode_ok d" "normalizeNativeArrays r d = Inr d'" for d d'
    using "1.IH" [OF u that(1,3)] that(2)
    by (auto simp: nnode_ok_kids [of d] nnode_ok_kids [of d'] same_node_def object_node_def split: option.splits)
  have "kids_ok n'" if k: "kids_ok (NNode k s i x l m cs)"
  proof -
    have "nnode_ok d' \<and> (x \<longrightarrow> \<not> object_node d')" if "d' \<in> set cs'" for d'
    proof -
      from map_err_mem [OF c that] obtain d where d: "d \<in> set (ordered_from cs [] cs)" "normalizeNativeArrays r d = Inr d'" by blast
      from d(1) set_ordered_from [of cs "[]" cs] have "d \<in> set cs" by auto
      with k have "nnode_ok d" "x \<longrightarrow> \<not> object_node d" by (auto simp: kids_ok_def)
      with kid [OF d(1) _ d(2)] show ?thesis by simp
    qed
    then show ?thesis by (simp add: n' kids_ok_def)
  qed
  moreover have "cs \<noteq> [] \<longrightarrow> cs' \<noteq> []" using len ordered_ne [of cs] by auto
  ultimately show ?case using len by (auto simp: n' same_node_def)
qed

lemma buildNativeTree_kids:
  assumes "buildNativeTree r plan = Inr rt" "list_all planned_ok plan"
  shows "kids_ok rt \<and> same_node native_root rt \<and> (plan \<noteq> [] \<longrightarrow> nn_children rt \<noteq> [])"
proof -
  from assms(1) obtain mid where m: "insert_plans r plan native_root = Inr mid" "normalizeNativeArrays r mid = Inr rt"
    by (auto simp: buildNativeTree_def bind_err_Inr)
  have "kids_ok native_root" "\<not> nn_indexed native_root" by (simp_all add: kids_ok_def native_root_def)
  with insert_plans_ok [OF m(1)] assms(2) have "kids_ok mid" "same_node native_root mid" "plan \<noteq> [] \<longrightarrow> nn_children mid \<noteq> []"
    by auto
  with normalize_ok [OF m(2)] show ?thesis by (auto simp: same_node_def)
qed

end
