(* ===== verification/EmitNative.thy ===== *)
theory EmitNative
  imports EmitTreeOK
begin

text \<open>
  The writers of native trees render no empty key: a branch whose every value is optional stands
  under the disjunction of their conditions, an element of several under its own.
\<close>

declare writeNativeChildren.simps(2) [simp del]

section \<open>Pieces that must render when a condition holds\<close>

definition fine :: "valuation \<Rightarrow> nat \<Rightarrow> bool \<Rightarrow> line list \<Rightarrow> bool" where
  \<comment> \<open>balanced; and where the condition holds, rendered to something without an empty key\<close>
  "fine V n c ls \<longleftrightarrow> (\<exists>out. renders V ls out \<and> (c \<longrightarrow> no_empty_key out \<and> at_least n out \<and> out \<noteq> []))"

lemma fine_good: "renders_well V n ls c \<Longrightarrow> fine V n c ls"
  by (auto simp: renders_well_def fine_def)

lemma fine_must: "renders_well V n ls True \<Longrightarrow> fine V n c ls"
  by (auto simp: renders_well_def fine_def)

lemma good_fine: "fine V n True ls \<Longrightarrow> renders_well V n ls True"
  by (auto simp: renders_well_def fine_def)

lemma fine_cases: "fine V n c ls \<longleftrightarrow> (if c then renders_well V n ls True else \<exists>out. renders V ls out)"
  by (auto simp: renders_well_def fine_def)

lemma good_if_fine:
  assumes "fine V n c body" "holds V g \<longrightarrow> c"
  shows "renders_well V n (if_lines i g body) (holds V g)"
proof -
  from assms(1) obtain out where "renders V body out" "c \<longrightarrow> no_empty_key out \<and> at_least n out \<and> out \<noteq> []" by (auto simp: fine_def)
  with renders_if [of V body out i g] assms(2) show ?thesis by (auto simp: renders_well_def)
qed

lemma fine_open:
  assumes "fine V k c body" "action_of (snd l) = AOut" "n \<le> fst l" "col l < 2 * k"
  shows "fine V n c (l # body)"
  using assms good_open [of l n V k body] by (auto simp: fine_cases intro: renders_Cons split: if_splits)

section \<open>Conditions\<close>

definition on :: "valuation \<Rightarrow> string option \<Rightarrow> bool" where
  "on V m \<longleftrightarrow> (case m of None \<Rightarrow> True | Some g \<Rightarrow> holds V g)"

definition live :: "printable \<Rightarrow> valuation \<Rightarrow> nnode \<Rightarrow> bool" where
  \<comment> \<open>something of the subtree renders\<close>
  "live ip V n \<longleftrightarrow> list_ex (on V) (node_marks ip n)"

lemma node_marks_ne: "nnode_ok n \<Longrightarrow> node_marks ip n \<noteq> []"
proof (induction ip n rule: node_marks.induct)
  case (1 ip k s i x l m cs)
  show ?case
  proof (cases l)
    case None
    with nnode_ok_kids [THEN iffD1, OF "1.prems"] have "cs \<noteq> []" "\<forall>c \<in> set cs. nnode_ok c" by (simp_all add: kids_ok_def)
    then obtain c cs' where c: "cs = c # cs'" "nnode_ok c" by (cases cs) simp_all
    with "1.IH" [of c] show ?thesis by simp
  qed (simp add: leaf_marks_def)
qed

lemma set_guards: "set (snd (analyze ip n)) = {g. Some g \<in> set (node_marks ip n)}"
  by (force simp: analyze_def List.map_filter_def image_iff)

lemma on_simps [simp]: "on V None" "on V (Some g) = holds V g"
  by (simp_all add: on_def)

lemma live_iff:
  "live ip V n \<longleftrightarrow> fst (analyze ip n) \<or> list_ex (holds V) (snd (analyze ip n))"
proof -
  have "(\<exists>m \<in> M. on V m) \<longleftrightarrow> None \<in> M \<or> (\<exists>g. Some g \<in> M \<and> holds V g)" for M
    by (metis on_simps option.exhaust)
  then show ?thesis using set_guards [of ip n] by (auto simp: live_def list_ex_iff analyze_def)
qed

lemma guards_ne: "nnode_ok n \<Longrightarrow> \<not> fst (analyze ip n) \<Longrightarrow> snd (analyze ip n) \<noteq> []"
proof -
  assume "nnode_ok n" "\<not> fst (analyze ip n)"
  then obtain g where "Some g \<in> set (node_marks ip n)"
    using node_marks_ne [of n ip] by (cases "node_marks ip n"; cases "hd (node_marks ip n)") (auto simp: analyze_def)
  then have "g \<in> set (snd (analyze ip n))" using set_guards by blast
  then show ?thesis by auto
qed

lemma live_branch:
  assumes "sound_values ip V" "nnode_ok n"
  shows "fst (analyze ip n) \<or> holds V (or_cond (snd (analyze ip n))) \<longleftrightarrow> live ip V n"
  using reads_or [OF assms(1) guards_ne [OF assms(2)]] by (auto simp: live_iff)

lemma live_run:
  assumes "sound_values ip V" "\<forall>e \<in> set es. nnode_ok e" "es \<noteq> []"
  shows "fst (analyze_run ip es) \<or> holds V (or_cond (snd (analyze_run ip es))) \<longleftrightarrow> list_ex (live ip V) es"
proof (cases "fst (analyze_run ip es)")
  case True
  then show ?thesis by (auto simp: analyze_run_def live_iff list_ex_iff)
next
  case False
  have "snd (analyze_run ip es) \<noteq> []"
  proof -
    from assms(3) obtain e where e: "e \<in> set es" by (cases es) auto
    with False have "\<not> fst (analyze ip e)" by (auto simp: analyze_run_def list_ex_iff)
    with guards_ne assms(2) e have "set (snd (analyze ip e)) \<noteq> {}" by simp
    with e have "set (snd (analyze_run ip es)) \<noteq> {}" by (auto simp: analyze_run_def)
    then show ?thesis by auto
  qed
  with reads_or [OF assms(1)] False show ?thesis by (auto simp: analyze_run_def live_iff list_ex_iff)
qed

lemma good_branch:
  assumes "fine V n c body" "fst a \<or> holds V (or_cond (snd a)) \<longleftrightarrow> c"
  shows "renders_well V n (branch_lines i a body) c"
proof (cases "fst a")
  case True
  with assms good_fine show ?thesis by (auto simp: branch_lines_def)
next
  case False
  with good_if_fine [OF assms(1), of "or_cond (snd a)" i] assms(2) show ?thesis by (auto simp: branch_lines_def)
qed

section \<open>The writers\<close>

lemma live_leaf: "nn_leaf n = Some f \<Longrightarrow> nnode_ok n \<Longrightarrow> live ip V n = list_ex (on V) (leaf_marks ip f)"
  by (cases n) (simp add: live_def nnode_ok_kids)

lemma live_node: "nn_leaf n = None \<Longrightarrow>
  live ip V n \<longleftrightarrow> (case nn_map n of Some st \<Rightarrow> map_param st \<and> holds V (spec_has ip (sr_param st)) | None \<Rightarrow> False) \<or>
    list_ex (live ip V) (nn_children n)"
  by (cases n) (auto simp: live_def list_ex_iff on_def split: option.splits)

lemma good_leaf:
  assumes "sound_values ip V" "nnode_ok n" "nn_leaf n = Some f" "\<not> nn_indexed n"
  shows "renders_well V i (writeNativeLeaf ip i n f) (live ip V n)"
proof (cases "object_leaf f")
  case True
  with good_object [OF assms(1)] live_leaf [OF assms(3,2)] show ?thesis
    by (simp add: writeNativeLeaf_def leaf_marks_def on_def)
next
  case False
  with assms(2,3) have "plain_value (pf_rhs f)" by (simp add: nnode_ok_kids leaf_ok_def)
  then have "renders_well V i [value_line i (nn_seg n) (pf_rhs f)] True" by (intro good_value) simp_all
  from good_guarded [OF this, of i "pf_guard f"] False assms(4) live_leaf [OF assms(3,2)] show ?thesis
    by (auto simp: writeNativeLeaf_def leaf_marks_def on_def)
qed

lemma good_map_param:
  assumes "sound_values ip V"
  shows "renders_well V (i + 1) (case m of Some st \<Rightarrow> (if map_param st then param_lines ip (i + 1) (sr_param st) else []) | None \<Rightarrow> [])
    (case m of Some st \<Rightarrow> map_param st \<and> holds V (spec_has ip (sr_param st)) | None \<Rightarrow> False)"
  using good_params [OF assms, of "i + 1" "i + 1"] by (cases m) auto

lemma inline_first_value:
  assumes "inline_first n = Some f" "nnode_ok n" "\<not> object_node n"
  shows "nn_leaf n = Some f \<and> plain_value (pf_rhs f) \<and> list_ex (on V) (leaf_marks ip f)"
  using assms
  by (auto simp: inline_first_def nnode_ok_kids leaf_ok_def object_node_def leaf_marks_def on_def split: option.splits if_splits)

lemma element_good:
  assumes "nnode_ok n" "nn_indexed n" "nn_leaf n = None"
    and all: "inline_first (hd (nn_children n)) = None \<Longrightarrow>
      renders_well V (i + 2) (writeNativeChildren ip (i + 2) (nn_children n)) (list_ex (live ip V) (nn_children n))"
    and rest: "inline_first (hd (nn_children n)) \<noteq> None \<Longrightarrow>
      renders_well V (i + 2) (writeNativeChildren ip (i + 2) (tl (nn_children n))) (list_ex (live ip V) (tl (nn_children n)))"
  shows "fine V (i + 1) (list_ex (live ip V) (nn_children n)) (writeNativeElement ip i n)"
proof -
  from assms(1,3) obtain first cs where cs: "nn_children n = first # cs" by (cases "nn_children n") (auto simp: nnode_ok_kids)
  with assms(1,2) have f: "nnode_ok first" "\<not> object_node first" by (auto simp: nnode_ok_kids [of n] kids_ok_def)
  show ?thesis
  proof (cases "inline_first first")
    case (Some lf)
    with inline_first_value [OF Some f, of V ip] have v: "nn_leaf first = Some lf" "plain_value (pf_rhs lf)"
      and "live ip V first" using live_leaf [of first lf ip V] f by auto
    have o: "\<not> opens (i + 1, ''- '' @ formatKey (nn_seg first) @ '': '' @ pf_rhs lf)"
      using v(2) formatKey_head [of "nn_seg first"] by (auto simp: opens_def plain_value_def)
    have "renders_well V (i + 1) [(i + 1, ''- '' @ formatKey (nn_seg first) @ '': '' @ pf_rhs lf)] True"
      by (rule good_line) (use o in \<open>simp_all add: action_out\<close>)
    moreover have "renders_well V (i + 1) (writeNativeChildren ip (i + 2) cs) False"
      by (rule good_weaken [where n = "i + 2" and m = "list_ex (live ip V) cs"]) (use rest cs Some in simp_all)
    ultimately have "renders_well V (i + 1) ([(i + 1, ''- '' @ formatKey (nn_seg first) @ '': '' @ pf_rhs lf)] @ writeNativeChildren ip (i + 2) cs) True"
      using good_append by fastforce
    then show ?thesis using cs assms(3) Some by (intro fine_must) (simp add: writeNativeElement.simps)
  next
    case None
    have "fine V (i + 1) (list_ex (live ip V) (nn_children n)) ((i + 1, ''-'') # writeNativeChildren ip (i + 2) (nn_children n))"
      by (rule fine_open [where k = "i + 2"]) (use fine_good [OF all] cs None in \<open>simp_all add: col_def del: One_nat_def add_2_eq_Suc' add_2_eq_Suc\<close>)
    then show ?thesis using cs assms(3) None by (simp add: writeNativeElement.simps)
  qed
qed


lemma takeWhile_run: "e \<in> set (takeWhile (same_run c) cs) \<Longrightarrow> e \<in> set cs \<and> nn_indexed e"
  by (auto dest: set_takeWhileD simp: same_run_def)

lemma element_lines_good:
  assumes "sound_values ip V" "nnode_ok e" "fine V n (live ip V e) body" "several \<or> live ip V e"
  shows "renders_well V n (element_lines ip i several e body) (live ip V e)"
proof (cases "several \<and> \<not> fst (analyze ip e) \<and> snd (analyze ip e) \<noteq> []")
  case True
  with live_branch [OF assms(1,2)] good_if_fine [OF assms(3), of "or_cond (snd (analyze ip e))" i] show ?thesis
    by (auto simp: element_lines_def)
next
  case False
  with guards_ne [OF assms(2)] assms(4) have "live ip V e" by (auto simp: live_iff)
  with assms(3) False show ?thesis by (auto simp: element_lines_def fine_cases)
qed

lemma run_good:
  assumes "sound_values ip V" "\<forall>e \<in> set es. nnode_ok e" "es \<noteq> []"
    and "\<And>e. e \<in> set es \<Longrightarrow> fine V (i + 1) (live ip V e) (body e)"
  shows "renders_well V i (branch_lines i (analyze_run ip es)
      (key_line i k # concat (map (\<lambda>e. element_lines ip i (1 < length es) e (body e)) es))) (list_ex (live ip V) es)"
proof (rule good_branch [OF _ live_run [OF assms(1-3)]])
  have "fine V (i + 1) (list_ex (live ip V) es) (concat (map (\<lambda>e. element_lines ip i (1 < length es) e (body e)) es))"
  proof (cases "1 < length es")
    case True
    then have "renders_well V (i + 1) (element_lines ip i (1 < length es) e (body e)) (live ip V e)" if "e \<in> set es" for e
      using assms(1,2,4) that element_lines_good by blast
    then show ?thesis by (intro fine_good good_concat)
  next
    case False
    with assms(3) obtain e where e: "es = [e]" by (cases es) auto
    with assms(4) [of e] show ?thesis by (simp add: element_lines_def)
  qed
  then show "fine V i (list_ex (live ip V) es) (key_line i k # concat (map (\<lambda>e. element_lines ip i (1 < length es) e (body e)) es))"
    by (rule fine_open) (use action_key [of k "'':''"] col_key [of i k "'':''"] in \<open>simp_all add: key_line_def\<close>)
qed

lemma node_good:
  assumes "sound_values ip V" "nnode_ok n" "nn_leaf n = None"
    and "renders_well V (i + 1) (writeNativeChildren ip (i + 1) (nn_children n)) (list_ex (live ip V) (nn_children n))"
  shows "renders_well V i (writeNativeNode ip i n) (live ip V n)"
proof -
  have "renders_well V (i + 1) ((case nn_map n of Some st \<Rightarrow> (if map_param st then param_lines ip (i + 1) (sr_param st) else []) | None \<Rightarrow> []) @
      writeNativeChildren ip (i + 1) (nn_children n)) (live ip V n)"
    using good_append [OF good_map_param [OF assms(1), of i "nn_map n"] assms(4)] live_node [OF assms(3), of ip V] by simp
  from fine_open [OF fine_good [OF this], of "(i, formatKey (nn_seg n) @ '':'')" i]
  have "fine V i (live ip V n) (key_line i (nn_seg n) #
      (case nn_map n of Some st \<Rightarrow> (if map_param st then param_lines ip (i + 1) (sr_param st) else []) | None \<Rightarrow> []) @
      writeNativeChildren ip (i + 1) (nn_children n))"
    using action_key [of "nn_seg n" "'':''"] col_key [of i "nn_seg n" "'':''"] by (simp add: key_line_def)
  from good_branch [OF this live_branch [OF assms(1,2)], of i] show ?thesis
    using assms(3) by (simp add: writeNativeNode.simps)
qed

lemma native_good:
  assumes "sound_values ip V"
  shows "\<forall>c \<in> set cs. nnode_ok c \<Longrightarrow> renders_well V i (writeNativeChildren ip i cs) (list_ex (live ip V) cs)"
    and "nnode_ok n \<Longrightarrow> nn_indexed n \<Longrightarrow> fine V (i + 1) (live ip V n) (writeNativeElement ip i n)"
    and "nnode_ok n \<Longrightarrow> \<not> nn_indexed n \<Longrightarrow> renders_well V i (writeNativeNode ip i n) (live ip V n)"
  using assms
proof (induction ip i cs and ip i n and ip i n rule: writeNativeChildren_writeNativeElement_writeNativeNode.induct)
  case (2 ip i c cs)
  show ?case
  proof (cases "nn_indexed c")
    case False
    with 2 have "renders_well V i (writeNativeNode ip i c) (live ip V c)" "renders_well V i (writeNativeChildren ip i cs) (list_ex (live ip V) cs)"
      by simp_all
    from good_append [OF this] False show ?thesis by (simp add: writeNativeChildren.simps)
  next
    case True
    define es where "es = c # takeWhile (same_run c) cs"
    have es: "e \<in> set es \<Longrightarrow> nnode_ok e \<and> nn_indexed e" for e
      using "2.prems"(1) True by (auto simp: es_def dest: takeWhile_run)
    have "renders_well V i (branch_lines i (analyze_run ip es)
        (key_line i (nn_seg c) # concat (map (\<lambda>e. element_lines ip i (1 < length es) e (writeNativeElement ip i e)) es)))
        (list_ex (live ip V) es)"
      using "2.IH"(3) [of es] True es "2.prems"(2) by (intro run_good) (auto simp: es_def)
    moreover have "renders_well V i (writeNativeChildren ip i (dropWhile (same_run c) cs)) (list_ex (live ip V) (dropWhile (same_run c) cs))"
      using "2.IH"(4) [of es] True "2.prems" by (auto simp: es_def dest: set_dropWhileD)
    ultimately have "renders_well V i (writeNativeChildren ip i (c # cs))
        (list_ex (live ip V) es \<or> list_ex (live ip V) (dropWhile (same_run c) cs))"
      using good_append [of V i _ "list_ex (live ip V) es"] True by (simp add: es_def writeNativeChildren.simps)
    moreover have "list_ex (live ip V) (c # cs) \<longleftrightarrow> list_ex (live ip V) es \<or> list_ex (live ip V) (dropWhile (same_run c) cs)"
      using takeWhile_dropWhile_id [of "same_run c" cs] unfolding es_def by (metis append_Cons list_ex_append)
    ultimately show ?thesis by simp
  qed
next
  case (3 ip i n)
  show ?case
  proof (cases "nn_leaf n")
    case None
    with "3.prems" have "nn_map n = None" and kids: "\<forall>c \<in> set (nn_children n). nnode_ok c" by (auto simp: nnode_ok_kids [of n] kids_ok_def)
    have "list_ex (live ip V) (nn_children n) = live ip V n" using live_node [OF None] \<open>nn_map n = None\<close> by simp
    moreover have "fine V (i + 1) (list_ex (live ip V) (nn_children n)) (writeNativeElement ip i n)"
    proof (rule element_good [OF "3.prems"(1,2) None])
      from "3.prems"(1) None obtain first cs where cs: "nn_children n = first # cs"
        by (cases "nn_children n") (auto simp: nnode_ok_kids [of n])
      show "renders_well V (i + 2) (writeNativeChildren ip (i + 2) (nn_children n)) (list_ex (live ip V) (nn_children n))"
        if "inline_first (hd (nn_children n)) = None"
        using "3.IH" [OF None cs] that cs kids "3.prems"(3) by simp
      show "renders_well V (i + 2) (writeNativeChildren ip (i + 2) (tl (nn_children n))) (list_ex (live ip V) (tl (nn_children n)))"
        if "inline_first (hd (nn_children n)) \<noteq> None"
        using "3.IH" [OF None cs] that cs kids "3.prems"(3) by auto
    qed
    ultimately show ?thesis by simp
  next
    case (Some f)
    with "3.prems"(1,2) have "plain_value (pf_rhs f)" by (auto simp: nnode_ok_kids [of n] leaf_ok_def split: if_splits)
    from good_dash [OF this, of "i + 1" "i + 1" V] Some show ?thesis
      by (intro fine_must) (simp add: writeNativeElement.simps)
  qed
next
  case (4 ip i n)
  show ?case
  proof (cases "nn_leaf n")
    case None
    from "4.prems"(1) have "\<forall>c \<in> set (nn_children n). nnode_ok c" by (auto simp: nnode_ok_kids [of n] kids_ok_def)
    with 4 None show ?thesis by (intro node_good) simp_all
  next
    case (Some f)
    with good_leaf [OF "4.prems"(3,1) Some "4.prems"(2)] show ?thesis by (simp add: writeNativeNode.simps)
  qed
qed simp


section \<open>Whole documents\<close>

lemma children_good:
  assumes "sound_values ip V" "kids_ok rt"
  shows "renders_well V i (writeNativeChildren ip i (nn_children rt)) (list_ex (live ip V) (nn_children rt))"
  using native_good(1) [OF assms(1), of "nn_children rt"] assms(2) by (simp add: kids_ok_def)

lemma tree_lines_good:
  assumes "sound_values ip V" "kids_ok rt" "nn_leaf rt = None" "nn_map rt = None" "nn_children rt \<noteq> []"
  shows "renders_well V i (tree_lines ip i rt) True"
proof -
  have l: "live ip V rt \<longleftrightarrow> list_ex (live ip V) (nn_children rt)" using live_node [OF assms(3)] assms(4) by simp
  have g: "fst (analyze ip rt) \<or> snd (analyze ip rt) \<noteq> []"
  proof -
    from assms(5) obtain c cs where c: "nn_children rt = c # cs" by (cases "nn_children rt") auto
    with assms(2) have "nnode_ok c" by (simp add: kids_ok_def)
    then have "node_marks ip c \<noteq> []" by (rule node_marks_ne)
    then obtain m where "m \<in> set (node_marks ip c)" by (cases "node_marks ip c") auto
    with c have m: "m \<in> set (node_marks ip rt)" by (cases rt) auto
    show ?thesis
    proof (cases m)
      case None
      with m show ?thesis by (simp add: analyze_def)
    next
      case (Some g)
      with m have "g \<in> set (snd (analyze ip rt))" by (simp add: set_guards)
      then show ?thesis by auto
    qed
  qed
  show ?thesis
  proof (cases "fst (analyze ip rt)")
    case True
    then have "live ip V rt" by (simp add: live_iff)
    with children_good [OF assms(1,2), of i] l True show ?thesis by (simp add: tree_lines_def case_prod_beta)
  next
    case False
    with g have ne: "snd (analyze ip rt) \<noteq> []" by simp
    have "holds V (or_cond (snd (analyze ip rt))) \<longleftrightarrow> list_ex (live ip V) (nn_children rt)"
      using reads_or [OF assms(1) ne] False l by (simp add: live_iff)
    then have "renders_well V i (else_lines i (or_cond (snd (analyze ip rt))) (writeNativeChildren ip i (nn_children rt))) True"
      using children_good [OF assms(1,2), of i] by (intro good_else_when) auto
    with False ne show ?thesis by (simp add: tree_lines_def case_prod_beta)
  qed
qed

lemma good_exec: "renders_well V n ls m \<Longrightarrow> \<exists>out. exec V [] ls = Some out \<and> no_empty_key out \<and> (m \<longrightarrow> out \<noteq> [])"
  unfolding renders_well_def using renders_exec by blast

lemma guaranteed_live: "guaranteed f \<Longrightarrow> field_live ip V f"
  by (auto simp: guaranteed_def field_live_def list_ex_iff split: if_splits)

lemma conds_live: "list_ex (holds V) (field_conds ip f) \<Longrightarrow> field_live ip V f"
  by (cases "pf_isMap f") (auto simp: field_live_def field_conds_live field_conds_def entry_conds_def list_ex_iff split: if_splits)

lemma no_conds_live: "field_conds ip f = [] \<Longrightarrow> field_live ip V f"
  by (auto simp: field_live_def field_conds_def split: if_splits)

lemma plan_good:
  assumes "sound_values ip V" "list_all planned_ok plan"
  shows "renders_well V i (concat (map (writeField ip i) plan)) (list_ex (field_live ip V) plan)"
  using assms by (intro good_concat writeField_good) (simp_all add: list_all_iff)

lemma writeMapField_good:
  assumes "sound_values ip V" "list_all planned_ok plan" "k + 1 < i" "key \<noteq> []" "hd key \<noteq> CHR '' ''" "hd key \<noteq> CHR ''{''" "key \<noteq> ''-''"
  shows "renders_well V k (writeMapField ip k key i plan) True"
proof -
  obtain c s where key: "key = c # s" "c \<noteq> CHR '' ''" "c \<noteq> CHR ''{''" using assms(4-6) by (cases key) auto
  have open_key: "renders_well V k ((k, ''  '' @ key @ '':'') # body) True" if "renders_well V i body True" for body
    by (rule good_open [OF _ _ that]) (use key assms(3) in \<open>auto simp: col_def action_out\<close>)
  show ?thesis
  proof (cases "plan = []")
    case True
    have "renders_well V k [(k, ''  '' @ key @ '': {}'')] True"
      by (rule good_line) (use key in \<open>auto simp: action_out opens_def\<close>)
    with True show ?thesis by (simp add: writeMapField_def)
  next
    case False
    define body where "body = concat (map (writeField ip i) plan)"
    define conds where "conds = concat (map (field_conds ip) plan)"
    have b: "renders_well V i body (list_ex (field_live ip V) plan)" unfolding body_def using plan_good [OF assms(1,2)] .
    consider "list_ex guaranteed plan" | "\<not> list_ex guaranteed plan" "conds \<noteq> []" | "\<not> list_ex guaranteed plan" "conds = []" by blast
    then show ?thesis
    proof cases
      case 1
      then have "list_ex (field_live ip V) plan" using guaranteed_live by (auto simp: list_ex_iff)
      with b 1 False show ?thesis using open_key [of body] by (simp add: writeMapField_def Let_def body_def)
    next
      case 2
      have "holds V (or_cond conds) \<longrightarrow> list_ex (field_live ip V) plan"
        using reads_or [OF assms(1) 2(2)] conds_live [of V ip] by (fastforce simp: conds_def list_ex_iff)
      with b have "renders_well V i body (holds V (or_cond conds))" by (auto intro: good_weaken)
      from open_key [OF good_else_when [OF this, of i]] 2 False show ?thesis
        by (simp add: writeMapField_def Let_def body_def conds_def)
    next
      case 3
      then have "list_ex (field_live ip V) plan" using False no_conds_live [of ip] by (cases plan) (auto simp: conds_def)
      with b 3 False show ?thesis using open_key [of body] by (simp add: writeMapField_def Let_def body_def conds_def)
    qed
  qed
qed

lemma writeForProviderTree_good:
  assumes "writeForProviderTree ip k i r plan = Inr ls" "sound_values ip V" "list_all planned_ok plan" "k + 1 < i"
  shows "renders_well V k ls True"
proof -
  consider (empty) "plan = []" "ls = [(k, ''  forProvider: {}'')]"
    | (flat) "ls = writeMapField ip k ''forProvider'' i plan"
    | (tree) rt where "plan \<noteq> []" "buildNativeTree r plan = Inr rt" "ls = (k, ''  forProvider:'') # tree_lines ip i rt"
    using assms(1) by (auto simp: writeForProviderTree_def bind_err_Inr split: if_splits)
  then show ?thesis
  proof cases
    case empty
    show ?thesis unfolding empty(2) by (rule good_line) (simp_all add: action_out opens_def)
  next
    case flat
    show ?thesis unfolding flat by (rule writeMapField_good [OF assms(2-4)]) simp_all
  next
    case tree
    from buildNativeTree_kids [OF tree(2) assms(3)] tree(1)
    have "kids_ok rt" "nn_leaf rt = None" "nn_map rt = None" "nn_children rt \<noteq> []" by (auto simp: same_node_def native_root_def)
    from tree_lines_good [OF assms(2) this, of i] show ?thesis
      unfolding tree(3) by (intro good_open [where k = i]) (use assms(4) in \<open>simp_all add: action_out col_def\<close>)
  qed
qed

end
