(* ===== verification/Native_Claims.thy ===== *)
theory Native_Claims
  imports EmitNative "HOL-Library.Multiset" Sample
begin

text \<open>
  What the native tree keeps of the plan: every planned value stays, once, and the elements of an
  array stand together in the order of their indices, counted from zero.
\<close>

section \<open>The values of a tree\<close>

function leaves :: "nnode \<Rightarrow> pfield multiset" where
  "leaves (NNode k s i x l m cs) =
     (case l of Some f \<Rightarrow> {#f#} | None \<Rightarrow> {#}) + sum_list (map leaves cs)"
  by pat_completeness auto
termination
  by (relation "measure size") (auto dest: nn_size)

lemma leaves_sel: "leaves n = (case nn_leaf n of Some f \<Rightarrow> {#f#} | None \<Rightarrow> {#}) + sum_list (map leaves (nn_children n))"
  by (cases n) simp

definition planned_values :: "pfield \<Rightarrow> pfield list" where
  \<comment> \<open>what a planned field puts into the tree\<close>
  "planned_values f = (if pf_isMap f \<and> pf_entries f \<noteq> [] then pf_entries f else [f])"

lemma leaves_put:
  assumes "nn_key n = k"
  shows "sum_list (map leaves (put_node n cs)) + (case child_at k cs of Some c \<Rightarrow> leaves c | None \<Rightarrow> {#}) =
    sum_list (map leaves cs) + leaves n"
  using assms by (induction cs) (auto simp: child_at_def ac_simps)

lemma leaves_set [simp]: "leaves (set_nodes cs n) = (case nn_leaf n of Some f \<Rightarrow> {#f#} | None \<Rightarrow> {#}) + sum_list (map leaves cs)"
  "leaves (set_map st n) = leaves n"
  by (cases n; simp)+

lemma insert_leaves:
  "insertNativePath r fp cur path f = Inr cur' \<Longrightarrow> path \<noteq> [] \<Longrightarrow> leaves cur' = leaves cur + {#f#}"
proof (induction r fp cur path f arbitrary: cur' rule: insertNativePath.induct)
  case (2 r fp cur s rest f)
  obtain sg idx indexed where cut: "cutArrayIndex s = (sg, idx, indexed)" by (metis prod.exhaust)
  define key where "key = (if indexed then s else sg)"
  define child where "child = (case child_at key (nn_children cur) of Some c \<Rightarrow> c | None \<Rightarrow> NNode key sg idx indexed None None [])"
  have ck: "nn_key child = key" by (auto simp: child_def dest: child_at_in split: option.splits)
  have old: "(case child_at key (nn_children cur) of Some c \<Rightarrow> leaves c | None \<Rightarrow> {#}) = leaves child"
    by (simp add: child_def split: option.split)
  note step = "2.prems"(1) [unfolded insertNativePath.simps cut Let_def prod.case, folded key_def, folded child_def]
  have nl: "nn_leaf child = None" using step by (auto split: if_splits option.splits)
  have grown: "leaves (set_nodes (put_node n (nn_children cur)) cur) = leaves cur + {#f#}"
    if "nn_key n = key" "leaves n = leaves child + {#f#}" for n
    using leaves_put [OF that(1), of "nn_children cur"] that(2) unfolding old by (simp add: leaves_sel [of cur] ac_simps)
  show ?case
  proof (cases "rest = []")
    case True
    from step nl True have c: "nn_children child = []" and e: "cur' = set_nodes (put_node (set_leaf f child) (nn_children cur)) cur"
      by (auto split: if_splits)
    have "leaves (set_leaf f child) = leaves child + {#f#}" using c nl by (simp add: leaves_sel)
    with grown e ck show ?thesis by simp
  next
    case False
    from step nl False obtain child' where c: "insertNativePath r fp child rest f = Inr child'"
      and e: "cur' = set_nodes (put_node child' (nn_children cur)) cur"
      by (auto simp: bind_err_Inr split: if_splits)
    have g: "\<not> sg = []" "\<not> (child_at key (nn_children cur) = None \<and> clash sg indexed (nn_children cur))"
      using step by (auto split: if_splits)
    from "2.IH" [OF cut [symmetric] refl refl key_def g child_def nl False c False] insert_same [OF c] grown e ck
    show ?thesis by (simp add: same_node_def)
  qed
qed simp

lemma mark_leaves [simp]: "leaves (mark_map st p cur) = leaves cur"
proof (induction st p cur rule: mark_map.induct)
  case (2 st s rest cur)
  show ?case
  proof (cases "child_at s (nn_children cur)")
    case (Some c)
    have k: "nn_key (mark_map st rest c) = s"
      using child_at_in [OF Some] by (cases rest) (auto split: option.splits)
    show ?thesis using leaves_put [OF k, of "nn_children cur"] "2.IH" [OF Some] Some
      by (simp add: leaves_sel [of cur])
  qed simp
qed simp

lemma entries_leaves: "insert_entries r f cur es = Inr cur' \<Longrightarrow> leaves cur' = leaves cur + mset es"
proof (induction es arbitrary: cur)
  case (Cons e es)
  then obtain mid where m: "insertNativePath r (pf_path f @ ''['' @ pf_path e @ '']'') cur (split_on CHR ''.'' (pf_path f) @ [pf_path e]) e = Inr mid"
    "insert_entries r f mid es = Inr cur'"
    by (auto simp: bind_err_Inr)
  from insert_leaves [OF m(1)] Cons.IH [OF m(2)] show ?case by simp
qed simp

lemma plan_leaves:
  assumes "insert_plan r f cur = Inr cur'"
  shows "leaves cur' = leaves cur + mset (planned_values f)"
proof (cases "pf_isMap f \<and> pf_entries f \<noteq> []")
  case True
  with assms obtain mid where "insert_entries r f cur (pf_entries f) = Inr mid" "leaves cur' = leaves mid"
    by (auto simp: insert_plan_def bind_err_Inr)
  with entries_leaves True show ?thesis by (simp add: planned_values_def)
next
  case False
  then have "insertNativePath r (pf_path f) cur (split_on CHR ''.'' (pf_path f)) f = Inr cur'"
    using assms by (simp only: insert_plan_def if_False)
  from insert_leaves [OF this] False show ?thesis by (auto simp: planned_values_def)
qed

lemma plans_leaves: "insert_plans r fs cur = Inr cur' \<Longrightarrow> leaves cur' = leaves cur + mset (concat (map planned_values fs))"
proof (induction fs arbitrary: cur)
  case (Cons f fs)
  then obtain mid where m: "insert_plan r f cur = Inr mid" "insert_plans r fs mid = Inr cur'" by (auto simp: bind_err_Inr)
  from plan_leaves [OF m(1)] Cons.IH [OF m(2)] show ?case by simp
qed simp

section \<open>The order of elements\<close>

definition of_run :: "string \<Rightarrow> nnode \<Rightarrow> bool" where
  "of_run sg c \<longleftrightarrow> nn_indexed c \<and> nn_seg c = sg"

lemma element_run_mset: "mset (element_run sg cs) = mset (filter (of_run sg) cs)"
  by (simp add: element_run_def of_run_def [abs_def])

lemma ordered_mset:
  assumes "\<And>sg. sg \<notin> set seen \<Longrightarrow> filter (of_run sg) all = filter (of_run sg) cs"
  shows "mset (ordered_from all seen cs) = mset (filter (\<lambda>c. \<not> nn_indexed c \<or> nn_seg c \<notin> set seen) cs)"
  using assms
proof (induction all seen cs rule: ordered_from.induct)
  case (2 all seen c cs)
  consider "\<not> nn_indexed c" | "nn_indexed c" "nn_seg c \<in> set seen" | "nn_indexed c" "nn_seg c \<notin> set seen" by blast
  then show ?case
  proof cases
    case 1
    then have "mset (ordered_from all seen cs) = mset (filter (\<lambda>c. \<not> nn_indexed c \<or> nn_seg c \<notin> set seen) cs)"
      using 2 by (intro "2.IH"(1)) (auto simp: of_run_def)
    with 1 show ?thesis by simp
  next
    case 2
    then have "mset (ordered_from all seen cs) = mset (filter (\<lambda>c. \<not> nn_indexed c \<or> nn_seg c \<notin> set seen) cs)"
      using "2.prems" by (intro "2.IH"(2)) (auto simp: of_run_def)
    with 2 show ?thesis by simp
  next
    case 3
    then have "mset (ordered_from all (nn_seg c # seen) cs) =
        mset (filter (\<lambda>d. \<not> nn_indexed d \<or> nn_seg d \<notin> set (nn_seg c # seen)) cs)"
      using "2.prems" by (intro "2.IH"(3)) (auto simp: of_run_def)
    moreover have "mset (element_run (nn_seg c) all) = mset (filter (of_run (nn_seg c)) (c # cs))"
      using "2.prems" [OF 3(2)] by (simp add: element_run_mset)
    moreover have "filter (\<lambda>d. \<not> nn_indexed d \<or> nn_seg d \<notin> set seen) (c # cs) = c # filter (\<lambda>d. \<not> nn_indexed d \<or> nn_seg d \<notin> set seen) cs"
      using 3 by simp
    moreover have "mset (filter (\<lambda>d. \<not> nn_indexed d \<or> nn_seg d \<notin> set seen) cs) =
        mset (filter (of_run (nn_seg c)) cs) + mset (filter (\<lambda>d. \<not> nn_indexed d \<or> nn_seg d \<notin> set (nn_seg c # seen)) cs)"
      using 3(2) by (induction cs) (auto simp: of_run_def)
    ultimately show ?thesis using 3 by (simp add: of_run_def)
  qed
qed simp

lemma ordered_perm: "mset (ordered_from cs [] cs) = mset cs"
  using ordered_mset [of "[]" cs cs] by simp

lemma normalize_leaves: "normalizeNativeArrays r n = Inr n' \<Longrightarrow> leaves n' = leaves n"
proof (induction r n arbitrary: n' rule: normalizeNativeArrays.induct)
  case (1 r k s i x l m cs)
  from "1.prems" obtain cs' u where c: "map_err (normalizeNativeArrays r) (ordered_from cs [] cs) = Inr cs'"
    and u: "check_err (check_all (run_check r cs) (indexed_segs cs)) = Inr u" and n': "n' = NNode k s i x l m cs'"
    by (auto simp: bind_err_Inr)
  have same: "map_err (normalizeNativeArrays r) ds = Inr ds' \<Longrightarrow> set ds \<subseteq> set (ordered_from cs [] cs) \<Longrightarrow>
      map leaves ds' = map leaves ds" for ds ds'
    by (induction ds arbitrary: ds') (auto simp: bind_err_Inr "1.IH" [OF u])
  have "map leaves cs' = map leaves (ordered_from cs [] cs)" using same [OF c] by simp
  then have "sum_list (map leaves cs') = sum_list (map leaves cs)"
    using ordered_perm [of cs] by (metis mset_map sum_mset_sum_list)
  then show ?case by (simp add: n')
qed

text \<open>C13: Building the tree loses nothing and doubles nothing: when it succeeds, the values at
  its leaves are exactly the values of the plan, each as often as the plan has it.\<close>

theorem buildNativeTree_leaves:
  assumes "buildNativeTree r plan = Inr rt"
  shows "leaves rt = mset (concat (map planned_values plan))"
proof -
  from assms obtain mid where "insert_plans r plan native_root = Inr mid" "normalizeNativeArrays r mid = Inr rt"
    by (auto simp: buildNativeTree_def bind_err_Inr)
  with plans_leaves normalize_leaves show ?thesis by (auto simp: native_root_def)
qed

definition rules_plan :: "pfield list" where
  \<comment> \<open>two elements of an array, the second one first, and a flat field between them\<close>
  "rules_plan =
     [plain_field ''rules[1].to'' ''{{ $spec.to }}'' [] no_rhs,
      plain_field ''zone'' ''{{ $spec.zone }}'' [] no_rhs,
      plain_field ''rules[0].from'' ''{{ $spec.from }}'' [] no_rhs]"

lemma rules_built: "\<exists>rt. buildNativeTree ''sg'' rules_plan = Inr rt"
proof -
  have "\<not> isl (buildNativeTree ''sg'' rules_plan)" by code_simp
  then show ?thesis by (cases "buildNativeTree ''sg'' rules_plan") auto
qed

theorem buildNativeTree_leaves_witness:
  "\<exists>rt. buildNativeTree ''sg'' rules_plan = Inr rt \<and> leaves rt = mset rules_plan"
proof -
  obtain rt where rt: "buildNativeTree ''sg'' rules_plan = Inr rt" using rules_built by blast
  have "concat (map planned_values rules_plan) = rules_plan" by code_simp
  with buildNativeTree_leaves [OF rt] rt show ?thesis by simp
qed

section \<open>Runs of elements\<close>

type_synonym tag = "bool \<times> string \<times> int"

definition tag_of :: "nnode \<Rightarrow> tag" where
  "tag_of n = (nn_indexed n, nn_seg n, nn_idx n)"

definition in_run :: "string \<Rightarrow> tag \<Rightarrow> bool" where
  "in_run sg t \<longleftrightarrow> fst t \<and> fst (snd t) = sg"

definition run_ordered :: "string \<Rightarrow> tag list \<Rightarrow> bool" where
  \<comment> \<open>the elements of an array stand together, at 0, 1, 2 and so on\<close>
  "run_ordered sg ts \<longleftrightarrow>
     (let els = filter (in_run sg) ts
      in els = takeWhile (in_run sg) (dropWhile (\<lambda>t. \<not> in_run sg t) ts) \<and>
         map (\<lambda>t. snd (snd t)) els = map int [0..<length els])"

definition runs_ordered :: "tag list \<Rightarrow> bool" where
  "runs_ordered ts \<longleftrightarrow> list_all (\<lambda>t. \<not> fst t \<or> run_ordered (fst (snd t)) ts) ts"

function elements_ordered :: "nnode \<Rightarrow> bool" where
  "elements_ordered (NNode k s i x l m cs) \<longleftrightarrow> runs_ordered (map tag_of cs) \<and> (\<forall>c \<in> set cs. elements_ordered c)"
  by pat_completeness auto
termination
  by (relation "measure size") (auto dest: nn_size)

lemma in_run_tag [simp]: "in_run sg (tag_of n) = of_run sg n"
  by (simp add: in_run_def tag_of_def of_run_def)

lemma element_run_all: "d \<in> set (element_run sg cs) \<Longrightarrow> of_run sg d"
  by (simp add: element_run_def of_run_def)

lemma none_left: "sg \<in> set seen \<Longrightarrow> d \<in> set (ordered_from all seen cs) \<Longrightarrow> \<not> of_run sg d"
proof (induction all seen cs rule: ordered_from.induct)
  case (2 all seen c cs)
  then show ?case by (auto simp: of_run_def dest: element_run_all split: if_splits)
qed simp

lemma filter_none_left: "sg \<in> set seen \<Longrightarrow> filter (of_run sg) (ordered_from all seen cs) = []"
  by (auto simp: filter_empty_conv dest: none_left)

lemma run_found:
  assumes "sg \<notin> set seen" "list_ex (of_run sg) cs"
  shows "\<exists>pre post. ordered_from all seen cs = pre @ element_run sg all @ post \<and> (\<forall>d \<in> set pre \<union> set post. \<not> of_run sg d)"
  using assms
proof (induction all seen cs rule: ordered_from.induct)
  case (2 all seen c cs)
  consider (plain) "\<not> nn_indexed c" | (old) "nn_indexed c" "nn_seg c \<in> set seen"
    | (this) "nn_indexed c" "nn_seg c \<notin> set seen" "nn_seg c = sg" | (new) "nn_indexed c" "nn_seg c \<notin> set seen" "nn_seg c \<noteq> sg" by blast
  then show ?case
  proof cases
    case plain
    with 2 obtain pre post where "ordered_from all seen cs = pre @ element_run sg all @ post" "\<forall>d \<in> set pre \<union> set post. \<not> of_run sg d"
      by (auto simp: of_run_def)
    with plain show ?thesis by (intro exI [of _ "c # pre"] exI [of _ post]) (auto simp: of_run_def)
  next
    case old
    with 2 show ?thesis by (auto simp: of_run_def)
  next
    case this
    then show ?thesis
      by (intro exI [of _ "[]"] exI [of _ "ordered_from all (sg # seen) cs"]) (auto dest: none_left [rotated])
  next
    case new
    with 2 obtain pre post where "ordered_from all (nn_seg c # seen) cs = pre @ element_run sg all @ post"
      "\<forall>d \<in> set pre \<union> set post. \<not> of_run sg d"
      by (auto simp: of_run_def)
    with new show ?thesis
      by (intro exI [of _ "element_run (nn_seg c) all @ pre"] exI [of _ post]) (auto simp: of_run_def dest: element_run_all)
  qed
qed simp

lemma run_between:
  assumes "\<forall>d \<in> set pre \<union> set post. \<not> P d" "\<forall>d \<in> set els. P d"
  shows "filter P (pre @ els @ post) = els" "takeWhile P (dropWhile (\<lambda>d. \<not> P d) (pre @ els @ post)) = els \<or> els = []"
proof -
  show "filter P (pre @ els @ post) = els" using assms by (simp add: filter_empty_conv filter_True)
  have "dropWhile (\<lambda>d. \<not> P d) (pre @ els @ post) = dropWhile (\<lambda>d. \<not> P d) (els @ post)"
    using assms(1) by (simp add: dropWhile_append2)
  also have "takeWhile P (els @ post) = els" using assms by (cases post) (simp_all add: takeWhile_append takeWhile_eq_all_conv [THEN iffD2])
  ultimately show "takeWhile P (dropWhile (\<lambda>d. \<not> P d) (pre @ els @ post)) = els \<or> els = []"
    using assms(2) by (cases els) auto
qed

lemma run_contiguous:
  assumes "run_check r cs sg = None"
  shows "map nn_idx (element_run sg cs) = map int [0..<length (element_run sg cs)]"
proof (rule nth_equalityI)
  fix i assume i: "i < length (map nn_idx (element_run sg cs))"
  then have "(i, element_run sg cs ! i) \<in> set (List.enumerate 0 (element_run sg cs))"
    by (simp add: in_set_enumerate_eq)
  with assms have "nn_idx (element_run sg cs ! i) = int i"
    by (fastforce simp: run_check_def check_all_None refuse_None)
  with i show "map nn_idx (element_run sg cs) ! i = map int [0..<length (element_run sg cs)] ! i" by simp
qed simp

lemma runs_ordered_from:
  assumes "check_all (run_check r cs) (indexed_segs cs) = None"
  shows "runs_ordered (map tag_of (ordered_from cs [] cs))"
proof -
  have "run_ordered (nn_seg d) (map tag_of (ordered_from cs [] cs))" if d: "d \<in> set (ordered_from cs [] cs)" "nn_indexed d" for d
  proof -
    define sg where "sg = nn_seg d"
    have sg: "of_run sg d" using d by (simp add: of_run_def sg_def)
    have dc: "d \<in> set cs" using d set_ordered_from [of cs "[]" cs] by auto
    then obtain pre post where o: "ordered_from cs [] cs = pre @ element_run sg cs @ post" "\<forall>d \<in> set pre \<union> set post. \<not> of_run sg d"
      using run_found [of sg "[]" cs cs] sg by (auto simp: list_ex_iff)
    have all: "\<forall>e \<in> set (element_run sg cs). of_run sg e" using element_run_all by blast
    have ne: "element_run sg cs \<noteq> []" using o d sg by (cases "element_run sg cs") auto
    have f: "filter (of_run sg) (ordered_from cs [] cs) = element_run sg cs"
      and t: "takeWhile (of_run sg) (dropWhile (\<lambda>d. \<not> of_run sg d) (ordered_from cs [] cs)) = element_run sg cs"
      using run_between [OF o(2) all] ne unfolding o(1) by auto
    have "sg \<in> set (indexed_segs cs)" using dc sg by (auto simp: indexed_segs_def of_run_def)
    with assms have "run_check r cs sg = None" by (simp add: check_all_None)
    note idx = run_contiguous [OF this]
    show ?thesis
      using f t idx unfolding run_ordered_def sg_def [symmetric]
      by (simp add: Let_def filter_map takeWhile_map dropWhile_map comp_def) (simp add: tag_of_def)
  qed
  then show ?thesis by (auto simp: runs_ordered_def list_all_iff tag_of_def)
qed

lemma normalize_ordered: "normalizeNativeArrays r n = Inr n' \<Longrightarrow> elements_ordered n'"
proof (induction r n arbitrary: n' rule: normalizeNativeArrays.induct)
  case (1 r k s i x l m cs)
  from "1.prems" obtain cs' u where c: "map_err (normalizeNativeArrays r) (ordered_from cs [] cs) = Inr cs'"
    and u: "check_err (check_all (run_check r cs) (indexed_segs cs)) = Inr u" and n': "n' = NNode k s i x l m cs'"
    by (auto simp: bind_err_Inr)
  have "map_err (normalizeNativeArrays r) ds = Inr ds' \<Longrightarrow> map tag_of ds' = map tag_of ds" for ds ds'
    by (induction ds arbitrary: ds') (auto simp: bind_err_Inr tag_of_def same_node_def dest: normalize_ok)
  then have "map tag_of cs' = map tag_of (ordered_from cs [] cs)" using c by blast
  with u runs_ordered_from [of r cs] have "runs_ordered (map tag_of cs')" by (simp add: check_err_Inr)
  moreover have "elements_ordered d'" if "d' \<in> set cs'" for d'
    using map_err_mem [OF c that] "1.IH" [OF u] by blast
  ultimately show ?case by (simp add: n')
qed

text \<open>C14: In a tree that is built the elements of every array, at every depth, stand next to each
  other in the order of their indices, which run from zero without a gap.\<close>

theorem buildNativeTree_ordered:
  assumes "buildNativeTree r plan = Inr rt"
  shows "elements_ordered rt"
  using assms normalize_ordered by (auto simp: buildNativeTree_def bind_err_Inr)

theorem buildNativeTree_ordered_witness:
  "\<exists>rt. buildNativeTree ''sg'' rules_plan = Inr rt \<and> elements_ordered rt"
  using rules_built buildNativeTree_ordered by blast

end
