(* ===== verification/EmitBalance.thy ===== *)
theory EmitBalance
  imports EmitNative
begin

text \<open>
  The actions a resource emits always balance, and its document stands inside its condition, its
  status guards and its loop.
\<close>

section \<open>Balanced pieces\<close>

definition bal :: "line list \<Rightarrow> bool" where
  "bal ls \<longleftrightarrow> (\<forall>V. \<exists>out. renders V ls out)"

lemma bal_Nil [simp]: "bal []"
  by (auto simp: bal_def intro: renders_Nil)

lemma bal_append: "bal xs \<Longrightarrow> bal ys \<Longrightarrow> bal (xs @ ys)"
  unfolding bal_def by (meson renders_append)

lemma bal_Cons: "action_of (snd l) = AOut \<Longrightarrow> bal ls \<Longrightarrow> bal (l # ls)"
  unfolding bal_def by (meson renders_Cons)

lemma bal_concat: "(\<And>x. x \<in> set xs \<Longrightarrow> bal (f x)) \<Longrightarrow> bal (concat (map f xs))"
  by (induction xs) (auto intro: bal_append)

lemma bal_if: "bal body \<Longrightarrow> bal (if_lines i c body)"
  unfolding bal_def by (meson renders_if)

lemma bal_if_else: "bal body \<Longrightarrow> bal alt \<Longrightarrow>
  bal ([(n, ''{{- if '' @ c @ '' }}'')] @ body @ [(n', ''{{- else }}'')] @ alt @ [(n'', ''{{- end }}'')])"
  unfolding bal_def by (meson renders_else)

lemma bal_else: "bal body \<Longrightarrow> bal (else_lines i c body)"
  using bal_if_else [of body "[(i, ''{}'')]" i c i i] by (simp add: else_lines_def bal_Cons)

lemma bal_range: "bal (range_lines i p)"
  unfolding bal_def using renders_range by blast

lemma bal_key: "bal body \<Longrightarrow> bal (key_line i k # body)"
  using action_key [of k "'':''"] by (intro bal_Cons) (simp_all add: key_line_def)

lemma bal_key_text: "bal body \<Longrightarrow> bal ((i, formatKey k @ t) # body)"
  by (intro bal_Cons) (simp_all add: action_key)

lemma bal_value [simp]: "bal [value_line i k rhs]"
  unfolding value_line_def by (intro bal_key_text bal_Nil)

lemma bal_params [simp]: "bal (param_lines ip i p)"
  unfolding param_lines_def by (intro bal_if bal_range)

lemma bal_guarded: "bal body \<Longrightarrow> bal (guarded_lines i g body)"
  by (simp add: guarded_lines_def bal_if)

lemma bal_branch: "bal body \<Longrightarrow> bal (branch_lines i a body)"
  by (simp add: branch_lines_def bal_if)

section \<open>Fields\<close>

lemma writeField_bal: "bal (writeField ip i f)"
proof (induction ip i f rule: writeField.induct)
  case (1 ip i path rhs grd s isMap es)
  define f where "f = PField path rhs grd s isMap es"
  have es: "bal (concat (map (writeField ip (i + 1)) es))"
    using 1 by (intro bal_concat) simp
  have body: "bal (map_body ip i f)"
    using es by (auto simp: map_body_def f_def intro!: bal_key bal_append)
  have alt: "bal [(i, formatKey path @ '': {}'')]" by (intro bal_key_text bal_Nil)
  show ?case
  proof (cases isMap)
    case False
    then show ?thesis by (simp add: writeField.simps bal_guarded)
  next
    case True
    then have m: "pf_isMap f" by (simp add: f_def)
    have "bal (if_lines i c (key_line i path # range_lines (i + 1) p))" for c p by (intro bal_if bal_key bal_range)
    with body alt bal_if_else [OF body alt] show ?thesis
      unfolding f_def [symmetric] by (subst writeField_map [OF m]) (simp add: f_def)
  qed
qed

lemma writeNative_bal:
  "bal (writeNativeChildren ip i cs)" "bal (writeNativeElement ip i n)" "bal (writeNativeNode ip i n)"
proof (induction ip i cs and ip i n and ip i n rule: writeNativeChildren_writeNativeElement_writeNativeNode.induct)
  case (2 ip i c cs)
  show ?case
  proof (cases "nn_indexed c")
    case True
    have "bal (element_lines ip i several e (writeNativeElement ip i e))" if "e \<in> set (c # takeWhile (same_run c) cs)" for several e
      using "2.IH"(3) [OF _ refl that] True by (simp add: element_lines_def bal_if)
    with "2.IH"(4) True show ?thesis
      by (auto simp: writeNativeChildren.simps(2) Let_def intro!: bal_append bal_branch bal_key bal_concat)
  next
    case False
    with 2 show ?thesis by (simp add: writeNativeChildren.simps(2) bal_append)
  qed
next
  case (3 ip i n)
  show ?case
  proof (cases "nn_leaf n")
    case None
    show ?thesis
    proof (cases "nn_children n")
      case (Cons first rest)
      with 3 [OF None Cons] None show ?thesis
        by (auto simp: writeNativeElement.simps intro!: bal_Cons action_out split: option.split)
    qed (simp add: writeNativeElement.simps None)
  next
    case (Some f)
    then show ?thesis by (auto simp: writeNativeElement.simps intro!: bal_Cons action_out)
  qed
next
  case (4 ip i n)
  show ?case
  proof (cases "nn_leaf n")
    case None
    with 4 show ?thesis by (auto simp: writeNativeNode.simps intro!: bal_branch bal_key bal_append split: option.split)
  next
    case (Some f)
    have "bal [key_line i (nn_seg n), (i + 1, ''- '' @ pf_rhs f)]" by (intro bal_key bal_Cons bal_Nil) (simp add: action_out)
    with Some show ?thesis
      by (auto simp: writeNativeNode.simps writeNativeLeaf_def intro!: bal_guarded bal_if bal_key bal_range)
  qed
qed simp

lemma tree_lines_bal: "bal (tree_lines ip i rt)"
  by (simp add: tree_lines_def case_prod_beta Let_def bal_else writeNative_bal)

lemma writeForProviderTree_bal:
  assumes "writeForProviderTree ip k i r plan = Inr ls"
  shows "bal ls"
proof -
  have "bal (writeMapField ip k ''forProvider'' i plan)"
    by (auto simp: writeMapField_def Let_def action_out intro!: bal_Cons bal_else bal_concat writeField_bal)
  with assms show ?thesis
    by (auto simp: writeForProviderTree_def bind_err_Inr action_out tree_lines_bal intro!: bal_Cons split: if_splits)
qed

section \<open>The envelope\<close>

definition plain_key :: "string \<Rightarrow> bool" where
  "plain_key k \<longleftrightarrow> k \<noteq> [] \<and> hd k \<noteq> CHR ''{'' \<and> hd k \<noteq> CHR '' ''"

lemma plain_key_action: "plain_key k \<Longrightarrow> action_of (k @ t) = AOut"
  by (cases k) (auto simp: plain_key_def intro: action_out)

definition plain_keys :: "env_field list \<Rightarrow> bool" where
  "plain_keys es \<longleftrightarrow> list_all (\<lambda>e. list_all plain_key (ef_path e)) es"

lemma tl_mem: "x \<in> set (tl xs) \<Longrightarrow> x \<in> set xs"
  by (cases xs) auto

lemma by_head_keys:
  "(k, sub) \<in> set (by_head es) \<Longrightarrow> plain_keys es \<Longrightarrow> plain_key k \<and> plain_keys (map drop_head sub)"
proof (induction es rule: by_head.induct)
  case (2 e es)
  have tl: "plain_keys xs \<Longrightarrow> plain_keys (map drop_head xs)" for xs
    by (auto simp: plain_keys_def list_all_iff dest: tl_mem)
  show ?case
  proof (cases "ef_path e")
    case Nil
    with 2 show ?thesis by (simp add: plain_keys_def)
  next
    case (Cons k' rest)
    have "plain_keys (dropWhile (has_head k') es)" "plain_keys (e # takeWhile (has_head k') es)"
      using "2.prems"(2) by (auto simp: plain_keys_def list_all_iff dest: set_dropWhileD set_takeWhileD)
    moreover from this(2) Cons have "plain_key k'" by (simp add: plain_keys_def)
    ultimately show ?thesis using "2.prems"(1) "2.IH"(2) [OF Cons] Cons tl by auto
  qed
qed simp

lemma writeEnvelopeNode_bal: "plain_key key \<Longrightarrow> plain_keys es \<Longrightarrow> bal (writeEnvelopeNode i key es inh)"
proof (induction "path_weight es" arbitrary: i key es inh rule: less_induct)
  case less
  have sub: "bal (concat (map (\<lambda>(k, sub). writeEnvelopeNode (i + 1) k (map drop_head sub) inh') (by_head es)))" for inh'
    using less.hyps [OF by_head_weight] by_head_keys [OF _ less.prems(2)] by (intro bal_concat) auto
  show ?case
    by (subst writeEnvelopeNode.simps)
      (use sub less.prems in \<open>auto simp: Let_def plain_key_action intro!: bal_if bal_Cons split: list.splits\<close>)
qed

lemma envelope_groups_bal:
  assumes "\<And>k es. (k, es) \<in> set gs \<Longrightarrow> plain_key k \<and> plain_keys (map drop_head es)"
  shows "bal (envelope_groups ti todo gs)"
proof -
  have ref: "bal (writeProviderConfigRef ti)"
    by (auto simp: writeProviderConfigRef_def action_out intro!: bal_Cons)
  show ?thesis
    using assms
  proof (induction gs arbitrary: todo)
    case (Cons g gs)
    obtain k es where g: "g = (k, es)" by (cases g)
    with Cons.prems [of k es] have "bal (writeEnvelopeNode (ti + 1) k (map drop_head es) [])"
      by (intro writeEnvelopeNode_bal) simp_all
    with ref Cons.IH Cons.prems g show ?case by (auto simp: Let_def intro!: bal_append)
  qed (simp add: ref)
qed

lemma writeEnvelope_bal: "plain_keys plan \<Longrightarrow> bal (writeEnvelope ti plan ns)"
  unfolding writeEnvelope_def by (rule envelope_groups_bal) (auto dest: by_head_keys)

section \<open>The document\<close>

lemma bal_if_here:
  assumes "bal body" "action_of s = AIf c" "action_of s' = AEnd"
  shows "bal ([(i, s)] @ body @ [(j, s')])"
  unfolding bal_def
proof
  fix V
  from assms(1) obtain out where "renders V body out" by (auto simp: bal_def)
  with assms(2,3) have "renders V ([(i, s)] @ body @ [(j, s')]) (if holds V c then out else [])"
    by (simp add: renders_def if_distrib [where f = "\<lambda>x. x @ _"])
  then show "\<exists>out. renders V ([(i, s)] @ body @ [(j, s')]) out" by blast
qed

lemma bal_else_here:
  assumes "bal body" "bal alt" "action_of s = AIf c" "action_of s' = AElse" "action_of s'' = AEnd"
  shows "bal ([(i, s)] @ body @ [(j, s')] @ alt @ [(k, s'')])"
  unfolding bal_def
proof
  fix V
  from assms(1,2) obtain out out' where "renders V body out" "renders V alt out'" by (meson bal_def)
  with assms(3-5) have "renders V ([(i, s)] @ body @ [(j, s')] @ alt @ [(k, s'')]) (if holds V c then out else out')"
    by (cases "holds V c") (simp_all add: renders_def option.map_comp comp_def option.map_ident)
  then show "\<exists>out. renders V ([(i, s)] @ body @ [(j, s')] @ alt @ [(k, s'')]) out" by blast
qed

lemma writeAnnotations_bal: "bal (writeAnnotations ti plan)"
proof -
  have one: "bal ((if pf_guard f \<noteq> [] then [(ti, ''    {{- if '' @ pf_guard f @ '' }}'')] else []) @
      [(ti, ''    '' @ quoteYAML (pf_path f) @ '': '' @ pf_rhs f)] @ (if pf_guard f \<noteq> [] then [(ti, ''    {{- end }}'')] else []))" for f
  proof -
    have "bal [(ti, ''    '' @ quoteYAML (pf_path f) @ '': '' @ pf_rhs f)]" by (auto simp: quoteYAML_def action_out intro!: bal_Cons)
    with bal_if_here [OF this, of "''    {{- if '' @ pf_guard f @ '' }}''" "pf_guard f" "''    {{- end }}''" ti ti] show ?thesis by simp
  qed
  then show ?thesis unfolding writeAnnotations_def by (intro bal_concat)
qed

lemma native_name_bal: "bal (native_name_lines ip ti r plan)"
proof -
  have d: "bal [(ti, default_name r)]" by (auto simp: default_name_def action_out intro!: bal_Cons)
  have n: "bal [(ti, ''  name: '' @ s)]" for s by (intro bal_Cons bal_Nil) (simp add: action_out)
  have "action_of ''  {{- else }}'' = AElse" "action_of ''  {{- end }}'' = AEnd" by code_simp+
  then have "bal ([(ti, ''  {{- if '' @ g @ '' }}'')] @ [(ti, ''  name: '' @ s)] @ [(ti, ''  {{- else }}'')] @ [(ti, default_name r)] @
      [(ti, ''  {{- end }}'')])" for g s
    by (intro bal_else_here [OF n d]) simp_all
  with d n show ?thesis by (simp add: native_name_lines_def Let_def split: option.split)
qed

lemma writeNativeFields_bal: "writeNativeFields ip i r plan = Inr ls \<Longrightarrow> bal ls"
  by (auto simp: writeNativeFields_def bind_err_Inr writeNative_bal)

lemma object_lines_bal:
  assumes "object_lines ip ti r pl ns = Inr ls" "plain_keys (pl_envPlan pl)"
  shows "bal ls"
proof (cases "crd_native (pl_crd pl)")
  case True
  with assms(1) show ?thesis
    by (auto simp: object_lines_def bind_err_Inr Let_def split: if_splits intro!: bal_append dest: writeNativeFields_bal)
next
  case False
  with assms show ?thesis
    by (auto simp: object_lines_def bind_err_Inr action_out intro!: bal_Cons bal_append writeEnvelope_bal dest: writeForProviderTree_bal)
qed

lemma document_lines_bal:
  assumes "document_lines ip ti r pl ns = Inr ls" "plain_keys (pl_envPlan pl)"
  shows "bal ls"
proof -
  from assms(1) obtain obj where obj: "object_lines ip ti r pl ns = Inr obj"
    and ls: "ls = [(ti, ''---''), (ti, ''apiVersion: '' @ pl_apiVersion pl), (ti, ''kind: '' @ crd_kind (pl_crd pl)), (ti, ''metadata:'')] @
      (if crd_native (pl_crd pl) then native_name_lines ip ti r (pl_metaPlan pl) else []) @
      [(ti, ''  annotations:''), annotation_name_line ip ti r] @ writeAnnotations ti (pl_annPlan pl) @ obj"
    by (auto simp: document_lines_def bind_err_Inr)
  have name: "bal [(ti, ''  annotations:''), annotation_name_line ip ti r]"
  proof -
    have "action_of (snd (annotation_name_line ip ti r)) = AOut"
      by (simp add: annotation_name_line_def interp_def action_of_def)
    then show ?thesis by (intro bal_Cons bal_Nil) (simp_all add: action_out)
  qed
  have head: "bal [(ti, ''---''), (ti, ''apiVersion: '' @ pl_apiVersion pl), (ti, ''kind: '' @ crd_kind (pl_crd pl)), (ti, ''metadata:'')]"
    by (intro bal_Cons bal_Nil) (simp_all add: action_out)
  have nm: "bal (if crd_native (pl_crd pl) then native_name_lines ip ti r (pl_metaPlan pl) else [])" by (simp add: native_name_bal)
  show "bal ls" unfolding ls
    by (intro bal_append head nm name writeAnnotations_bal object_lines_bal [OF obj assms(2)])
qed

section \<open>What encloses it\<close>

definition opens_block :: "string \<Rightarrow> bool" where
  "opens_block h \<longleftrightarrow> (case action_of h of AIf c \<Rightarrow> True | ARange e \<Rightarrow> True | _ \<Rightarrow> False)"

definition taken :: "valuation \<Rightarrow> string \<Rightarrow> bool" where
  \<comment> \<open>the block an action opens renders\<close>
  "taken V h \<longleftrightarrow> (case action_of h of AIf c \<Rightarrow> holds V c | ARange e \<Rightarrow> some V e | _ \<Rightarrow> False)"

lemma renders_block:
  assumes "renders V body out" "opens_block h"
  shows "renders V ([(i, h)] @ body @ [(j, ''{{- end }}'')]) (if taken V h then out else [])"
  using assms by (auto simp: renders_def opens_block_def taken_def if_distrib [where f = "\<lambda>x. x @ _"] split: action.splits)

lemma enclose_snoc: "enclose ti (h # hs) body = [(ti, h)] @ enclose ti hs body @ [(ti, ''{{- end }}'')]"
proof -
  have "(ti, ''{{- end }}'') # map (\<lambda>_. (ti, ''{{- end }}'')) hs = map (\<lambda>_. (ti, ''{{- end }}'')) hs @ [(ti, ''{{- end }}'')]"
    by (induction hs) simp_all
  then show ?thesis by (simp add: enclose_def)
qed

lemma renders_enclose:
  assumes "renders V body out" "list_all opens_block hs"
  shows "renders V (enclose ti hs body) (if list_all (taken V) hs then out else [])"
  using assms(2)
proof (induction hs)
  case Nil
  with assms(1) show ?case by (simp add: enclose_def)
next
  case (Cons h hs)
  then have "renders V (enclose ti hs body) (if list_all (taken V) hs then out else [])" by simp
  from renders_block [OF this, of h ti ti] Cons.prems show ?case
    unfolding enclose_snoc by (auto split: if_splits)
qed

lemma opens_if [simp]: "opens_block (''{{- if '' @ c @ '' }}'')" "taken V (''{{- if '' @ c @ '' }}'') \<longleftrightarrow> holds V c"
  by (simp_all add: opens_block_def taken_def)

lemmas opens_if_cons [simp] = opens_if [unfolded append_Cons append_Nil]

lemma opens_range: "opens_block (''{{- range '' @ e @ '' }}'')"
  by (simp add: opens_block_def)

lemma opens_until [simp]: "opens_block (''{{- range $i := until (int '' @ e @ '') }}'')"
  using opens_range [of "''$i := until (int '' @ e @ '')''"] by simp

lemmas opens_until_cons [simp] = opens_until [unfolded append_Cons append_Nil]

lemma opens_until_paren: "opens_block (''{{- range $i := until (int ('' @ e @ '')) }}'')"
  using opens_until [of "''('' @ e @ '')''"] by simp

lemma opens_until_env: "opens_block (''{{- range $i := until (int $env.'' @ e @ '') }}'')"
  "opens_block (''{{- range $i := until (int $spec.'' @ e @ '') }}'')"
  using opens_until [of "''$env.'' @ e"] opens_until [of "''$spec.'' @ e"] by simp_all

lemmas opens_loops [simp] = opens_until_paren [unfolded append_Cons append_Nil] opens_until_env [unfolded append_Cons append_Nil]

lemma loop_heads_open:
  assumes "loop_heads ip r b crds ns = Inr hs"
  shows "list_all opens_block hs"
  using assms by (auto simp: loop_heads_def Let_def bind_err_Inr split: if_splits option.splits sum.splits)

end
