(* ===== verification/Filled_Claims.thy ===== *)
theory Filled_Claims
  imports EmitBalance Sample
begin







section \<open>Conditions, guards and loops\<close>









end
