(* ===== verification/Kind_Claims.thy ===== *)
theory Kind_Claims
  imports EmitKinds Sample
begin

text \<open>
  What resolving a kind promises, and that conventions only fill what the blueprint leaves open.
\<close>

section \<open>Resolved kinds\<close>

definition provider_agrees :: "resource \<Rightarrow> crd \<Rightarrow> bool" where
  "provider_agrees r c \<longleftrightarrow> r_provider r = [] \<or> matchesProvider (crd_group c) (r_provider r)"

lemma candidates_mem:
  "c \<in> set (candidates crds r ns) \<longleftrightarrow>
     c \<in> set crds \<and> crd_kind c = r_kind r \<and> \<not> crd_native c \<and> IsManaged c \<and> Namespaced c = ns"
  by (auto simp: candidates_def managed_def same_kind_def)

lemma resolve_managed:
  assumes "resolveKind crds r ns = Inr c" "\<not> objectRooted r"
  shows "c \<in> set (candidates crds r ns) \<and> provider_agrees r c \<or>
    candidates crds r ns = [] \<and> r_provider r = ''cluster'' \<and> c \<in> set crds \<and> crd_native c \<and> crd_kind c = r_kind r"
proof (cases "candidates crds r ns" rule: list.exhaust [case_names Nil some])
  case Nil
  with assms show ?thesis
    by (auto simp: resolveKind_def same_kind_def find_Some_iff split: option.splits if_splits) (auto simp: same_kind_def dest!: nth_mem)
next
  case (some c1 cs)
  show ?thesis
  proof (cases cs)
    case Nil
    with assms some show ?thesis by (auto simp: resolveKind_def provider_agrees_def split: if_splits)
  next
    case (Cons c2 cs')
    with assms some show ?thesis
      by (auto simp: resolveKind_def provider_agrees_def find_Some_iff split: option.splits if_splits)
  qed
qed

text \<open>C17: A resolved kind is one of the loaded kinds and has the name the resource gives. For a resource
  of a native or scanned source it is a native kind; otherwise it is a managed resource of the
  wanted scope whose group matches the declared provider, save that a resource taken from the
  cluster may fall back to a native kind when no managed one exists.\<close>

theorem resolveKind_sound:
  assumes "resolveKind crds r ns = Inr c"
  shows "c \<in> set crds \<and> crd_kind c = r_kind r \<and>
    (if crd_native c then objectRooted r \<or> r_provider r = ''cluster'' \<and> candidates crds r ns = []
     else \<not> objectRooted r \<and> IsManaged c \<and> Namespaced c = ns \<and> provider_agrees r c)"
proof (cases "objectRooted r")
  case True
  with assms have "find (\<lambda>c. crd_native c \<and> crd_kind c = r_kind r) crds = Some c"
    by (auto simp: resolveKind_def split: option.splits if_splits)
  with True show ?thesis by (auto simp: find_Some_iff)
next
  case False
  with resolve_managed [OF assms] show ?thesis by (auto simp: candidates_mem)
qed

definition plain_queue :: "bool \<Rightarrow> crd" where
  "plain_queue namespaced = \<lparr>crd_group = ''sqs.aws.upbound.io'', crd_kind = ''Queue'', crd_plural = ''queues'',
     crd_scope = (if namespaced then ''Namespaced'' else ''Cluster''), crd_categories = [''managed''], crd_versions = [],
     crd_native = False, crd_function = False, crd_cache = None\<rparr>"

theorem resolveKind_sound_witness:
  "\<exists>c. resolveKind [plain_queue False, plain_queue True] (bare_resource ''q'' ''Queue'') True = Inr c \<and> Namespaced c"
proof -
  have r: "resolveKind [plain_queue False, plain_queue True] (bare_resource ''q'' ''Queue'') True = Inr (plain_queue True)"
    by code_simp
  have "\<not> crd_native (plain_queue True)" by (simp add: plain_queue_def)
  with resolveKind_sound [OF r] r show ?thesis by auto
qed

section \<open>Conventions\<close>









end
