(* ===== verification/Spec2Isabelle.thy ===== *)
theory Spec2Isabelle
  imports Edit_Claims Closest Refs Captures Index_Props Cache_Claims Manifest_Claims
    EmitFiles Pipeline_Steps Native_Claims Filled_Claims Kind_Claims
begin

text \<open>
  A model of the core of Composition Factory, a Go program that turns a blueprint (a YAML
  document naming resources, their fields and the wires between them) into Crossplane
  manifests. Every definition is translated from the code under \<open>src/\<close>; the theorems say what
  makes that code correct.

  \<^bold>\<open>The parts of the program and how they meet.\<close> A blueprint (\<open>internal/blueprint\<close>) is loaded and
  validated; every edit works on a deep copy, validates it and writes it back. The kinds a
  blueprint may use are CustomResourceDefinitions (\<open>internal/schema\<close>): a package is fetched,
  pinned in a lockfile and cached (\<open>internal/cache\<close>), its documents are split and decoded, each
  kind's schema becomes a tree of nodes, and an index over all kinds answers searches
  (\<open>internal/index\<close>). A resource's fields are shown and edited as a nested manifest
  (\<open>internal/manifest\<close>).

  \<^bold>\<open>Theories and sources.\<close>
  \<^item> \<open>Prelude\<close>, \<open>GoString\<close>, \<open>GoRegexp\<close>, \<open>Captures\<close>, \<open>GoFloat\<close>, \<open>GoQuote\<close>: errors, maps, and the parts
    of Go's \<open>strings\<close>, \<open>unicode/utf8\<close>, \<open>regexp\<close> and \<open>strconv\<close> the program uses.
  \<^item> \<open>BlueprintTypes\<close>: the records of \<open>types.go\<close> with their methods; \<open>Refs\<close>: \<open>refs.go\<close>; \<open>When\<close>: the
    grammar of conditions; \<open>Ident\<close>, \<open>Params\<close>, \<open>Wires\<close>: the formats, parameter trees and reference
    checks of \<open>load.go\<close>; \<open>Closest\<close>: \<open>closest.go\<close>.
  \<^item> \<open>Validate_Root\<close> (\<open>validate_root.go\<close>, \<open>validate_xrd.go\<close>, \<open>validate_params.go\<close>), \<open>Validate_Env\<close>,
    \<open>Validate_Fields\<close> and \<open>Validate_Resources\<close> (\<open>validate_resources.go\<close>), \<open>Envelope\<close>, \<open>Annotations\<close>,
    \<open>Templates\<close>, \<open>Pipeline\<close>: the validators of the file of that name; \<open>Validate\<close>: their sequence.
  \<^item> \<open>RawRefs\<close>, \<open>Edit\<close>: the scans and rewrites of raw template text and the eight operations of
    \<open>edit.go\<close>; \<open>Edit_Props\<close>, \<open>Edit_Refs\<close>, \<open>Edit_Claims\<close>: what they promise.
  \<^item> \<open>Split\<close> (\<open>split.go\<close>), \<open>SchemaTree\<close> (\<open>tree.go\<close>), \<open>Crd\<close> (\<open>crd.go\<close> and the memoised trees),
    \<open>KindIndex\<close> (\<open>index.go\<close>, \<open>fields.go\<close>); \<open>Crd_Props\<close>, \<open>Index_Props\<close>: what they promise.
  \<^item> \<open>Lockfile\<close>, \<open>World\<close>, \<open>Store\<close> (\<open>store.go\<close>), \<open>Sources\<close> (\<open>sources.go\<close>); \<open>Store_Props\<close>, \<open>Cache_Claims\<close>:
    what the cache promises.
  \<^item> \<open>Manifest\<close> (\<open>internal/manifest/manifest.go\<close>); \<open>Manifest_Props\<close>, \<open>Manifest_Claims\<close>: the round trip.
  \<^item> \<open>Sample\<close>: a document the witnesses use.

  \<^bold>\<open>How the code is read.\<close> A Go string is its bytes, and a \<open>range\<close> loop over it decodes UTF-8. An
  \<open>error\<close> is the value \<open>Msg format args\<close>: the format up to the end of its first clause, without
  double quotes, with the values it interpolates; an error of \<open>strconv\<close> wrapped inside another is
  left out. A map is an association list with distinct keys, whose order stands for the order a
  \<open>range\<close> loop happens to take; a nil map, slice or string and an empty one are the same unless the
  code tells them apart. Methods take the receiver's value and return it updated; where the code
  shares memory, the memos of a CRD's trees, there is an explicit heap of them. The file system
  of the cache is part of a \<open>world\<close>, with a tape of faults that says which operation fails and how
  far it got. \<open>sort.Slice\<close> is taken to be stable. In the rewriting of raw expressions the
  replacement is literal text: names that may hold a dollar sign are refused before. Concurrent
  calls are run one after another: the program guards its state by mutexes.

  \<^bold>\<open>Parameters.\<close> Code that is not in the repository is an argument of the definitions that use
  it: \<open>parse_tpl\<close> (the Go template parser with Sprig's functions), \<open>yaml_map\<close> (a YAML decoder to a
  map), \<open>decode_crd\<close> (the YAML decoder to a CRD document), \<open>printable\<close> and \<open>lower\<close> (Unicode
  tables), \<open>encode\<close> and \<open>decode\<close> (YAML text of a manifest),
  the fields of \<open>codec\<close> (JSON text, SHA-256), \<open>fetch\<close> (the OCI registry). A theorem that
  relies on one of them says so in its hypotheses and has a witness with a concrete function.

  \<^bold>\<open>What the theorems show.\<close> Validation: each validator and their sequence decide a declarative
  condition, so what is accepted has resolving wires, single-line scalars, unambiguous envelopes.
  Edits: sessions keep validity and are all or nothing, renames refine a rename of parsed
  references, deletions leave no reference. References, conditions, edit distance, splitting:
  equivalence with grammars and reference functions, and round trips. Trees and index: sorted,
  unambiguous, complete, memoisation invisible. Cache: pinning before caching under any fault,
  the cache as a map over any history, sources loaded exactly when they all can be. Manifest: its text parses back to the fields.

  \<^bold>\<open>Locales.\<close> \<open>guarded_edits\<close> (an edit that validates its copy; interpreted on the eight operations),
  \<open>keyed_store\<close> (what is kept under a reference; interpreted on the lock and on the cache),
  \<open>weak_order\<close> (what a stable sort needs; interpreted on the order of the index).

  \<^bold>\<open>Bounds and termination.\<close> There is no fuel in the model: every loop is a structural recursion
  or has a measure (the length of the text left, the size of the tree), proved at its definition.
  The concrete JSON codec of the cache's witnesses counts depth, with more than the texts have.

  \<^bold>\<open>Not modelled.\<close> The custom YAML decoders of \<open>types.go\<close> and \<open>yaml.go\<close>, \<open>Load\<close> and \<open>Parse\<close> of \<open>load.go\<close>;
  the emitters of \<open>internal/emit\<close>, which print templates as text; \<open>internal/adopt\<close>, the importer of
  existing compositions; the HTTP server, the MCP server and the command line, which call the
  parts above; network clients, embedded data, build scripts and the web user interface.
\<close>

section \<open>Validation\<close>


lemma sample_wf: "blueprint_wf sample_tpl sample_yaml sample"
  using Validate_wf [OF sample_maps, of sample_tpl sample_yaml] sample_valid by simp


text \<open>C2: In an accepted document every field wired to a resource names another resource of
  the document, the only one of that name, which is not looped: the observed resource the
  emitted template reads does exist under that name.\<close>

theorem Validate_wires_resolve:
  assumes "maps_ok b" "Validate parse_tpl yaml_map b = None"
    and "r \<in> set (b_resources b)" "map_of (r_fields r) p = Some f"
    and "ParseFrom (f_from f) = Inr ref" "fr_resource ref \<noteq> []" "f_from f \<noteq> []"
  shows "\<exists>!d. d \<in> set (b_resources b) \<and> r_name d = fr_resource ref \<and> d \<noteq> r \<and> r_forEach d = []"
proof -
  from assms(1,2) have wf: "blueprint_wf parse_tpl yaml_map b" by (simp add: Validate_wf)
  have "from_resolves b r (f_from f) (field_shape r p)"
    using wf_resource [OF wf assms(3)] assms(4,7) by (auto simp: resource_ok_def field_ok_def)
  from from_resolves_resource [OF this assms(5,6)]
  obtain d where d: "d \<in> set (b_resources b)" "r_name d = fr_resource ref" "r_forEach d = []"
      "fr_resource ref \<noteq> r_name r"
    using unlooped_mem by blast
  have "inj_on r_name (set (b_resources b))"
    using wf by (simp add: blueprint_wf_def resources_ok_def distinct_map)
  with d show ?thesis by (intro ex1I [of _ d]) (auto, metis inj_onD)
qed

theorem Validate_wires_resolve_witness:
  "\<exists>!d. d \<in> set (b_resources sample) \<and> r_name d = ''main-queue'' \<and> d \<noteq> sample_policy \<and> r_forEach d = []"
proof -
  have p: "ParseFrom ''resources.main-queue.status.atProvider.url'' =
      Inr (no_ref\<lparr>fr_resource := ''main-queue'', fr_statusPath := [''atProvider'', ''url'']\<rparr>)"
    by code_simp
  show ?thesis
    using Validate_wires_resolve [OF sample_maps sample_valid, where r = sample_policy
        and p = "''queueUrl''"
        and f = "no_field\<lparr>f_from := ''resources.main-queue.status.atProvider.url''\<rparr>"] p
    by (simp add: sample_def sample_policy_def no_ref_def)
qed



end
